(* ===== verification/Prelude.thy ===== *)
theory Prelude
  imports Main "HOL-Library.Word" "HOL-Library.Char_ord" "HOL-Library.List_Lexorder"
begin

text \<open>
  What every component shares.

  \<^item> Time: Rust's \<open>Instant\<close> and \<open>Duration\<close> are natural numbers of nanoseconds.
    \<open>saturating_duration_since\<close> and \<open>elapsed\<close> are then the truncated subtraction of
    the natural numbers, and \<open>as_secs\<close> and \<open>as_millis\<close> the integer division.
  \<^item> Results: \<open>Result<T, E>\<close> is \<open>'e + 't\<close>, with \<open>Inl\<close> the error.
  \<^item> Text: a \<open>String\<close> or \<open>&str\<close> is the list of its UTF-8 bytes, one \<open>char\<close> a byte,
    as Rust stores it; lengths are Rust's \<open>len()\<close>.
  \<^item> \<open>usize\<close> counts and sizes are natural numbers; an integer whose wrap-around or
    saturation the code relies on is a word, or has its bound written out.
\<close>

named_theorems model_defs \<open>definitions a component's proofs unfold\<close>

section \<open>Time\<close>

type_synonym instant = nat
type_synonym duration = nat

abbreviation (input) from_secs :: "nat \<Rightarrow> duration" where
  "from_secs s \<equiv> s * 1000000000"

abbreviation (input) from_millis :: "nat \<Rightarrow> duration" where
  "from_millis m \<equiv> m * 1000000"

definition as_secs :: "duration \<Rightarrow> nat" where
  "as_secs d = d div 1000000000"

definition as_millis :: "duration \<Rightarrow> nat" where
  "as_millis d = d div 1000000"

text \<open>\<open>now.saturating_duration_since(at)\<close>, and \<open>at.elapsed()\<close> read at \<open>now\<close>.\<close>

definition since :: "instant \<Rightarrow> instant \<Rightarrow> duration" where
  "since at now = now - at"

lemma since_self [simp]: "since t t = 0"
  by (simp add: since_def)

lemma since_later [simp]: "since t (t + d) = d"
  by (simp add: since_def)

lemma since_mono: "t \<le> u \<Longrightarrow> since at t \<le> since at u"
  by (simp add: since_def)

section \<open>Results\<close>

fun is_ok :: "'e + 't \<Rightarrow> bool" where
  "is_ok (Inr _) = True"
| "is_ok (Inl _) = False"

section \<open>Lists\<close>

text \<open>\<open>VecDeque::pop_front\<close>: the front and what is left.\<close>

fun pop_front :: "'a list \<Rightarrow> ('a \<times> 'a list) option" where
  "pop_front [] = None"
| "pop_front (x # xs) = Some (x, xs)"

lemma pop_front_Some [simp]: "pop_front xs = Some (x, ys) \<longleftrightarrow> xs = x # ys"
  by (cases xs) auto

lemma pop_front_None [simp]: "pop_front xs = None \<longleftrightarrow> xs = []"
  by (cases xs) auto

section \<open>Integers of the code's widths\<close>

definition u64_max :: nat where
  "u64_max = 2 ^ 64 - 1"

definition u32_max :: nat where
  "u32_max = 2 ^ 32 - 1"

text \<open>\<open>u64::try_from(n).unwrap_or(u64::MAX)\<close>, and the same for \<open>u32\<close>.\<close>

definition to_u64 :: "nat \<Rightarrow> nat" where
  "to_u64 n = (if n \<le> u64_max then n else u64_max)"

definition to_u32 :: "nat \<Rightarrow> nat" where
  "to_u32 n = (if n \<le> u32_max then n else u32_max)"

lemma to_u64_mono: "m \<le> n \<Longrightarrow> to_u64 m \<le> to_u64 n"
  by (simp add: to_u64_def)

lemma to_u64_le: "to_u64 n \<le> u64_max"
  by (simp add: to_u64_def)

lemma to_u64_id: "n \<le> u64_max \<Longrightarrow> to_u64 n = n"
  by (simp add: to_u64_def)

lemma to_u32_mono: "m \<le> n \<Longrightarrow> to_u32 m \<le> to_u32 n"
  by (simp add: to_u32_def)

section \<open>Text\<close>

text \<open>A number in decimal, as \<open>{}\<close> prints it.\<close>

definition digit_char :: "nat \<Rightarrow> char" where
  "digit_char d = ''0123456789'' ! d"

fun show_nat :: "nat \<Rightarrow> string" where
  "show_nat n = (if n < 10 then [digit_char n] else show_nat (n div 10) @ [digit_char (n mod 10)])"

declare show_nat.simps [simp del]

lemma show_nat_nonempty [simp]: "show_nat n \<noteq> []"
  by (subst show_nat.simps) simp

text \<open>\<open>[..].join(sep)\<close>.\<close>

fun join :: "string \<Rightarrow> string list \<Rightarrow> string" where
  "join sep [] = []"
| "join sep [x] = x"
| "join sep (x # y # xs) = x @ sep @ join sep (y # xs)"

definition is_ascii_digit :: "char \<Rightarrow> bool" where
  "is_ascii_digit c \<longleftrightarrow> 48 \<le> (of_char c :: nat) \<and> (of_char c :: nat) \<le> 57"

definition to_ascii_lower :: "char \<Rightarrow> char" where
  "to_ascii_lower c =
     (if 65 \<le> (of_char c :: nat) \<and> (of_char c :: nat) \<le> 90 then char_of ((of_char c :: nat) + 32) else c)"

fun starts_with :: "string \<Rightarrow> string \<Rightarrow> bool" where
  "starts_with s [] = True"
| "starts_with [] (p # ps) = False"
| "starts_with (c # s) (p # ps) = (c = p \<and> starts_with s ps)"

definition strip_prefix :: "string \<Rightarrow> string \<Rightarrow> string option" where
  "strip_prefix s p = (if starts_with s p then Some (drop (length p) s) else None)"

lemma starts_with_iff: "starts_with s p \<longleftrightarrow> (\<exists>r. s = p @ r)"
  by (induction s p rule: starts_with.induct) auto

lemma strip_prefix_Some: "strip_prefix s p = Some r \<longleftrightarrow> s = p @ r"
  by (auto simp: strip_prefix_def starts_with_iff)

end
