(* ===== verification/Btree_Map.thy ===== *)
theory Btree_Map
  imports Prelude
begin

text \<open>
  The standard library's \<open>BTreeMap\<close> as the program uses it: the entries in ascending
  order of their keys. Text keys are ordered byte by byte, as Rust orders \<open>str\<close>. The
  interface \<open>keyed_store\<close> is what the components rely on; the sorted list provides it.
\<close>

type_synonym ('k, 'v) btree = "('k \<times> 'v) list"

definition bt_inv :: "('k::linorder, 'v) btree \<Rightarrow> bool" where
  "bt_inv m \<longleftrightarrow> sorted_wrt (<) (map fst m)"

definition bt_get :: "('k, 'v) btree \<Rightarrow> 'k \<Rightarrow> 'v option" where
  "bt_get m k = map_of m k"

fun bt_insert :: "('k::linorder) \<Rightarrow> 'v \<Rightarrow> ('k, 'v) btree \<Rightarrow> ('k, 'v) btree" where
  "bt_insert k v [] = [(k, v)]"
| "bt_insert k v ((k', v') # m) =
     (if k < k' then (k, v) # (k', v') # m
      else if k = k' then (k, v) # m
      else (k', v') # bt_insert k v m)"

definition bt_remove :: "'k \<Rightarrow> ('k, 'v) btree \<Rightarrow> ('k, 'v) btree" where
  "bt_remove k m = filter (\<lambda>(k', _). k' \<noteq> k) m"

definition bt_values :: "('k, 'v) btree \<Rightarrow> 'v list" where
  "bt_values m = map snd m"

definition bt_keys :: "('k, 'v) btree \<Rightarrow> 'k list" where
  "bt_keys m = map fst m"

lemma bt_insert_keys: "set (map fst (bt_insert k v m)) = insert k (set (map fst m))"
  by (induction k v m rule: bt_insert.induct) auto

lemma bt_inv_insert [simp]: "bt_inv m \<Longrightarrow> bt_inv (bt_insert k v m)"
proof (induction k v m rule: bt_insert.induct)
  case (1 k v)
  then show ?case by (simp add: bt_inv_def)
next
  case (2 k v k' v' m)
  show ?case
  proof (cases "k < k'")
    case True
    with "2.prems" show ?thesis by (fastforce simp: bt_inv_def)
  next
    case ge: False
    show ?thesis
    proof (cases "k = k'")
      case True
      with "2.prems" show ?thesis by (simp add: bt_inv_def)
    next
      case False
      with ge have "k' < k" by simp
      moreover have "bt_inv (bt_insert k v m)"
        using 2 ge False by (simp add: bt_inv_def)
      ultimately show ?thesis
        using "2.prems" ge False bt_insert_keys [of k v m] by (auto simp: bt_inv_def)
    qed
  qed
qed

lemma bt_get_insert [simp]:
  "bt_get (bt_insert k v m) = (bt_get m)(k \<mapsto> v)"
  by (rule ext, induction k v m rule: bt_insert.induct) (auto simp: bt_get_def)

lemma bt_inv_remove [simp]: "bt_inv m \<Longrightarrow> bt_inv (bt_remove k m)"
  by (induction m) (auto simp: bt_inv_def bt_remove_def)

lemma bt_get_remove [simp]: "bt_get (bt_remove k m) = (bt_get m)(k := None)"
  by (rule ext, induction m) (auto simp: bt_get_def bt_remove_def)

lemma bt_empty [simp]: "bt_inv []" "bt_get [] = Map.empty"
  by (auto simp: bt_inv_def bt_get_def)

lemma bt_get_in: "bt_get m k = Some v \<Longrightarrow> (k, v) \<in> set m"
  by (simp add: bt_get_def map_of_SomeD)

lemma bt_in_get: "bt_inv m \<Longrightarrow> (k, v) \<in> set m \<Longrightarrow> bt_get m k = Some v"
  by (metis bt_inv_def bt_get_def map_of_eq_Some_iff strict_sorted_iff)

lemma bt_in_iff: "bt_inv m \<Longrightarrow> (k, v) \<in> set m \<longleftrightarrow> bt_get m k = Some v"
  by (metis bt_get_in bt_in_get)

lemma bt_inv_distinct: "bt_inv m \<Longrightarrow> distinct (map fst m)"
  by (simp add: bt_inv_def strict_sorted_iff)

text \<open>Mapping the values keeps the keys and their order.\<close>

lemma bt_inv_map [simp]: "bt_inv (map (\<lambda>(k, v). (k, f k v)) m) \<longleftrightarrow> bt_inv m"
  by (simp add: bt_inv_def comp_def case_prod_beta)

lemma bt_get_map [simp]: "bt_get (map (\<lambda>(k, v). (k, f k v)) m) k = map_option (f k) (bt_get m k)"
  by (induction m) (auto simp: bt_get_def)

section \<open>The interface\<close>

locale keyed_store =
  fixes valid :: "'m \<Rightarrow> bool"
    and fetch :: "'m \<Rightarrow> 'k \<Rightarrow> 'v option"
    and put :: "'k \<Rightarrow> 'v \<Rightarrow> 'm \<Rightarrow> 'm"
    and forget :: "'k \<Rightarrow> 'm \<Rightarrow> 'm"
  assumes fetch_put: "valid m \<Longrightarrow> fetch (put k v m) = (fetch m)(k \<mapsto> v)"
    and fetch_forget: "valid m \<Longrightarrow> fetch (forget k m) = (fetch m)(k := None)"
    and valid_put: "valid m \<Longrightarrow> valid (put k v m)"
    and valid_forget: "valid m \<Longrightarrow> valid (forget k m)"
begin

lemma put_then_forget: "valid m \<Longrightarrow> fetch (forget k (put k v m)) = (fetch m)(k := None)"
  by (simp add: fetch_put fetch_forget valid_put fun_eq_iff)

lemma put_frame: "valid m \<Longrightarrow> k \<noteq> j \<Longrightarrow> fetch (put k v m) j = fetch m j"
  by (simp add: fetch_put)

lemma forget_frame: "valid m \<Longrightarrow> k \<noteq> j \<Longrightarrow> fetch (forget k m) j = fetch m j"
  by (simp add: fetch_forget)

lemma fold_put:
  "valid m \<Longrightarrow> valid (fold (\<lambda>k. put k (f k)) ks m)
     \<and> fetch (fold (\<lambda>k. put k (f k)) ks m) j = (if j \<in> set ks then Some (f j) else fetch m j)"
  by (induction ks arbitrary: m) (auto simp: fetch_put valid_put)

lemma fold_put_pairs:
  "valid m \<Longrightarrow> distinct (map fst ps) \<Longrightarrow>
     fetch (fold (\<lambda>(k, x). put k (f k x)) ps m) j =
       (case map_of ps j of Some x \<Rightarrow> Some (f j x) | None \<Rightarrow> fetch m j)"
proof (induction ps arbitrary: m)
  case Nil
  then show ?case by simp
next
  case (Cons p ps)
  obtain k x where p: "p = (k, x)" by fastforce
  with Cons.prems have "k \<notin> fst ` set ps" by simp
  then have "map_of ps k = None" by (simp add: map_of_eq_None_iff)
  with Cons.IH [of "put k (f k x) m"] Cons.prems p show ?case
    by (auto simp: fetch_put valid_put split: option.splits)
qed

lemma fold_put_pairs_valid:
  "valid m \<Longrightarrow> valid (fold (\<lambda>(k, x). put k (f k x)) ps m)"
  by (induction ps arbitrary: m) (auto simp: valid_put)

end

interpretation btree_store: keyed_store bt_inv bt_get bt_insert bt_remove
  by unfold_locales auto

end
