(* ===== verification/Bridge_Presses.thy ===== *)
theory Bridge_Presses
  imports Btree_Map
begin

text \<open>
  The deck's presses (\<open>control_surface_presses.rs\<close>): the two keys that ask before they act,
  and the dwell that takes a bounced press for the same press. The registry is one mutex
  over a map from each saved data's path to its presses; \<open>with_presses\<close> makes the entry
  where there is none. The constants are \<open>cameras/deck.rs\<close>'s.
\<close>

section \<open>Keys, targets and the registry\<close>

definition STOP_ARM_DWELL :: duration where
  "STOP_ARM_DWELL = from_millis 350"

definition STOP_ARM_WINDOW :: duration where
  "STOP_ARM_WINDOW = from_secs 3"

definition PRESS_DWELL :: duration where
  "PRESS_DWELL = STOP_ARM_DWELL"

definition ASK_WINDOW :: duration where
  "ASK_WINDOW = STOP_ARM_WINDOW"

datatype asking_key = AllOff | DeleteScene

definition asking_key_from_action :: "string \<Rightarrow> asking_key option" where
  "asking_key_from_action action =
     (if action = ''allOff'' then Some AllOff
      else if action = ''deleteScene'' then Some DeleteScene
      else None)"

fun key_action :: "asking_key \<Rightarrow> string" where
  "key_action AllOff = ''allOff''"
| "key_action DeleteScene = ''deleteScene''"

fun key_text :: "asking_key \<Rightarrow> bool \<Rightarrow> string" where
  "key_text AllOff True = ''OFF?''"
| "key_text AllOff False = ''ALL OFF''"
| "key_text DeleteScene True = ''DEL?''"
| "key_text DeleteScene False = ''Del'' @ [CHR 0x5C] @ ''nScene''"

datatype ask_target = Scene string | Previewing bool

datatype ask_outcome = Act | Armed | Kept

record arm =
  arm_key :: asking_key
  arm_at :: instant
  arm_target :: ask_target

record presses =
  arm :: "arm option"
  acted :: "string \<rightharpoonup> instant"

definition no_presses :: presses where
  "no_presses = \<lparr>arm = None, acted = Map.empty\<rparr>"

type_synonym press_registry = "string \<rightharpoonup> presses"

text \<open>\<open>registry.entry(db_path).or_default()\<close>, then the action on it.\<close>

definition presses_of :: "press_registry \<Rightarrow> string \<Rightarrow> presses" where
  "presses_of reg db = (case reg db of Some p \<Rightarrow> p | None \<Rightarrow> no_presses)"

definition with_presses :: "press_registry \<Rightarrow> string \<Rightarrow> (presses \<Rightarrow> 'a \<times> presses) \<Rightarrow> 'a \<times> press_registry" where
  "with_presses reg db action =
     (let (answer, p) = action (presses_of reg db) in (answer, reg(db \<mapsto> p)))"

definition within :: "instant \<Rightarrow> instant \<Rightarrow> duration \<Rightarrow> bool" where
  "within earlier moment span \<longleftrightarrow> since earlier moment < span"

section \<open>The keys that ask first\<close>

definition ask_presses :: "asking_key \<Rightarrow> ask_target \<Rightarrow> instant \<Rightarrow> presses \<Rightarrow> ask_outcome \<times> presses" where
  "ask_presses key target moment p =
     (let rearm = (Armed, p\<lparr>arm := Some \<lparr>arm_key = key, arm_at = moment, arm_target = target\<rparr>\<rparr>)
      in if (case acted p (key_action key) of Some t \<Rightarrow> within t moment PRESS_DWELL | None \<Rightarrow> False)
         then (Kept, p)
         else (case arm p of
                 Some a \<Rightarrow>
                   if arm_key a = key \<and> since (arm_at a) moment \<le> ASK_WINDOW
                   then (if arm_target a \<noteq> target then (Kept, p\<lparr>arm := None\<rparr>)
                         else if within (arm_at a) moment PRESS_DWELL then (Kept, p)
                         else (Act, p))
                   else rearm
               | None \<Rightarrow> rearm))"

definition ask ::
  "press_registry \<Rightarrow> string \<Rightarrow> asking_key \<Rightarrow> ask_target \<Rightarrow> instant \<Rightarrow> ask_outcome \<times> press_registry" where
  "ask reg db key target moment = with_presses reg db (ask_presses key target moment)"

definition asked_key_acted :: "press_registry \<Rightarrow> string \<Rightarrow> asking_key \<Rightarrow> instant \<Rightarrow> press_registry" where
  "asked_key_acted reg db key moment =
     snd (with_presses reg db (\<lambda>p. ((), p\<lparr>arm := None, acted := (acted p)(key_action key \<mapsto> moment)\<rparr>)))"

definition end_arm :: "press_registry \<Rightarrow> string \<Rightarrow> press_registry" where
  "end_arm reg db = snd (with_presses reg db (\<lambda>p. ((), p\<lparr>arm := None\<rparr>)))"

definition asking_key_text :: "press_registry \<Rightarrow> string \<Rightarrow> asking_key \<Rightarrow> instant \<Rightarrow> string \<times> press_registry" where
  "asking_key_text reg db key moment =
     (let (armed, reg') = with_presses reg db (\<lambda>p.
            ((case arm p of
                Some a \<Rightarrow> arm_key a = key \<and> since (arm_at a) moment \<le> ASK_WINDOW
              | None \<Rightarrow> False), p))
      in (key_text key armed, reg'))"

section \<open>The keys that dwell\<close>

definition dwelling_press :: "string \<Rightarrow> string \<Rightarrow> string option \<Rightarrow> string option" where
  "dwelling_press path action value =
     (if path = ''/api/deck/light-action'' \<and> action = ''toggleLight''
         \<or> path = ''/api/deck/audio-action'' \<and> action = ''dimToggle''
         \<or> path = ''/api/deck/prompter-action'' \<and> action = ''playPause''
      then Some (path @ '' '' @ action)
      else if path = ''/api/deck/audio-action'' \<and> action = ''dialPress''
      then Some (path @ '' '' @ action @ '' '' @ (case value of Some v \<Rightarrow> v | None \<Rightarrow> []))
      else if path = ''/api/deck/audio-action'' \<and> action = ''setMixTarget'' \<and> value = Some ''phones''
      then Some (path @ '' '' @ action @ '' phones'')
      else None)"

definition take_dwelling_press ::
  "press_registry \<Rightarrow> string \<Rightarrow> string \<Rightarrow> instant \<Rightarrow> instant option option \<times> press_registry" where
  "take_dwelling_press reg db press moment = with_presses reg db (\<lambda>p.
     (let before = acted p press
      in if (case before of Some t \<Rightarrow> within t moment PRESS_DWELL | None \<Rightarrow> False) then (None, p)
         else (Some before, p\<lparr>acted := (acted p)(press \<mapsto> moment)\<rparr>)))"

definition release_dwelling_press ::
  "press_registry \<Rightarrow> string \<Rightarrow> string \<Rightarrow> instant option \<Rightarrow> instant \<Rightarrow> press_registry" where
  "release_dwelling_press reg db press before moment = snd (with_presses reg db (\<lambda>p.
     if acted p press \<noteq> Some moment then ((), p)
     else (case before of
             Some b \<Rightarrow> ((), p\<lparr>acted := (acted p)(press \<mapsto> b)\<rparr>)
           | None \<Rightarrow> ((), p\<lparr>acted := (acted p)(press := None)\<rparr>))))"

lemmas presses_defs = ask_def asked_key_acted_def end_arm_def asking_key_text_def
  take_dwelling_press_def release_dwelling_press_def with_presses_def presses_of_def Let_def

lemma presses_of_with_presses [simp]:
  "presses_of (snd (with_presses reg db action)) db' =
     (if db' = db then snd (action (presses_of reg db)) else presses_of reg db')"
  by (simp add: with_presses_def presses_of_def split: prod.splits)

lemma fst_with_presses [simp]: "fst (with_presses reg db action) = fst (action (presses_of reg db))"
  by (simp add: with_presses_def split: prod.splits)

lemmas press_op_defs = ask_def asked_key_acted_def end_arm_def take_dwelling_press_def
  release_dwelling_press_def

lemma with_presses_frame:
  "db' \<noteq> db \<Longrightarrow> presses_of (snd (with_presses reg db action)) db' = presses_of reg db'"
  by (simp add: with_presses_def presses_of_def split: prod.splits)

section \<open>Runs of presses\<close>

datatype press_event =
    Asked string asking_key ask_target instant
  | KeyActed string asking_key instant
  | ArmEnded string
  | TextRead string asking_key instant
  | Taken string string instant
  | Released string string "instant option" instant

fun press_step :: "press_registry \<Rightarrow> press_event \<Rightarrow> press_registry" where
  "press_step reg (Asked db key target t) = snd (ask reg db key target t)"
| "press_step reg (KeyActed db key t) = asked_key_acted reg db key t"
| "press_step reg (ArmEnded db) = end_arm reg db"
| "press_step reg (TextRead db key t) = snd (asking_key_text reg db key t)"
| "press_step reg (Taken db press t) = snd (take_dwelling_press reg db press t)"
| "press_step reg (Released db press before t) = release_dwelling_press reg db press before t"

definition press_run :: "press_event list \<Rightarrow> press_registry" where
  "press_run es = foldl press_step Map.empty es"

lemma press_run_snoc [simp]: "press_run (es @ [e]) = press_step (press_run es) e"
  by (simp add: press_run_def)

lemma press_run_Nil [simp]: "press_run [] = Map.empty"
  by (simp add: press_run_def)

definition ends_arm :: "string \<Rightarrow> press_event \<Rightarrow> bool" where
  "ends_arm db e = (case e of KeyActed d _ _ \<Rightarrow> d = db | ArmEnded d \<Rightarrow> d = db | _ \<Rightarrow> False)"

text \<open>Where the arm a run leaves behind came from: the press that armed it, and no end since.\<close>

lemma ask_presses_arm:
  "arm (snd (ask_presses key target t p)) = Some a \<Longrightarrow>
     (fst (ask_presses key target t p) = Armed \<and> a = \<lparr>arm_key = key, arm_at = t, arm_target = target\<rparr>)
     \<or> arm p = Some a"
  by (auto simp: ask_presses_def Let_def split: if_splits option.splits)

lemma snd_asking_key_text [simp]: "presses_of (snd (asking_key_text reg db key t)) db' = presses_of reg db'"
  by (simp add: asking_key_text_def with_presses_def presses_of_def)

lemma arm_step:
  assumes "arm (presses_of (press_step reg e) db) = Some a"
  shows "(e = Asked db (arm_key a) (arm_target a) (arm_at a)
        \<and> fst (ask reg db (arm_key a) (arm_target a) (arm_at a)) = Armed)
     \<or> (arm (presses_of reg db) = Some a \<and> \<not> ends_arm db e)"
proof (cases e)
  case (Asked d key target t)
  with assms ask_presses_arm [of key target t "presses_of reg db" a] show ?thesis
    by (auto simp: ask_def ends_arm_def split: if_splits)
next
  case (Released d press before t)
  with assms show ?thesis
    by (auto simp: press_op_defs ends_arm_def split: if_splits option.splits)
qed (use assms in \<open>auto simp: press_op_defs ends_arm_def Let_def split: if_splits option.splits\<close>)

lemma arm_history:
  "arm (presses_of (press_run es) db) = Some a \<Longrightarrow>
     \<exists>es1 es2. es = es1 @ Asked db (arm_key a) (arm_target a) (arm_at a) # es2
       \<and> fst (ask (press_run es1) db (arm_key a) (arm_target a) (arm_at a)) = Armed
       \<and> list_all (\<lambda>e. \<not> ends_arm db e) es2"
proof (induction es rule: rev_induct)
  case Nil
  then show ?case by (simp add: presses_of_def no_presses_def)
next
  case (snoc e es)
  from arm_step [OF snoc.prems [unfolded press_run_snoc]]
  show ?case
  proof
    assume "e = Asked db (arm_key a) (arm_target a) (arm_at a)
      \<and> fst (ask (press_run es) db (arm_key a) (arm_target a) (arm_at a)) = Armed"
    then show ?thesis by (intro exI [of _ es] exI [of _ "[]"]) simp
  next
    assume kept: "arm (presses_of (press_run es) db) = Some a \<and> \<not> ends_arm db e"
    with snoc.IH obtain es1 es2 where
      "es = es1 @ Asked db (arm_key a) (arm_target a) (arm_at a) # es2"
      "fst (ask (press_run es1) db (arm_key a) (arm_target a) (arm_at a)) = Armed"
      "list_all (\<lambda>e. \<not> ends_arm db e) es2" by blast
    with kept show ?thesis by (intro exI [of _ es1] exI [of _ "es2 @ [e]"]) simp
  qed
qed

lemma ask_Act_arm:
  "fst (ask reg db key target t) = Act \<Longrightarrow>
     \<exists>a. arm (presses_of reg db) = Some a \<and> arm_key a = key \<and> arm_target a = target
       \<and> PRESS_DWELL \<le> since (arm_at a) t \<and> since (arm_at a) t \<le> ASK_WINDOW"
  by (auto simp: ask_def ask_presses_def within_def Let_def split: if_splits option.splits)



text \<open>The takes of one dwelling key at the moments given: the moments of those that acted.\<close>

fun takes :: "press_registry \<Rightarrow> string \<Rightarrow> string \<Rightarrow> instant list \<Rightarrow> instant list" where
  "takes reg db press [] = []"
| "takes reg db press (t # ts) =
     (let (answer, reg') = take_dwelling_press reg db press t
      in (if answer = None then [] else [t]) @ takes reg' db press ts)"

lemma take_dwelling_press_cases:
  "take_dwelling_press reg db press t = (answer, reg') \<Longrightarrow>
     (if answer = None
      then (\<exists>b. acted (presses_of reg db) press = Some b \<and> since b t < PRESS_DWELL)
           \<and> acted (presses_of reg' db) = acted (presses_of reg db)
      else answer = Some (acted (presses_of reg db) press)
           \<and> (\<forall>b. acted (presses_of reg db) press = Some b \<longrightarrow> b + PRESS_DWELL \<le> t)
           \<and> acted (presses_of reg' db) = (acted (presses_of reg db))(press \<mapsto> t))"
  by (auto simp: presses_defs within_def since_def PRESS_DWELL_def STOP_ARM_DWELL_def
      split: if_splits option.splits)

lemma takes_after:
  "sorted_wrt (\<lambda>a b. a + PRESS_DWELL \<le> b) (takes reg db press ts)
   \<and> (\<forall>b. acted (presses_of reg db) press = Some b \<longrightarrow>
        (\<forall>t \<in> set (takes reg db press ts). b + PRESS_DWELL \<le> t))"
proof (induction ts arbitrary: reg)
  case Nil
  then show ?case by simp
next
  case (Cons t ts)
  obtain answer reg' where step: "take_dwelling_press reg db press t = (answer, reg')" by fastforce
  show ?case
  proof (cases answer)
    case None
    with Cons.IH [of reg'] step take_dwelling_press_cases [OF step] show ?thesis by simp
  next
    case (Some b)
    with take_dwelling_press_cases [OF step]
    have now: "\<And>b. acted (presses_of reg db) press = Some b \<Longrightarrow> b + PRESS_DWELL \<le> t"
      and after: "acted (presses_of reg' db) press = Some t" by auto
    from Cons.IH [of reg'] after
    have later: "sorted_wrt (\<lambda>a b. a + PRESS_DWELL \<le> b) (takes reg' db press ts)"
      "\<forall>u \<in> set (takes reg' db press ts). t + PRESS_DWELL \<le> u" by auto
    have takes: "takes reg db press (t # ts) = t # takes reg' db press ts"
      using step Some by simp
    show ?thesis
      using later now unfolding takes by (force dest: now)
  qed
qed

text \<open>
  A dwelling key acts once per dwell: however its presses arrive, in whatever order of
  their moments, any two that act are at least 350 ms apart, the later one taken later.
\<close>

theorem dwelling_presses_apart:
  "sorted_wrt (\<lambda>a b. a + from_millis 350 \<le> b) (takes reg db press ts)"
  using takes_after [of reg db press ts] by (simp add: PRESS_DWELL_def STOP_ARM_DWELL_def)

text \<open>
  A press that failed leaves no trace: taken and released, its key stands as before;
  and where a later press has taken the key in between, the later press's moment stays.
\<close>

theorem release_undoes_take:
  assumes "take_dwelling_press reg db press t = (Some before, reg1)"
  shows "acted (presses_of (release_dwelling_press reg1 db press before t) db) = acted (presses_of reg db)
     \<and> (\<forall>b reg2. take_dwelling_press reg1 db press u = (Some b, reg2) \<longrightarrow>
          acted (presses_of (release_dwelling_press reg2 db press before t) db) press = Some u)"
proof
  have b: "before = acted (presses_of reg db) press"
    and r1: "acted (presses_of reg1 db) = (acted (presses_of reg db))(press \<mapsto> t)"
    using take_dwelling_press_cases [OF assms] by auto
  show "acted (presses_of (release_dwelling_press reg1 db press before t) db) = acted (presses_of reg db)"
    using b r1 by (auto simp: release_dwelling_press_def with_presses_def presses_of_def split: option.splits)
  show "\<forall>b reg2. take_dwelling_press reg1 db press u = (Some b, reg2) \<longrightarrow>
      acted (presses_of (release_dwelling_press reg2 db press before t) db) press = Some u"
  proof (intro allI impI)
    fix b2 reg2
    assume second: "take_dwelling_press reg1 db press u = (Some b2, reg2)"
    from take_dwelling_press_cases [OF second] r1
    have "t + PRESS_DWELL \<le> u" "acted (presses_of reg2 db) press = Some u" by auto
    moreover from this have "u \<noteq> t" by (simp add: PRESS_DWELL_def STOP_ARM_DWELL_def)
    ultimately show "acted (presses_of (release_dwelling_press reg2 db press before t) db) press = Some u"
      by (simp add: release_dwelling_press_def with_presses_def presses_of_def)
  qed
qed

theorem release_undoes_take_witness:
  "acted (presses_of (release_dwelling_press (snd (take_dwelling_press Map.empty ''db'' ''k'' 5)) ''db'' ''k'' None 5) ''db'')
     = Map.empty"
  using release_undoes_take [of Map.empty "''db''" "''k''" 5 None
      "snd (take_dwelling_press Map.empty ''db'' ''k'' 5)" 9]
  by (simp add: presses_defs no_presses_def)

text \<open>A dwelling key's name is never an asking key's, so the two never share a moment.\<close>

lemma dwelling_press_not_asking: "dwelling_press path action v = Some k \<Longrightarrow> k \<noteq> key_action key"
  by (cases key) (auto simp: dwelling_press_def split: if_splits)

text \<open>
  Presses on one saved data never touch another's, and a dwelling key and an asking
  key never share a moment.
\<close>

theorem presses_are_separate:
  assumes "dwelling_press path action v = Some press" and "db' \<noteq> db"
  shows "presses_of (snd (take_dwelling_press reg db press t)) db' = presses_of reg db'
     \<and> presses_of (snd (ask reg db key target t)) db' = presses_of reg db'
     \<and> acted (presses_of (snd (take_dwelling_press reg db press t)) db) (key_action key)
         = acted (presses_of reg db) (key_action key)
     \<and> arm (presses_of (snd (take_dwelling_press reg db press t)) db) = arm (presses_of reg db)"
proof -
  have "presses_of (snd (take_dwelling_press reg db press t)) db' = presses_of reg db'"
    "presses_of (snd (ask reg db key target t)) db' = presses_of reg db'"
    using assms(2) by (simp_all add: take_dwelling_press_def ask_def with_presses_frame)
  moreover have "acted (presses_of (snd (take_dwelling_press reg db press t)) db) (key_action key)
      = acted (presses_of reg db) (key_action key)"
    using dwelling_press_not_asking [OF assms(1), of key] by (simp add: presses_defs)
  moreover have "arm (presses_of (snd (take_dwelling_press reg db press t)) db) = arm (presses_of reg db)"
    by (simp add: presses_defs)
  ultimately show ?thesis by blast
qed

theorem presses_are_separate_witness:
  "presses_of (snd (take_dwelling_press Map.empty ''a'' ''/api/deck/audio-action dimToggle'' 5)) ''b'' = no_presses"
  using presses_are_separate [of "''/api/deck/audio-action''" "''dimToggle''" None
      "''/api/deck/audio-action dimToggle''" "''b''" "''a''" Map.empty 5]
  by (simp add: dwelling_press_def presses_of_def)

end
