(* ===== verification/Text_Std.thy ===== *)
theory Text_Std
  imports Prelude
begin

text \<open>
  The standard library's text operations the program uses, on the bytes of UTF-8 text, one
  \<open>char\<close> a byte: \<open>from_utf8\<close> and \<open>from_utf8_lossy\<close>, \<open>lines\<close>, \<open>split_once\<close>, \<open>trim\<close>,
  \<open>split_whitespace\<close>, \<open>eq_ignore_ascii_case\<close>, \<open>parse::<usize>\<close> and the hexadecimal digits.
  White space is Unicode's \<open>White_Space\<close>, as \<open>char::is_whitespace\<close> has it.
\<close>

abbreviation code :: "char \<Rightarrow> nat" where
  "code c \<equiv> of_char c"

section \<open>UTF-8\<close>

definition cont_byte :: "char \<Rightarrow> bool" where
  "cont_byte c \<longleftrightarrow> 0x80 \<le> code c \<and> code c \<le> 0xBF"

definition in_range :: "nat \<Rightarrow> nat \<Rightarrow> char \<Rightarrow> bool" where
  "in_range lo hi c \<longleftrightarrow> lo \<le> code c \<and> code c \<le> hi"

definition second_of_three :: "nat \<Rightarrow> char \<Rightarrow> bool" where
  "second_of_three first c =
     (if first = 0xE0 then in_range 0xA0 0xBF c
      else if first = 0xED then in_range 0x80 0x9F c
      else cont_byte c)"

definition second_of_four :: "nat \<Rightarrow> char \<Rightarrow> bool" where
  "second_of_four first c =
     (if first = 0xF0 then in_range 0x90 0xBF c
      else if first = 0xF4 then in_range 0x80 0x8F c
      else cont_byte c)"

text \<open>
  The first scalar value of a text that is not empty: whether it is well formed, and how
  many bytes it takes, or, where it is not, how many bytes the replacement stands for.
\<close>

definition utf8_first :: "char list \<Rightarrow> bool \<times> nat" where
  "utf8_first s =
     (let b = code (hd s); r = tl s
      in if b < 0x80 then (True, 1)
         else if 0xC2 \<le> b \<and> b \<le> 0xDF then
           (case r of c1 # _ \<Rightarrow> if cont_byte c1 then (True, 2) else (False, 1) | [] \<Rightarrow> (False, 1))
         else if 0xE0 \<le> b \<and> b \<le> 0xEF then
           (case r of
              c1 # r1 \<Rightarrow>
                if second_of_three b c1
                then (case r1 of c2 # _ \<Rightarrow> if cont_byte c2 then (True, 3) else (False, 2)
                       | [] \<Rightarrow> (False, 2))
                else (False, 1)
            | [] \<Rightarrow> (False, 1))
         else if 0xF0 \<le> b \<and> b \<le> 0xF4 then
           (case r of
              c1 # r1 \<Rightarrow>
                if second_of_four b c1
                then (case r1 of
                        c2 # r2 \<Rightarrow>
                          if cont_byte c2
                          then (case r2 of c3 # _ \<Rightarrow> if cont_byte c3 then (True, 4) else (False, 3)
                                 | [] \<Rightarrow> (False, 3))
                          else (False, 2)
                      | [] \<Rightarrow> (False, 2))
                else (False, 1)
            | [] \<Rightarrow> (False, 1))
         else (False, 1))"

lemma utf8_first_pos: "0 < snd (utf8_first s)"
  by (auto simp: utf8_first_def Let_def split: list.splits)

definition replacement :: string where
  "replacement = [CHR 0xEF, CHR 0xBF, CHR 0xBD]"

function utf8_lossy :: "char list \<Rightarrow> string" where
  "utf8_lossy [] = []"
| "utf8_lossy (c # s) =
     (let (ok, n) = utf8_first (c # s)
      in (if ok then take n (c # s) else replacement) @ utf8_lossy (drop n (c # s)))"
  by pat_completeness auto
termination
proof (relation "measure length")
  fix c :: char and s x ok n
  assume "x = utf8_first (c # s)" "(ok, n) = x"
  with utf8_first_pos [of "c # s"] have "0 < n" by (metis snd_conv)
  then show "(drop n (c # s), c # s) \<in> measure length" by simp
qed simp

function utf8_valid :: "char list \<Rightarrow> bool" where
  "utf8_valid [] = True"
| "utf8_valid (c # s) =
     (let (ok, n) = utf8_first (c # s) in ok \<and> utf8_valid (drop n (c # s)))"
  by pat_completeness auto
termination
proof (relation "measure length")
  fix c :: char and s x ok n
  assume "x = utf8_first (c # s)" "(ok, n) = x"
  with utf8_first_pos [of "c # s"] have "0 < n" by (metis snd_conv)
  then show "(drop n (c # s), c # s) \<in> measure length" by simp
qed simp

declare utf8_lossy.simps(2) [simp del] utf8_valid.simps(2) [simp del]

lemma utf8_lossy_valid: "utf8_valid s \<Longrightarrow> utf8_lossy s = s"
proof (induction s rule: utf8_lossy.induct)
  case 1
  then show ?case by simp
next
  case (2 c s)
  obtain ok n where f: "utf8_first (c # s) = (ok, n)" by fastforce
  with "2.prems" have "ok" "utf8_valid (drop n (c # s))" by (auto simp: utf8_valid.simps(2))
  with "2.IH" [OF refl f [symmetric]] f show ?case
    by (simp only: utf8_lossy.simps(2) Let_def split if_True) (metis append_take_drop_id)
qed

lemma utf8_valid_ascii: "list_all (\<lambda>c. code c < 128) s \<Longrightarrow> utf8_valid s"
  by (induction s) (auto simp: utf8_valid.simps(2) utf8_first_def)

section \<open>White space\<close>

text \<open>How many bytes the white space character at the front takes; 0 where there is none.\<close>

definition ws_len :: "string \<Rightarrow> nat" where
  "ws_len s =
     (case s of
        [] \<Rightarrow> 0
      | c # r \<Rightarrow>
          if (9 \<le> code c \<and> code c \<le> 13) \<or> code c = 32 then 1
          else if starts_with s [CHR 0xC2, CHR 0x85] \<or> starts_with s [CHR 0xC2, CHR 0xA0] then 2
          else if starts_with s [CHR 0xE1, CHR 0x9A, CHR 0x80]
               \<or> starts_with s [CHR 0xE2, CHR 0x80, CHR 0xA8] \<or> starts_with s [CHR 0xE2, CHR 0x80, CHR 0xA9]
               \<or> starts_with s [CHR 0xE2, CHR 0x80, CHR 0xAF] \<or> starts_with s [CHR 0xE2, CHR 0x81, CHR 0x9F]
               \<or> starts_with s [CHR 0xE3, CHR 0x80, CHR 0x80]
               \<or> (starts_with s [CHR 0xE2, CHR 0x80] \<and> 2 < length s \<and> in_range 0x80 0x8A (s ! 2)) then 3
          else 0)"

lemma starts_with_length: "starts_with s p \<Longrightarrow> length p \<le> length s"
  by (auto simp: starts_with_iff)

lemma ws_len_le: "ws_len s \<le> length s"
proof (cases s)
  case Nil
  then show ?thesis by (simp add: ws_len_def)
next
  case (Cons c r)
  then show ?thesis
    unfolding ws_len_def
    by (auto dest!: starts_with_length simp del: starts_with.simps)
qed

function trim_start :: "string \<Rightarrow> string" where
  "trim_start s = (if ws_len s = 0 then s else trim_start (drop (ws_len s) s))"
  by pat_completeness auto
termination
proof (relation "measure length")
  fix s :: string assume "ws_len s \<noteq> 0"
  with ws_len_le [of s] show "(drop (ws_len s) s, s) \<in> measure length" by simp
qed simp

declare trim_start.simps [simp del]

text \<open>No byte inside a character begins a white space character, so a byte at a time is a
  character at a time.\<close>

function trim_end :: "string \<Rightarrow> string" where
  "trim_end [] = []"
| "trim_end (c # r) =
     (let n = ws_len (c # r)
      in if n = 0 then c # trim_end r
         else (let t = trim_end (drop n (c # r)) in if t = [] then [] else take n (c # r) @ t))"
  by pat_completeness auto
termination
proof (relation "measure length")
  fix c :: char and r x assume "x = ws_len (c # r)" "x \<noteq> 0"
  then show "(drop x (c # r), c # r) \<in> measure length" by (cases x) auto
qed simp_all

declare trim_end.simps(2) [simp del]

definition trim :: "string \<Rightarrow> string" where
  "trim s = trim_end (trim_start s)"

fun has_whitespace :: "string \<Rightarrow> bool" where
  "has_whitespace [] = False"
| "has_whitespace (c # r) = (ws_len (c # r) \<noteq> 0 \<or> has_whitespace r)"

text \<open>The bytes before the next white space, and what begins with it.\<close>

fun until_whitespace :: "string \<Rightarrow> string \<times> string" where
  "until_whitespace [] = ([], [])"
| "until_whitespace (c # r) =
     (if ws_len (c # r) \<noteq> 0 then ([], c # r)
      else (let (w, rest) = until_whitespace r in (c # w, rest)))"

lemma until_whitespace_length: "length (snd (until_whitespace s)) \<le> length s"
  by (induction s) (auto split: prod.splits)

lemma trim_start_length: "length (trim_start s) \<le> length s"
proof (induction s rule: trim_start.induct)
  case (1 s)
  then show ?case by (cases "ws_len s = 0") (auto simp: trim_start.simps [of s])
qed

lemma trim_start_front: "ws_len (trim_start s) = 0"
proof (induction s rule: trim_start.induct)
  case (1 s)
  then show ?case by (cases "ws_len s = 0") (auto simp: trim_start.simps [of s])
qed

function split_whitespace :: "string \<Rightarrow> string list" where
  "split_whitespace s =
     (case trim_start s of
        [] \<Rightarrow> []
      | c # r \<Rightarrow> fst (until_whitespace (c # r)) # split_whitespace (snd (until_whitespace (c # r))))"
  by pat_completeness auto
termination
proof (relation "measure length")
  fix s c r assume t: "trim_start s = c # r"
  with trim_start_front [of s] have "ws_len (c # r) = 0" by simp
  then have "length (snd (until_whitespace (c # r))) < length (c # r)"
    using until_whitespace_length [of r] by (auto split: prod.splits)
  with t trim_start_length [of s] show "(snd (until_whitespace (c # r)), s) \<in> measure length" by simp
qed simp

declare split_whitespace.simps [simp del]

section \<open>Splitting\<close>

fun split_once :: "char \<Rightarrow> string \<Rightarrow> (string \<times> string) option" where
  "split_once d [] = None"
| "split_once d (c # s) =
     (if c = d then Some ([], s)
      else (case split_once d s of None \<Rightarrow> None | Some (a, b) \<Rightarrow> Some (c # a, b)))"

lemma split_once_Some: "split_once d s = Some (a, b) \<longleftrightarrow> s = a @ d # b \<and> d \<notin> set a"
proof (induction s arbitrary: a)
  case Nil
  then show ?case by simp
next
  case (Cons c s)
  show ?case
  proof (cases "c = d")
    case True
    then show ?thesis by (cases a) auto
  next
    case False
    then have "split_once d (c # s) = Some (a, b) \<longleftrightarrow>
        (\<exists>a'. a = c # a' \<and> split_once d s = Some (a', b))"
      by (auto split: option.split)
    also have "\<dots> \<longleftrightarrow> c # s = a @ d # b \<and> d \<notin> set a"
      unfolding Cons.IH using False by (cases a) auto
    finally show ?thesis .
  qed
qed

lemma split_once_None: "split_once d s = None \<longleftrightarrow> d \<notin> set s"
  by (induction s) (auto split: option.splits)

text \<open>\<open>split(d)\<close>: the pieces between the separators, one more than there are separators.\<close>

fun split_on :: "char \<Rightarrow> string \<Rightarrow> string list" where
  "split_on d [] = [[]]"
| "split_on d (c # s) =
     (if c = d then [] # split_on d s
      else (case split_on d s of [] \<Rightarrow> [[c]] | p # ps \<Rightarrow> (c # p) # ps))"

text \<open>\<open>lines\<close>: each piece up to a line feed, without it and without one carriage return
  before it; a last piece without a line feed is kept as it is, and is none when empty.\<close>

definition drop_cr :: "string \<Rightarrow> string" where
  "drop_cr l = (if l \<noteq> [] \<and> last l = CHR 13 then butlast l else l)"

fun lines_from :: "string \<Rightarrow> string \<Rightarrow> string list" where
  "lines_from acc [] = (if acc = [] then [] else [rev acc])"
| "lines_from acc (c # s) =
     (if c = CHR 10 then drop_cr (rev acc) # lines_from [] s else lines_from (c # acc) s)"

definition text_lines :: "string \<Rightarrow> string list" where
  "text_lines s = lines_from [] s"

section \<open>Numbers and cases\<close>

definition eq_ignore_ascii_case :: "string \<Rightarrow> string \<Rightarrow> bool" where
  "eq_ignore_ascii_case a b \<longleftrightarrow> map to_ascii_lower a = map to_ascii_lower b"

definition digit_value :: "char \<Rightarrow> nat" where
  "digit_value c = code c - 48"

fun digits_value :: "nat \<Rightarrow> string \<Rightarrow> nat" where
  "digits_value n [] = n"
| "digits_value n (c # s) = digits_value (10 * n + digit_value c) s"

text \<open>\<open>parse::<usize>()\<close> on a 64-bit machine: an optional \<open>+\<close>, then digits and nothing
  else, of a value that fits.\<close>

definition parse_usize :: "string \<Rightarrow> nat option" where
  "parse_usize s =
     (let d = (case s of c # r \<Rightarrow> if c = CHR ''+'' then r else s | [] \<Rightarrow> [])
      in if d \<noteq> [] \<and> list_all is_ascii_digit d \<and> digits_value 0 d \<le> u64_max
         then Some (digits_value 0 d) else None)"

text \<open>A signed integer: a sign or none, then digits and nothing else, before its type's range is
  checked; \<open>parse::<i16>()\<close> and \<open>parse::<i32>()\<close> check it.\<close>

definition parse_integer :: "string \<Rightarrow> int option" where
  "parse_integer s =
     (let (neg, d) = (case s of
                        c # r \<Rightarrow> if c = CHR ''-'' then (True, r) else if c = CHR ''+'' then (False, r) else (False, s)
                      | [] \<Rightarrow> (False, []))
      in if d \<noteq> [] \<and> list_all is_ascii_digit d
         then Some (if neg then - int (digits_value 0 d) else int (digits_value 0 d)) else None)"

definition parse_i16 :: "string \<Rightarrow> int option" where
  "parse_i16 s = (case parse_integer s of Some n \<Rightarrow> if - 32768 \<le> n \<and> n \<le> 32767 then Some n else None | None \<Rightarrow> None)"

definition parse_i32 :: "string \<Rightarrow> int option" where
  "parse_i32 s =
     (case parse_integer s of Some n \<Rightarrow> if - 2147483648 \<le> n \<and> n \<le> 2147483647 then Some n else None | None \<Rightarrow> None)"

definition show_int :: "int \<Rightarrow> string" where
  "show_int n = (if n < 0 then ''-'' @ show_nat (nat (- n)) else show_nat (nat n))"

text \<open>\<open>strip_suffix\<close> and \<open>ends_with\<close>.\<close>

definition strip_suffix :: "string \<Rightarrow> string \<Rightarrow> string option" where
  "strip_suffix s p = map_option rev (strip_prefix (rev s) (rev p))"

definition ends_with :: "string \<Rightarrow> string \<Rightarrow> bool" where
  "ends_with s p = starts_with (rev s) (rev p)"

lemma strip_suffix_append [simp]: "strip_suffix (a @ p) p = Some a"
  by (simp add: strip_suffix_def strip_prefix_def starts_with_iff)

definition hex_value :: "char \<Rightarrow> nat option" where
  "hex_value c =
     (let b = code c
      in if 48 \<le> b \<and> b \<le> 57 then Some (b - 48)
         else if 97 \<le> b \<and> b \<le> 102 then Some (b - 87)
         else if 65 \<le> b \<and> b \<le> 70 then Some (b - 55)
         else None)"

definition hex_char :: "nat \<Rightarrow> char" where
  "hex_char d = ''0123456789abcdef'' ! d"

lemma hex_value_hex_char: "d < 16 \<Longrightarrow> hex_value (hex_char d) = Some d"
proof -
  have "list_all (\<lambda>d. hex_value (hex_char d) = Some d) [0..<16]"
    by (simp add: upt_rec hex_value_def hex_char_def)
  moreover assume "d < 16"
  then have "d \<in> set [0..<16]" by simp
  ultimately show "hex_value (hex_char d) = Some d" unfolding list_all_iff by blast
qed

lemma hex_value_less: "hex_value c = Some d \<Longrightarrow> d < 16"
  by (auto simp: hex_value_def Let_def split: if_splits)

lemma digit_char_facts:
  assumes "d < 10"
  shows "code (digit_char d) = 48 + d"
proof -
  have "list_all (\<lambda>d. code (digit_char d) = 48 + d) [0..<10]"
    by (simp add: upt_rec digit_char_def)
  moreover from assms have "d \<in> set [0..<10]" by simp
  ultimately show ?thesis unfolding list_all_iff by blast
qed

lemma digits_value_append: "digits_value a (s @ r) = digits_value (digits_value a s) r"
  by (induction s arbitrary: a) auto

lemma show_nat_digits: "list_all is_ascii_digit (show_nat n) \<and> digits_value 0 (show_nat n) = n"
proof (induction n rule: show_nat.induct)
  case (1 n)
  show ?case
  proof (cases "n < 10")
    case True
    then show ?thesis by (simp add: show_nat.simps [of n] is_ascii_digit_def digit_value_def digit_char_facts)
  next
    case False
    with 1 show ?thesis
      by (simp add: show_nat.simps [of n] digits_value_append is_ascii_digit_def digit_value_def digit_char_facts)
  qed
qed

lemma digit_no_ws: "is_ascii_digit c \<Longrightarrow> ws_len (c # r) = 0"
proof -
  assume "is_ascii_digit c"
  then have c: "48 \<le> code c" "code c \<le> 57" by (simp_all add: is_ascii_digit_def)
  then have "c \<noteq> CHR 0xC2" "c \<noteq> CHR 0xE1" "c \<noteq> CHR 0xE2" "c \<noteq> CHR 0xE3" by auto
  with c show ?thesis by (simp add: ws_len_def)
qed

lemma digits_no_ws: "list_all is_ascii_digit s \<Longrightarrow> \<not> has_whitespace s"
  by (induction s) (auto simp: digit_no_ws)

lemma trim_no_ws: "\<not> has_whitespace s \<Longrightarrow> trim s = s"
proof -
  have "\<not> has_whitespace s \<Longrightarrow> trim_end s = s" for s
    by (induction s) (auto simp: trim_end.simps)
  moreover assume "\<not> has_whitespace s"
  moreover from this have "ws_len s = 0" by (cases s) (simp_all add: ws_len_def [of "[]"])
  then have "trim_start s = s" by (simp add: trim_start.simps [of s])
  ultimately show ?thesis by (simp add: trim_def)
qed

lemma show_int_pos: "0 \<le> n \<Longrightarrow> show_int n = show_nat (nat n)"
  by (simp add: show_int_def)

lemma parse_integer_show_nat: "parse_integer (show_nat n) = Some (int n)"
proof -
  obtain c r where cr: "show_nat n = c # r" by (cases "show_nat n") auto
  with show_nat_digits [of n] have "is_ascii_digit c" by simp
  then have "c \<noteq> CHR ''-''" "c \<noteq> CHR ''+''" by (auto simp: is_ascii_digit_def)
  with show_nat_digits [of n] cr show ?thesis by (simp add: parse_integer_def)
qed

lemma trim_show_nat [simp]: "trim (show_nat n) = show_nat n"
  using show_nat_digits [of n] digits_no_ws trim_no_ws by blast

section \<open>Visible text\<close>

lemma show_nat_short: "n < 10 ^ Suc w \<Longrightarrow> length (show_nat n) \<le> Suc w"
proof (induction w arbitrary: n)
  case 0
  then show ?case by (simp add: show_nat.simps [of n])
next
  case (Suc w)
  then have "n div 10 < 10 ^ Suc w" by (simp add: less_mult_imp_div_less mult.commute)
  from Suc.IH [OF this] show ?case by (simp add: show_nat.simps [of n])
qed

definition visible :: "char \<Rightarrow> bool" where
  "visible c \<longleftrightarrow> 33 \<le> code c \<and> code c \<le> 126"

lemma visible_ws: "visible c \<Longrightarrow> ws_len (c # r) = 0"
proof -
  assume "visible c"
  then have c: "33 \<le> code c" "code c \<le> 126" by (simp_all add: visible_def)
  have "c \<noteq> CHR 0xC2" "c \<noteq> CHR 0xE1" "c \<noteq> CHR 0xE2" "c \<noteq> CHR 0xE3"
    using c(2) by (cases "c = CHR 0xC2"; cases "c = CHR 0xE1"; cases "c = CHR 0xE2"; cases "c = CHR 0xE3"; simp)+
  moreover have "\<not> (9 \<le> code c \<and> code c \<le> 13)" "code c \<noteq> 32" using c(1) by linarith+
  ultimately show ?thesis by (simp only: ws_len_def list.case starts_with.simps simp_thms if_False)
qed

lemma space_ws: "ws_len (CHR '' '' # t) = 1"
  by (simp add: ws_len_def)

lemma until_visible:
  "list_all visible s \<Longrightarrow> until_whitespace (s @ CHR '' '' # t) = (s, CHR '' '' # t)"
  "list_all visible s \<Longrightarrow> until_whitespace s = (s, [])"
  by (induction s) (auto simp: visible_ws space_ws)

lemma trim_start_visible: "visible c \<Longrightarrow> trim_start (c # s) = c # s"
  by (subst trim_start.simps) (simp add: visible_ws)

lemma split_visible:
  assumes "list_all visible s" "s \<noteq> []"
  shows "split_whitespace s = [s]"
proof -
  obtain c r where s: "s = c # r" using assms(2) by (cases s) auto
  have "trim_start [] = []" by (subst trim_start.simps) (simp add: ws_len_def)
  then have "split_whitespace [] = []" by (simp add: split_whitespace.simps [of "[]"])
  moreover have "until_whitespace (c # r) = (c # r, [])" using until_visible(2) [OF assms(1)] s by simp
  moreover have "trim_start (c # r) = c # r" using assms(1) s by (simp add: trim_start_visible)
  ultimately show ?thesis
    unfolding s split_whitespace.simps [of "c # r"] by (simp del: until_whitespace.simps)
qed

lemma split_two:
  assumes "list_all visible s" "s \<noteq> []" "list_all visible t" "t \<noteq> []"
  shows "split_whitespace (s @ CHR '' '' # t) = [s, t]"
proof -
  obtain c r where s: "s = c # r" using assms(2) by (cases s) auto
  obtain d q where t: "t = d # q" using assms(4) by (cases t) auto
  have "trim_start (CHR '' '' # t) = trim_start t"
    by (subst trim_start.simps) (simp add: ws_len_def)
  then have "trim_start (CHR '' '' # t) = trim_start t" .
  then have "split_whitespace (CHR '' '' # t) = split_whitespace t"
    unfolding split_whitespace.simps [of "CHR '' '' # t"] split_whitespace.simps [of t] by simp
  moreover have "until_whitespace (c # (r @ CHR '' '' # t)) = (c # r, CHR '' '' # t)"
    using until_visible(1) [OF assms(1), of t] s by simp
  moreover have "trim_start (c # (r @ CHR '' '' # t)) = c # (r @ CHR '' '' # t)"
    using assms(1) s by (simp add: trim_start_visible)
  ultimately show ?thesis
    using split_visible [OF assms(3,4)]
    unfolding s append_Cons split_whitespace.simps [of "c # (r @ CHR '' '' # t)"] by (simp del: until_whitespace.simps)
qed

lemma visible_no_ws: "list_all visible s \<Longrightarrow> \<not> has_whitespace s"
  by (induction s) (simp_all add: visible_ws)

lemma split_on_piece:
  "d \<notin> set p \<Longrightarrow> split_on d (p @ d # s) = p # split_on d s" "d \<notin> set p \<Longrightarrow> split_on d p = [p]"
  by (induction p) auto

lemma split_on_join: "ps \<noteq> [] \<Longrightarrow> list_all (\<lambda>p. d \<notin> set p) ps \<Longrightarrow> split_on d (join [d] ps) = ps"
  by (induction "[d]" ps rule: join.induct) (auto simp: split_on_piece)

lemma join_visible: "list_all (list_all visible) ps \<Longrightarrow> visible d \<Longrightarrow> list_all visible (join [d] ps)"
  by (induction "[d]" ps rule: join.induct) auto

lemma digits_visible: "list_all is_ascii_digit s \<Longrightarrow> list_all visible s"
  by (auto simp: list_all_iff is_ascii_digit_def visible_def)

end
