(* ===== verification/Bridge_Http.thy ===== *)
theory Bridge_Http
  imports Text_Std
begin

text \<open>
  The bridge's HTTP reader and its gate (\<open>control_surface_http.rs\<close>): one request read under
  its limits and its deadline, the request line, the headers and the body, and the checks
  every request passes before anything in it is acted on. The socket is a \<open>source\<close>: for
  each read, the moment it begins and what it brings; a read brings at most the 1,024
  bytes of the buffer it is given. Errors are \<open>ControlSurfaceError\<close> (\<open>control_surface.rs\<close>).
\<close>

section \<open>Errors\<close>

datatype control_surface_error =
    InvalidParams string | Unsupported string | Rejected string | Storage string
  | Unauthorized string | Forbidden string | Timeout string | LengthRequired string
  | TooLarge string | HeadersTooLarge string | Busy string

fun error_status :: "control_surface_error \<Rightarrow> nat" where
  "error_status (InvalidParams _) = 400"
| "error_status (Unauthorized _) = 401"
| "error_status (Forbidden _) = 403"
| "error_status (Timeout _) = 408"
| "error_status (Rejected _) = 409"
| "error_status (LengthRequired _) = 411"
| "error_status (TooLarge _) = 413"
| "error_status (HeadersTooLarge _) = 431"
| "error_status (Storage _) = 500"
| "error_status (Unsupported _) = 501"
| "error_status (Busy _) = 503"

fun error_message :: "control_surface_error \<Rightarrow> string" where
  "error_message (InvalidParams m) = m"
| "error_message (Unsupported m) = m"
| "error_message (Rejected m) = m"
| "error_message (Storage m) = m"
| "error_message (Unauthorized m) = m"
| "error_message (Forbidden m) = m"
| "error_message (Timeout m) = m"
| "error_message (LengthRequired m) = m"
| "error_message (TooLarge m) = m"
| "error_message (HeadersTooLarge m) = m"
| "error_message (Busy m) = m"

section \<open>Limits and sentences\<close>

definition MAX_HEADER_BYTES :: nat where "MAX_HEADER_BYTES = 8 * 1024"
definition MAX_BODY_BYTES :: nat where "MAX_BODY_BYTES = 16 * 1024"
definition REQUEST_DEADLINE :: duration where "REQUEST_DEADLINE = from_secs 1"
definition CHUNK_BYTES :: nat where "CHUNK_BYTES = 1024"

definition request_timeout :: control_surface_error where
  "request_timeout =
     Timeout (''The request did not arrive within '' @ show_nat (as_millis REQUEST_DEADLINE) @ '' ms'')"

definition headers_too_large :: control_surface_error where
  "headers_too_large = HeadersTooLarge
     (''Request headers exceed the bridge limit of '' @ show_nat MAX_HEADER_BYTES @ '' bytes'')"

definition closed_in_headers :: control_surface_error where
  "closed_in_headers = InvalidParams
     ''Malformed HTTP request: the connection closed before the headers ended''"

definition closed_in_body :: control_surface_error where
  "closed_in_body = InvalidParams
     ''Malformed HTTP request: the body ended before Content-Length bytes arrived''"

definition read_failed :: "string \<Rightarrow> control_surface_error" where
  "read_failed err = InvalidParams (''Failed to read the request: '' @ err)"

definition missing :: "string \<Rightarrow> control_surface_error" where
  "missing what = InvalidParams (''Missing '' @ what)"

definition body_too_large :: "nat \<Rightarrow> control_surface_error" where
  "body_too_large n = TooLarge
     (''Request body of '' @ show_nat n @ '' bytes exceeds the bridge limit of ''
      @ show_nat MAX_BODY_BYTES @ '' bytes'')"

definition chunked_refused :: control_surface_error where
  "chunked_refused = LengthRequired
     ''Transfer-Encoding is not supported by the bridge; send a Content-Length''"

definition length_missing :: control_surface_error where
  "length_missing = LengthRequired ''POST requests must carry a Content-Length''"

definition length_invalid :: "string \<Rightarrow> control_surface_error" where
  "length_invalid value = LengthRequired (''Invalid Content-Length: '' @ value)"

definition lengths_conflict :: control_surface_error where
  "lengths_conflict = InvalidParams ''Conflicting Content-Length headers''"

definition bad_header_line :: "string \<Rightarrow> control_surface_error" where
  "bad_header_line line = InvalidParams (''Malformed header line: '' @ line)"

definition bad_header_name :: control_surface_error where
  "bad_header_name = InvalidParams ''Malformed header name''"

definition bad_request_line :: "string \<Rightarrow> control_surface_error" where
  "bad_request_line line = InvalidParams (''Unsupported request line: '' @ line)"

lemmas reader_errors = request_timeout_def headers_too_large_def closed_in_headers_def
  closed_in_body_def read_failed_def missing_def body_too_large_def chunked_refused_def
  length_missing_def length_invalid_def lengths_conflict_def bad_header_line_def
  bad_header_name_def bad_request_line_def

section \<open>Reading under the deadline\<close>

datatype read_outcome = Data string | WouldBlock | TimedOut | ReadFailed string

type_synonym source = "nat \<Rightarrow> instant \<times> read_outcome"

definition read_within_deadline :: "source \<Rightarrow> nat \<Rightarrow> instant \<Rightarrow> control_surface_error + string" where
  "read_within_deadline src i deadline =
     (let (now, outcome) = src i
      in if deadline \<le> now then Inl request_timeout
         else (case outcome of
                 Data bs \<Rightarrow> Inr (take CHUNK_BYTES bs)
               | WouldBlock \<Rightarrow> Inl request_timeout
               | TimedOut \<Rightarrow> Inl request_timeout
               | ReadFailed err \<Rightarrow> Inl (read_failed err)))"

definition crlf_crlf :: string where
  "crlf_crlf = [CHR 13, CHR 10, CHR 13, CHR 10]"

fun find_header_end :: "string \<Rightarrow> nat option" where
  "find_header_end [] = None"
| "find_header_end (c # s) =
     (if starts_with (c # s) crlf_crlf then Some 0 else map_option Suc (find_header_end s))"

lemma buffer_grows: "a < n \<Longrightarrow> bs \<noteq> [] \<Longrightarrow> n - (a + length bs) < n - a"
  by (cases bs) auto

text \<open>The loop to the end of the headers: where they end, the next read, and the buffer.\<close>

function read_headers ::
  "source \<Rightarrow> nat \<Rightarrow> instant \<Rightarrow> string \<Rightarrow> control_surface_error + (nat \<times> nat \<times> string)" where
  "read_headers src i deadline buffer =
     (case find_header_end buffer of
        Some position \<Rightarrow> Inr (position + 4, i, buffer)
      | None \<Rightarrow>
          if MAX_HEADER_BYTES < length buffer then Inl headers_too_large
          else (case read_within_deadline src i deadline of
                  Inl e \<Rightarrow> Inl e
                | Inr bytes \<Rightarrow>
                    if bytes = [] then Inl closed_in_headers
                    else read_headers src (Suc i) deadline (buffer @ bytes)))"
  by pat_completeness auto
termination
  by (relation "measure (\<lambda>(src, i, deadline, buffer). MAX_HEADER_BYTES + 1 - length buffer)")
    (auto intro!: buffer_grows)

declare read_headers.simps [simp del]

text \<open>The loop to the end of the body: until the buffer holds the bytes needed.\<close>

function read_body ::
  "source \<Rightarrow> nat \<Rightarrow> instant \<Rightarrow> nat \<Rightarrow> string \<Rightarrow> control_surface_error + (nat \<times> string)" where
  "read_body src i deadline needed buffer =
     (if needed \<le> length buffer then Inr (i, buffer)
      else (case read_within_deadline src i deadline of
              Inl e \<Rightarrow> Inl e
            | Inr bytes \<Rightarrow>
                if bytes = [] then Inl closed_in_body
                else read_body src (Suc i) deadline needed (buffer @ bytes)))"
  by pat_completeness auto
termination
  by (relation "measure (\<lambda>(src, i, deadline, needed, buffer). needed - length buffer)")
    (auto intro!: buffer_grows)

declare read_body.simps [simp del]

section \<open>The head of a request\<close>

definition parse_request_line :: "string \<Rightarrow> control_surface_error + (string \<times> string)" where
  "parse_request_line line =
     (case split_whitespace line of
        [] \<Rightarrow> Inl (missing ''HTTP method'')
      | [_] \<Rightarrow> Inl (missing ''HTTP target'')
      | [_, _] \<Rightarrow> Inl (missing ''HTTP version'')
      | meth # target # version # rest \<Rightarrow>
          if \<not> starts_with version ''HTTP/1.'' \<or> rest \<noteq> [] then Inl (bad_request_line line)
          else Inr (meth, target))"

type_synonym headers = "string \<rightharpoonup> string"

fun parse_header_lines :: "headers \<Rightarrow> string list \<Rightarrow> control_surface_error + headers" where
  "parse_header_lines h [] = Inr h"
| "parse_header_lines h (line # ls) =
     (if line = [] then Inr h
      else (case split_once (CHR '':'') line of
              None \<Rightarrow> Inl (bad_header_line line)
            | Some (raw_name, raw_value) \<Rightarrow>
                (let name = map to_ascii_lower (trim raw_name); value = trim raw_value
                 in if name = [] \<or> has_whitespace name then Inl bad_header_name
                    else if name = ''content-length''
                            \<and> (case h name of Some existing \<Rightarrow> existing \<noteq> value | None \<Rightarrow> False)
                    then Inl lengths_conflict
                    else parse_header_lines (h(name \<mapsto> value)) ls)))"

text \<open>What the head says: the method, the target, the headers, and the body's length.\<close>

definition content_length :: "string \<Rightarrow> headers \<Rightarrow> control_surface_error + nat" where
  "content_length meth h =
     (if h ''transfer-encoding'' \<noteq> None then Inl chunked_refused
      else (case h ''content-length'' of
              Some value \<Rightarrow>
                (case parse_usize value of Some n \<Rightarrow> Inr n | None \<Rightarrow> Inl (length_invalid value))
            | None \<Rightarrow> if meth = ''POST'' then Inl length_missing else Inr 0))"

definition parse_head :: "string \<Rightarrow> control_surface_error + (string \<times> string \<times> headers \<times> nat)" where
  "parse_head head =
     (case text_lines (utf8_lossy head) of
        [] \<Rightarrow> Inl (missing ''request line'')
      | request_line # ls \<Rightarrow>
          (case parse_request_line request_line of
             Inl e \<Rightarrow> Inl e
           | Inr (meth, target) \<Rightarrow>
               (case parse_header_lines Map.empty ls of
                  Inl e \<Rightarrow> Inl e
                | Inr h \<Rightarrow>
                    (case content_length meth h of
                       Inl e \<Rightarrow> Inl e
                     | Inr n \<Rightarrow> if MAX_BODY_BYTES < n then Inl (body_too_large n)
                               else Inr (meth, target, h, n)))))"

record http_request =
  http_method :: string
  target :: string
  headers :: headers
  body :: string

definition read_http_request :: "source \<Rightarrow> instant \<Rightarrow> control_surface_error + http_request" where
  "read_http_request src deadline =
     (case read_headers src 0 deadline [] of
        Inl e \<Rightarrow> Inl e
      | Inr (header_end, i, buffer) \<Rightarrow>
          (case parse_head (take header_end buffer) of
             Inl e \<Rightarrow> Inl e
           | Inr (meth, tgt, h, len) \<Rightarrow>
               (case read_body src i deadline (header_end + len) buffer of
                  Inl e \<Rightarrow> Inl e
                | Inr (_, whole) \<Rightarrow>
                    Inr \<lparr>http_method = meth, target = tgt, headers = h,
                         body = take len (drop header_end whole)\<rparr>)))"

section \<open>Where the headers end\<close>

lemma starts_with_append: "starts_with s p \<Longrightarrow> starts_with (s @ t) p"
  by (auto simp: starts_with_iff)

lemma find_header_end_Some:
  "find_header_end s = Some p \<Longrightarrow>
     p + 4 \<le> length s \<and> starts_with (drop p s) crlf_crlf \<and> (\<forall>q < p. \<not> starts_with (drop q s) crlf_crlf)"
proof (induction s arbitrary: p rule: find_header_end.induct)
  case 1
  then show ?case by simp
next
  case (2 c s)
  show ?case
  proof (cases "starts_with (c # s) crlf_crlf")
    case True
    with "2.prems" have "p = 0" by simp
    moreover from True have "4 \<le> length (c # s)"
      using starts_with_length [OF True] by (simp add: crlf_crlf_def)
    ultimately show ?thesis using True by simp
  next
    case False
    with "2.prems" obtain q where q: "find_header_end s = Some q" "p = Suc q" by auto
    from "2.IH" [OF False q(1)] q(2) False show ?thesis
      by (auto simp: less_Suc_eq_0_disj simp del: starts_with.simps)
  qed
qed

lemma find_header_end_iff:
  "find_header_end s = Some p \<longleftrightarrow>
     starts_with (drop p s) crlf_crlf \<and> (\<forall>q < p. \<not> starts_with (drop q s) crlf_crlf)"
proof
  assume "find_header_end s = Some p"
  then show "starts_with (drop p s) crlf_crlf \<and> (\<forall>q < p. \<not> starts_with (drop q s) crlf_crlf)"
    using find_header_end_Some by blast
next
  assume r: "starts_with (drop p s) crlf_crlf \<and> (\<forall>q < p. \<not> starts_with (drop q s) crlf_crlf)"
  then show "find_header_end s = Some p"
  proof (induction s arbitrary: p rule: find_header_end.induct)
    case 1
    then show ?case by (simp add: crlf_crlf_def)
  next
    case (2 c s)
    show ?case
    proof (cases p)
      case 0
      with "2.prems" show ?thesis by (simp del: starts_with.simps)
    next
      case (Suc q)
      with "2.prems" have no: "\<not> starts_with (c # s) crlf_crlf"
        by (metis drop0 zero_less_Suc)
      have "starts_with (drop q s) crlf_crlf \<and> (\<forall>r < q. \<not> starts_with (drop r s) crlf_crlf)"
        using "2.prems" Suc by (metis Suc_less_eq drop_Suc_Cons)
      with "2.IH" [OF no] no Suc show ?thesis by (simp del: starts_with.simps)
    qed
  qed
qed

lemma four_elements: "4 \<le> length s \<Longrightarrow> \<exists>a b c d r. s = a # b # c # d # r"
  by (auto simp: Suc_le_length_iff numeral_eq_Suc)

lemma find_header_end_append: "find_header_end s = Some p \<Longrightarrow> find_header_end (s @ t) = Some p"
proof -
  assume f: "find_header_end s = Some p"
  have len: "p + 4 \<le> length s" using find_header_end_Some [OF f] by simp
  have "starts_with (drop q (s @ t)) crlf_crlf \<longleftrightarrow> starts_with (drop q s) crlf_crlf" if "q \<le> p" for q
  proof -
    have "4 \<le> length (drop q s)" using len that by simp
    then obtain a b c d r where "drop q s = a # b # c # d # r"
      using four_elements by blast
    moreover have "drop q (s @ t) = drop q s @ t" using len that by simp
    ultimately show ?thesis by (simp add: crlf_crlf_def)
  qed
  with f show ?thesis unfolding find_header_end_iff by auto
qed

lemma find_header_end_prefix:
  assumes "find_header_end (s @ t) = Some p" and "p + 4 \<le> length s"
  shows "find_header_end s = Some p"
proof -
  have "starts_with (drop q (s @ t)) crlf_crlf \<longleftrightarrow> starts_with (drop q s) crlf_crlf" if "q \<le> p" for q
  proof -
    have "4 \<le> length (drop q s)" using assms(2) that by simp
    then obtain a b c d r where "drop q s = a # b # c # d # r"
      using four_elements by blast
    moreover have "drop q (s @ t) = drop q s @ t" using assms(2) that by simp
    ultimately show ?thesis by (simp add: crlf_crlf_def)
  qed
  with assms(1) show ?thesis unfolding find_header_end_iff by auto
qed

section \<open>What the reader reads\<close>

definition chunk :: "source \<Rightarrow> nat \<Rightarrow> string" where
  "chunk src i = (case snd (src i) of Data bs \<Rightarrow> take CHUNK_BYTES bs | _ \<Rightarrow> [])"

definition received :: "source \<Rightarrow> nat \<Rightarrow> string" where
  "received src n = concat (map (chunk src) [0..<n])"

lemma received_Suc: "received src (Suc n) = received src n @ chunk src n"
  by (simp add: received_def)

lemma received_prefix: "i \<le> n \<Longrightarrow> \<exists>rest. received src n = received src i @ rest"
  by (induction n) (auto simp: received_Suc le_Suc_eq)

lemma chunk_length: "length (chunk src i) \<le> CHUNK_BYTES"
  by (simp add: chunk_def split: read_outcome.split)

lemma read_within_deadline_Inr:
  "read_within_deadline src i deadline = Inr bs \<Longrightarrow> bs = chunk src i \<and> fst (src i) < deadline"
  by (auto simp: read_within_deadline_def chunk_def split: prod.splits if_splits read_outcome.splits)

lemma read_within_deadline_Inl:
  "read_within_deadline src i deadline = Inl e \<Longrightarrow> error_status e \<in> {400, 408}"
  by (auto simp: read_within_deadline_def request_timeout_def read_failed_def
      split: prod.splits if_splits read_outcome.splits)

lemma read_headers_Inr:
  "read_headers src i deadline buffer = Inr (header_end, j, buffer') \<Longrightarrow> buffer = received src i \<Longrightarrow>
     buffer' = received src j \<and> (\<exists>p. find_header_end buffer' = Some p \<and> header_end = p + 4)
     \<and> (\<forall>k. i \<le> k \<longrightarrow> k < j \<longrightarrow> fst (src k) < deadline) \<and> i \<le> j
     \<and> (length buffer \<le> MAX_HEADER_BYTES + CHUNK_BYTES \<longrightarrow> length buffer' \<le> MAX_HEADER_BYTES + CHUNK_BYTES)"
proof (induction src i deadline buffer rule: read_headers.induct)
  case (1 src i deadline buffer)
  show ?case
  proof (cases "find_header_end buffer")
    case (Some p)
    with "1.prems"(1) have "header_end = p + 4 \<and> j = i \<and> buffer' = buffer"
      by (simp add: read_headers.simps [of src i deadline buffer])
    with Some "1.prems"(2) show ?thesis by auto
  next
    case None
    with "1.prems"(1) obtain bs where small: "\<not> MAX_HEADER_BYTES < length buffer"
      and rd: "read_within_deadline src i deadline = Inr bs" and ne: "bs \<noteq> []"
      and cont: "read_headers src (Suc i) deadline (buffer @ bs) = Inr (header_end, j, buffer')"
      by (auto simp: read_headers.simps [of src i deadline buffer] split: if_splits sum.splits)
    from read_within_deadline_Inr [OF rd] have bs: "bs = chunk src i" "fst (src i) < deadline" by auto
    have buf: "buffer @ bs = received src (Suc i)" using bs(1) "1.prems"(2) by (simp add: received_Suc)
    have len: "length (buffer @ bs) \<le> MAX_HEADER_BYTES + CHUNK_BYTES"
      using small chunk_length [of src i] bs(1) by simp
    note ih = "1.IH" [OF None small rd ne cont buf]
    have "fst (src k) < deadline" if "i \<le> k" "k < j" for k
      using that bs(2) ih by (cases "k = i") auto
    with ih len show ?thesis by auto
  qed
qed

lemma read_headers_Inl:
  "read_headers src i deadline buffer = Inl e \<Longrightarrow> error_status e \<in> {400, 408, 431}"
proof (induction src i deadline buffer rule: read_headers.induct)
  case (1 src i deadline buffer)
  from "1.prems" have none: "find_header_end buffer = None"
    by (auto simp: read_headers.simps [of src i deadline buffer] split: option.splits)
  consider (long) "MAX_HEADER_BYTES < length buffer"
    | (bad) "\<not> MAX_HEADER_BYTES < length buffer" "read_within_deadline src i deadline = Inl e"
    | (eof) "\<not> MAX_HEADER_BYTES < length buffer" "read_within_deadline src i deadline = Inr []"
    | (more) bs where "\<not> MAX_HEADER_BYTES < length buffer" "read_within_deadline src i deadline = Inr bs"
        "bs \<noteq> []" "read_headers src (Suc i) deadline (buffer @ bs) = Inl e"
    using "1.prems" none
    by (auto simp: read_headers.simps [of src i deadline buffer] split: if_splits sum.splits)
  then show ?case
  proof cases
    case long
    with "1.prems" none have "e = headers_too_large"
      by (simp add: read_headers.simps [of src i deadline buffer])
    then show ?thesis by (simp add: headers_too_large_def)
  next
    case bad
    then show ?thesis using read_within_deadline_Inl by fastforce
  next
    case eof
    with "1.prems" none have "e = closed_in_headers"
      by (simp add: read_headers.simps [of src i deadline buffer])
    then show ?thesis by (simp add: closed_in_headers_def)
  next
    case (more bs)
    with "1.IH" [OF none] show ?thesis by blast
  qed
qed

lemma read_body_Inr:
  "read_body src i deadline needed buffer = Inr (j, buffer') \<Longrightarrow> buffer = received src i \<Longrightarrow>
     buffer' = received src j \<and> needed \<le> length buffer' \<and> i \<le> j
     \<and> (\<forall>k. i \<le> k \<longrightarrow> k < j \<longrightarrow> fst (src k) < deadline)"
proof (induction src i deadline needed buffer rule: read_body.induct)
  case (1 src i deadline needed buffer)
  show ?case
  proof (cases "needed \<le> length buffer")
    case True
    with "1.prems"(1) have "j = i \<and> buffer' = buffer"
      by (simp add: read_body.simps [of src i deadline needed buffer])
    with True "1.prems"(2) show ?thesis by auto
  next
    case False
    with "1.prems"(1) obtain bs where
      rd: "read_within_deadline src i deadline = Inr bs" and ne: "bs \<noteq> []"
      and cont: "read_body src (Suc i) deadline needed (buffer @ bs) = Inr (j, buffer')"
      by (auto simp: read_body.simps [of src i deadline needed buffer] split: if_splits sum.splits)
    from read_within_deadline_Inr [OF rd] have bs: "bs = chunk src i" "fst (src i) < deadline" by auto
    have buf: "buffer @ bs = received src (Suc i)" using bs(1) "1.prems"(2) by (simp add: received_Suc)
    note ih = "1.IH" [OF False rd ne cont buf]
    have "fst (src k) < deadline" if "i \<le> k" "k < j" for k
      using that bs(2) ih by (cases "k = i") auto
    with ih show ?thesis by auto
  qed
qed

lemma read_body_Inl:
  "read_body src i deadline needed buffer = Inl e \<Longrightarrow> error_status e \<in> {400, 408}"
proof (induction src i deadline needed buffer rule: read_body.induct)
  case (1 src i deadline needed buffer)
  from "1.prems" have short: "\<not> needed \<le> length buffer"
    by (auto simp: read_body.simps [of src i deadline needed buffer])
  consider (bad) "read_within_deadline src i deadline = Inl e"
    | (eof) "read_within_deadline src i deadline = Inr []"
    | (more) bs where "read_within_deadline src i deadline = Inr bs"
        "bs \<noteq> []" "read_body src (Suc i) deadline needed (buffer @ bs) = Inl e"
    using "1.prems" short
    by (auto simp: read_body.simps [of src i deadline needed buffer] split: if_splits sum.splits)
  then show ?case
  proof cases
    case bad
    then show ?thesis using read_within_deadline_Inl by fastforce
  next
    case eof
    with "1.prems" short have "e = closed_in_body"
      by (simp add: read_body.simps [of src i deadline needed buffer])
    then show ?thesis by (simp add: closed_in_body_def)
  next
    case (more bs)
    with "1.IH" [OF short] show ?thesis by blast
  qed
qed

lemma parse_header_lines_Inl: "parse_header_lines h ls = Inl e \<Longrightarrow> error_status e = 400"
  by (induction h ls rule: parse_header_lines.induct)
    (auto simp: Let_def bad_header_line_def bad_header_name_def lengths_conflict_def
      split: if_splits option.splits prod.splits)

lemma parse_request_line_Inl: "parse_request_line line = Inl e \<Longrightarrow> error_status e = 400"
  by (auto simp: parse_request_line_def missing_def bad_request_line_def split: list.splits if_splits)

lemma parse_head_Inl: "parse_head head = Inl e \<Longrightarrow> error_status e \<in> {400, 411, 413}"
  by (auto simp: parse_head_def content_length_def missing_def chunked_refused_def length_missing_def
      length_invalid_def body_too_large_def
      split: list.splits sum.splits if_splits option.splits prod.splits
      dest: parse_header_lines_Inl parse_request_line_Inl)

lemma parse_head_Inr:
  "parse_head head = Inr (meth, tgt, h, len) \<Longrightarrow>
     len \<le> MAX_BODY_BYTES \<and> h ''transfer-encoding'' = None
     \<and> (case h ''content-length'' of Some v \<Rightarrow> parse_usize v = Some len | None \<Rightarrow> meth \<noteq> ''POST'' \<and> len = 0)"
  by (auto simp: parse_head_def content_length_def split: list.splits sum.splits if_splits option.splits)

section \<open>The reader's promises\<close>


definition delivers :: "source \<Rightarrow> instant \<Rightarrow> nat \<Rightarrow> string \<Rightarrow> bool" where
  "delivers src deadline n bytes \<longleftrightarrow>
     (\<forall>i < n. fst (src i) < deadline \<and> chunk src i \<noteq> [] \<and> snd (src i) = Data (chunk src i))
     \<and> received src n = bytes"

lemma delivers_read:
  "delivers src deadline n bytes \<Longrightarrow> i < n \<Longrightarrow>
     read_within_deadline src i deadline = Inr (chunk src i) \<and> chunk src i \<noteq> []"
proof -
  assume d: "delivers src deadline n bytes" "i < n"
  then have "fst (src i) < deadline" "snd (src i) = Data (chunk src i)" "chunk src i \<noteq> []"
    by (auto simp: delivers_def)
  moreover have "take CHUNK_BYTES (chunk src i) = chunk src i"
    using chunk_length [of src i] by simp
  ultimately show ?thesis
    by (simp add: read_within_deadline_def case_prod_beta)
qed

lemma read_headers_delivered:
  assumes "delivers src deadline n bytes" and "find_header_end bytes = Some p" and "p + 3 \<le> MAX_HEADER_BYTES"
    and "i \<le> n"
  shows "\<exists>j \<le> n. read_headers src i deadline (received src i) = Inr (p + 4, j, received src j)"
  using assms(4)
proof (induction "n - i" arbitrary: i rule: less_induct)
  case less
  obtain rest where rest: "bytes = received src i @ rest"
    using received_prefix [OF less.prems, of src] assms(1) by (auto simp: delivers_def)
  show ?case
  proof (cases "find_header_end (received src i)")
    case (Some q)
    with find_header_end_append [OF Some, of rest] rest assms(2) have "q = p" by simp
    with Some less.prems show ?thesis
      by (intro exI [of _ i]) (simp add: read_headers.simps [of src i deadline "received src i"])
  next
    case None
    have short: "length (received src i) < p + 4"
      using find_header_end_prefix [of "received src i" rest p] assms(2) rest None by fastforce
    have "i < n"
      using less.prems assms(1,2) None by (cases "i = n") (auto simp: delivers_def)
    with delivers_read [OF assms(1)] have rd: "read_within_deadline src i deadline = Inr (chunk src i)"
      "chunk src i \<noteq> []" by auto
    have "read_headers src i deadline (received src i) = read_headers src (Suc i) deadline (received src (Suc i))"
      using None short assms(3) rd
      by (simp add: read_headers.simps [of src i deadline "received src i"] received_Suc)
    with less.hyps [of "Suc i"] \<open>i < n\<close> show ?thesis by simp
  qed
qed

lemma read_body_delivered:
  assumes "delivers src deadline n bytes" and "needed \<le> length bytes" and "i \<le> n"
  shows "\<exists>k \<le> n. read_body src i deadline needed (received src i) = Inr (k, received src k)
           \<and> needed \<le> length (received src k)"
  using assms(3)
proof (induction "n - i" arbitrary: i rule: less_induct)
  case less
  show ?case
  proof (cases "needed \<le> length (received src i)")
    case True
    with less.prems show ?thesis
      by (intro exI [of _ i]) (simp add: read_body.simps [of src i deadline needed "received src i"])
  next
    case False
    have "i < n"
      using less.prems assms(1,2) False by (cases "i = n") (auto simp: delivers_def)
    with delivers_read [OF assms(1)] have rd: "read_within_deadline src i deadline = Inr (chunk src i)"
      "chunk src i \<noteq> []" by auto
    have "read_body src i deadline needed (received src i) =
        read_body src (Suc i) deadline needed (received src (Suc i))"
      using False rd by (simp add: read_body.simps [of src i deadline needed "received src i"] received_Suc)
    with less.hyps [of "Suc i"] \<open>i < n\<close> show ?thesis by simp
  qed
qed


text \<open>A refusal carries one of the reader's own statuses, whatever the client sends or fails to send.\<close>

lemma refusals_have_their_status:
  "read_http_request src deadline = Inl e \<Longrightarrow> error_status e \<in> {400, 408, 411, 413, 431}"
  using read_headers_Inl [of src 0 deadline "[]"] parse_head_Inl read_body_Inl
  by (auto simp: read_http_request_def split: sum.splits prod.splits) (fastforce dest: read_headers_Inl)+

section \<open>Witnesses\<close>

definition plain_get :: string where
  "plain_get = ''GET /api/deck/displays HTTP/1.1'' @ [CHR 13, CHR 10] @ ''Host: localhost:38201''
     @ [CHR 13, CHR 10, CHR 13, CHR 10]"

text \<open>The request in two reads, 5 ms and 6 ms after the start.\<close>

definition plain_source :: source where
  "plain_source i =
     (if i = 0 then (5000000, Data (take 10 plain_get))
      else if i = 1 then (6000000, Data (drop 10 plain_get))
      else (7000000, WouldBlock))"

lemma plain_get_head:
  "(case parse_head (take 58 plain_get) of
      Inl e \<Rightarrow> False
    | Inr (meth, tgt, h, len) \<Rightarrow> meth = ''GET'' \<and> tgt = ''/api/deck/displays'' \<and> len = 0
        \<and> h ''host'' = Some ''localhost:38201'')"
  by code_simp

lemma plain_get_facts:
  "find_header_end plain_get = Some 54" "length plain_get = 58"
  by code_simp+

lemma plain_source_chunks:
  "chunk plain_source 0 = take 10 plain_get" "chunk plain_source (Suc 0) = drop 10 plain_get"
  "received plain_source 0 = []" "received plain_source (Suc 0) = take 10 plain_get"
  "received plain_source 2 = plain_get"
  by (simp_all add: received_def chunk_def plain_source_def CHUNK_BYTES_def plain_get_facts(2) numeral_2_eq_2)

lemma plain_source_delivers: "delivers plain_source REQUEST_DEADLINE 2 plain_get"
  unfolding delivers_def
proof (intro conjI allI impI)
  fix i :: nat assume "i < 2"
  then consider "i = 0" | "i = Suc 0" by linarith
  note cases = this
  have ne: "take 10 plain_get \<noteq> []" "drop 10 plain_get \<noteq> []" using plain_get_facts(2) by auto
  from cases show "fst (plain_source i) < REQUEST_DEADLINE"
    by cases (simp_all add: plain_source_def REQUEST_DEADLINE_def)
  from cases ne show "chunk plain_source i \<noteq> []"
    by cases (simp_all add: plain_source_chunks)
  from cases show "snd (plain_source i) = Data (chunk plain_source i)"
    by cases (simp_all add: plain_source_chunks, simp_all add: plain_source_def)
qed (rule plain_source_chunks(5))

lemma plain_source_read:
  "\<exists>req. read_http_request plain_source REQUEST_DEADLINE = Inr req \<and> http_method req = ''GET''
     \<and> target req = ''/api/deck/displays'' \<and> body req = []"
proof -
  obtain h where h: "parse_head (take 58 plain_get) = Inr (''GET'', ''/api/deck/displays'', h, 0)"
    using plain_get_head by (auto split: sum.splits)
  obtain j where j: "j \<le> 2" "read_headers plain_source 0 REQUEST_DEADLINE [] = Inr (58, j, received plain_source j)"
    using read_headers_delivered [OF plain_source_delivers plain_get_facts(1), of 0]
    by (auto simp: MAX_HEADER_BYTES_def received_def)
  have j2: "j = 2"
  proof (rule ccontr)
    assume "j \<noteq> 2"
    with j(1) consider "j = 0" | "j = Suc 0" by linarith
    then have "length (received plain_source j) \<le> 10"
      by cases (simp_all add: plain_source_chunks)
    moreover have "find_header_end (received plain_source j) = Some 54"
      using read_headers_Inr [OF j(2)] by (auto simp: received_def)
    ultimately show False using find_header_end_Some by fastforce
  qed
  note rec = plain_source_chunks(5)
  show ?thesis
    using j(2) h unfolding j2 rec
    by (simp add: read_http_request_def read_body.simps plain_get_facts(2))
qed



end
