(* ===== verification/Bridge_Gate.thy ===== *)
theory Bridge_Gate
  imports Bridge_Http
begin

text \<open>
  The checks every request passes before anything in it is acted on
  (\<open>control_surface_http.rs\<close>, \<open>authorize\<close>): no browser origin, a \<open>Host\<close> that names this
  bridge, and the workstation's bearer token, compared in constant time.
\<close>

section \<open>The gate\<close>

fun differences :: "(char \<times> char) list \<Rightarrow> 8 word \<Rightarrow> 8 word" where
  "differences [] difference = difference"
| "differences ((a, b) # r) difference = differences r (or difference (xor (of_char a) (of_char b)))"

definition constant_time_eq :: "string \<Rightarrow> string \<Rightarrow> bool" where
  "constant_time_eq left right =
     (if length left \<noteq> length right then False else differences (zip left right) 0 = 0)"

definition origin_refused :: control_surface_error where
  "origin_refused = Forbidden ''Browser requests are not accepted by the bridge''"

definition host_refused :: "nat \<Rightarrow> control_surface_error" where
  "host_refused port = InvalidParams
     (''Host must be 127.0.0.1:'' @ show_nat port @ '' or localhost:'' @ show_nat port)"

definition token_differs :: control_surface_error where
  "token_differs = Unauthorized
     ''The bridge token does not match this workstation. Export the Stream Deck profile again from Setup and import it with Full Reset & Import.''"

definition token_missing :: control_surface_error where
  "token_missing = Unauthorized
     ''A bearer token is required. Export the Stream Deck profile from Setup and import it with Full Reset & Import.''"

definition presented_token :: "http_request \<Rightarrow> string option" where
  "presented_token request =
     (case headers request ''authorization'' of
        None \<Rightarrow> None
      | Some value \<Rightarrow>
          (case split_once (CHR '' '') value of
             None \<Rightarrow> None
           | Some (scheme, credential) \<Rightarrow>
               if eq_ignore_ascii_case scheme ''bearer'' then Some (trim credential) else None))"

definition host_matches :: "http_request \<Rightarrow> nat \<Rightarrow> bool" where
  "host_matches request port =
     (case headers request ''host'' of
        None \<Rightarrow> False
      | Some host \<Rightarrow> list_ex (eq_ignore_ascii_case host)
                      [''127.0.0.1:'' @ show_nat port, ''localhost:'' @ show_nat port])"

definition authorize :: "http_request \<Rightarrow> string \<Rightarrow> nat \<Rightarrow> control_surface_error + unit" where
  "authorize request token port =
     (if headers request ''origin'' \<noteq> None then Inl origin_refused
      else if \<not> host_matches request port then Inl (host_refused port)
      else (case presented_token request of
              Some credential \<Rightarrow>
                if constant_time_eq credential token then Inr () else Inl token_differs
            | None \<Rightarrow> Inl token_missing))"

definition CONTROL_SURFACE_TOKEN_BYTES :: nat where
  "CONTROL_SURFACE_TOKEN_BYTES = 32"

definition is_bridge_token :: "string \<Rightarrow> bool" where
  "is_bridge_token value \<longleftrightarrow>
     length value = CONTROL_SURFACE_TOKEN_BYTES * 2 \<and> list_all (\<lambda>c. hex_value c \<noteq> None) value"

text \<open>\<open>{byte:02x}\<close> of each byte; the bytes are the operating system's randomness.\<close>

definition token_of_bytes :: "8 word list \<Rightarrow> string" where
  "token_of_bytes bytes = concat (map (\<lambda>b. [hex_char (unat b div 16), hex_char (unat b mod 16)]) bytes)"

section \<open>What the gate lets through\<close>

lemma of_char_8_inject: "(of_char a :: 8 word) = of_char b \<longleftrightarrow> a = b"
proof
  assume "(of_char a :: 8 word) = of_char b"
  then have "(of_nat (of_char a) :: 8 word) = of_nat (of_char b)" by (simp only: of_nat_of_char)
  then have "unat (of_nat (of_char a) :: 8 word) = unat (of_nat (of_char b) :: 8 word)" by simp
  then have "(of_char a :: nat) mod 256 = of_char b mod 256" by (simp add: unat_of_nat)
  then show "a = b" by simp
qed simp

lemma xor_zero_iff: "xor x y = 0 \<longleftrightarrow> x = y" for x y :: "8 word"
proof
  assume "xor x y = 0"
  then have "xor x (xor x y) = x" by simp
  then show "x = y" by (simp flip: xor.assoc)
qed simp

lemma differences_zero: "differences zs d = 0 \<longleftrightarrow> d = 0 \<and> list_all (\<lambda>(a, b). a = b) zs"
proof (induction zs d rule: differences.induct)
  case (1 d)
  then show ?case by simp
next
  case (2 a b r d)
  have "or d (xor (of_char a) (of_char b)) = 0 \<longleftrightarrow> d = 0 \<and> a = b"
    by (simp add: or_eq_0_iff xor_zero_iff of_char_8_inject)
  with "2.IH" show ?case by simp
qed

lemma constant_time_eq_iff: "constant_time_eq l r \<longleftrightarrow> l = r"
  by (simp add: constant_time_eq_def differences_zero list_eq_iff_zip_eq)
    (auto simp: list_all_iff list_eq_iff_zip_eq)


text \<open>
  C1. A request passes the gate exactly when no browser sent it, its \<open>Host\<close> names this
  bridge on this PC, and it carries the workstation's token, byte for byte.
\<close>

theorem gate_opens_to_the_token_only:
  "authorize request token port = Inr () \<longleftrightarrow>
     headers request ''origin'' = None
     \<and> (\<exists>host. headers request ''host'' = Some host
          \<and> (eq_ignore_ascii_case host (''127.0.0.1:'' @ show_nat port)
             \<or> eq_ignore_ascii_case host (''localhost:'' @ show_nat port)))
     \<and> (\<exists>value scheme credential. headers request ''authorization'' = Some value
          \<and> value = scheme @ CHR '' '' # credential \<and> CHR '' '' \<notin> set scheme
          \<and> eq_ignore_ascii_case scheme ''bearer'' \<and> trim credential = token)"
proof -
  have host: "host_matches request port \<longleftrightarrow> (\<exists>host. headers request ''host'' = Some host
      \<and> (eq_ignore_ascii_case host (''127.0.0.1:'' @ show_nat port)
         \<or> eq_ignore_ascii_case host (''localhost:'' @ show_nat port)))"
    unfolding host_matches_def by (cases "headers request ''host''") simp_all
  have token: "presented_token request = Some token \<longleftrightarrow>
      (\<exists>value scheme credential. headers request ''authorization'' = Some value
          \<and> value = scheme @ CHR '' '' # credential \<and> CHR '' '' \<notin> set scheme
          \<and> eq_ignore_ascii_case scheme ''bearer'' \<and> trim credential = token)"
  proof -
    have "presented_token request = Some token \<longleftrightarrow>
        (\<exists>value scheme credential. headers request ''authorization'' = Some value
          \<and> split_once (CHR '' '') value = Some (scheme, credential)
          \<and> eq_ignore_ascii_case scheme ''bearer'' \<and> trim credential = token)"
      by (auto simp: presented_token_def split: option.split)
    then show ?thesis by (simp add: split_once_Some conj_assoc)
  qed
  have "authorize request token port = Inr () \<longleftrightarrow>
      headers request ''origin'' = None \<and> host_matches request port \<and> presented_token request = Some token"
    by (auto simp: authorize_def constant_time_eq_iff split: option.split)
  then show ?thesis unfolding host token .
qed

text \<open>
  The checks come in their order: a browser's request is refused with 403 whatever
  else it carries, a foreign \<open>Host\<close> with 400 before any token is looked at, and everything
  else without the token with 401.
\<close>

theorem gate_refuses_in_order:
  assumes "authorize request token port = Inl e"
  shows "error_status e =
     (if headers request ''origin'' \<noteq> None then 403
      else if \<not> host_matches request port then 400 else 401)"
  using assms
  by (auto simp: authorize_def origin_refused_def host_refused_def token_differs_def token_missing_def
      split: if_splits option.splits)

theorem gate_refuses_in_order_witness:
  "\<exists>e. authorize \<lparr>http_method = ''GET'', target = ''/'', headers = [''origin'' \<mapsto> ''http://evil''], body = []\<rparr> ''t'' 5 = Inl e
     \<and> error_status e = 403"
proof -
  let ?r = "\<lparr>http_method = ''GET'', target = ''/'', headers = [''origin'' \<mapsto> ''http://evil''], body = []\<rparr>"
  have "authorize ?r ''t'' 5 = Inl origin_refused" by (simp add: authorize_def)
  with gate_refuses_in_order [OF this] show ?thesis by simp
qed

lemma token_of_bytes_simps [simp]:
  "token_of_bytes [] = []"
  "token_of_bytes (b # bs) = hex_char (unat b div 16) # hex_char (unat b mod 16) # token_of_bytes bs"
  by (simp_all add: token_of_bytes_def)

text \<open>
  A token the bridge makes is one it takes back from its file: 32 bytes of randomness
  give 64 hexadecimal characters, and no two different draws give one token.
\<close>

theorem generated_token_is_a_token:
  assumes "length bytes = CONTROL_SURFACE_TOKEN_BYTES"
  shows "is_bridge_token (token_of_bytes bytes)
     \<and> (\<forall>other. length other = CONTROL_SURFACE_TOKEN_BYTES \<longrightarrow> token_of_bytes other = token_of_bytes bytes \<longrightarrow> other = bytes)"
proof
  have digits: "unat b div 16 < 16" "unat b mod 16 < 16" for b :: "8 word"
  proof -
    have "unat b < 16 * 16" using unsigned_less [of b] by simp
    then show "unat b div 16 < 16" by (rule less_mult_imp_div_less)
  qed simp
  have "list_all (\<lambda>c. hex_value c \<noteq> None) (token_of_bytes bs) \<and> length (token_of_bytes bs) = 2 * length bs" for bs
    by (induction bs) (simp_all add: hex_value_hex_char digits)
  with assms show "is_bridge_token (token_of_bytes bytes)" by (simp add: is_bridge_token_def)
  have inj: "hex_char d = hex_char d' \<Longrightarrow> d < 16 \<Longrightarrow> d' < 16 \<Longrightarrow> d = d'" for d d'
    by (metis hex_value_hex_char option.inject)
  have "token_of_bytes other = token_of_bytes bs \<Longrightarrow> length other = length bs \<Longrightarrow> other = bs" for other bs
  proof (induction other bs rule: list_induct2')
    case (4 a as b bs)
    then have "unat a div 16 = unat b div 16" "unat a mod 16 = unat b mod 16"
      using inj digits by auto
    then have "unat a = unat b" by (metis div_mult_mod_eq)
    with 4 show ?case by (simp add: word_unat_eq_iff)
  qed simp_all
  with assms show "\<forall>other. length other = CONTROL_SURFACE_TOKEN_BYTES \<longrightarrow>
      token_of_bytes other = token_of_bytes bytes \<longrightarrow> other = bytes" by simp
qed

theorem generated_token_is_a_token_witness:
  "is_bridge_token (token_of_bytes (replicate 32 255))"
  using generated_token_is_a_token [of "replicate 32 255"] by (simp add: CONTROL_SURFACE_TOKEN_BYTES_def)

end
