(* ===== verification/Bridge_Routes.thy ===== *)
theory Bridge_Routes
  imports Bridge_Http
begin

text \<open>
  The bridge's targets and answers (\<open>control_surface_http.rs\<close>): the path and the query of a
  target, the percent-decoding of a parameter, what kind of request it is for the queue and
  the minute, the routes, and the response's head. JSON (\<open>serde_json\<close>) and the pages'
  handlers (\<open>control_surface.rs\<close>) are a record of functions: a handler acts on a world
  \<open>'w\<close>, the saved data and the devices, and answers with a JSON value of a type \<open>'v\<close>.
\<close>

section \<open>Targets and queries\<close>

definition split_target :: "string \<Rightarrow> string \<times> string" where
  "split_target tgt = (case split_once (CHR ''?'') tgt of Some (p, q) \<Rightarrow> (p, q) | None \<Rightarrow> (tgt, []))"

text \<open>The bytes a value decodes to, before they are read as UTF-8.\<close>

fun percent_bytes :: "string \<Rightarrow> string" where
  "percent_bytes [] = []"
| "percent_bytes (c # s) =
     (if c = CHR ''%''
      then (case s of
              h # l # rest \<Rightarrow>
                (case (hex_value h, hex_value l) of
                   (Some high, Some low) \<Rightarrow> char_of (high * 16 + low) # percent_bytes rest
                 | _ \<Rightarrow> c # percent_bytes s)
            | _ \<Rightarrow> c # percent_bytes s)
      else (if c = CHR ''+'' then CHR '' '' else c) # percent_bytes s)"

definition percent_decode :: "string \<Rightarrow> string" where
  "percent_decode value = utf8_lossy (percent_bytes value)"

fun first_value :: "string \<Rightarrow> string list \<Rightarrow> string option" where
  "first_value name [] = None"
| "first_value name (pair # pairs) =
     (case split_once (CHR ''='') pair of
        Some (key, value) \<Rightarrow>
          if percent_decode key = name then Some (percent_decode value) else first_value name pairs
      | None \<Rightarrow> first_value name pairs)"

definition query_parameter :: "string \<Rightarrow> string \<Rightarrow> string option" where
  "query_parameter query name = first_value name (split_on (CHR ''&'') query)"

function trim_start_matches :: "string \<Rightarrow> string \<Rightarrow> string" where
  "trim_start_matches p s =
     (if p \<noteq> [] \<and> starts_with s p then trim_start_matches p (drop (length p) s) else s)"
  by pat_completeness auto
termination
proof (relation "measure (\<lambda>(p, s). length s)")
  fix p s :: string
  assume "p \<noteq> [] \<and> starts_with s p"
  then have "0 < length p" "length p \<le> length s" by (auto dest: starts_with_length)
  then have "length s - length p < length s" by (intro diff_less) linarith+
  then show "((p, drop (length p) s), (p, s)) \<in> measure (\<lambda>(p, s). length s)" by simp
qed simp

declare trim_start_matches.simps [simp del]

section \<open>Kinds of requests\<close>

datatype kind = Press | Display | Other

definition KEY_ROUTES :: "string list" where
  "KEY_ROUTES = [''/api/deck/light-action'', ''/api/deck/audio-action'',
                 ''/api/deck/camera-action'', ''/api/deck/prompter-action'']"

definition kind_of :: "http_request \<Rightarrow> kind" where
  "kind_of request =
     (let path = fst (split_target (target request))
      in if http_method request = ''GET'' \<and> (path = ''/api/deck/lcd'' \<or> path = ''/api/deck/displays'')
         then Display
         else if http_method request = ''POST'' \<and> path \<in> set KEY_ROUTES then Press
         else Other)"

section \<open>Answers\<close>

record 'v json =
  to_vec :: "'v \<Rightarrow> string option"
  error_object :: "string \<Rightarrow> 'v"
  string_value :: "string \<Rightarrow> 'v"
  empty_object :: 'v
  from_slice :: "string \<Rightarrow> string + 'v"
  text_field :: "'v \<Rightarrow> string \<Rightarrow> string option"

type_synonym ('w, 'a) handler = "'w \<Rightarrow> (control_surface_error + 'a) \<times> 'w"

record ('w, 'v) pages =
  read_context :: "('w, 'v) handler"
  read_displays :: "bool \<Rightarrow> instant \<Rightarrow> ('w, 'v) handler"
  read_lcd_text :: "bool \<Rightarrow> string \<Rightarrow> ('w, string) handler"
  deck_action :: "bool \<Rightarrow> string \<Rightarrow> 'v \<Rightarrow> instant \<Rightarrow> ('w, 'v) handler"

record http_response =
  status_code :: nat
  response_body :: string

definition response_from_error :: "'v json \<Rightarrow> control_surface_error \<Rightarrow> http_response" where
  "response_from_error js e =
     \<lparr>status_code = error_status e,
      response_body =
        (case to_vec js (error_object js (error_message e)) of
           Some b \<Rightarrow> b
         | None \<Rightarrow> ''{'' @ [CHR 34] @ ''error'' @ [CHR 34] @ '':'' @ [CHR 34] @ ''bridge failure'' @ [CHR 34] @ ''}'')\<rparr>"

definition parse_json_body :: "'v json \<Rightarrow> string \<Rightarrow> control_surface_error + 'v" where
  "parse_json_body js b =
     (if b = [] then Inr (empty_object js)
      else (case from_slice js b of Inr v \<Rightarrow> Inr v | Inl err \<Rightarrow> Inl (InvalidParams err)))"

definition unsupported_endpoint :: "string \<Rightarrow> string \<Rightarrow> control_surface_error" where
  "unsupported_endpoint meth path =
     InvalidParams (''Unsupported bridge endpoint: '' @ meth @ '' '' @ path)"

definition missing_key :: control_surface_error where
  "missing_key = InvalidParams ''Missing ?key= parameter''"

definition map_answer :: "('a \<Rightarrow> 'b) \<Rightarrow> 'e + 'a \<Rightarrow> 'e + 'b" where
  "map_answer f r = (case r of Inl e \<Rightarrow> Inl e | Inr a \<Rightarrow> Inr (f a))"

definition route_result ::
  "'v json \<Rightarrow> ('w, 'v) pages \<Rightarrow> bool \<Rightarrow> http_request \<Rightarrow> instant \<Rightarrow> ('w, 'v) handler" where
  "route_result js pg cameras_simulated request arrived w =
     (let (path, query) = split_target (target request); meth = http_method request
      in if meth = ''GET'' \<and> path = ''/api/deck/context'' then read_context pg w
         else if meth = ''GET'' \<and> path = ''/api/deck/displays''
         then read_displays pg cameras_simulated arrived w
         else if meth = ''GET'' \<and> path = ''/api/deck/lcd''
         then (case query_parameter query ''key'' of
                 None \<Rightarrow> (Inl missing_key, w)
               | Some key \<Rightarrow>
                   (let (answer, w') = read_lcd_text pg cameras_simulated key w
                    in (map_answer (string_value js) answer, w')))
         else if meth = ''POST'' \<and> path \<in> set KEY_ROUTES
         then (case parse_json_body js (body request) of
                 Inl e \<Rightarrow> (Inl e, w)
               | Inr b \<Rightarrow> deck_action pg cameras_simulated path b arrived w)
         else (Inl (unsupported_endpoint meth path), w))"

definition route_control_surface_request ::
  "'v json \<Rightarrow> ('w, 'v) pages \<Rightarrow> bool \<Rightarrow> http_request \<Rightarrow> instant \<Rightarrow> 'w \<Rightarrow> http_response \<times> 'w" where
  "route_control_surface_request js pg cameras_simulated request arrived w =
     (let (result, w') = route_result js pg cameras_simulated request arrived w
      in (case result of
            Inr v \<Rightarrow> \<lparr>status_code = 200,
                      response_body = (case to_vec js v of Some b \<Rightarrow> b | None \<Rightarrow> ''{}'')\<rparr>
          | Inl e \<Rightarrow> response_from_error js e, w'))"

definition status_text :: "nat \<Rightarrow> string" where
  "status_text status =
     (if status = 200 then ''OK'' else if status = 400 then ''Bad Request''
      else if status = 401 then ''Unauthorized'' else if status = 403 then ''Forbidden''
      else if status = 404 then ''Not Found'' else if status = 408 then ''Request Timeout''
      else if status = 409 then ''Conflict'' else if status = 411 then ''Length Required''
      else if status = 413 then ''Payload Too Large''
      else if status = 431 then ''Request Header Fields Too Large''
      else if status = 500 then ''Internal Server Error'' else if status = 501 then ''Not Implemented''
      else if status = 503 then ''Service Unavailable'' else ''Error'')"

definition crlf :: string where
  "crlf = [CHR 13, CHR 10]"

definition http_response_bytes :: "nat \<Rightarrow> string \<Rightarrow> string" where
  "http_response_bytes status b =
     (let challenge = (if status = 401
                       then ''WWW-Authenticate: Bearer realm='' @ [CHR 34] @ ''studio-control'' @ [CHR 34] @ crlf
                       else [])
      in ''HTTP/1.1 '' @ show_nat status @ '' '' @ status_text status @ crlf
         @ ''Content-Type: application/json'' @ crlf
         @ ''Content-Length: '' @ show_nat (length b) @ crlf
         @ challenge @ ''Connection: close'' @ crlf @ crlf @ b)"

section \<open>What decoding and routing promise\<close>

text \<open>Every byte escaped, as a client may write any value.\<close>

definition percent_encode :: "string \<Rightarrow> string" where
  "percent_encode s =
     concat (map (\<lambda>c. [CHR ''%'', hex_char (of_char c div 16), hex_char (of_char c mod 16)]) s)"

lemma percent_encode_simps [simp]:
  "percent_encode [] = []"
  "percent_encode (c # s) =
     CHR ''%'' # hex_char (of_char c div 16) # hex_char (of_char c mod 16) # percent_encode s"
  by (simp_all add: percent_encode_def)

lemma of_char_nibbles: "(of_char c :: nat) div 16 < 16" "(of_char c :: nat) mod 16 < 16"
proof -
  have "(of_char c :: nat) < 16 * 16" using nat_of_char_less_256 [of c] by simp
  then show "(of_char c :: nat) div 16 < 16" by (rule less_mult_imp_div_less)
qed simp

lemma percent_bytes_encode: "percent_bytes (percent_encode s @ t) = s @ percent_bytes t"
  by (induction s) (simp_all add: hex_value_hex_char of_char_nibbles)

text \<open>
  A parameter survives the wire: any UTF-8 text, every byte of it escaped, decodes to
  itself, and a text of ASCII without \<open>%\<close> and \<open>+\<close> decodes to itself as it stands.
\<close>

theorem percent_decode_roundtrip:
  "(utf8_valid s \<longrightarrow> percent_decode (percent_encode s) = s)
   \<and> (list_all (\<lambda>c. of_char c < (128 :: nat) \<and> c \<noteq> CHR ''%'' \<and> c \<noteq> CHR ''+'') t \<longrightarrow> percent_decode t = t)"
proof (intro conjI impI)
  assume "utf8_valid s"
  then show "percent_decode (percent_encode s) = s"
    using percent_bytes_encode [of s "[]"] by (simp add: percent_decode_def utf8_lossy_valid)
next
  assume t: "list_all (\<lambda>c. of_char c < (128 :: nat) \<and> c \<noteq> CHR ''%'' \<and> c \<noteq> CHR ''+'') t"
  then have "percent_bytes t = t" by (induction t) auto
  moreover have "utf8_valid t" using t by (intro utf8_valid_ascii) (auto simp: list_all_iff)
  ultimately show "percent_decode t = t" by (simp add: percent_decode_def utf8_lossy_valid)
qed

theorem percent_decode_roundtrip_witness:
  "percent_decode (percent_encode ''CAM 1'') = ''CAM 1'' \<and> percent_decode ''cam-1'' = ''cam-1''"
proof -
  have "utf8_valid ''CAM 1''" by (intro utf8_valid_ascii) simp
  with percent_decode_roundtrip [of "''CAM 1''" "''cam-1''"] show ?thesis by simp
qed

lemma split_target_path_no_query: "CHR ''?'' \<notin> set (fst (split_target t))"
proof (cases "split_once (CHR ''?'') t")
  case None
  then show ?thesis using split_once_None [of "CHR ''?''" t] by (simp add: split_target_def)
next
  case (Some ab)
  then obtain a b where "split_once (CHR ''?'') t = Some (a, b)" by (cases ab) auto
  then show ?thesis using split_once_Some [of "CHR ''?''" t a b] by (simp add: split_target_def)
qed

text \<open>
  Only a key's press can act on the studio through the bridge: a request that is not a
  POST to one of the four pages' routes, or whose body is not JSON, gets the same answer and
  leaves the same world whatever the action's handler would do.
\<close>

theorem only_presses_act:
  assumes "kind_of request \<noteq> Press \<or> \<not> is_ok (parse_json_body js (body request))"
  shows "route_result js (pg\<lparr>deck_action := act\<rparr>) sim request arrived w = route_result js pg sim request arrived w"
proof -
  have press: "http_method request = ''POST'' \<and> fst (split_target (target request)) \<in> set KEY_ROUTES
      \<Longrightarrow> kind_of request = Press"
    by (simp add: kind_of_def)
  show ?thesis
  proof (cases "parse_json_body js (body request)")
    case (Inl e)
    then show ?thesis
      by (cases "split_target (target request)") (simp add: route_result_def Let_def split: option.split)
  next
    case (Inr b)
    with assms have "kind_of request \<noteq> Press" by simp
    with press show ?thesis by (auto simp: route_result_def Let_def split: prod.split option.split)
  qed
qed

definition quiet_json :: "nat json" where
  "quiet_json = \<lparr>to_vec = \<lambda>v. Some (show_nat v), error_object = length, string_value = length,
     empty_object = 0, from_slice = \<lambda>b. Inr (length b), text_field = \<lambda>_ _. None\<rparr>"

definition counting_pages :: "(nat, nat) pages" where
  "counting_pages = \<lparr>read_context = \<lambda>w. (Inr w, w), read_displays = \<lambda>_ _ w. (Inr w, w),
     read_lcd_text = \<lambda>_ key w. (Inr key, w), deck_action = \<lambda>_ _ _ _ w. (Inr 1, w)\<rparr>"

theorem only_presses_act_witness:
  "route_result quiet_json (counting_pages\<lparr>deck_action := (\<lambda>_ _ _ _ w. (Inr 1, Suc w))\<rparr>) False
       \<lparr>http_method = ''GET'', target = ''/api/deck/light-action'', headers = Map.empty, body = []\<rparr> 0 7
     = (Inl (unsupported_endpoint ''GET'' ''/api/deck/light-action''), 7)"
proof -
  let ?r = "\<lparr>http_method = ''GET'', target = ''/api/deck/light-action'', headers = Map.empty, body = []\<rparr>"
  have path: "split_target (target ?r) = (''/api/deck/light-action'', [])"
    by (simp add: split_target_def)
  then have "kind_of ?r \<noteq> Press \<or> \<not> is_ok (parse_json_body quiet_json (body ?r))" by (simp add: kind_of_def)
  then have "route_result quiet_json (counting_pages\<lparr>deck_action := (\<lambda>_ _ _ _ w. (Inr 1, Suc w))\<rparr>) False ?r 0 7
      = route_result quiet_json counting_pages False ?r 0 7"
    by (rule only_presses_act)
  with path
  show ?thesis by (simp add: route_result_def)
qed

lemma error_status_text: "status_text (error_status e) \<noteq> ''Error''"
  by (cases e) (simp_all add: status_text_def)

end
