(* ===== verification/Bridge_Minute.thy ===== *)
theory Bridge_Minute
  imports Bridge_Routes
begin

text \<open>
  The bridge's minute (\<open>control_surface_minute.rs\<close>) and when the deck last asked
  (\<open>deck_heard.rs\<close>). \<open>milliseconds\<close> (\<open>prompter/minute.rs\<close>) prints a duration through a
  floating-point number and is a parameter of the line. A path of the saved data is a text.
\<close>

section \<open>The minute\<close>

definition SLOW :: duration where
  "SLOW = from_millis 50"

record bridge_minute =
  presses_served :: nat
  displays_served :: nat
  other_served :: nat
  longest_wait :: "duration \<times> string"
  longest_handling :: "duration \<times> string"
  deepest :: nat
  turned_away :: nat
  timed_out :: nat

definition quiet_minute :: bridge_minute where
  "quiet_minute = \<lparr>presses_served = 0, displays_served = 0, other_served = 0, longest_wait = (0, []),
     longest_handling = (0, []), deepest = 0, turned_away = 0, timed_out = 0\<rparr>"

fun count_kind :: "kind \<Rightarrow> bridge_minute \<Rightarrow> bridge_minute" where
  "count_kind Press m = m\<lparr>presses_served := presses_served m + 1\<rparr>"
| "count_kind Display m = m\<lparr>displays_served := displays_served m + 1\<rparr>"
| "count_kind Other m = m\<lparr>other_served := other_served m + 1\<rparr>"

definition note_served :: "kind \<Rightarrow> string \<Rightarrow> duration \<Rightarrow> duration \<Rightarrow> bridge_minute \<Rightarrow> bridge_minute" where
  "note_served k what waited handled m =
     (let m1 = count_kind k m;
          m2 = (if fst (longest_wait m1) < waited then m1\<lparr>longest_wait := (waited, what)\<rparr> else m1)
      in if fst (longest_handling m2) < handled then m2\<lparr>longest_handling := (handled, what)\<rparr> else m2)"

definition note_depth :: "nat \<Rightarrow> bridge_minute \<Rightarrow> bridge_minute" where
  "note_depth d m = m\<lparr>deepest := max (deepest m) d\<rparr>"

definition note_refused :: "bridge_minute \<Rightarrow> bridge_minute" where
  "note_refused m = m\<lparr>turned_away := turned_away m + 1\<rparr>"

definition note_timed_out :: "bridge_minute \<Rightarrow> bridge_minute" where
  "note_timed_out m = m\<lparr>timed_out := timed_out m + 1\<rparr>"

definition worth_a_line :: "bridge_minute \<Rightarrow> bool \<Rightarrow> bool" where
  "worth_a_line m prompter_played \<longleftrightarrow>
     prompter_played \<or> 0 < turned_away m \<or> 0 < timed_out m
     \<or> SLOW \<le> fst (longest_wait m) \<or> SLOW \<le> fst (longest_handling m)"

definition by_what :: "string \<Rightarrow> string" where
  "by_what what = (if what = [] then [] else '' ('' @ what @ '')'')"

definition minute_line :: "(duration \<Rightarrow> string) \<Rightarrow> bridge_minute \<Rightarrow> string" where
  "minute_line milliseconds m =
     ''Stream Deck bridge, the last minute: '' @ show_nat (presses_served m) @ '' presses, ''
     @ show_nat (displays_served m) @ '' displays and '' @ show_nat (other_served m)
     @ '' other requests served; waited for a worker '' @ milliseconds (fst (longest_wait m))
     @ '' at most'' @ by_what (snd (longest_wait m)) @ '', took ''
     @ milliseconds (fst (longest_handling m)) @ '' at most'' @ by_what (snd (longest_handling m))
     @ ''; '' @ show_nat (deepest m) @ '' waiting at most; '' @ show_nat (turned_away m)
     @ '' turned away busy, '' @ show_nat (timed_out m) @ '' timed out.''"

section \<open>When the deck last asked\<close>

definition DECK_QUIET_AFTER :: duration where
  "DECK_QUIET_AFTER = from_secs 5"

type_synonym heard = "string \<rightharpoonup> instant"

definition note_deck_heard :: "string \<Rightarrow> instant \<Rightarrow> heard \<Rightarrow> heard" where
  "note_deck_heard db moment h =
     (let prev = (case h db of Some t \<Rightarrow> t | None \<Rightarrow> moment)
      in h(db \<mapsto> (if prev < moment then moment else prev)))"

definition deck_heard_age :: "string \<Rightarrow> instant \<Rightarrow> heard \<Rightarrow> duration option" where
  "deck_heard_age db now h = map_option (\<lambda>t. since t now) (h db)"

definition deck_heard_lately :: "string \<Rightarrow> instant \<Rightarrow> heard \<Rightarrow> bool" where
  "deck_heard_lately db now h =
     (case deck_heard_age db now h of Some age \<Rightarrow> age < DECK_QUIET_AFTER | None \<Rightarrow> False)"

definition deck_quiet_sentence :: "string \<Rightarrow> instant \<Rightarrow> heard \<Rightarrow> string" where
  "deck_quiet_sentence db now h =
     (let when_heard = (case deck_heard_age db now h of
                          Some _ \<Rightarrow> ''in the last 5 s''
                        | None \<Rightarrow> ''since the hardware link started'')
      in ''Companion has not asked the deck'' @ [CHR 39] @ ''s bridge for anything '' @ when_heard
         @ ''. Check that it is running, with the profile from Setup imported by Full Reset & Import.'')"

text \<open>One pass of the quiet watch: what it holds the deck for now, and whether it announces.\<close>

definition quiet_watch_pass :: "string \<Rightarrow> instant \<Rightarrow> heard \<Rightarrow> bool \<Rightarrow> bool \<times> bool" where
  "quiet_watch_pass db now h was_heard =
     (let now_heard = deck_heard_lately db now h in (now_heard, now_heard \<noteq> was_heard))"

section \<open>What the minute says\<close>

datatype minute_event =
    Served kind string duration duration | TurnedAway | TimedOutRequest | Queued nat

fun minute_step :: "minute_event \<Rightarrow> bridge_minute \<Rightarrow> bridge_minute" where
  "minute_step (Served k what waited handled) m = note_served k what waited handled m"
| "minute_step TurnedAway m = note_refused m"
| "minute_step TimedOutRequest m = note_timed_out m"
| "minute_step (Queued d) m = note_depth d m"

definition minute_of :: "minute_event list \<Rightarrow> bridge_minute" where
  "minute_of es = fold minute_step es quiet_minute"

fun waited_of :: "minute_event \<Rightarrow> duration" where
  "waited_of (Served _ _ w _) = w" | "waited_of _ = 0"

fun handled_of :: "minute_event \<Rightarrow> duration" where
  "handled_of (Served _ _ _ h) = h" | "handled_of _ = 0"

fun is_served :: "minute_event \<Rightarrow> bool" where
  "is_served (Served _ _ _ _) = True" | "is_served _ = False"

lemmas minute_defs = note_served_def note_depth_def note_refused_def note_timed_out_def Let_def

lemma count_kind_facts [simp]:
  "turned_away (count_kind k m) = turned_away m" "timed_out (count_kind k m) = timed_out m"
  "longest_wait (count_kind k m) = longest_wait m" "longest_handling (count_kind k m) = longest_handling m"
  "presses_served (count_kind k m) + displays_served (count_kind k m) + other_served (count_kind k m)
     = Suc (presses_served m + displays_served m + other_served m)"
  by (cases k; simp)+

lemma minute_of_snoc: "minute_of (es @ [e]) = minute_step e (minute_of es)"
  by (simp add: minute_of_def)

lemma minute_counts:
  "turned_away (minute_of es) = count_list es TurnedAway
   \<and> timed_out (minute_of es) = count_list es TimedOutRequest
   \<and> presses_served (minute_of es) + displays_served (minute_of es) + other_served (minute_of es)
       = length (filter is_served es)"
proof (induction es rule: rev_induct)
  case Nil
  then show ?case by (simp add: minute_of_def quiet_minute_def)
next
  case (snoc e es)
  then show ?case by (cases e) (auto simp: minute_of_snoc minute_defs)
qed

lemma note_served_longest:
  "fst (longest_wait (note_served k what w h m)) = max (fst (longest_wait m)) w"
  "fst (longest_handling (note_served k what w h m)) = max (fst (longest_handling m)) h"
  by (auto simp: note_served_def Let_def)

lemma minute_longest:
  "fst (longest_wait (minute_of es)) = fold max (map waited_of es) 0
   \<and> fst (longest_handling (minute_of es)) = fold max (map handled_of es) 0"
proof (induction es rule: rev_induct)
  case Nil
  then show ?case by (simp add: minute_of_def quiet_minute_def)
next
  case (snoc e es)
  then show ?case
    by (cases e)
      (simp_all add: minute_of_snoc note_served_longest note_depth_def note_refused_def note_timed_out_def max.commute)
qed

lemma fold_max_ge: "(t :: nat) \<le> fold max xs a \<longleftrightarrow> t \<le> a \<or> (\<exists>x \<in> set xs. t \<le> x)"
  by (induction xs arbitrary: a) (simp_all add: le_max_iff_disj disj_assoc disj_commute disj_left_commute)

text \<open>
  The minute's line tells the truth: it counts every request served, turned away and
  timed out, and a minute gets its line exactly when the prompter played in it, something was
  turned away or timed out, or some request waited or took 50 ms or more.
\<close>

theorem minute_tells_the_truth:
  "presses_served (minute_of es) + displays_served (minute_of es) + other_served (minute_of es)
     = length (filter is_served es)
   \<and> turned_away (minute_of es) = count_list es TurnedAway
   \<and> timed_out (minute_of es) = count_list es TimedOutRequest
   \<and> (worth_a_line (minute_of es) played \<longleftrightarrow>
        played \<or> TurnedAway \<in> set es \<or> TimedOutRequest \<in> set es
        \<or> (\<exists>e \<in> set es. from_millis 50 \<le> waited_of e \<or> from_millis 50 \<le> handled_of e))"
  using minute_counts [of es] minute_longest [of es]
  by (auto simp: worth_a_line_def SLOW_def fold_max_ge count_list_0_iff)

definition heard_after :: "(string \<times> instant) list \<Rightarrow> heard" where
  "heard_after asks = fold (\<lambda>(db, moment). note_deck_heard db moment) asks Map.empty"

lemma heard_after_snoc: "heard_after (ns @ [(d, t)]) = note_deck_heard d t (heard_after ns)"
  by (simp add: heard_after_def)

lemma heard_after_max:
  "(heard_after asks db = None \<longleftrightarrow> (\<forall>t. (db, t) \<notin> set asks))
   \<and> (\<forall>u. heard_after asks db = Some u \<longrightarrow> (db, u) \<in> set asks \<and> (\<forall>t. (db, t) \<in> set asks \<longrightarrow> t \<le> u))"
proof (induction asks rule: rev_induct)
  case Nil
  then show ?case by (simp add: heard_after_def)
next
  case (snoc n ns)
  obtain d t where n: "n = (d, t)" by (cases n)
  from snoc.IH show ?case
    by (cases "heard_after ns d") (auto simp: n heard_after_snoc note_deck_heard_def, meson le_trans less_imp_le)
qed

text \<open>
  Whether the deck is heard depends on the requests alone, not on the order their
  workers noted them in: within 5 s of any request that carried the token the deck is heard,
  and otherwise it is not; another saved data's requests do not count.
\<close>

theorem deck_heard_by_any_request:
  "deck_heard_lately db now (heard_after asks) \<longleftrightarrow>
     (\<exists>t. (db, t) \<in> set asks \<and> since t now < from_secs 5)"
proof (cases "heard_after asks db")
  case None
  then show ?thesis using heard_after_max [of asks db] by (auto simp: deck_heard_lately_def deck_heard_age_def)
next
  case (Some u)
  then have u: "(db, u) \<in> set asks" "\<And>t. (db, t) \<in> set asks \<Longrightarrow> t \<le> u"
    using heard_after_max [of asks db] by auto
  have lately: "deck_heard_lately db now (heard_after asks) \<longleftrightarrow> since u now < from_secs 5"
    using Some by (simp add: deck_heard_lately_def deck_heard_age_def DECK_QUIET_AFTER_def)
  have "since u now < from_secs 5" if "(db, t) \<in> set asks" "since t now < from_secs 5" for t
    using u(2) [OF that(1)] that(2) by (simp add: since_def)
  with u(1) show ?thesis unfolding lately by blast
qed

end
