(* ===== verification/Bridge_Tally.thy ===== *)
theory Bridge_Tally
  imports Btree_Map
begin

text \<open>
  What the bridge counts instead of writing (\<open>control_surface_http/tally.rs\<close> and the refused
  keys of \<open>control_surface_http.rs\<close>): the log lines of one kind, one an interval at most,
  each counting those between. The interface \<open>line_tally\<close> is the contract both tallies keep
  while nothing is dropped from them; the refused keys' tally is cleared at 256 keys.
\<close>

section \<open>Lines of one kind\<close>

definition REJECTION_LOG_INTERVAL :: duration where
  "REJECTION_LOG_INTERVAL = from_secs 60"

record tally =
  last_written :: instant
  unwritten :: nat

definition tally_line_due ::
  "('k \<rightharpoonup> tally) \<Rightarrow> 'k \<Rightarrow> instant \<Rightarrow> nat option \<times> ('k \<rightharpoonup> tally)" where
  "tally_line_due tallies key now =
     (case tallies key of
        Some t \<Rightarrow>
          if since (last_written t) now < REJECTION_LOG_INTERVAL
          then (None, tallies(key \<mapsto> t\<lparr>unwritten := unwritten t + 1\<rparr>))
          else (Some (unwritten t), tallies(key \<mapsto> \<lparr>last_written = now, unwritten = 0\<rparr>))
      | None \<Rightarrow> (Some 0, tallies(key \<mapsto> \<lparr>last_written = now, unwritten = 0\<rparr>)))"

section \<open>Refused keys\<close>

definition REFUSED_KEY_LOG_INTERVAL :: duration where
  "REFUSED_KEY_LOG_INTERVAL = from_secs 1"

type_synonym refused_keys = "(string, instant option \<times> nat) btree"

definition refused_key_due :: "refused_keys \<Rightarrow> string \<Rightarrow> instant \<Rightarrow> nat option \<times> refused_keys" where
  "refused_key_due refused key moment =
     (let kept = (if 256 \<le> length refused then [] else refused);
          entry = (case bt_get kept key of Some e \<Rightarrow> e | None \<Rightarrow> (None, 0))
      in if (case fst entry of Some prev \<Rightarrow> since prev moment < REFUSED_KEY_LOG_INTERVAL | None \<Rightarrow> False)
         then (None, bt_insert key (fst entry, snd entry + 1) kept)
         else (Some (snd entry), bt_insert key (Some moment, 0) kept))"

section \<open>What a tally promises\<close>

text \<open>The lines a sequence of events leaves: each with its key, its moment and its count.\<close>

fun lines_run ::
  "('s \<Rightarrow> 'k \<Rightarrow> instant \<Rightarrow> nat option \<times> 's) \<Rightarrow> 's \<Rightarrow> ('k \<times> instant) list
     \<Rightarrow> ('k \<times> instant \<times> nat) list \<times> 's" where
  "lines_run due s [] = ([], s)"
| "lines_run due s ((k, t) # es) =
     (let (answer, s') = due s k t; (ls, s'') = lines_run due s' es
      in ((case answer of Some n \<Rightarrow> (k, t, n) # ls | None \<Rightarrow> ls), s''))"

fun steady_run ::
  "('s \<Rightarrow> 'k \<Rightarrow> instant \<Rightarrow> nat option \<times> 's) \<Rightarrow> ('s \<Rightarrow> bool) \<Rightarrow> 's \<Rightarrow> ('k \<times> instant) list \<Rightarrow> bool" where
  "steady_run due steady s [] = True"
| "steady_run due steady s ((k, t) # es) = (steady s \<and> steady_run due steady (snd (due s k t)) es)"

definition lines_of :: "'k \<Rightarrow> ('k \<times> instant \<times> nat) list \<Rightarrow> (instant \<times> nat) list" where
  "lines_of k ls = map snd (filter (\<lambda>l. fst l = k) ls)"

definition events_of :: "'k \<Rightarrow> ('k \<times> instant) list \<Rightarrow> nat" where
  "events_of k es = length (filter (\<lambda>e. fst e = k) es)"

definition spaced :: "duration \<Rightarrow> (instant \<times> nat) list \<Rightarrow> bool" where
  "spaced d = sorted_wrt (\<lambda>a b. fst a + d \<le> fst b)"

locale line_tally =
  fixes due :: "'s \<Rightarrow> 'k \<Rightarrow> instant \<Rightarrow> nat option \<times> 's"
    and tallied :: "'s \<Rightarrow> 'k \<Rightarrow> (instant \<times> nat) option"
    and interval :: duration
    and steady :: "'s \<Rightarrow> bool"
  assumes interval_pos: "0 < interval"
    and due_answer: "steady s \<Longrightarrow> fst (due s k t) =
      (case tallied s k of
         None \<Rightarrow> Some 0
       | Some (prev, n) \<Rightarrow> if since prev t < interval then None else Some n)"
    and due_tallied: "steady s \<Longrightarrow> tallied (snd (due s k t)) =
      (tallied s)(k \<mapsto> (case fst (due s k t) of
         Some _ \<Rightarrow> (t, 0)
       | None \<Rightarrow> (case tallied s k of Some (prev, n) \<Rightarrow> (prev, Suc n) | None \<Rightarrow> (t, 0))))"
begin

definition pending :: "'s \<Rightarrow> 'k \<Rightarrow> nat" where
  "pending s k = (case tallied s k of Some (_, n) \<Rightarrow> n | None \<Rightarrow> 0)"

lemma one_step:
  assumes "steady s"
  shows "(k' = k \<longrightarrow> pending s k' + 1 =
            (case fst (due s k t) of Some n \<Rightarrow> Suc n | None \<Rightarrow> 0) + pending (snd (due s k t)) k')
       \<and> (k' \<noteq> k \<longrightarrow> tallied (snd (due s k t)) k' = tallied s k')"
  using due_answer [OF assms, of k t] due_tallied [OF assms, of k t]
  by (auto simp: pending_def split: option.splits prod.splits if_splits)

lemma nothing_uncounted:
  assumes "steady_run due steady s es"
  shows "pending s k + events_of k es =
     length (lines_of k (fst (lines_run due s es)))
     + sum_list (map snd (lines_of k (fst (lines_run due s es))))
     + pending (snd (lines_run due s es)) k"
  using assms
proof (induction es arbitrary: s)
  case Nil
  then show ?case by (simp add: lines_of_def events_of_def)
next
  case (Cons e es)
  obtain k' t where e: "e = (k', t)" by (cases e)
  obtain r s' where d: "due s k' t = (r, s')" by (cases "due s k' t")
  obtain ls s'' where l: "lines_run due s' es = (ls, s'')" by (cases "lines_run due s' es")
  from Cons.prems e d have st: "steady s" and run: "steady_run due steady s' es" by auto
  from Cons.IH [OF run] l have ih: "pending s' k + events_of k es =
      length (lines_of k ls) + sum_list (map snd (lines_of k ls)) + pending s'' k" by simp
  have step: "(k = k' \<longrightarrow> pending s k + 1 = (case r of Some n \<Rightarrow> Suc n | None \<Rightarrow> 0) + pending s' k)
      \<and> (k \<noteq> k' \<longrightarrow> tallied s' k = tallied s k)"
    using one_step [OF st, of k k' t] d by simp
  show ?case
    using ih step e d l by (cases "k = k'"; cases r) (auto simp: lines_of_def events_of_def pending_def)
qed

definition previous :: "'s \<Rightarrow> 'k \<Rightarrow> instant option" where
  "previous s k = map_option fst (tallied s k)"

lemma one_line:
  assumes "steady s" and "due s k' t = (r, s')"
  shows "(k = k' \<and> r \<noteq> None \<longrightarrow> previous s' k = Some t \<and> (\<forall>p. previous s k = Some p \<longrightarrow> p + interval \<le> t))
       \<and> (k \<noteq> k' \<or> r = None \<longrightarrow> previous s' k = previous s k)"
  using due_answer [OF assms(1), of k' t] due_tallied [OF assms(1), of k' t] assms(2) interval_pos
  by (auto simp: previous_def since_def split: option.splits prod.splits if_splits)

lemma lines_spaced:
  assumes "steady_run due steady s es"
  shows "spaced interval (lines_of k (fst (lines_run due s es)))
     \<and> (\<forall>p. previous s k = Some p \<longrightarrow>
          (\<forall>l \<in> set (lines_of k (fst (lines_run due s es))). p + interval \<le> fst l))"
  using assms
proof (induction es arbitrary: s)
  case Nil
  then show ?case by (simp add: lines_of_def spaced_def)
next
  case (Cons e es)
  obtain k' t where e: "e = (k', t)" by (cases e)
  obtain r s' where d: "due s k' t = (r, s')" by (cases "due s k' t")
  obtain ls s'' where l: "lines_run due s' es = (ls, s'')" by (cases "lines_run due s' es")
  from Cons.prems e d have st: "steady s" and run: "steady_run due steady s' es" by auto
  have ih: "spaced interval (lines_of k ls)"
      "\<And>p l. previous s' k = Some p \<Longrightarrow> l \<in> set (lines_of k ls) \<Longrightarrow> p + interval \<le> fst l"
    using Cons.IH [OF run] l by auto
  note step = one_line [OF st d, of k]
  show ?case
  proof (cases "k = k' \<and> r \<noteq> None")
    case False
    then have "lines_of k (fst (lines_run due s (e # es))) = lines_of k ls"
      using e d l by (auto simp: lines_of_def split: option.splits)
    then show ?thesis using ih step False by auto
  next
    case True
    then obtain n where r: "r = Some n" by auto
    have lines: "lines_of k (fst (lines_run due s (e # es))) = (t, n) # lines_of k ls"
      using e d l r True by (simp add: lines_of_def)
    have p: "previous s' k = Some t" "\<And>p. previous s k = Some p \<Longrightarrow> p + interval \<le> t"
      using step True by auto
    have rest: "t + interval \<le> fst x" if "x \<in> set (lines_of k ls)" for x
      using ih(2) [OF p(1) that] .
    have "spaced interval ((t, n) # lines_of k ls)" using ih(1) rest by (simp add: spaced_def)
    moreover have "q + interval \<le> fst x" if "previous s k = Some q" "x \<in> set ((t, n) # lines_of k ls)" for q x
      using p(2) [OF that(1)] that(2) rest [of x] by auto
    ultimately show ?thesis unfolding lines by blast
  qed
qed

end

section \<open>The bridge's two tallies\<close>

lemma steady_run_always [simp]: "steady_run due (\<lambda>_. True) s es"
  by (induction es arbitrary: s) auto

definition tally_view :: "('k \<rightharpoonup> tally) \<Rightarrow> 'k \<Rightarrow> (instant \<times> nat) option" where
  "tally_view m k = map_option (\<lambda>t. (last_written t, unwritten t)) (m k)"

interpretation rejection_lines:
  line_tally tally_line_due tally_view REJECTION_LOG_INTERVAL "\<lambda>_. True"
  by unfold_locales
    (auto simp: tally_line_due_def tally_view_def REJECTION_LOG_INTERVAL_def fun_eq_iff split: option.split)

definition refused_view :: "refused_keys \<Rightarrow> string \<Rightarrow> (instant \<times> nat) option" where
  "refused_view m k = (case bt_get m k of Some (Some prev, n) \<Rightarrow> Some (prev, n) | _ \<Rightarrow> None)"

definition refused_inv :: "refused_keys \<Rightarrow> bool" where
  "refused_inv m \<longleftrightarrow> bt_inv m \<and> list_all (\<lambda>e. fst (snd e) \<noteq> None) m"

definition refused_steady :: "refused_keys \<Rightarrow> bool" where
  "refused_steady m \<longleftrightarrow> refused_inv m \<and> length m < 256"

lemma refused_inv_entry: "refused_inv m \<Longrightarrow> bt_get m k = Some e \<Longrightarrow> fst e \<noteq> None"
  using bt_get_in [of m k e] by (fastforce simp: refused_inv_def list_all_iff)

lemma bt_insert_all:
  "list_all P m \<Longrightarrow> P (k, v) \<Longrightarrow> list_all P (bt_insert k v m)"
  by (induction k v m rule: bt_insert.induct) auto

lemma refused_inv_insert: "refused_inv m \<Longrightarrow> refused_inv (bt_insert k (Some t, n) m)"
  by (simp add: refused_inv_def bt_insert_all)

lemma refused_key_due_cases:
  assumes "refused_steady m"
  shows "refused_key_due m k t =
    (case refused_view m k of
       None \<Rightarrow> (Some 0, bt_insert k (Some t, 0) m)
     | Some (prev, n) \<Rightarrow>
         if since prev t < REFUSED_KEY_LOG_INTERVAL then (None, bt_insert k (Some prev, Suc n) m)
         else (Some n, bt_insert k (Some t, 0) m))"
proof (cases "bt_get m k")
  case None
  with assms show ?thesis by (simp add: refused_key_due_def refused_view_def refused_steady_def)
next
  case (Some e)
  moreover from Some assms have "fst e \<noteq> None" by (auto simp: refused_steady_def dest: refused_inv_entry)
  ultimately show ?thesis using assms
    by (cases e) (auto simp: refused_key_due_def refused_view_def refused_steady_def)
qed

lemma refused_view_insert:
  "refused_inv m \<Longrightarrow> refused_view (bt_insert k (Some t, n) m) = (refused_view m)(k \<mapsto> (t, n))"
  by (auto simp: refused_view_def fun_eq_iff refused_inv_def)

interpretation refused_lines:
  line_tally refused_key_due refused_view REFUSED_KEY_LOG_INTERVAL refused_steady
proof unfold_locales
  show "0 < REFUSED_KEY_LOG_INTERVAL" by (simp add: REFUSED_KEY_LOG_INTERVAL_def)
  fix m k t
  assume st: "refused_steady m"
  show "fst (refused_key_due m k t) =
      (case refused_view m k of
         None \<Rightarrow> Some 0
       | Some (prev, n) \<Rightarrow> if since prev t < REFUSED_KEY_LOG_INTERVAL then None else Some n)"
    by (simp add: refused_key_due_cases [OF st] split: option.split prod.split)
  from st have "refused_inv m" by (simp add: refused_steady_def)
  then show "refused_view (snd (refused_key_due m k t)) =
      (refused_view m)(k \<mapsto> (case fst (refused_key_due m k t) of
         Some _ \<Rightarrow> (t, 0)
       | None \<Rightarrow> (case refused_view m k of Some (prev, n) \<Rightarrow> (prev, Suc n) | None \<Rightarrow> (t, 0))))"
    by (simp add: refused_key_due_cases [OF st] refused_view_insert split: option.split prod.split)
qed

section \<open>The refused keys' tally over a run\<close>

lemma bt_insert_length: "length (bt_insert k v m) \<le> Suc (length m)"
  by (induction k v m rule: bt_insert.induct) auto

lemma if_insert:
  "(if c then bt_insert k v m else bt_insert k w m) = bt_insert k (if c then v else w) m"
  by simp

lemma refused_key_due_inserts:
  "\<exists>v. snd (refused_key_due m k t) = bt_insert k v (if 256 \<le> length m then [] else m)"
  unfolding refused_key_due_def Let_def if_distrib [of snd] snd_conv by (rule exI, rule if_insert)

lemma refused_key_due_small: "length (snd (refused_key_due m k t)) \<le> 256"
proof -
  define kept where "kept = (if 256 \<le> length m then [] else m)"
  then have "length kept < 256" by simp
  moreover obtain v where "snd (refused_key_due m k t) = bt_insert k v kept"
    unfolding kept_def using refused_key_due_inserts by blast
  ultimately show ?thesis using bt_insert_length [of k v kept] by simp
qed

lemma lines_run_state: "snd (lines_run due m ((k, t) # es)) = snd (lines_run due (snd (due m k t)) es)"
  by (simp add: case_prod_beta)

lemma refused_run_small:
  "length m \<le> 256 \<Longrightarrow> length (snd (lines_run refused_key_due m es)) \<le> 256"
proof (induction es arbitrary: m)
  case Nil
  then show ?case by simp
next
  case (Cons e es)
  obtain k t where e: "e = (k, t)" by (cases e)
  show ?case unfolding e lines_run_state by (rule Cons.IH [OF refused_key_due_small])
qed

lemma refused_inv_length:
  assumes "refused_inv m" and "fst ` set m \<subseteq> K" and "finite K"
  shows "length m \<le> card K"
proof -
  have "length m = card (fst ` set m)"
    using assms(1) bt_inv_distinct [of m] distinct_card [of "map fst m"] by (simp add: refused_inv_def)
  also have "\<dots> \<le> card K" using assms(2,3) by (rule card_mono [rotated])
  finally show ?thesis .
qed

lemma refused_run_steady:
  assumes "finite K" and "card K < 256" and "fst ` set es \<subseteq> K" and "refused_inv m" and "fst ` set m \<subseteq> K"
  shows "steady_run refused_key_due refused_steady m es"
  using assms(3-)
proof (induction es arbitrary: m)
  case Nil
  then show ?case by simp
next
  case (Cons e es)
  obtain k t where e: "e = (k, t)" by (cases e)
  have st: "refused_steady m"
    using refused_inv_length [OF Cons.prems(2,3) assms(1)] Cons.prems(2) assms(2)
    by (simp add: refused_steady_def)
  have keys: "fst ` set (bt_insert k v m) \<subseteq> K" for v
    using Cons.prems(1,3) e bt_insert_keys [of k v m] by auto
  have "\<exists>u n. snd (refused_key_due m k t) = bt_insert k (Some u, n) m"
    by (auto simp: refused_key_due_cases [OF st] split: option.split)
  then obtain u n where "snd (refused_key_due m k t) = bt_insert k (Some u, n) m" by blast
  then have "refused_inv (snd (refused_key_due m k t)) \<and> fst ` set (snd (refused_key_due m k t)) \<subseteq> K"
    using Cons.prems(2) refused_inv_insert keys by simp
  with Cons.IH Cons.prems(1) st e show ?case by simp
qed

section \<open>What the log gets\<close>

text \<open>
  A flood of refused requests is no flood of log lines, and none goes uncounted: of
  each status, two lines are at least a minute apart, and the lines, the counts they carry
  and the count still pending add up to the refusals there were.
\<close>

theorem rejections_logged_once_a_minute:
  fixes status :: nat and es
  defines "run \<equiv> lines_run tally_line_due Map.empty es"
  shows "spaced (from_secs 60) (lines_of status (fst run))
     \<and> events_of status es = length (lines_of status (fst run))
         + sum_list (map snd (lines_of status (fst run)))
         + (case snd run status of Some t \<Rightarrow> unwritten t | None \<Rightarrow> 0)"
proof
  show "spaced (from_secs 60) (lines_of status (fst run))"
    using rejection_lines.lines_spaced [of Map.empty es status]
    by (simp add: run_def REJECTION_LOG_INTERVAL_def)
  show "events_of status es = length (lines_of status (fst run))
         + sum_list (map snd (lines_of status (fst run)))
         + (case snd run status of Some t \<Rightarrow> unwritten t | None \<Rightarrow> 0)"
    using rejection_lines.nothing_uncounted [of Map.empty es status]
    by (auto simp: run_def rejection_lines.pending_def tally_view_def split: option.splits)
qed

text \<open>
  The refused keys' tally stays small whatever a client names, and while it is never
  full, which fewer than 256 different keys cannot make it, a key's lines are a second
  apart and every refusal of it is written or counted.
\<close>

theorem refused_keys_logged_once_a_second:
  fixes key and es and any
  assumes "card (fst ` set es) < 256"
  defines "run \<equiv> lines_run refused_key_due [] es"
  shows "spaced (from_secs 1) (lines_of key (fst run))
     \<and> events_of key es = length (lines_of key (fst run))
         + sum_list (map snd (lines_of key (fst run)))
         + (case refused_view (snd run) key of Some (_, n) \<Rightarrow> n | None \<Rightarrow> 0)
     \<and> length (snd (lines_run refused_key_due [] any)) \<le> 256"
proof (intro conjI)
  have steady: "steady_run refused_key_due refused_steady [] es"
    by (rule refused_run_steady [OF _ assms(1)]) (simp_all add: refused_inv_def)
  show "spaced (from_secs 1) (lines_of key (fst run))"
    using refused_lines.lines_spaced [OF steady, of key]
    by (simp add: run_def REFUSED_KEY_LOG_INTERVAL_def)
  have "refused_view [] key = None" by (simp add: refused_view_def)
  then show "events_of key es = length (lines_of key (fst run))
         + sum_list (map snd (lines_of key (fst run)))
         + (case refused_view (snd run) key of Some (_, n) \<Rightarrow> n | None \<Rightarrow> 0)"
    using refused_lines.nothing_uncounted [OF steady, of key] by (simp add: run_def refused_lines.pending_def)
  show "length (snd (lines_run refused_key_due [] any)) \<le> 256"
    by (rule refused_run_small) simp
qed

theorem refused_keys_logged_once_a_second_witness:
  "let es = [(''camera-action rec'', 0), (''camera-action rec'', 5)]
   in events_of ''camera-action rec'' es = 2
      \<and> lines_of ''camera-action rec'' (fst (lines_run refused_key_due [] es)) = [(0, 0)]
      \<and> refused_view (snd (lines_run refused_key_due [] es)) ''camera-action rec'' = Some (0, 1)"
proof -
  let ?es = "[(''camera-action rec'', 0), (''camera-action rec'', 5 :: nat)]"
  have run: "lines_run refused_key_due [] ?es
      = ([(''camera-action rec'', 0, 0)], [(''camera-action rec'', Some 0, 1)])"
    by (simp add: refused_key_due_def Let_def bt_get_def since_def REFUSED_KEY_LOG_INTERVAL_def)
  have "card (fst ` set ?es) < 256" by simp
  from refused_keys_logged_once_a_second [OF this, of "''camera-action rec''" "[]"]
  show ?thesis unfolding Let_def run by (simp add: lines_of_def refused_view_def bt_get_def)
qed

end
