(* ===== verification/Bridge_Pool.thy ===== *)
theory Bridge_Pool
  imports Prelude
begin

text \<open>
  The bridge's queue (\<open>control_surface_pool.rs\<close>): the unread connections and the parked
  reads, the room kept for presses, and what a worker is handed next. A connection is of
  a type \<open>'c\<close> and a parked read of a type \<open>'r\<close>. Every operation holds the queue's one
  mutex from its first line to its last, so each is one function of the lines; \<open>next\<close>
  waits on the condition variable when nothing is there, and its one pass under the lock
  is \<open>pool_next\<close>, whose \<open>None\<close> is that wait. Last, the workers around the queue: what is
  queued never waits while every worker sleeps.
\<close>

section \<open>The queue and its operations\<close>

text \<open>What a worker is handed next.\<close>

datatype ('c, 'r) handed = Unread 'c instant | Parked 'r | Closed

record ('c, 'r) lines =
  unread :: "('c \<times> instant) list"
  parked :: "('r \<times> instant) list"
  lines_closed :: bool

definition lines_depth :: "('c, 'r) lines \<Rightarrow> nat" where
  "lines_depth l = length (unread l) + length (parked l)"

record ('c, 'r) pool =
  pool_lines :: "('c, 'r) lines"
  capacity :: nat
  reserve :: nat
  parked_at_most :: duration

definition pool_new :: "nat \<Rightarrow> nat \<Rightarrow> duration \<Rightarrow> ('c, 'r) pool" where
  "pool_new cap res at_most =
     \<lparr>pool_lines = \<lparr>unread = [], parked = [], lines_closed = False\<rparr>,
      capacity = max cap 1, reserve = res, parked_at_most = at_most\<rparr>"

definition pool_depth :: "('c, 'r) pool \<Rightarrow> nat" where
  "pool_depth p = lines_depth (pool_lines p)"

text \<open>\<open>Err(stream)\<close> gives the connection back; \<open>Ok(depth)\<close> comes with the pool after it.\<close>

definition queue :: "('c, 'r) pool \<Rightarrow> 'c \<Rightarrow> instant \<Rightarrow> nat \<Rightarrow> 'c + (('c, 'r) pool \<times> nat)" where
  "queue p stream arrived room =
     (let l = pool_lines p
      in if lines_depth l \<ge> room then Inl stream
         else (let l' = l\<lparr>unread := unread l @ [(stream, arrived)]\<rparr>
               in Inr (p\<lparr>pool_lines := l'\<rparr>, lines_depth l')))"

definition offer :: "('c, 'r) pool \<Rightarrow> 'c \<Rightarrow> instant \<Rightarrow> 'c + (('c, 'r) pool \<times> nat)" where
  "offer p stream arrived = queue p stream arrived (capacity p)"

definition offer_press :: "('c, 'r) pool \<Rightarrow> 'c \<Rightarrow> instant \<Rightarrow> 'c + (('c, 'r) pool \<times> nat)" where
  "offer_press p stream arrived = queue p stream arrived (capacity p + reserve p)"

definition park :: "('c, 'r) pool \<Rightarrow> 'r \<Rightarrow> instant \<Rightarrow> ('c, 'r) pool" where
  "park p r now =
     p\<lparr>pool_lines := (pool_lines p)\<lparr>parked := parked (pool_lines p) @ [(r, now)]\<rparr>\<rparr>"

definition overdue :: "('c, 'r) pool \<Rightarrow> instant \<Rightarrow> bool" where
  "overdue p now =
     (case parked (pool_lines p) of
        [] \<Rightarrow> False
      | (_, parked_at) # _ \<Rightarrow> parked_at_most p \<le> since parked_at now)"

definition pool_next ::
  "('c, 'r) pool \<Rightarrow> instant \<Rightarrow> (('c, 'r) handed \<times> ('c, 'r) pool) option" where
  "pool_next p now =
     (let l = pool_lines p;
          take_parked =
            (case pop_front (parked l) of
               Some ((read, _), rest) \<Rightarrow>
                 Some (Parked read, p\<lparr>pool_lines := l\<lparr>parked := rest\<rparr>\<rparr>)
             | None \<Rightarrow> if lines_closed l then Some (Closed, p) else None)
      in if overdue p now then take_parked
         else (case pop_front (unread l) of
                 Some ((stream, arrived), rest) \<Rightarrow>
                   Some (Unread stream arrived, p\<lparr>pool_lines := l\<lparr>unread := rest\<rparr>\<rparr>)
               | None \<Rightarrow> take_parked))"

definition pool_close :: "('c, 'r) pool \<Rightarrow> ('c, 'r) pool" where
  "pool_close p = p\<lparr>pool_lines := (pool_lines p)\<lparr>lines_closed := True\<rparr>\<rparr>"

lemmas pool_defs = queue_def offer_def offer_press_def park_def pool_close_def
  pool_depth_def lines_depth_def Let_def

section \<open>What the operations do\<close>

definition waiting :: "('c, 'r) pool \<Rightarrow> 'c list" where
  "waiting p = map fst (unread (pool_lines p))"

definition parked_reads :: "('c, 'r) pool \<Rightarrow> 'r list" where
  "parked_reads p = map fst (parked (pool_lines p))"

definition press_room :: "('c, 'r) pool \<Rightarrow> nat" where
  "press_room p = capacity p + reserve p"

lemmas pool_view_defs = waiting_def parked_reads_def press_room_def

lemma pool_depth_views: "pool_depth p = length (waiting p) + length (parked_reads p)"
  by (simp add: pool_defs pool_view_defs)

lemma queue_full: "room \<le> pool_depth p \<Longrightarrow> queue p c t room = Inl c"
  by (simp add: pool_defs)

lemma queue_room: "pool_depth p < room \<Longrightarrow> \<exists>p'. queue p c t room = Inr (p', Suc (pool_depth p))"
  by (simp add: pool_defs)

lemma queue_Inr:
  assumes "queue p c t room = Inr (p', d)"
  shows "waiting p' = waiting p @ [c]" and "parked_reads p' = parked_reads p"
    and "pool_depth p' = Suc (pool_depth p)" and "d = Suc (pool_depth p)"
    and "pool_depth p < room"
    and "capacity p' = capacity p" and "reserve p' = reserve p"
    and "parked_at_most p' = parked_at_most p"
    and "lines_closed (pool_lines p') = lines_closed (pool_lines p)"
  using assms by (auto simp: pool_defs pool_view_defs split: if_splits)

lemma queue_Inl: "queue p c t room = Inl c' \<Longrightarrow> c' = c \<and> room \<le> pool_depth p"
  by (auto simp: pool_defs split: if_splits)

lemma park_views [simp]:
  "waiting (park p r t) = waiting p" "parked_reads (park p r t) = parked_reads p @ [r]"
  "pool_depth (park p r t) = Suc (pool_depth p)"
  "capacity (park p r t) = capacity p" "reserve (park p r t) = reserve p"
  "lines_closed (pool_lines (park p r t)) = lines_closed (pool_lines p)"
  by (simp_all add: pool_defs pool_view_defs)

lemma pool_close_views [simp]:
  "waiting (pool_close p) = waiting p" "parked_reads (pool_close p) = parked_reads p"
  "pool_depth (pool_close p) = pool_depth p" "capacity (pool_close p) = capacity p"
  "reserve (pool_close p) = reserve p" "lines_closed (pool_lines (pool_close p))"
  by (simp_all add: pool_defs pool_view_defs)

text \<open>The four ways a pass of \<open>next\<close> ends.\<close>

lemma pool_next_None:
  "pool_next p t = None \<longleftrightarrow> pool_depth p = 0 \<and> \<not> lines_closed (pool_lines p)"
  by (auto simp: pool_next_def overdue_def pool_defs split: list.splits option.splits)

lemma pool_next_Unread:
  "pool_next p t = Some (Unread c a, p') \<Longrightarrow>
     waiting p = c # waiting p' \<and> parked_reads p' = parked_reads p \<and> \<not> overdue p t
     \<and> capacity p' = capacity p \<and> reserve p' = reserve p
     \<and> lines_closed (pool_lines p') = lines_closed (pool_lines p)"
  by (auto simp: pool_next_def pool_view_defs Let_def
      split: if_splits option.splits)

lemma pool_next_Parked:
  "pool_next p t = Some (Parked r, p') \<Longrightarrow>
     parked_reads p = r # parked_reads p' \<and> waiting p' = waiting p
     \<and> (overdue p t \<or> waiting p = [])
     \<and> capacity p' = capacity p \<and> reserve p' = reserve p
     \<and> lines_closed (pool_lines p') = lines_closed (pool_lines p)"
  by (auto simp: pool_next_def pool_view_defs Let_def
      split: if_splits option.splits)

lemma pool_next_Closed:
  "pool_next p t = Some (Closed, p') \<Longrightarrow> p' = p \<and> pool_depth p = 0 \<and> lines_closed (pool_lines p)"
  by (auto simp: pool_next_def overdue_def pool_defs split: if_splits option.splits list.splits)

lemma pool_next_depth:
  "pool_next p t = Some (h, p') \<Longrightarrow> h \<noteq> Closed \<Longrightarrow> pool_depth p = Suc (pool_depth p')"
  by (cases h) (auto simp: pool_depth_views dest: pool_next_Unread pool_next_Parked)

lemma pool_next_overdue:
  "overdue p t \<Longrightarrow> \<exists>p'. pool_next p t = Some (Parked (hd (parked_reads p)), p')"
  by (auto simp: pool_next_def overdue_def pool_view_defs Let_def split: list.splits)

section \<open>The intake: the interface the overflow relies on\<close>

text \<open>
  What the acceptor and the overflow thread use of a queue: connections queued in order,
  a refusal exactly when there is no room, and never less room for a press than for the rest.
\<close>

locale intake =
  fixes take_in :: "'p \<Rightarrow> 'c \<Rightarrow> instant \<Rightarrow> 'c + ('p \<times> nat)"
    and take_press :: "'p \<Rightarrow> 'c \<Rightarrow> instant \<Rightarrow> 'c + ('p \<times> nat)"
    and depth :: "'p \<Rightarrow> nat"
    and room :: "'p \<Rightarrow> nat"
    and room_for_presses :: "'p \<Rightarrow> nat"
    and line :: "'p \<Rightarrow> 'c list"
  assumes take_in_cases:
      "(room p \<le> depth p \<and> take_in p c t = Inl c) \<or>
       (depth p < room p \<and> (\<exists>p'. take_in p c t = Inr (p', Suc (depth p))))"
    and take_press_cases:
      "(room_for_presses p \<le> depth p \<and> take_press p c t = Inl c) \<or>
       (depth p < room_for_presses p \<and> (\<exists>p'. take_press p c t = Inr (p', Suc (depth p))))"
    and taken_in:
      "take_in p c t = Inr (p', d) \<Longrightarrow>
         line p' = line p @ [c] \<and> depth p' = Suc (depth p)
         \<and> room p' = room p \<and> room_for_presses p' = room_for_presses p"
    and taken_press:
      "take_press p c t = Inr (p', d) \<Longrightarrow>
         line p' = line p @ [c] \<and> depth p' = Suc (depth p)
         \<and> room p' = room p \<and> room_for_presses p' = room_for_presses p"
    and room_le: "room p \<le> room_for_presses p"
begin

lemma refused: "take_in p c t = Inl c' \<Longrightarrow> c' = c \<and> room p \<le> depth p"
  using take_in_cases [of p c t] by auto

lemma refused_press: "take_press p c t = Inl c' \<Longrightarrow> c' = c \<and> room_for_presses p \<le> depth p"
  using take_press_cases [of p c t] by auto

lemma in_after: "take_in p c t = Inr (p', d) \<Longrightarrow> line p' = line p @ [c] \<and> d = depth p' \<and> d \<le> room p'"
  using take_in_cases [of p c t] taken_in [of p c t p' d] by auto

lemma press_after:
  "take_press p c t = Inr (p', d) \<Longrightarrow> line p' = line p @ [c] \<and> d = depth p' \<and> d \<le> room_for_presses p'"
  using take_press_cases [of p c t] taken_press [of p c t p' d] by auto

text \<open>A press refused by both is refused with every slot kept for presses taken.\<close>

lemma press_gets_a_slot:
  "take_in p c t = Inl c' \<Longrightarrow> depth p < room_for_presses p \<Longrightarrow> \<exists>p'. take_press p c' t = Inr (p', Suc (depth p))"
  using take_press_cases [of p c t] refused [of p c t c'] by auto

end

interpretation bridge_queue: intake offer offer_press pool_depth capacity press_room waiting
proof
  fix p :: "('c, 'r) pool" and c t
  show "(capacity p \<le> pool_depth p \<and> offer p c t = Inl c) \<or>
      (pool_depth p < capacity p \<and> (\<exists>p'. offer p c t = Inr (p', Suc (pool_depth p))))"
    by (metis offer_def queue_full queue_room not_le)
  show "(press_room p \<le> pool_depth p \<and> offer_press p c t = Inl c) \<or>
      (pool_depth p < press_room p \<and> (\<exists>p'. offer_press p c t = Inr (p', Suc (pool_depth p))))"
    by (metis offer_press_def press_room_def queue_full queue_room not_le)
qed (auto simp: offer_def offer_press_def press_room_def queue_Inr)

section \<open>A run of the queue drained after its close\<close>

text \<open>Calls of \<open>next\<close> at the moments given, until one would wait.\<close>

fun hand_out :: "('c, 'r) pool \<Rightarrow> instant list \<Rightarrow> ('c, 'r) handed list \<times> ('c, 'r) pool" where
  "hand_out p [] = ([], p)"
| "hand_out p (t # ts) =
     (case pool_next p t of
        None \<Rightarrow> ([], p)
      | Some (h, p') \<Rightarrow> (let (hs, q) = hand_out p' ts in (h # hs, q)))"

definition connections_of :: "('c, 'r) handed list \<Rightarrow> 'c list" where
  "connections_of hs = concat (map (\<lambda>h. case h of Unread c _ \<Rightarrow> [c] | _ \<Rightarrow> []) hs)"

definition reads_of :: "('c, 'r) handed list \<Rightarrow> 'r list" where
  "reads_of hs = concat (map (\<lambda>h. case h of Parked r \<Rightarrow> [r] | _ \<Rightarrow> []) hs)"

lemma handed_of_simps [simp]:
  "connections_of [] = []" "reads_of [] = []"
  "connections_of (Unread c a # hs) = c # connections_of hs"
  "connections_of (Parked r # hs) = connections_of hs"
  "connections_of (Closed # hs) = connections_of hs"
  "reads_of (Unread c a # hs) = reads_of hs"
  "reads_of (Parked r # hs) = r # reads_of hs"
  "reads_of (Closed # hs) = reads_of hs"
  by (simp_all add: connections_of_def reads_of_def)

lemma hand_out_accounts:
  "hand_out p ts = (hs, q) \<Longrightarrow>
     waiting p = connections_of hs @ waiting q \<and> parked_reads p = reads_of hs @ parked_reads q"
proof (induction ts arbitrary: p hs)
  case Nil
  then show ?case by simp
next
  case (Cons t ts)
  show ?case
  proof (cases "pool_next p t")
    case None
    with Cons.prems show ?thesis by simp
  next
    case (Some hp)
    obtain h p' where hp: "hp = (h, p')" by fastforce
    with Some Cons.prems obtain hs' where hs: "hand_out p' ts = (hs', q)" "hs = h # hs'"
      by (auto split: prod.splits)
    from Cons.IH [OF hs(1)] hs(2) Some hp show ?thesis
      by (cases h) (auto dest: pool_next_Unread pool_next_Parked pool_next_Closed)
  qed
qed

lemma hand_out_drains:
  "lines_closed (pool_lines p) \<Longrightarrow> length ts = pool_depth p \<Longrightarrow>
     \<exists>hs q. hand_out p ts = (hs, q) \<and> pool_depth q = 0 \<and> lines_closed (pool_lines q)"
proof (induction ts arbitrary: p)
  case Nil
  then show ?case by auto
next
  case (Cons t ts)
  then obtain h p' where n: "pool_next p t = Some (h, p')"
    using pool_next_None [of p t] by fastforce
  with Cons.prems have "h \<noteq> Closed" by (auto dest: pool_next_Closed)
  with n Cons.prems have "pool_depth p' = length ts" "lines_closed (pool_lines p')"
    by (auto dest: pool_next_depth, cases h) (auto dest: pool_next_Unread pool_next_Parked)
  with Cons.IH [of p'] n show ?case by (auto split: prod.splits)
qed

text \<open>
  A closed queue hands out everything that waits before it says \<open>Closed\<close>: after as
  many calls of \<open>next\<close> as there are entries, at whatever moments, every connection was
  handed out in the order it was queued, every parked read in the order it was parked,
  and the next call answers \<open>Closed\<close>.
\<close>

theorem closed_queue_hands_out_all:
  assumes "lines_closed (pool_lines p)" and "length ts = pool_depth p"
  shows "\<exists>hs q. hand_out p ts = (hs, q) \<and> connections_of hs = waiting p
           \<and> reads_of hs = parked_reads p \<and> pool_next q t = Some (Closed, q)"
proof -
  obtain hs q where run: "hand_out p ts = (hs, q)" and q: "pool_depth q = 0" "lines_closed (pool_lines q)"
    using hand_out_drains [OF assms] by blast
  from q(1) have "waiting q = []" "parked_reads q = []" by (auto simp: pool_depth_views)
  with hand_out_accounts [OF run] have "connections_of hs = waiting p" "reads_of hs = parked_reads p"
    by auto
  moreover have "pool_next q t = Some (Closed, q)"
  proof -
    obtain h q' where n: "pool_next q t = Some (h, q')"
      using q pool_next_None [of q t] by fastforce
    with q(1) have "h = Closed" using pool_next_depth [OF n] by auto
    with n show ?thesis by (auto dest: pool_next_Closed)
  qed
  ultimately show ?thesis using run by blast
qed

theorem closed_queue_hands_out_all_witness:
  "\<exists>hs q. hand_out (pool_close (park (pool_new 8 2 9) ''lcd'' 3)) [5] = (hs, q)
     \<and> connections_of hs = (waiting (pool_close (park (pool_new 8 2 9) ''lcd'' 3)) :: nat list)
     \<and> reads_of hs = [''lcd''] \<and> pool_next q 7 = Some (Closed, q)"
  using closed_queue_hands_out_all [of "pool_close (park (pool_new 8 2 9) ''lcd'' 3) :: (nat, string) pool" "[5]" 7]
  by (simp add: pool_new_def pool_defs pool_view_defs)

section \<open>The workers around the queue\<close>

text \<open>
  \<open>next\<close> waits on the condition variable, \<open>offer\<close> and \<open>park\<close> notify one waiter and \<open>close\<close>
  notifies all. A worker looks (it is about to make a pass of \<open>next\<close>), holds a connection
  it was handed, sleeps on the condition variable, or has stopped at \<open>Closed\<close>; the
  condition variable may wake a sleeper for no reason.
\<close>

record ('c, 'r) crew =
  crew_pool :: "('c, 'r) pool"
  looking :: nat
  holding :: nat
  asleep :: nat
  stopped :: nat

definition notify_one :: "('c, 'r) crew \<Rightarrow> ('c, 'r) crew" where
  "notify_one s =
     (if asleep s = 0 then s else s\<lparr>asleep := asleep s - 1, looking := Suc (looking s)\<rparr>)"

definition notify_all :: "('c, 'r) crew \<Rightarrow> ('c, 'r) crew" where
  "notify_all s = s\<lparr>looking := looking s + asleep s, asleep := 0\<rparr>"

definition crew_start :: "nat \<Rightarrow> nat \<Rightarrow> nat \<Rightarrow> duration \<Rightarrow> ('c, 'r) crew" where
  "crew_start workers cap res at_most =
     \<lparr>crew_pool = pool_new cap res at_most, looking = workers, holding = 0, asleep = 0, stopped = 0\<rparr>"

inductive crew_step :: "('c, 'r) crew \<Rightarrow> ('c, 'r) crew \<Rightarrow> bool" where
  offered: "offer (crew_pool s) c t = Inr (p, d) \<Longrightarrow>
     crew_step s (notify_one (s\<lparr>crew_pool := p\<rparr>))"
| press_offered: "offer_press (crew_pool s) c t = Inr (p, d) \<Longrightarrow>
     crew_step s (notify_one (s\<lparr>crew_pool := p\<rparr>))"
| unread_taken: "0 < looking s \<Longrightarrow> pool_next (crew_pool s) t = Some (Unread c a, p) \<Longrightarrow>
     crew_step s (s\<lparr>crew_pool := p, looking := looking s - 1, holding := Suc (holding s)\<rparr>)"
| parked_taken: "0 < looking s \<Longrightarrow> pool_next (crew_pool s) t = Some (Parked r, p) \<Longrightarrow>
     crew_step s (s\<lparr>crew_pool := p\<rparr>)"
| answered: "0 < holding s \<Longrightarrow>
     crew_step s (s\<lparr>holding := holding s - 1, looking := Suc (looking s)\<rparr>)"
| read_parked: "0 < holding s \<Longrightarrow>
     crew_step s (notify_one (s\<lparr>crew_pool := park (crew_pool s) r t,
                                holding := holding s - 1, looking := Suc (looking s)\<rparr>))"
| falls_asleep: "0 < looking s \<Longrightarrow> pool_next (crew_pool s) t = None \<Longrightarrow>
     crew_step s (s\<lparr>looking := looking s - 1, asleep := Suc (asleep s)\<rparr>)"
| stops: "0 < looking s \<Longrightarrow> pool_next (crew_pool s) t = Some (Closed, p) \<Longrightarrow>
     crew_step s (s\<lparr>looking := looking s - 1, stopped := Suc (stopped s)\<rparr>)"
| closes: "crew_step s (notify_all (s\<lparr>crew_pool := pool_close (crew_pool s)\<rparr>))"
| wakes_alone: "0 < asleep s \<Longrightarrow>
     crew_step s (s\<lparr>asleep := asleep s - 1, looking := Suc (looking s)\<rparr>)"

inductive crew_reachable :: "('c, 'r) crew \<Rightarrow> ('c, 'r) crew \<Rightarrow> bool" for s0 where
  crew_begin: "crew_reachable s0 s0"
| crew_goes_on: "crew_reachable s0 s \<Longrightarrow> crew_step s s' \<Longrightarrow> crew_reachable s0 s'"

definition workers_of :: "('c, 'r) crew \<Rightarrow> nat" where
  "workers_of s = looking s + holding s + asleep s + stopped s"

text \<open>
  What every step keeps: no sleeper beside something that waits unless another worker is
  up, and an amount waiting that the room and the connections in hand bound.
\<close>

definition crew_inv :: "nat \<Rightarrow> nat \<Rightarrow> nat \<Rightarrow> ('c, 'r) crew \<Rightarrow> bool" where
  "crew_inv workers cap res s \<longleftrightarrow>
     workers_of s = workers \<and> capacity (crew_pool s) = cap \<and> reserve (crew_pool s) = res
     \<and> (0 < pool_depth (crew_pool s) \<longrightarrow> 0 < looking s + holding s \<or> asleep s = 0)
     \<and> (lines_closed (pool_lines (crew_pool s)) \<longrightarrow> asleep s = 0)
     \<and> pool_depth (crew_pool s) + holding s \<le> cap + res + workers"

lemmas crew_defs = crew_inv_def workers_of_def notify_one_def notify_all_def

lemma crew_inv_start: "crew_inv w (max cap 1) res (crew_start w cap res d)"
  by (simp add: crew_defs crew_start_def pool_new_def pool_defs)

lemma crew_step_inv: "crew_step s s' \<Longrightarrow> crew_inv w cap res s \<Longrightarrow> crew_inv w cap res s'"
proof (induction rule: crew_step.induct)
  case (offered s c t p d)
  from offered.hyps have q: "queue (crew_pool s) c t (capacity (crew_pool s)) = Inr (p, d)"
    by (simp add: offer_def)
  from queue_Inr [OF q] offered.prems show ?case
    by (auto simp: crew_defs)
next
  case (press_offered s c t p d)
  from press_offered.hyps
  have q: "queue (crew_pool s) c t (capacity (crew_pool s) + reserve (crew_pool s)) = Inr (p, d)"
    by (simp add: offer_press_def)
  from queue_Inr [OF q] press_offered.prems show ?case
    by (auto simp: crew_defs)
next
  case (unread_taken s t c a p)
  from pool_next_Unread [OF unread_taken.hyps(2)] pool_next_depth [OF unread_taken.hyps(2)]
    unread_taken.hyps(1) unread_taken.prems
  show ?case by (auto simp: crew_defs)
next
  case (parked_taken s t r p)
  from pool_next_Parked [OF parked_taken.hyps(2)] pool_next_depth [OF parked_taken.hyps(2)]
    parked_taken.hyps(1) parked_taken.prems
  show ?case by (auto simp: crew_defs)
next
  case (falls_asleep s t)
  then show ?case by (auto simp: crew_defs pool_next_None)
next
  case (stops s t p)
  then show ?case by (auto simp: crew_defs dest: pool_next_Closed)
qed (auto simp: crew_defs)

lemma crew_reachable_inv:
  "crew_reachable (crew_start w cap res d) s \<Longrightarrow> crew_inv w (max cap 1) res s"
  by (induction rule: crew_reachable.induct) (blast intro: crew_step_inv crew_inv_start)+

text \<open>A run of one worker: it falls asleep, and an offer wakes it.\<close>

lemma crew_example:
  "\<exists>s :: (nat, nat) crew. crew_reachable (crew_start 1 8 2 9) s \<and> pool_depth (crew_pool s) = 1"
proof -
  let ?s0 = "crew_start 1 8 2 9 :: (nat, nat) crew"
  let ?s1 = "?s0\<lparr>looking := looking ?s0 - 1, asleep := Suc (asleep ?s0)\<rparr>"
  have "crew_step ?s0 ?s1"
    by (rule crew_step.falls_asleep) (simp_all add: crew_start_def pool_next_None pool_new_def pool_defs)
  then have r1: "crew_reachable ?s0 ?s1"
    by (rule crew_reachable.crew_goes_on [OF crew_reachable.crew_begin])
  obtain p where p: "offer (crew_pool ?s1) 7 0 = Inr (p, 1)"
    by (simp add: crew_start_def pool_new_def pool_defs)
  from r1 crew_step.offered [OF p] have "crew_reachable ?s0 (notify_one (?s1\<lparr>crew_pool := p\<rparr>))"
    by (rule crew_reachable.crew_goes_on)
  moreover have "pool_depth p = 1"
    using bridge_queue.in_after [OF p] by simp
  ultimately show ?thesis by (force simp: notify_one_def)
qed

text \<open>
  C5. No wake-up is lost: in every state the workers and the queue can reach, if something
  waits in the queue, or the queue is closed, then not every worker that has not stopped
  is asleep.
\<close>

theorem no_lost_wakeup:
  assumes "crew_reachable (crew_start workers cap res d) s"
    and "0 < pool_depth (crew_pool s) \<or> lines_closed (pool_lines (crew_pool s))"
  shows "asleep s = 0 \<or> 0 < looking s + holding s"
  using crew_reachable_inv [OF assms(1)] assms(2) by (auto simp: crew_inv_def)

theorem no_lost_wakeup_witness:
  "\<exists>s :: (nat, nat) crew. crew_reachable (crew_start 1 8 2 9) s \<and> 0 < pool_depth (crew_pool s)
     \<and> (asleep s = 0 \<or> 0 < looking s + holding s)"
proof -
  obtain s :: "(nat, nat) crew"
    where "crew_reachable (crew_start 1 8 2 9) s" "pool_depth (crew_pool s) = 1"
    using crew_example by blast
  with no_lost_wakeup [of 1 8 2 9 s] show ?thesis by force
qed

text \<open>
  What waits is bounded: unread connections and parked reads together never exceed the
  capacity, the slots kept for presses and one parked read for each worker that holds no
  connection; the last because \<open>park\<close> never turns a read away.
\<close>

theorem queue_depth_bounded:
  assumes "crew_reachable (crew_start workers cap res d) s"
  shows "pool_depth (crew_pool s) + holding s \<le> max cap 1 + res + workers"
  using crew_reachable_inv [OF assms] by (simp add: crew_inv_def)

theorem queue_depth_bounded_witness:
  "\<exists>s :: (nat, nat) crew. crew_reachable (crew_start 1 8 2 9) s \<and> pool_depth (crew_pool s) = 1
     \<and> pool_depth (crew_pool s) + holding s \<le> max 8 1 + 2 + 1"
proof -
  obtain s :: "(nat, nat) crew"
    where "crew_reachable (crew_start 1 8 2 9) s" "pool_depth (crew_pool s) = 1"
    using crew_example by blast
  with queue_depth_bounded [of 1 8 2 9 s] show ?thesis by blast
qed

end
