(* ===== verification/Bridge_Serve.thy ===== *)
theory Bridge_Serve
  imports Bridge_Gate Bridge_Minute Bridge_Tally Bridge_Pool
begin

text \<open>
  The bridge's answers (\<open>control_surface_http.rs\<close>): what a bridge keeps, how it answers a
  request that was read, what it writes to its log, and one turn of a worker. The studio,
  everything the pages' handlers read and change, is a part of the bridge's state of its own
  type \<open>'w\<close>. A connection is the bytes it brings and what writing its answer comes to; the
  moments a turn reads from the clock are given to it. A panic inside a handler, which the
  worker catches and logs, is not modelled: the handlers are total functions.
\<close>

section \<open>What a bridge keeps\<close>

record 'w bridge =
  token :: string
  port :: nat
  db_path :: string
  cameras_simulated :: bool
  rejection_log :: "nat \<rightharpoonup> tally"
  failed_requests :: "string \<rightharpoonup> tally"
  refused_log :: refused_keys
  minute :: bridge_minute
  deck_heard :: heard
  bridge_log :: "(string \<times> string) list"
  studio :: 'w

definition bridge_new :: "string \<Rightarrow> string \<Rightarrow> nat \<Rightarrow> 'w \<Rightarrow> 'w bridge" where
  "bridge_new db tok prt w =
     \<lparr>token = tok, port = prt, db_path = db, cameras_simulated = False, rejection_log = Map.empty,
      failed_requests = Map.empty, refused_log = [], minute = quiet_minute, deck_heard = Map.empty,
      bridge_log = [], studio = w\<rparr>"

definition append_log :: "string \<Rightarrow> string \<Rightarrow> 'w bridge \<Rightarrow> 'w bridge" where
  "append_log level line b = b\<lparr>bridge_log := bridge_log b @ [(level, line)]\<rparr>"

definition note_rejection_at :: "nat \<Rightarrow> string \<Rightarrow> instant \<Rightarrow> 'w bridge \<Rightarrow> 'w bridge" where
  "note_rejection_at status message now b =
     (let (due, tallies) = tally_line_due (rejection_log b) status now; b1 = b\<lparr>rejection_log := tallies\<rparr>
      in case due of
           None \<Rightarrow> b1
         | Some unwr \<Rightarrow>
             append_log ''WARN''
               (if status = 0
                then ''Control-surface bridge closed a connection unanswered: '' @ message
                     @ (if unwr = 0 then []
                        else '' ('' @ show_nat unwr @ '' more since the last such line)'')
                else ''Control-surface bridge refused a request ('' @ show_nat status @ ''): '' @ message
                     @ (if unwr = 0 then []
                        else '' ('' @ show_nat unwr @ '' more with this status since the last such line)'')) b1)"

definition note_dropped :: "instant \<Rightarrow> 'w bridge \<Rightarrow> 'w bridge" where
  "note_dropped now = note_rejection_at 0 ''the queue and the line for the overflow were full'' now"

text \<open>A write's error: its kind and its text.\<close>

type_synonym io_error = "string \<times> string"

definition note_request_failure_at :: "io_error \<Rightarrow> instant \<Rightarrow> 'w bridge \<Rightarrow> 'w bridge" where
  "note_request_failure_at err now b =
     (let (due, tallies) = tally_line_due (failed_requests b) (fst err) now;
          b1 = b\<lparr>failed_requests := tallies\<rparr>
      in case due of
           None \<Rightarrow> b1
         | Some unwr \<Rightarrow>
             append_log ''WARN''
               (''Control-surface bridge request failed: '' @ snd err
                @ (if unwr = 0 then []
                   else '' ('' @ show_nat unwr @ '' more of this kind since the last such line)'')) b1)"

section \<open>A refused key's line\<close>

definition one_line :: "string \<Rightarrow> string" where
  "one_line s = map (\<lambda>c. if c = CHR 13 \<or> c = CHR 10 then CHR '' '' else c) s"

definition json_text :: "'v json \<Rightarrow> string \<Rightarrow> string \<Rightarrow> string" where
  "json_text js bytes field =
     (case from_slice js bytes of
        Inl _ \<Rightarrow> []
      | Inr v \<Rightarrow> (case text_field js v field of Some t \<Rightarrow> t | None \<Rightarrow> []))"

definition refused_key_line ::
  "'v json \<Rightarrow> http_request \<Rightarrow> http_response \<Rightarrow> string \<Rightarrow> nat \<Rightarrow> string" where
  "refused_key_line js request response route since_last =
     (let key = one_line (join '' '' (filter (\<lambda>part. part \<noteq> [])
                  [json_text js (body request) ''action'', json_text js (body request) ''value'']));
          sentence = one_line (json_text js (response_body response) ''error'')
      in ''Stream Deck key '' @ route @ '' '' @ (if key = [] then ''(no action)'' else key)
         @ '' was refused ('' @ show_nat (status_code response) @ ''): '' @ sentence
         @ (if 0 < since_last
            then '' ('' @ show_nat since_last @ '' more of this key refused since the last line)'' else []))"

definition note_refused_key ::
  "'v json \<Rightarrow> http_request \<Rightarrow> http_response \<Rightarrow> instant \<Rightarrow> 'w bridge \<Rightarrow> 'w bridge" where
  "note_refused_key js request response moment b =
     (let path = fst (split_target (target request))
      in if http_method request \<noteq> ''POST'' \<or> path \<notin> set KEY_ROUTES \<or> status_code response = 200 then b
         else (let route = trim_start_matches ''/api/deck/'' path;
                   (due, refused') = refused_key_due (refused_log b)
                      (route @ '' '' @ json_text js (body request) ''action'') moment;
                   b1 = b\<lparr>refused_log := refused'\<rparr>
               in case due of
                    None \<Rightarrow> b1
                  | Some n \<Rightarrow> append_log ''WARN'' (refused_key_line js request response route n) b1))"

section \<open>Answering\<close>

definition respond_at ::
  "'v json \<Rightarrow> ('w, 'v) pages \<Rightarrow> control_surface_error + http_request \<Rightarrow> instant \<Rightarrow> instant
     \<Rightarrow> 'w bridge \<Rightarrow> http_response \<times> 'w bridge" where
  "respond_at js pg request arrived now b =
     (let authorized = (case request of
                          Inl e \<Rightarrow> Inl e
                        | Inr r \<Rightarrow> (case authorize r (token b) (port b) of Inl e \<Rightarrow> Inl e | Inr _ \<Rightarrow> Inr r))
      in case authorized of
           Inr r \<Rightarrow>
             (let b1 = b\<lparr>deck_heard := note_deck_heard (db_path b) arrived (deck_heard b)\<rparr>;
                  (response, w) = route_control_surface_request js pg (cameras_simulated b) r arrived (studio b1)
              in (response, note_refused_key js r response arrived (b1\<lparr>studio := w\<rparr>)))
         | Inl e \<Rightarrow>
             (response_from_error js e, note_rejection_at (error_status e) (error_message e) now b))"

record conn =
  conn_source :: source
  conn_write :: "string \<Rightarrow> io_error option"

record parked_read =
  read_conn :: conn
  read_arrived :: instant
  read_request :: http_request

text \<open>What a turn reads from the clock, in the order it reads it.\<close>

record moments =
  looked :: instant
  read_from :: instant
  began :: instant
  judged :: instant
  finished :: instant
  parked_from :: instant

definition request_label :: "control_surface_error + http_request \<Rightarrow> kind \<times> string" where
  "request_label request =
     (case request of
        Inr r \<Rightarrow> (kind_of r, http_method r @ '' ''
                    @ trim_start_matches ''/api/deck/'' (fst (split_target (target r))))
      | Inl _ \<Rightarrow> (Other, ''unread''))"

definition answer_connection ::
  "'v json \<Rightarrow> ('w, 'v) pages \<Rightarrow> conn \<Rightarrow> instant \<Rightarrow> control_surface_error + http_request \<Rightarrow> moments
     \<Rightarrow> 'w bridge \<Rightarrow> string \<times> io_error option \<times> 'w bridge" where
  "answer_connection js pg stream arrived request m b =
     (let (k, what) = request_label request;
          (response, b1) = respond_at js pg request arrived (judged m) b;
          answer = http_response_bytes (status_code response) (response_body response);
          written = conn_write stream answer;
          min' = (if status_code response = 408 then note_timed_out (minute b1)
                  else note_served k what (since arrived (began m)) (since (began m) (finished m)) (minute b1))
      in (answer, written, b1\<lparr>minute := min'\<rparr>))"

datatype served = Parks parked_read | Answers conn string "io_error option" | Nothing

definition serve_next ::
  "'v json \<Rightarrow> ('w, 'v) pages \<Rightarrow> (conn, parked_read) handed \<Rightarrow> moments \<Rightarrow> 'w bridge \<Rightarrow> served \<times> 'w bridge" where
  "serve_next js pg nxt m b =
     (case nxt of
        Unread stream arrived \<Rightarrow>
          (let request = read_http_request (conn_source stream) (read_from m + REQUEST_DEADLINE)
           in case request of
                Inr r \<Rightarrow>
                  if kind_of r = Display
                  then (Parks \<lparr>read_conn = stream, read_arrived = arrived, read_request = r\<rparr>, b)
                  else (let (answer, written, b') = answer_connection js pg stream arrived request m b
                        in (Answers stream answer written, b'))
              | Inl _ \<Rightarrow> (let (answer, written, b') = answer_connection js pg stream arrived request m b
                         in (Answers stream answer written, b')))
      | Parked read \<Rightarrow>
          (let (answer, written, b') =
                 answer_connection js pg (read_conn read) (read_arrived read) (Inr (read_request read)) m b
           in (Answers (read_conn read) answer written, b'))
      | Closed \<Rightarrow> (Nothing, b))"

text \<open>
  One turn of a worker's loop: what it answered (a connection and its answer, nothing when it
  parked or the queue is closed), and whether it goes on. \<open>None\<close>: it waits on the queue.
\<close>

definition worker_turn ::
  "'v json \<Rightarrow> ('w, 'v) pages \<Rightarrow> moments \<Rightarrow> (conn, parked_read) pool \<times> 'w bridge
     \<Rightarrow> ((conn \<times> string) list \<times> bool \<times> (conn, parked_read) pool \<times> 'w bridge) option" where
  "worker_turn js pg m s =
     (let (p, b) = s
      in case pool_next p (looked m) of
           None \<Rightarrow> None
         | Some (Closed, p') \<Rightarrow> Some ([], False, p', b)
         | Some (nxt, p') \<Rightarrow>
             (let (outcome, b') = serve_next js pg nxt m b
              in case outcome of
                   Parks read \<Rightarrow> Some ([], True, park p' read (parked_from m), b')
                 | Answers stream answer None \<Rightarrow> Some ([(stream, answer)], True, p', b')
                 | Answers stream answer (Some err) \<Rightarrow>
                     Some ([(stream, answer)], True, p', note_request_failure_at err (finished m) b')
                 | Nothing \<Rightarrow> Some ([], True, p', b')))"

text \<open>A worker's turns, until it would wait or the queue is closed: what it answered, in order.\<close>

fun worker_turns ::
  "'v json \<Rightarrow> ('w, 'v) pages \<Rightarrow> moments list \<Rightarrow> (conn, parked_read) pool \<times> 'w bridge
     \<Rightarrow> (conn \<times> string) list \<times> (conn, parked_read) pool \<times> 'w bridge" where
  "worker_turns js pg [] s = ([], s)"
| "worker_turns js pg (m # ms) s =
     (case worker_turn js pg m s of
        None \<Rightarrow> ([], s)
      | Some (answers, goes_on, s') \<Rightarrow>
          if goes_on then (let (rest, s'') = worker_turns js pg ms s' in (answers @ rest, s''))
          else (answers, s'))"

section \<open>What a stranger can do\<close>

lemma append_log_frame [simp]:
  "studio (append_log level line b) = studio b" "deck_heard (append_log level line b) = deck_heard b"
  "refused_log (append_log level line b) = refused_log b" "minute (append_log level line b) = minute b"
  "bridge_log (append_log level line b) = bridge_log b @ [(level, line)]"
  by (simp_all add: append_log_def)

lemma note_rejection_frame:
  "studio (note_rejection_at st msg now b) = studio b"
  "deck_heard (note_rejection_at st msg now b) = deck_heard b"
  "refused_log (note_rejection_at st msg now b) = refused_log b"
  "minute (note_rejection_at st msg now b) = minute b"
  "length (bridge_log (note_rejection_at st msg now b)) \<le> Suc (length (bridge_log b))"
  by (simp_all add: note_rejection_at_def Let_def split: prod.split option.split)

lemma note_refused_key_frame [simp]:
  "studio (note_refused_key js r resp t b) = studio b"
  "deck_heard (note_refused_key js r resp t b) = deck_heard b"
  by (simp_all add: note_refused_key_def Let_def split: prod.split option.split)

definition refusal :: "'w bridge \<Rightarrow> control_surface_error + http_request \<Rightarrow> control_surface_error option" where
  "refusal b request =
     (case request of
        Inl e \<Rightarrow> Some e
      | Inr r \<Rightarrow> (case authorize r (token b) (port b) of Inl e \<Rightarrow> Some e | Inr _ \<Rightarrow> None))"

text \<open>
  C2. A stranger changes nothing: whatever a client without the workstation's token sends,
  read or unread, the studio, the moment the deck was last heard and the refused keys stay as
  they were, the log grows by one line at most, and the answer is the refusal's own status.
\<close>

theorem strangers_change_nothing:
  assumes "refusal b request = Some e" and "respond_at js pg request arrived now b = (response, b')"
  shows "studio b' = studio b \<and> deck_heard b' = deck_heard b \<and> refused_log b' = refused_log b
     \<and> length (bridge_log b') \<le> Suc (length (bridge_log b))
     \<and> status_code response = error_status e \<and> status_code response \<noteq> 200"
proof -
  have r: "response = response_from_error js e"
    and b: "b' = note_rejection_at (error_status e) (error_message e) now b"
    using assms by (auto simp: respond_at_def refusal_def Let_def split: sum.splits)
  show ?thesis
    unfolding b r by (cases e) (simp_all add: note_rejection_frame response_from_error_def)
qed

section \<open>The log's lines\<close>

definition is_one_line :: "string \<Rightarrow> bool" where
  "is_one_line s \<longleftrightarrow> CHR 13 \<notin> set s \<and> CHR 10 \<notin> set s"

lemma is_one_line_append [simp]: "is_one_line (s @ t) \<longleftrightarrow> is_one_line s \<and> is_one_line t"
  by (auto simp: is_one_line_def)

lemma is_one_line_Cons [simp]:
  "is_one_line []" "is_one_line (c # s) \<longleftrightarrow> c \<noteq> CHR 13 \<and> c \<noteq> CHR 10 \<and> is_one_line s"
  by (auto simp: is_one_line_def)

lemma is_one_line_one_line [simp]: "is_one_line (one_line s)"
  by (auto simp: is_one_line_def one_line_def)

lemma show_nat_one_line [simp]: "is_one_line (show_nat n)"
proof (induction n rule: show_nat.induct)
  case (1 n)
  have "digit_char d \<in> set ''0123456789''" if "d < 10" for d
    using that nth_mem [of d "''0123456789''"] by (simp add: digit_char_def)
  then have d: "is_one_line [digit_char d]" if "d < 10" for d
    using that by (fastforce simp: is_one_line_def)
  show ?case
    by (subst show_nat.simps) (use 1 d [of n] d [of "n mod 10"] in simp)
qed

lemma trim_start_matches_set: "set (trim_start_matches p s) \<subseteq> set s"
proof (induction p s rule: trim_start_matches.induct)
  case (1 p s)
  then show ?case
    using set_drop_subset [of "length p" s] by (subst trim_start_matches.simps) auto
qed

lemma key_routes_one_line: "path \<in> set KEY_ROUTES \<Longrightarrow> is_one_line path"
  by (auto simp: KEY_ROUTES_def is_one_line_def)

lemma route_one_line: "path \<in> set KEY_ROUTES \<Longrightarrow> is_one_line (trim_start_matches p path)"
  using key_routes_one_line trim_start_matches_set [of p path] by (auto simp: is_one_line_def)

lemma refused_key_line_parts:
  "is_one_line route \<Longrightarrow> is_one_line (refused_key_line js request response route n)"
  by (simp add: refused_key_line_def Let_def)

text \<open>
  A refused key's line is one line whatever the client names: no action, value or
  sentence of its own can begin another line of the log.
\<close>

theorem refused_key_line_is_one_line:
  "list_all (\<lambda>entry. is_one_line (snd entry))
     (drop (length (bridge_log b)) (bridge_log (note_refused_key js request response moment b)))"
  by (simp add: note_refused_key_def Let_def refused_key_line_parts route_one_line
      split: prod.split option.split)

end
