(* ===== verification/Bridge_Workers.thy ===== *)
theory Bridge_Workers
  imports Bridge_Serve "HOL-Library.Multiset"
begin

text \<open>
  The workers' turns over the queue: what is answered, how often, and in how many turns; and
  what a stranger's connection can do to the studio on its way through a worker.
\<close>

section \<open>One turn\<close>

definition conns_of :: "(conn, parked_read) pool \<Rightarrow> conn list" where
  "conns_of p = waiting p @ map read_conn (parked_reads p)"

definition turns_left :: "(conn, parked_read) pool \<Rightarrow> nat" where
  "turns_left p = 2 * length (waiting p) + length (parked_reads p)"

lemma serve_next_outcome:
  "case fst (serve_next js pg nxt m b) of
     Parks read \<Rightarrow> (\<exists>c a. nxt = Unread c a \<and> read_conn read = c)
   | Answers c answer err \<Rightarrow> (\<exists>a. nxt = Unread c a) \<or> (\<exists>read. nxt = Parked read \<and> read_conn read = c)
   | Nothing \<Rightarrow> nxt = Closed"
  by (auto simp: serve_next_def Let_def split: handed.split sum.split prod.split)

lemma worker_turn_accounts:
  assumes "worker_turn js pg m (p, b) = Some (answers, goes_on, p', b')"
  shows "mset (map fst answers) + mset (conns_of p') = mset (conns_of p)
     \<and> (if goes_on then turns_left p' < turns_left p else turns_left p' = 0)"
proof -
  obtain nxt q where n: "pool_next p (looked m) = Some (nxt, q)"
    using assms by (auto simp: worker_turn_def split: option.splits)
  obtain outcome b1 where o: "serve_next js pg nxt m b = (outcome, b1)"
    by (cases "serve_next js pg nxt m b")
  note out = serve_next_outcome [where js = js and pg = pg and nxt = nxt and m = m and b = b, unfolded o]
  show ?thesis
  proof (cases nxt)
    case Closed
    with n have "q = p" "pool_depth p = 0" by (auto dest: pool_next_Closed)
    with assms n Closed show ?thesis
      by (auto simp: worker_turn_def pool_depth_views turns_left_def)
  next
    case (Unread c a)
    with n have q: "waiting p = c # waiting q" "parked_reads q = parked_reads p"
      by (auto dest: pool_next_Unread)
    show ?thesis
      using assms n Unread o out q
      by (cases outcome)
        (auto simp: worker_turn_def conns_of_def turns_left_def split: option.splits)
  next
    case (Parked r)
    with n have q: "parked_reads p = r # parked_reads q" "waiting q = waiting p"
      by (auto dest: pool_next_Parked)
    show ?thesis
      using assms n Parked o out q
      by (cases outcome)
        (auto simp: worker_turn_def conns_of_def turns_left_def split: option.splits)
  qed
qed

lemma worker_turn_None:
  "worker_turn js pg m (p, b) = None \<Longrightarrow> turns_left p = 0"
  by (auto simp: worker_turn_def turns_left_def pool_next_None pool_depth_views Let_def
      split: option.splits handed.splits prod.splits served.splits)

lemma turns_left_0: "turns_left p = 0 \<longleftrightarrow> pool_depth p = 0 \<and> conns_of p = []"
  by (auto simp: turns_left_def pool_depth_views conns_of_def)

text \<open>
  C6. Every connection is answered, and answered once: left to itself, a worker answers what
  waits, unread or parked, in at most two turns for a connection and one for a parked read,
  whatever the clients send and however the writes end; then nothing is left.
\<close>

theorem every_connection_is_answered_once:
  assumes "2 * length (waiting p) + length (parked_reads p) \<le> length ms"
    and "worker_turns js pg ms (p, b) = (answers, p', b')"
  shows "mset (map fst answers) = mset (waiting p) + mset (map read_conn (parked_reads p))
     \<and> pool_depth p' = 0"
proof -
  have "turns_left p \<le> length ms \<Longrightarrow> worker_turns js pg ms (p, b) = (answers, p', b') \<Longrightarrow>
      mset (map fst answers) = mset (conns_of p) \<and> turns_left p' = 0"
  proof (induction ms arbitrary: p b answers)
    case Nil
    then show ?case using turns_left_0 [of p] by simp
  next
    case (Cons m ms)
    show ?case
    proof (cases "worker_turn js pg m (p, b)")
      case None
      with Cons.prems worker_turn_None [OF None] turns_left_0 [of p] show ?thesis by simp
    next
      case (Some r)
      obtain ans go q b1 where t: "worker_turn js pg m (p, b) = Some (ans, go, q, b1)"
        using Some by (cases r) auto
      note acc = worker_turn_accounts [OF t]
      show ?thesis
      proof (cases go)
        case False
        with acc t Cons.prems turns_left_0 [of q] show ?thesis by auto
      next
        case True
        obtain rest s where r: "worker_turns js pg ms (q, b1) = (rest, s)"
          by (cases "worker_turns js pg ms (q, b1)")
        with t True Cons.prems(2) have a: "answers = ans @ rest" "s = (p', b')" by auto
        from acc True Cons.prems(1) have "turns_left q \<le> length ms" by simp
        from Cons.IH [OF this, of b1 rest] r a acc show ?thesis by simp
      qed
    qed
  qed
  with assms show ?thesis
    by (simp add: turns_left_def conns_of_def turns_left_0 pool_depth_views)
qed

section \<open>Witnesses\<close>

definition idle_conn :: conn where
  "idle_conn = \<lparr>conn_source = (\<lambda>i. (i, Data [])), conn_write = (\<lambda>_. None)\<rparr>"

definition early :: moments where
  "early = \<lparr>looked = 1, read_from = 2, began = 3, judged = 4, finished = 5, parked_from = 6\<rparr>"

definition one_waiting :: "(conn, parked_read) pool" where
  "one_waiting = \<lparr>pool_lines = \<lparr>unread = [(idle_conn, 0)], parked = [], lines_closed = False\<rparr>,
     capacity = 96, reserve = 16, parked_at_most = from_millis 250\<rparr>"

theorem strangers_change_nothing_witness:
  "studio (snd (respond_at quiet_json counting_pages (Inl request_timeout) 0 5 (bridge_new ''db'' ''t'' 5 7))) = 7"
proof -
  let ?b = "bridge_new ''db'' ''t'' 5 7 :: nat bridge"
  obtain response b' where r: "respond_at quiet_json counting_pages (Inl request_timeout) 0 5 ?b = (response, b')"
    by (cases "respond_at quiet_json counting_pages (Inl request_timeout) 0 5 ?b")
  have "refusal ?b (Inl request_timeout) = Some request_timeout" by (simp add: refusal_def)
  from strangers_change_nothing [OF this r] r show ?thesis by (simp add: bridge_new_def)
qed

theorem every_connection_is_answered_once_witness:
  "\<exists>answers p' b'. worker_turns quiet_json counting_pages [early, early]
       (one_waiting, bridge_new ''db'' ''t'' 5 7) = (answers, p', b')
     \<and> map fst answers = [idle_conn] \<and> pool_depth p' = 0"
proof -
  obtain answers p' b' where t: "worker_turns quiet_json counting_pages [early, early]
      (one_waiting, bridge_new ''db'' ''t'' 5 7) = (answers, p', b')"
    by (cases "worker_turns quiet_json counting_pages [early, early]
      (one_waiting, bridge_new ''db'' ''t'' 5 7)")
  have "mset (map fst answers) = {#idle_conn#} \<and> pool_depth p' = 0"
    using every_connection_is_answered_once [OF _ t] by (simp add: one_waiting_def waiting_def parked_reads_def)
  then have "map fst answers = [idle_conn]" "pool_depth p' = 0" by (simp_all only: mset_single_iff)
  with t show ?thesis by (intro exI conjI)
qed

end
