(* ===== verification/Bridge_Overflow.thy ===== *)
theory Bridge_Overflow
  imports Bridge_Serve "HOL-Library.Multiset" "HOL-Library.Sublist"
begin

text \<open>
  The bridge's overflow (\<open>control_surface_http/overflow.rs\<close>): where the acceptor puts a
  connection, and what the overflow thread does with one that found the queue full. The
  acceptor is one thread and the overflow thread another; each of their operations on the
  queue holds its lock, and the steps below interleave in any order with the workers'.
\<close>

section \<open>The operations\<close>

definition OVERFLOW_QUEUE :: nat where
  "OVERFLOW_QUEUE = 128"

definition PRESS_PEEK_WAIT :: duration where
  "PRESS_PEEK_WAIT = from_millis 50"

definition BUSY_MESSAGE :: string where
  "BUSY_MESSAGE = ''The bridge is busy with other requests; retry shortly.''"

text \<open>
  The overflow thread's line and the count of connections in it or on the thread; the line
  is a bounded channel, disconnected when its thread could not be started.
\<close>

record 'c overflow =
  channel :: "('c \<times> instant) list"
  connected :: bool
  in_overflow :: nat

definition try_send :: "'c overflow \<Rightarrow> 'c \<times> instant \<Rightarrow> 'c overflow option" where
  "try_send o1 x =
     (if connected o1 \<and> length (channel o1) < OVERFLOW_QUEUE
      then Some (o1\<lparr>channel := channel o1 @ [x]\<rparr>) else None)"

definition pass_on ::
  "'c overflow \<Rightarrow> 'w bridge \<Rightarrow> 'c \<Rightarrow> instant \<Rightarrow> instant \<Rightarrow> bool \<times> 'c overflow \<times> 'w bridge" where
  "pass_on ov b stream arrived now =
     (let o1 = ov\<lparr>in_overflow := in_overflow ov + 1\<rparr>
      in case try_send o1 (stream, arrived) of
           Some o2 \<Rightarrow> (True, o2, b)
         | None \<Rightarrow> (False, o1\<lparr>in_overflow := in_overflow o1 - 1\<rparr>,
                    note_dropped now (b\<lparr>minute := note_refused (minute b)\<rparr>)))"

datatype accepted = Queues | Waits | Drops

definition accept ::
  "('c, 'r) pool \<Rightarrow> 'c overflow \<Rightarrow> 'w bridge \<Rightarrow> 'c \<Rightarrow> instant \<Rightarrow> instant
     \<Rightarrow> accepted \<times> ('c, 'r) pool \<times> 'c overflow \<times> 'w bridge" where
  "accept p ov b stream arrived now =
     (let pass = (\<lambda>s. let (sent, ov', b') = pass_on ov b s arrived now
                      in ((if sent then Waits else Drops), p, ov', b'))
      in if in_overflow ov = 0
         then (case offer p stream arrived of
                 Inr (p', depth) \<Rightarrow> (Queues, p', ov, b\<lparr>minute := note_depth depth (minute b)\<rparr>)
               | Inl s \<Rightarrow> pass s)
         else pass stream)"

text \<open>
  What peeking at the connection brings, look by look, of which the code takes five bytes; a look is at least a millisecond after
  the one before it, \<open>late i\<close> later than that.
\<close>

datatype peek = Peeked string | PeekWouldBlock | PeekFailed

function starts_a_press_from :: "(nat \<Rightarrow> peek) \<Rightarrow> (nat \<Rightarrow> duration) \<Rightarrow> nat \<Rightarrow> bool" where
  "starts_a_press_from look late i =
     (let goes_on = (if PRESS_PEEK_WAIT \<le> from_millis i + late i then False
                     else starts_a_press_from look late (Suc i))
      in case look i of
           Peeked bytes \<Rightarrow>
             if length (take 5 bytes) = 5 then take 5 bytes = ''POST ''
             else if take 5 bytes = [] then False else goes_on
         | PeekWouldBlock \<Rightarrow> goes_on
         | PeekFailed \<Rightarrow> False)"
  by pat_completeness auto
termination
  by (relation "measure (\<lambda>(look, late, i). 50 - i)") (auto simp: PRESS_PEEK_WAIT_def)

declare starts_a_press_from.simps [simp del]

definition starts_a_press :: "bool \<Rightarrow> (nat \<Rightarrow> peek) \<Rightarrow> (nat \<Rightarrow> duration) \<Rightarrow> bool" where
  "starts_a_press nonblocking_set look late = (nonblocking_set \<and> starts_a_press_from look late 0)"

definition answer_busy :: "'v json \<Rightarrow> string" where
  "answer_busy js =
     (let response = response_from_error js (Busy BUSY_MESSAGE)
      in http_response_bytes (status_code response) (response_body response))"

text \<open>One connection on the overflow thread: \<open>Some\<close> is the answer of one turned away.\<close>

definition overflow_one ::
  "'v json \<Rightarrow> ('c, 'r) pool \<Rightarrow> 'w bridge \<Rightarrow> bool \<Rightarrow> 'c \<Rightarrow> instant \<Rightarrow> instant
     \<Rightarrow> ('c, 'r) pool \<times> 'w bridge \<times> string option" where
  "overflow_one js p b press stream arrived now =
     (let queued = (\<lambda>p' depth. (p', b\<lparr>minute := note_depth depth (minute b)\<rparr>, None));
          busy = (p, note_rejection_at 503 BUSY_MESSAGE now (b\<lparr>minute := note_refused (minute b)\<rparr>),
                  Some (answer_busy js))
      in case offer p stream arrived of
           Inr (p', depth) \<Rightarrow> queued p' depth
         | Inl s \<Rightarrow>
             if press
             then (case offer_press p s arrived of Inr (p', depth) \<Rightarrow> queued p' depth | Inl _ \<Rightarrow> busy)
             else busy)"

section \<open>What each operation does\<close>

lemma overflow_one_cases:
  "overflow_one js p b press stream arrived now = (p', b', answer) \<Longrightarrow>
     (answer = None \<and> pool_depth p < (if press then press_room p else capacity p)
        \<and> waiting p' = waiting p @ [stream] \<and> turned_away (minute b') = turned_away (minute b))
   \<or> (answer = Some (answer_busy js) \<and> (if press then press_room p else capacity p) \<le> pool_depth p
        \<and> p' = p \<and> turned_away (minute b') = Suc (turned_away (minute b)))"
proof (cases "offer p stream arrived")
  case (Inr r)
  then obtain q d where o: "offer p stream arrived = Inr (q, d)" by (cases r) auto
  moreover assume "overflow_one js p b press stream arrived now = (p', b', answer)"
  ultimately have "p' = q" "answer = None" "turned_away (minute b') = turned_away (minute b)"
    by (auto simp: overflow_one_def note_depth_def Let_def)
  with o show ?thesis
    using bridge_queue.take_in_cases [of p stream arrived] bridge_queue.taken_in [OF o]
      bridge_queue.room_le [of p] by auto
next
  case (Inl s)
  assume one: "overflow_one js p b press stream arrived now = (p', b', answer)"
  have full: "s = stream" "capacity p \<le> pool_depth p" using bridge_queue.refused [OF Inl] by auto
  show ?thesis
  proof (cases "\<exists>q d. press \<and> offer_press p stream arrived = Inr (q, d)")
    case True
    then obtain q d where o: "press" "offer_press p stream arrived = Inr (q, d)" by auto
    with one Inl full have "p' = q" "answer = None" "turned_away (minute b') = turned_away (minute b)"
      by (auto simp: overflow_one_def note_depth_def Let_def)
    with o show ?thesis
      using bridge_queue.take_press_cases [of p stream arrived] bridge_queue.taken_press [OF o(2)] by auto
  next
    case False
    then have no: "press \<Longrightarrow> offer_press p stream arrived = Inl stream"
      using bridge_queue.take_press_cases [of p stream arrived] by auto
    have "answer = Some (answer_busy js)" "p' = p" "turned_away (minute b') = Suc (turned_away (minute b))"
      using one Inl full no
      by (cases press; auto simp: overflow_one_def note_refused_def note_rejection_frame Let_def)+
    with no full show ?thesis
      using bridge_queue.refused_press [of p stream arrived stream] by auto
  qed
qed

text \<open>
  A press is turned away only when every slot is taken: on the overflow thread a press is
  queued exactly when fewer than the capacity and the slots kept for presses wait, anything
  else exactly when fewer than the capacity wait; one turned away is answered 503 and counted.
\<close>

theorem presses_have_their_slots:
  assumes "overflow_one js p b press stream arrived now = (p', b', answer)"
  shows "(answer = None \<longleftrightarrow> pool_depth p < (if press then capacity p + reserve p else capacity p))
     \<and> (answer = None \<longrightarrow> waiting p' = waiting p @ [stream])
     \<and> (answer \<noteq> None \<longrightarrow> p' = p \<and> turned_away (minute b') = Suc (turned_away (minute b)))"
  using overflow_one_cases [OF assms] by (auto simp: press_room_def)

definition undecided :: "(nat \<Rightarrow> peek) \<Rightarrow> (nat \<Rightarrow> duration) \<Rightarrow> nat \<Rightarrow> bool" where
  "undecided look late k \<longleftrightarrow> from_millis k + late k < PRESS_PEEK_WAIT
     \<and> (look k = PeekWouldBlock \<or> (\<exists>h. look k = Peeked h \<and> h \<noteq> [] \<and> length h < 5))"

lemma starts_a_press_skip:
  assumes "i \<le> j" and "\<And>k. i \<le> k \<Longrightarrow> k < j \<Longrightarrow> undecided look late k"
  shows "starts_a_press_from look late i = starts_a_press_from look late j"
  using assms
proof (induction "j - i" arbitrary: i)
  case 0
  then show ?case by simp
next
  case (Suc n)
  then have i: "i < j" by simp
  have "starts_a_press_from look late i = starts_a_press_from look late (Suc i)"
    using Suc.prems(2) [of i] i by (subst starts_a_press_from.simps) (auto simp: undecided_def Let_def)
  also have "starts_a_press_from look late (Suc i) = starts_a_press_from look late j"
  proof (rule Suc.hyps(1))
    show "n = j - Suc i" "Suc i \<le> j" using Suc.hyps(2) i by simp_all
    show "undecided look late k" if "Suc i \<le> k" "k < j" for k
      using Suc.prems(2) [of k] that by simp
  qed
  finally show ?case .
qed

text \<open>
  The peek at a connection answers within its 50 looks: a client whose first five bytes
  are \<open>POST \<close> by some look within the wait is a press, and one whose first five are not is none,
  whatever came before; an idle one is none.
\<close>

theorem press_is_seen_by_its_first_bytes:
  assumes "\<And>k. k < n \<Longrightarrow> undecided look late k" and "look n = Peeked bytes" and "5 \<le> length bytes"
  shows "starts_a_press True look late \<longleftrightarrow> take 5 bytes = ''POST ''"
proof -
  have "starts_a_press_from look late 0 = starts_a_press_from look late n"
    by (rule starts_a_press_skip) (use assms(1) in auto)
  then show ?thesis
    using assms(2,3) by (simp add: starts_a_press_def starts_a_press_from.simps [of look late n])
qed

section \<open>The acceptor, the overflow thread and the workers\<close>

text \<open>
  The threads around the queue, and what is remembered of them: the connections that arrived,
  those that entered the queue and those turned away, each in order, and the refusals the
  minutes already written counted.
\<close>

record ('c, 'r, 'w) intake_state =
  i_pool :: "('c, 'r) pool"
  i_overflow :: "'c overflow"
  i_current :: "('c \<times> instant) option"
  i_leaving :: bool
  i_bridge :: "'w bridge"
  all_arrived :: "'c list"
  all_queued :: "'c list"
  all_turned_away :: "'c list"
  counted_before :: nat

inductive intake_step ::
  "'v json \<Rightarrow> ('w, 'v) pages \<Rightarrow> ('c, 'r, 'w) intake_state \<Rightarrow> ('c, 'r, 'w) intake_state \<Rightarrow> bool" for js pg where
  arrives: "accept (i_pool s) (i_overflow s) (i_bridge s) c t now = (r, p, ov, b) \<Longrightarrow>
     intake_step js pg s (s\<lparr>i_pool := p, i_overflow := ov, i_bridge := b, all_arrived := all_arrived s @ [c],
       all_queued := all_queued s @ (if r = Queues then [c] else []),
       all_turned_away := all_turned_away s @ (if r = Drops then [c] else [])\<rparr>)"
| receives: "channel (i_overflow s) = x # rest \<Longrightarrow> i_current s = None \<Longrightarrow> \<not> i_leaving s \<Longrightarrow>
     intake_step js pg s (s\<lparr>i_overflow := (i_overflow s)\<lparr>channel := rest\<rparr>, i_current := Some x\<rparr>)"
| overflows: "i_current s = Some (c, t) \<Longrightarrow>
     overflow_one js (i_pool s) (i_bridge s) press c t now = (p, b, answer) \<Longrightarrow>
     intake_step js pg s (s\<lparr>i_pool := p, i_bridge := b, i_current := None, i_leaving := True,
       all_queued := all_queued s @ (if answer = None then [c] else []),
       all_turned_away := all_turned_away s @ (if answer = None then [] else [c])\<rparr>)"
| leaves: "i_leaving s \<Longrightarrow>
     intake_step js pg s (s\<lparr>i_overflow := (i_overflow s)\<lparr>in_overflow := in_overflow (i_overflow s) - 1\<rparr>,
       i_leaving := False\<rparr>)"
| worker_takes: "pool_next (i_pool s) t = Some (h, p) \<Longrightarrow> intake_step js pg s (s\<lparr>i_pool := p\<rparr>)"
| worker_parks: "intake_step js pg s (s\<lparr>i_pool := park (i_pool s) r t\<rparr>)"
| worker_answers: "answer_connection js pg stream t request m (i_bridge s) = (answer, written, b) \<Longrightarrow>
     intake_step js pg s (s\<lparr>i_bridge := b\<rparr>)"
| minute_ends: "intake_step js pg s (s\<lparr>counted_before := counted_before s + turned_away (minute (i_bridge s)),
     i_bridge := (i_bridge s)\<lparr>minute := quiet_minute\<rparr>\<rparr>)"

definition intake_start :: "nat \<Rightarrow> nat \<Rightarrow> duration \<Rightarrow> bool \<Rightarrow> 'w bridge \<Rightarrow> ('c, 'r, 'w) intake_state" where
  "intake_start cap res at_most overflow_started b =
     \<lparr>i_pool = pool_new cap res at_most,
      i_overflow = \<lparr>channel = [], connected = overflow_started, in_overflow = 0\<rparr>,
      i_current = None, i_leaving = False, i_bridge = b\<lparr>minute := quiet_minute\<rparr>,
      all_arrived = [], all_queued = [], all_turned_away = [], counted_before = 0\<rparr>"

inductive intake_reachable ::
  "'v json \<Rightarrow> ('w, 'v) pages \<Rightarrow> ('c, 'r, 'w) intake_state \<Rightarrow> ('c, 'r, 'w) intake_state \<Rightarrow> bool"
  for js pg s0 where
  intake_begins: "intake_reachable js pg s0 s0"
| intake_goes_on: "intake_reachable js pg s0 s \<Longrightarrow> intake_step js pg s s' \<Longrightarrow> intake_reachable js pg s0 s'"

text \<open>The connections in the overflow's hands, in the order they came.\<close>

definition held_back :: "('c, 'r, 'w) intake_state \<Rightarrow> 'c list" where
  "held_back s = (case i_current s of Some (c, _) \<Rightarrow> [c] | None \<Rightarrow> []) @ map fst (channel (i_overflow s))"

definition intake_inv :: "('c, 'r, 'w) intake_state \<Rightarrow> bool" where
  "intake_inv s \<longleftrightarrow>
     in_overflow (i_overflow s) = length (held_back s) + (if i_leaving s then 1 else 0)
     \<and> (i_leaving s \<longrightarrow> i_current s = None)
     \<and> subseq (all_queued s @ held_back s) (all_arrived s)
     \<and> mset (all_arrived s) = mset (all_queued s) + mset (all_turned_away s) + mset (held_back s)
     \<and> counted_before s + turned_away (minute (i_bridge s)) = length (all_turned_away s)"

lemma pass_on_cases:
  "pass_on ov b c t now = (sent, ov', b') \<Longrightarrow>
     (sent \<and> channel ov' = channel ov @ [(c, t)] \<and> in_overflow ov' = Suc (in_overflow ov) \<and> b' = b)
   \<or> (\<not> sent \<and> ov' = ov \<and> turned_away (minute b') = Suc (turned_away (minute b)))"
  by (auto simp: pass_on_def try_send_def note_dropped_def note_rejection_frame note_refused_def Let_def
      split: option.splits if_splits)

lemma accept_cases:
  assumes "accept p ov b c t now = (r, p', ov', b')"
  shows "(r = Queues \<and> in_overflow ov = 0 \<and> ov' = ov \<and> turned_away (minute b') = turned_away (minute b))
     \<or> (r = Waits \<and> channel ov' = channel ov @ [(c, t)] \<and> in_overflow ov' = Suc (in_overflow ov) \<and> b' = b)
     \<or> (r = Drops \<and> ov' = ov \<and> turned_away (minute b') = Suc (turned_away (minute b)))"
proof -
  obtain sent ov1 b1 where pass: "pass_on ov b c t now = (sent, ov1, b1)" by (cases "pass_on ov b c t now")
  show ?thesis
  proof (cases "in_overflow ov = 0 \<and> (\<exists>q d. offer p c t = Inr (q, d))")
    case True
    then obtain q d where "in_overflow ov = 0" "offer p c t = Inr (q, d)" by auto
    with assms have "r = Queues \<and> ov' = ov \<and> b' = b\<lparr>minute := note_depth d (minute b)\<rparr>"
      by (simp add: accept_def)
    with True show ?thesis by (simp add: note_depth_def)
  next
    case False
    then have "in_overflow ov \<noteq> 0 \<or> offer p c t = Inl c"
      using bridge_queue.take_in_cases [of p c t] by auto
    then have "r = (if sent then Waits else Drops) \<and> ov' = ov1 \<and> b' = b1"
      using assms pass by (elim disjE) (simp_all add: accept_def split: if_splits)
    with pass_on_cases [OF pass] show ?thesis by auto
  qed
qed

lemma answer_connection_turned_away:
  assumes "answer_connection js pg stream t request m b = (answer, written, b')"
  shows "turned_away (minute b') = turned_away (minute b)"
proof -
  obtain response b1 where r: "respond_at js pg request t (judged m) b = (response, b1)"
    by (cases "respond_at js pg request t (judged m) b")
  have "minute (note_refused_key js q resp u b2) = minute b2" for q resp u and b2 :: "'a bridge"
    by (simp add: note_refused_key_def Let_def split: prod.split option.split)
  with r have "minute b1 = minute b"
    by (auto simp: respond_at_def Let_def note_rejection_frame split: sum.splits prod.splits)
  with assms r show ?thesis
    by (auto simp: answer_connection_def Let_def note_timed_out_def note_served_def split: prod.splits)
qed

lemma intake_step_inv: "intake_step js pg s s' \<Longrightarrow> intake_inv s \<Longrightarrow> intake_inv s'"
proof (induction rule: intake_step.induct)
  case (arrives s c t now r p ov b)
  have sub: "subseq (xs @ [c]) (ys @ [c])" if "subseq xs ys" for xs ys
    using that by (simp add: list_emb_append_mono)
  have idle: "held_back s = []" if "in_overflow (i_overflow s) = 0"
    using arrives.prems that by (auto simp: intake_inv_def)
  have grown: "subseq xs (ys @ [c])" if "subseq xs ys" for xs ys
    using that by (metis append_Nil2 list_emb_append2 list_emb_append_mono list_emb_Nil)
  from accept_cases [OF arrives.hyps] show ?case
  proof (elim disjE conjE)
    assume "r = Queues" "in_overflow (i_overflow s) = 0" "ov = i_overflow s"
      "turned_away (minute b) = turned_away (minute (i_bridge s))"
    with arrives.prems sub [of "all_queued s @ held_back s" "all_arrived s"] idle show ?case
      by (auto simp: intake_inv_def held_back_def)
  next
    assume "r = Waits" "channel ov = channel (i_overflow s) @ [(c, t)]"
      "in_overflow ov = Suc (in_overflow (i_overflow s))" "b = i_bridge s"
    with arrives.prems sub [of "all_queued s @ held_back s" "all_arrived s"] show ?case
      by (simp add: intake_inv_def held_back_def)
  next
    assume "r = Drops" "ov = i_overflow s" "turned_away (minute b) = Suc (turned_away (minute (i_bridge s)))"
    with arrives.prems grown [of "all_queued s @ held_back s" "all_arrived s"] show ?case
      by (simp add: intake_inv_def held_back_def)
  qed
next
  case (overflows s c t press p b answer)
  have drop: "subseq (xs @ ys) zs" if "subseq (xs @ c # ys) zs" for xs ys zs
    using that by (meson list_emb_append_mono subseq_Cons' subseq_order.refl subseq_order.trans list_emb_Cons)
  from overflow_one_cases [OF overflows.hyps(2)] overflows.hyps(1) overflows.prems show ?case
    by (auto simp: intake_inv_def held_back_def dest: drop)
next
  case (worker_answers stream t request m s answer written b)
  with answer_connection_turned_away [OF worker_answers.hyps] show ?case
    by (simp add: intake_inv_def held_back_def)
qed (auto simp: intake_inv_def held_back_def quiet_minute_def)

lemma intake_reachable_inv:
  "intake_reachable js pg s0 s \<Longrightarrow> intake_inv s0 \<Longrightarrow> intake_inv s"
  by (induction rule: intake_reachable.induct) (auto intro: intake_step_inv)

lemma intake_start_inv: "intake_inv (intake_start cap res at_most started b)"
  by (simp add: intake_inv_def intake_start_def held_back_def quiet_minute_def)


section \<open>Witnesses\<close>

theorem presses_have_their_slots_witness:
  "\<exists>p' b'. overflow_one quiet_json (pool_new 1 1 9 :: (nat, nat) pool) (bridge_new ''db'' ''t'' 5 (7 :: nat))
       True 3 0 5 = (p', b', None) \<and> waiting p' = [3]"
proof -
  let ?p = "pool_new 1 1 9 :: (nat, nat) pool" and ?b = "bridge_new ''db'' ''t'' 5 (7 :: nat)"
  obtain p' b' answer where o: "overflow_one quiet_json ?p ?b True 3 0 5 = (p', b', answer)"
    by (cases "overflow_one quiet_json ?p ?b True 3 0 5")
  from presses_have_their_slots [OF o] have "answer = None" "waiting p' = [3]"
    by (auto simp: pool_new_def pool_defs waiting_def)
  with o show ?thesis by auto
qed

theorem press_is_seen_by_its_first_bytes_witness:
  "starts_a_press True (\<lambda>i. if i = 0 then PeekWouldBlock else Peeked ''POST /api'') (\<lambda>_. 0)"
  using press_is_seen_by_its_first_bytes
    [of 1 "\<lambda>i. if i = 0 then PeekWouldBlock else Peeked ''POST /api''" "\<lambda>_. 0" "''POST /api''"]
  by (simp add: undecided_def PRESS_PEEK_WAIT_def)


end
