(* ===== verification/Health.thy ===== *)
theory Health
  imports Btree_Map
begin

text \<open>
  The health registry (\<open>health.rs\<close>): each subsystem's last report, the problems of the
  hardware link's threads laid over them, and the one word the header shows. The registry
  is a process-wide mutex; each operation takes it once, so each is one function of the
  registry, and \<open>announced\<close> collects the reasons given to \<open>emit_app_changed\<close>.
\<close>

section \<open>States, entries and problems\<close>

datatype subsystem_state = Ok | Attention | Warning | Error

fun severity :: "subsystem_state \<Rightarrow> nat" where
  "severity Ok = 0"
| "severity Warning = 1"
| "severity Attention = 2"
| "severity Error = 3"

record subsystem_status =
  sub_state :: subsystem_state
  sub_detail :: string
  sub_at :: nat

type_synonym health_entries = "(string, subsystem_status) btree"

record thread_problem =
  problem_subsystem :: string
  problem_detail :: string
  problem_at :: nat

type_synonym thread_problems = "(string, thread_problem) btree"

record health_registry =
  entries :: health_entries
  problems :: thread_problems

definition SUBSYSTEM_BACKUPS :: string where
  "SUBSYSTEM_BACKUPS = ''backups''"

definition BACKUP_WARNING_AGE_SECS :: nat where
  "BACKUP_WARNING_AGE_SECS = 48 * 60 * 60"

definition APP_CHANGED_REASON_HEALTH :: string where
  "APP_CHANGED_REASON_HEALTH = ''health''"

section \<open>The registry's operations\<close>

definition note_thread_problem ::
  "health_registry \<Rightarrow> string \<Rightarrow> string \<Rightarrow> string \<Rightarrow> nat \<Rightarrow> bool \<times> health_registry" where
  "note_thread_problem r name subsystem det moment =
     (let problem = \<lparr>problem_subsystem = subsystem, problem_detail = det, problem_at = moment\<rparr>
      in case bt_get (problems r) name of
           Some known \<Rightarrow>
             if problem_subsystem known = problem_subsystem problem
                \<and> problem_detail known = problem_detail problem
             then (False, r)
             else (True, r\<lparr>problems := bt_insert name problem (problems r)\<rparr>)
         | None \<Rightarrow> (True, r\<lparr>problems := bt_insert name problem (problems r)\<rparr>))"

definition clear_thread_problem :: "health_registry \<Rightarrow> string \<Rightarrow> bool \<times> health_registry" where
  "clear_thread_problem r name =
     (bt_get (problems r) name \<noteq> None, r\<lparr>problems := bt_remove name (problems r)\<rparr>)"

definition registry_report ::
  "health_registry \<Rightarrow> string \<Rightarrow> subsystem_state \<Rightarrow> string \<Rightarrow> nat \<Rightarrow> bool \<times> health_registry" where
  "registry_report r subsystem st det moment =
     (let previous = map_option sub_state (bt_get (entries r) subsystem);
          r' = r\<lparr>entries := bt_insert subsystem \<lparr>sub_state = st, sub_detail = det, sub_at = moment\<rparr> (entries r)\<rparr>
      in case previous of
           Some prev \<Rightarrow> (prev \<noteq> st, r')
         | None \<Rightarrow> (st \<noteq> Ok, r'))"

record health_world =
  registry :: health_registry
  announced :: "string list"

definition emit_health_changed :: "bool \<Rightarrow> health_world \<Rightarrow> health_world" where
  "emit_health_changed changed w =
     (if changed then w\<lparr>announced := announced w @ [APP_CHANGED_REASON_HEALTH]\<rparr> else w)"

definition report_at :: "string \<Rightarrow> subsystem_state \<Rightarrow> string \<Rightarrow> nat \<Rightarrow> health_world \<Rightarrow> health_world" where
  "report_at subsystem st det moment w =
     (let (changed, r) = registry_report (registry w) subsystem st det moment
      in emit_health_changed changed (w\<lparr>registry := r\<rparr>))"

definition thread_problem :: "string \<Rightarrow> string \<Rightarrow> string \<Rightarrow> nat \<Rightarrow> health_world \<Rightarrow> health_world" where
  "thread_problem name subsystem det unix_now w =
     (let (changed, r) = note_thread_problem (registry w) name subsystem det unix_now
      in emit_health_changed changed (w\<lparr>registry := r\<rparr>))"

definition thread_problem_cleared :: "string \<Rightarrow> health_world \<Rightarrow> health_world" where
  "thread_problem_cleared name w =
     (let (changed, r) = clear_thread_problem (registry w) name
      in emit_health_changed changed (w\<lparr>registry := r\<rparr>))"

section \<open>The entries as the health check shows them\<close>

definition age_backup :: "nat \<Rightarrow> nat \<Rightarrow> string \<Rightarrow> subsystem_status \<Rightarrow> subsystem_status" where
  "age_backup now started_at ident status =
     (let age = now - sub_at status; overdue_for = now - max (sub_at status) started_at
      in if ident = SUBSYSTEM_BACKUPS \<and> sub_state status = Ok \<and> BACKUP_WARNING_AGE_SECS < overdue_for
         then status\<lparr>sub_state := Warning,
                     sub_detail := ''The last database backup is '' @ show_nat (age div 3600)
                               @ '' h old; '' @ sub_detail status\<rparr>
         else status)"

definition group_by_subsystem :: "thread_problem list \<Rightarrow> (string, thread_problem list) btree" where
  "group_by_subsystem ps =
     fold (\<lambda>p m. bt_insert (problem_subsystem p)
                   ((case bt_get m (problem_subsystem p) of None \<Rightarrow> [] | Some l \<Rightarrow> l) @ [p]) m) ps []"

definition overlay_status :: "health_entries \<Rightarrow> nat \<Rightarrow> string \<Rightarrow> thread_problem list \<Rightarrow> subsystem_status" where
  "overlay_status ents now subsystem ps =
     (let sentences = join '' '' (map problem_detail ps);
          newest = (if ps = [] then now else fold max (map problem_at ps) 0)
      in \<lparr>sub_state = Error,
          sub_detail = (case bt_get ents subsystem of
                      Some own \<Rightarrow>
                        if sub_state own \<noteq> Ok \<and> sub_detail own \<noteq> []
                        then sentences @ '' Before that: '' @ sub_detail own else sentences
                    | None \<Rightarrow> sentences),
          sub_at = newest\<rparr>)"

definition effective_entries :: "health_entries \<Rightarrow> thread_problems \<Rightarrow> nat \<Rightarrow> nat \<Rightarrow> health_entries" where
  "effective_entries ents probs now started_at =
     fold (\<lambda>(subsystem, ps). bt_insert subsystem (overlay_status ents now subsystem ps))
       (group_by_subsystem (bt_values probs))
       (map (\<lambda>(ident, status). (ident, age_backup now started_at ident status)) ents)"

section \<open>The whole status\<close>

definition status_severity :: "string \<Rightarrow> nat" where
  "status_severity word =
     (if word = ''error'' then 3 else if word = ''attention'' then 2
      else if word = ''warning'' then 1 else 0)"

definition with_prompter_status :: "string \<Rightarrow> string \<Rightarrow> string" where
  "with_prompter_status status prompter =
     (let part = (if prompter = ''ok'' then ''ok'' else ''attention'')
      in if status_severity status < status_severity part then ''attention'' else status)"

definition with_cameras_status :: "string \<Rightarrow> bool \<Rightarrow> string" where
  "with_cameras_status status raises =
     with_prompter_status status (if raises then ''attention'' else ''ok'')"

fun state_word :: "subsystem_state \<Rightarrow> string" where
  "state_word Error = ''error''"
| "state_word Attention = ''attention''"
| "state_word Warning = ''warning''"
| "state_word Ok = ''ok''"

text \<open>\<open>max_by_key\<close>: the last of the largest; \<open>None\<close> of nothing.\<close>

fun worst_state :: "subsystem_state list \<Rightarrow> subsystem_state option" where
  "worst_state [] = None"
| "worst_state (s # ss) =
     (case worst_state ss of
        None \<Rightarrow> Some s
      | Some t \<Rightarrow> if severity s \<le> severity t then Some t else Some s)"

definition derive_status :: "health_entries \<Rightarrow> bool \<Rightarrow> string" where
  "derive_status ents storage_ready =
     (if \<not> storage_ready then ''error''
      else (case worst_state (map sub_state (bt_values ents)) of
              Some s \<Rightarrow> state_word s
            | None \<Rightarrow> ''ok''))"

definition format_health_summary ::
  "string \<Rightarrow> string \<Rightarrow> string \<Rightarrow> string \<Rightarrow> string \<Rightarrow> string" where
  "format_health_summary status storage lighting audio control_surface =
     ''Health '' @ [CHR 39] @ status @ [CHR 39] @ ''. Storage '' @ storage @ ''. Lighting '' @ lighting
     @ ''. Audio '' @ audio @ ''. Control surface '' @ control_surface @ ''.''"

section \<open>What the registry promises\<close>

definition registry_inv :: "health_registry \<Rightarrow> bool" where
  "registry_inv r \<longleftrightarrow> bt_inv (entries r) \<and> bt_inv (problems r)"

definition problem_of :: "health_world \<Rightarrow> string \<Rightarrow> thread_problem option" where
  "problem_of w name = bt_get (problems (registry w)) name"

lemmas registry_defs = note_thread_problem_def clear_thread_problem_def registry_report_def
  report_at_def thread_problem_def thread_problem_cleared_def emit_health_changed_def

lemma registry_inv_ops:
  "registry_inv (registry w) \<Longrightarrow> registry_inv (registry (thread_problem n s d t w))"
  "registry_inv (registry w) \<Longrightarrow> registry_inv (registry (thread_problem_cleared n w))"
  "registry_inv (registry w) \<Longrightarrow> registry_inv (registry (report_at s st d t w))"
  by (auto simp: registry_defs registry_inv_def Let_def split: option.splits)

lemma problem_of_thread_problem:
  "\<exists>p. problem_of (thread_problem n s d t w) n = Some p
     \<and> problem_subsystem p = s \<and> problem_detail p = d"
  by (auto simp: registry_defs problem_of_def Let_def split: option.splits)

lemma problem_of_thread_problem_other [simp]:
  "m \<noteq> n \<Longrightarrow> problem_of (thread_problem n s d t w) m = problem_of w m"
  by (auto simp: registry_defs problem_of_def Let_def split: option.splits)

lemma problem_of_cleared [simp]:
  "problem_of (thread_problem_cleared n w) = (problem_of w)(n := None)"
  by (auto simp: registry_defs problem_of_def Let_def)

text \<open>
  A thread's problem is announced when it is new or its sentence changed, and only
  then, and afterwards the registry holds exactly that sentence; clearing it announces
  only when there was one, leaves none, and touches no other thread's problem.
\<close>

theorem thread_problem_noted_and_cleared:
  fixes w name subsystem det moment
  defines "noted \<equiv> thread_problem name subsystem det moment w"
    and "known \<equiv> map_option (\<lambda>p. (problem_subsystem p, problem_detail p)) (problem_of w name)"
  shows "map_option (\<lambda>p. (problem_subsystem p, problem_detail p)) (problem_of noted name)
           = Some (subsystem, det)
    \<and> announced noted
       = announced w @ (if known = Some (subsystem, det) then [] else [APP_CHANGED_REASON_HEALTH])
    \<and> announced (thread_problem_cleared name w)
       = announced w @ (if known = None then [] else [APP_CHANGED_REASON_HEALTH])
    \<and> problem_of (thread_problem_cleared name noted) = (problem_of w)(name := None)"
proof -
  have "problem_of (thread_problem_cleared name noted) m = ((problem_of w)(name := None)) m" for m
    by (simp add: noted_def)
  moreover have "announced noted
      = announced w @ (if known = Some (subsystem, det) then [] else [APP_CHANGED_REASON_HEALTH])"
    by (auto simp: noted_def known_def registry_defs problem_of_def Let_def split: option.splits)
  moreover have "announced (thread_problem_cleared name w)
      = announced w @ (if known = None then [] else [APP_CHANGED_REASON_HEALTH])"
    by (auto simp: known_def registry_defs problem_of_def Let_def)
  ultimately show ?thesis
    using problem_of_thread_problem [of name subsystem det moment w]
    by (auto simp: noted_def fun_eq_iff)
qed

lemma group_by_subsystem_get:
  "bt_inv m \<Longrightarrow>
     bt_inv (fold (\<lambda>p m. bt_insert (problem_subsystem p)
                   ((case bt_get m (problem_subsystem p) of None \<Rightarrow> [] | Some l \<Rightarrow> l) @ [p]) m) ps m)
     \<and> bt_get (fold (\<lambda>p m. bt_insert (problem_subsystem p)
                   ((case bt_get m (problem_subsystem p) of None \<Rightarrow> [] | Some l \<Rightarrow> l) @ [p]) m) ps m) k =
       (let l = filter (\<lambda>p. problem_subsystem p = k) ps
        in if l = [] then bt_get m k
           else Some ((case bt_get m k of None \<Rightarrow> [] | Some l \<Rightarrow> l) @ l))"
proof (induction ps arbitrary: m)
  case Nil
  then show ?case by simp
next
  case (Cons p ps)
  from Cons.IH [of "bt_insert (problem_subsystem p)
    ((case bt_get m (problem_subsystem p) of None \<Rightarrow> [] | Some l \<Rightarrow> l) @ [p]) m"] Cons.prems
  show ?case by (auto simp: Let_def split: option.splits)
qed

lemma group_by_subsystem:
  "bt_inv (group_by_subsystem ps)"
  "bt_get (group_by_subsystem ps) k =
     (let l = filter (\<lambda>p. problem_subsystem p = k) ps in if l = [] then None else Some l)"
  using group_by_subsystem_get [of "[]" ps k] by (simp_all add: group_by_subsystem_def Let_def)

text \<open>
  The entries a health check shows: a subsystem with problems reads \<open>Error\<close> with every
  problem's sentence laid over its own word, and any other subsystem reads what it last
  reported, an overdue backup as a warning.
\<close>

theorem effective_entries_lookup:
  assumes "bt_inv ents"
  shows "bt_get (effective_entries ents probs now started_at) k =
     (let ps = filter (\<lambda>p. problem_subsystem p = k) (bt_values probs)
      in if ps = [] then map_option (age_backup now started_at k) (bt_get ents k)
         else Some (overlay_status ents now k ps))"
proof -
  let ?base = "map (\<lambda>(ident, status). (ident, age_backup now started_at ident status)) ents"
  have "bt_get (effective_entries ents probs now started_at) k =
      (case bt_get (group_by_subsystem (bt_values probs)) k of
         Some ps \<Rightarrow> Some (overlay_status ents now k ps) | None \<Rightarrow> bt_get ?base k)"
    unfolding effective_entries_def
    using btree_store.fold_put_pairs [of ?base "group_by_subsystem (bt_values probs)"
        "overlay_status ents now" k] assms bt_inv_distinct [OF group_by_subsystem(1)]
    by (simp add: bt_get_def split: option.splits)
  then show ?thesis
    by (simp add: group_by_subsystem(2) Let_def)
qed

lemma effective_entries_inv: "bt_inv ents \<Longrightarrow> bt_inv (effective_entries ents probs now started_at)"
  unfolding effective_entries_def by (rule btree_store.fold_put_pairs_valid) simp

lemma worst_state_None [simp]: "worst_state ss = None \<longleftrightarrow> ss = []"
  by (cases ss) (auto split: option.splits)

lemma worst_state_Some:
  "worst_state ss = Some t \<Longrightarrow> t \<in> set ss \<and> (\<forall>s \<in> set ss. severity s \<le> severity t)"
proof (induction ss arbitrary: t)
  case Nil
  then show ?case by simp
next
  case (Cons s ss)
  show ?case
  proof (cases "worst_state ss")
    case None
    with Cons.prems show ?thesis by simp
  next
    case (Some u)
    with Cons.IH [OF Some] Cons.prems show ?thesis by (auto split: if_splits)
  qed
qed

lemma worst_state_Error: "worst_state ss = Some Error \<longleftrightarrow> Error \<in> set ss"
proof
  assume "Error \<in> set ss"
  then obtain t where t: "worst_state ss = Some t" by (cases "worst_state ss") auto
  with worst_state_Some [OF t] \<open>Error \<in> set ss\<close> have "3 \<le> severity t" by force
  with t show "worst_state ss = Some Error" by (cases t) auto
qed (auto dest: worst_state_Some)

lemma derive_status_error:
  "derive_status ents ready = ''error'' \<longleftrightarrow> \<not> ready \<or> Error \<in> set (map sub_state (bt_values ents))"
proof (cases "worst_state (map sub_state (bt_values ents))")
  case None
  then have "bt_values ents = []" by simp
  then show ?thesis by (simp add: derive_status_def)
next
  case (Some t)
  with worst_state_Error [of "map sub_state (bt_values ents)"] show ?thesis
    by (cases t) (simp_all add: derive_status_def)
qed

lemma bt_values_get: "bt_inv m \<Longrightarrow> v \<in> set (bt_values m) \<longleftrightarrow> (\<exists>k. bt_get m k = Some v)"
  by (force simp: bt_values_def bt_in_iff [symmetric])

text \<open>
  The header never reads better than the hardware link is: the whole status over the
  effective entries is \<open>error\<close> exactly when the saved data is not usable, some thread has a
  problem, or some subsystem itself reported an error.
\<close>

theorem status_error_iff_problem:
  assumes "bt_inv ents"
  shows "derive_status (effective_entries ents probs now started_at) ready = ''error'' \<longleftrightarrow>
     \<not> ready \<or> bt_values probs \<noteq> [] \<or> (\<exists>k s. bt_get ents k = Some s \<and> sub_state s = Error)"
    (is "?lhs \<longleftrightarrow> ?rhs")
proof -
  let ?eff = "effective_entries ents probs now started_at"
  have "Error \<in> set (map sub_state (bt_values ?eff)) \<longleftrightarrow> (\<exists>k s. bt_get ?eff k = Some s \<and> sub_state s = Error)"
    using bt_values_get [OF effective_entries_inv [OF assms]] by force
  also have "\<dots> \<longleftrightarrow> bt_values probs \<noteq> [] \<or> (\<exists>k s. bt_get ents k = Some s \<and> sub_state s = Error)"
  proof
    assume "\<exists>k s. bt_get ?eff k = Some s \<and> sub_state s = Error"
    then show "bt_values probs \<noteq> [] \<or> (\<exists>k s. bt_get ents k = Some s \<and> sub_state s = Error)"
      by (auto simp: effective_entries_lookup [OF assms] Let_def age_backup_def split: if_splits)
  next
    assume r: "bt_values probs \<noteq> [] \<or> (\<exists>k s. bt_get ents k = Some s \<and> sub_state s = Error)"
    show "\<exists>k s. bt_get ?eff k = Some s \<and> sub_state s = Error"
    proof (cases "bt_values probs")
      case (Cons p ps)
      then have "filter (\<lambda>q. problem_subsystem q = problem_subsystem p) (bt_values probs) \<noteq> []"
        by simp
      then show ?thesis
        by (intro exI [of _ "problem_subsystem p"])
          (simp add: effective_entries_lookup [OF assms] Let_def overlay_status_def)
    next
      case Nil
      with r obtain k s where ks: "bt_get ents k = Some s" "sub_state s = Error" by auto
      with Nil show ?thesis
        by (intro exI [of _ k]) (simp add: effective_entries_lookup [OF assms] age_backup_def)
    qed
  qed
  finally show ?thesis by (simp add: derive_status_error)
qed

lemma severity_words:
  "status_severity ''attention'' = 2" "status_severity ''ok'' = 0" "''attention'' \<noteq> ''ok''"
  by (simp_all add: status_severity_def)

text \<open>
  The Prompter XL and the cameras raise the whole status to \<open>attention\<close> at most and
  never lower it: the severity of what comes out is the larger of the two.
\<close>

theorem parts_raise_to_attention_only:
  "status_severity (with_prompter_status status prompter)
     = max (status_severity status) (if prompter = ''ok'' then 0 else 2)
   \<and> status_severity (with_cameras_status status raises)
     = max (status_severity status) (if raises then 2 else 0)"
  by (simp add: with_prompter_status_def with_cameras_status_def severity_words Let_def)

section \<open>Witnesses\<close>

definition one_backup :: health_entries where
  "one_backup = [(''backups'', \<lparr>sub_state = Ok, sub_detail = ''fine'', sub_at = 0\<rparr>)]"

lemma one_backup_inv: "bt_inv one_backup"
  by (simp add: one_backup_def bt_inv_def)

theorem effective_entries_lookup_witness:
  "bt_get (effective_entries one_backup [] 180000 0) ''backups'' =
     Some \<lparr>sub_state = Warning, sub_detail = ''The last database backup is 50 h old; fine'', sub_at = 0\<rparr>"
  using effective_entries_lookup [OF one_backup_inv, of "[]" 180000 0 "''backups''"]
  by (simp add: one_backup_def bt_get_def bt_values_def age_backup_def SUBSYSTEM_BACKUPS_def
      BACKUP_WARNING_AGE_SECS_def Let_def show_nat.simps digit_char_def)

theorem status_error_iff_problem_witness:
  "derive_status (effective_entries one_backup
     [(''sacn-output'', \<lparr>problem_subsystem = ''sacn'', problem_detail = ''stopped'', problem_at = 5\<rparr>)] 9 0)
     True = ''error''"
  using status_error_iff_problem [OF one_backup_inv, of
    "[(''sacn-output'', \<lparr>problem_subsystem = ''sacn'', problem_detail = ''stopped'', problem_at = 5\<rparr>)]" 9 0 True]
  by (simp add: bt_values_def)

end
