(* ===== verification/Liveness.thy ===== *)
theory Liveness
  imports Health
begin

text \<open>
  The watch over the hardware link's own threads (\<open>liveness.rs\<close>): what a panic, an untimely
  end, a thread that could not be started and a stalled loop say in the log and in the
  health registry, and the look that finds a stall and its end. A thread's flags and its
  report change under that thread's lock, so each operation is one step. A thread is
  known by its place in the list of watched threads.
\<close>

section \<open>Threads and what may go wrong with one\<close>

datatype lifetime = Process | Task

record spec =
  job :: string
  thread_name :: string
  subsystem :: string
  allowance :: "duration option"
  lifetime :: lifetime

record watched =
  spec :: spec
  last_beat_ms :: nat
  gone :: bool
  stalled :: bool
  stalled_since_ms :: nat

datatype problem = Panicked string | Ended | NotStarted string | Stalled nat

definition watched_new :: "spec \<Rightarrow> nat \<Rightarrow> watched" where
  "watched_new sp now_ms =
     \<lparr>spec = sp, last_beat_ms = now_ms, gone = False, stalled = False, stalled_since_ms = 0\<rparr>"

definition beat_at :: "watched \<Rightarrow> nat \<Rightarrow> watched" where
  "beat_at th now_ms = th\<lparr>last_beat_ms := now_ms\<rparr>"

definition the_links :: "watched \<Rightarrow> string" where
  "the_links th = ''The hardware link'' @ [CHR 39] @ ''s '' @ job (spec th)"

fun problem_sentence :: "watched \<Rightarrow> problem \<Rightarrow> string" where
  "problem_sentence th (Panicked _) =
     the_links th @ '' stopped. Restart the hardware link in Setup / Support.''"
| "problem_sentence th Ended =
     the_links th @ '' stopped. Restart the hardware link in Setup / Support.''"
| "problem_sentence th (NotStarted _) =
     the_links th @ '' did not start. Restart the hardware link in Setup / Support.''"
| "problem_sentence th (Stalled secs) =
     the_links th @ '' has not run for '' @ show_nat secs
       @ '' s. Restart the hardware link in Setup / Support if it does not come back.''"

fun log_line :: "watched \<Rightarrow> problem \<Rightarrow> string" where
  "log_line th (Panicked message) =
     ''The '' @ thread_name (spec th) @ '' thread stopped on a panic: '' @ message @ ''.''"
| "log_line th Ended =
     ''The '' @ thread_name (spec th)
       @ '' thread ended, though it was to run as long as the hardware link.''"
| "log_line th (NotStarted err) =
     ''The '' @ thread_name (spec th) @ '' thread could not be started: '' @ err @ ''.''"
| "log_line th (Stalled secs) =
     ''The '' @ thread_name (spec th) @ '' thread has not run for '' @ show_nat secs @ '' s.''"

section \<open>The world the watch writes to\<close>

datatype log_level = LogInfo | LogWarn | LogError

record link =
  health :: health_world
  logged :: "(log_level \<times> string) list"

definition log_event :: "log_level \<Rightarrow> string \<Rightarrow> link \<Rightarrow> link" where
  "log_event level line w = w\<lparr>logged := logged w @ [(level, line)]\<rparr>"

definition on_health :: "(health_world \<Rightarrow> health_world) \<Rightarrow> link \<Rightarrow> link" where
  "on_health f w = w\<lparr>health := f (health w)\<rparr>"

definition report_problem :: "watched \<Rightarrow> problem \<Rightarrow> nat \<Rightarrow> link \<Rightarrow> link" where
  "report_problem th pr unix_now w =
     on_health (thread_problem (thread_name (spec th)) (subsystem (spec th))
                 (problem_sentence th pr) unix_now)
       (log_event LogError (log_line th pr) w)"

text \<open>\<open>Watched::ended\<close>: the flags move first, then the report or the clearing.\<close>

definition ended :: "watched \<Rightarrow> string option \<Rightarrow> bool \<Rightarrow> nat \<Rightarrow> link \<Rightarrow> watched \<times> link" where
  "ended th panic stopping unix_now w =
     (let was_stalled = stalled th; th' = th\<lparr>gone := True, stalled := False\<rparr>
      in (th',
          case panic of
            Some message \<Rightarrow> report_problem th' (Panicked message) unix_now w
          | None \<Rightarrow>
              if lifetime (spec th) = Process \<and> \<not> stopping
              then report_problem th' Ended unix_now w
              else (let w1 = (if lifetime (spec th) = Process
                              then log_event LogInfo
                                     (''The '' @ thread_name (spec th) @ '' thread ended at the stop.'') w
                              else w)
                    in if was_stalled
                       then on_health (thread_problem_cleared (thread_name (spec th))) w1
                       else w1)))"

text \<open>\<open>spawn_watched\<close>: the thread is watched from before its start; one that could not be
  started is gone at once.\<close>

definition spawn_watched :: "spec \<Rightarrow> string option \<Rightarrow> nat \<Rightarrow> nat \<Rightarrow> link \<Rightarrow> watched \<times> link" where
  "spawn_watched sp failure now_ms unix_now w =
     (let th = watched_new sp now_ms
      in case failure of
           None \<Rightarrow> (th, w)
         | Some err \<Rightarrow> (th\<lparr>gone := True\<rparr>,
                         report_problem (th\<lparr>gone := True\<rparr>) (NotStarted err) unix_now w))"

section \<open>The stall watch\<close>

datatype change = ChangeStalled nat | ChangeRunsAgain nat

definition apply_change :: "watched \<Rightarrow> change \<Rightarrow> nat \<Rightarrow> link \<Rightarrow> link" where
  "apply_change th c unix_now w =
     (case c of
        ChangeStalled secs \<Rightarrow> report_problem th (Stalled secs) unix_now w
      | ChangeRunsAgain secs \<Rightarrow>
          on_health (thread_problem_cleared (thread_name (spec th)))
            (log_event LogInfo
               (''The '' @ thread_name (spec th) @ '' thread runs again, after '' @ show_nat secs @ '' s.'') w))"

definition look_at :: "watched \<Rightarrow> nat \<Rightarrow> watched \<times> change option" where
  "look_at th now_ms =
     (case allowance (spec th) of
        None \<Rightarrow> (th, None)
      | Some al \<Rightarrow>
          if gone th then (th, None)
          else (let last_beat = last_beat_ms th;
                    age_ms = now_ms - last_beat;
                    allowance_ms = to_u64 (as_millis al);
                    stalled_now = allowance_ms < age_ms
                in case (stalled th, stalled_now) of
                     (False, True) \<Rightarrow>
                       (th\<lparr>stalled := True, stalled_since_ms := last_beat\<rparr>,
                        Some (ChangeStalled (age_ms div 1000)))
                   | (True, False) \<Rightarrow>
                       (th\<lparr>stalled := False\<rparr>,
                        Some (ChangeRunsAgain ((now_ms - stalled_since_ms th) div 1000)))
                   | _ \<Rightarrow> (th, None)))"

fun look :: "watched list \<Rightarrow> nat \<Rightarrow> nat \<Rightarrow> link \<Rightarrow> watched list \<times> link" where
  "look [] now_ms unix_now w = ([], w)"
| "look (th # ths) now_ms unix_now w =
     (let (th', found) = look_at th now_ms;
          w' = (case found of Some c \<Rightarrow> apply_change th' c unix_now w | None \<Rightarrow> w);
          (ths', w'') = look ths now_ms unix_now w'
      in (th' # ths', w''))"

section \<open>The panic hook's line\<close>

definition panic_line :: "string option \<Rightarrow> (string \<times> nat) option \<Rightarrow> string \<Rightarrow> string" where
  "panic_line thread location message =
     (let name = (case thread of Some n \<Rightarrow> n | None \<Rightarrow> ''an unnamed thread'')
      in case location of
           Some (file, line) \<Rightarrow>
             ''The '' @ name @ '' thread panicked at '' @ file @ '':'' @ show_nat line @ '': '' @ message
         | None \<Rightarrow> ''The '' @ name @ '' thread panicked: '' @ message)"

section \<open>What one step does to the registry\<close>

definition name_of :: "watched \<Rightarrow> string" where
  "name_of th = thread_name (spec th)"

definition has_problem :: "link \<Rightarrow> string \<Rightarrow> bool" where
  "has_problem w n \<longleftrightarrow> problem_of (health w) n \<noteq> None"

lemma health_log_event [simp]: "health (log_event l m w) = health w"
  by (simp add: log_event_def)

lemma has_problem_log_event [simp]: "has_problem (log_event l m w) n = has_problem w n"
  by (simp add: has_problem_def)

lemma has_problem_report [simp]:
  "has_problem (report_problem th pr u w) n \<longleftrightarrow> n = name_of th \<or> has_problem w n"
  using problem_of_thread_problem [of "name_of th" "subsystem (spec th)" "problem_sentence th pr" u "health w"]
  by (cases "n = name_of th")
    (auto simp: has_problem_def report_problem_def on_health_def name_of_def)

lemma has_problem_clear [simp]:
  "has_problem (on_health (thread_problem_cleared m) w) n \<longleftrightarrow> n \<noteq> m \<and> has_problem w n"
  by (auto simp: has_problem_def on_health_def)

lemma look_at_keeps:
  "spec (fst (look_at th now)) = spec th" "gone (fst (look_at th now)) = gone th"
  by (auto simp: look_at_def Let_def split: option.splits bool.splits)

lemma look_at_name [simp]: "name_of (fst (look_at th now)) = name_of th"
  by (simp add: name_of_def look_at_keeps)

definition overdue_beat :: "watched \<Rightarrow> nat \<Rightarrow> bool" where
  "overdue_beat th now_ms =
     (case allowance (spec th) of
        None \<Rightarrow> False
      | Some al \<Rightarrow> to_u64 (as_millis al) < now_ms - last_beat_ms th)"

lemma look_at_stalled:
  "stalled (fst (look_at th now)) =
     (if gone th \<or> allowance (spec th) = None then stalled th else overdue_beat th now)"
  by (auto simp: look_at_def overdue_beat_def Let_def split: option.splits bool.splits)

lemma look_at_change:
  "has_problem (case snd (look_at th now) of Some c \<Rightarrow> apply_change (fst (look_at th now)) c u w | None \<Rightarrow> w) n =
     (if n = name_of th \<and> stalled (fst (look_at th now)) \<noteq> stalled th
      then stalled (fst (look_at th now)) else has_problem w n)"
  by (auto simp: look_at_def apply_change_def name_of_def Let_def split: option.splits bool.splits)

lemma look_threads: "fst (look ths now u w) = map (\<lambda>th. fst (look_at th now)) ths"
  by (induction ths arbitrary: w) (simp_all add: Let_def case_prod_beta)

lemma look_step:
  "snd (look (th # ths) now u w) =
     snd (look ths now u (case snd (look_at th now) of
                            Some c \<Rightarrow> apply_change (fst (look_at th now)) c u w | None \<Rightarrow> w))"
  by (simp add: Let_def case_prod_beta)

lemma look_other:
  "n \<notin> set (map name_of ths) \<Longrightarrow> has_problem (snd (look ths now u w)) n = has_problem w n"
proof (induction ths arbitrary: w)
  case Nil
  then show ?case by simp
next
  case (Cons th ths)
  then show ?case
    by (simp only: look_step) (simp add: look_at_change)
qed

lemma look_problem:
  "distinct (map name_of ths) \<Longrightarrow> th \<in> set ths \<Longrightarrow>
     has_problem (snd (look ths now u w)) (name_of th) =
       (if stalled (fst (look_at th now)) \<noteq> stalled th
        then stalled (fst (look_at th now)) else has_problem w (name_of th))"
proof (induction ths arbitrary: w)
  case Nil
  then show ?case by simp
next
  case (Cons t ths)
  show ?case
  proof (cases "th = t")
    case True
    with Cons.prems(1) show ?thesis
      by (simp only: look_step) (simp add: look_other look_at_change)
  next
    case False
    with Cons.prems have "th \<in> set ths" "name_of th \<in> name_of ` set ths" by auto
    moreover from this(2) Cons.prems(1) have "name_of th \<noteq> name_of t"
      by (metis distinct.simps(2) list.simps(9) set_map)
    ultimately have "th \<in> set ths" "name_of th \<noteq> name_of t" by auto
    with Cons show ?thesis
      by (simp only: look_step) (simp add: look_at_change)
  qed
qed

text \<open>
  A look says each stall once: after a look, a running thread with an allowance is
  flagged stalled exactly when its beat is older than the allowance, and a second look at
  the same moment changes nothing, in the threads, the log and the registry.
\<close>

theorem look_says_once:
  fixes ths now u w
  defines "after \<equiv> look ths now u w"
  shows "list_all2 (\<lambda>th th'. spec th' = spec th \<and> gone th' = gone th \<and>
            stalled th' = (if gone th \<or> allowance (spec th) = None then stalled th
                           else overdue_beat th now)) ths (fst after)
       \<and> look (fst after) now u' (snd after) = after"
proof
  show "list_all2 (\<lambda>th th'. spec th' = spec th \<and> gone th' = gone th \<and>
      stalled th' = (if gone th \<or> allowance (spec th) = None then stalled th
                     else overdue_beat th now)) ths (fst after)"
    by (simp add: after_def look_threads list_all2_map2 list_all2_refl look_at_keeps look_at_stalled)
  have again: "look_at (fst (look_at th now)) now = (fst (look_at th now), None)" for th
    by (auto simp: look_at_def Let_def split: option.splits bool.splits)
  have "look (map (\<lambda>th. fst (look_at th now)) ths) now u' v = (map (\<lambda>th. fst (look_at th now)) ths, v)" for v
    by (induction ths) (simp_all add: again)
  then show "look (fst after) now u' (snd after) = after"
    by (simp add: after_def look_threads prod_eq_iff)
qed

lemma ended_facts:
  assumes "ended th panic stopping u w = (th', w')"
  shows "spec th' = spec th" "gone th'" "\<not> stalled th'"
    and "has_problem w' n = (if n = name_of th
           then panic \<noteq> None \<or> (lifetime (spec th) = Process \<and> \<not> stopping)
                \<or> (\<not> stalled th \<and> has_problem w n)
           else has_problem w n)"
  using assms by (auto simp: ended_def name_of_def Let_def split: option.splits if_splits)

section \<open>The life of the watched threads\<close>

record live =
  threads :: "watched list"
  world :: link
  stopping :: bool

inductive live_step :: "live \<Rightarrow> live \<Rightarrow> bool" where
  spawns: "thread_name sp \<notin> set (map name_of (threads s)) \<Longrightarrow>
     spawn_watched sp failure now u (world s) = (th, w) \<Longrightarrow>
     live_step s (s\<lparr>threads := threads s @ [th], world := w\<rparr>)"
| beats: "i < length (threads s) \<Longrightarrow>
     live_step s (s\<lparr>threads := (threads s)[i := beat_at (threads s ! i) now]\<rparr>)"
| ends: "i < length (threads s) \<Longrightarrow> \<not> gone (threads s ! i) \<Longrightarrow>
     ended (threads s ! i) panic (stopping s) u (world s) = (th, w) \<Longrightarrow>
     live_step s (s\<lparr>threads := (threads s)[i := th], world := w\<rparr>)"
| looks: "look (threads s) now u (world s) = (ths, w) \<Longrightarrow>
     live_step s (s\<lparr>threads := ths, world := w\<rparr>)"
| logs: "live_step s (s\<lparr>world := log_event level line (world s)\<rparr>)"
| marks_stopping: "live_step s (s\<lparr>stopping := True\<rparr>)"

definition live_start :: "health_world \<Rightarrow> live" where
  "live_start h = \<lparr>threads = [], world = \<lparr>health = h, logged = []\<rparr>, stopping = False\<rparr>"

inductive live_reachable :: "live \<Rightarrow> bool" where
  live_begin: "problem_of h = Map.empty \<Longrightarrow> live_reachable (live_start h)"
| live_goes_on: "live_reachable s \<Longrightarrow> live_step s s' \<Longrightarrow> live_reachable s'"

definition live_inv :: "live \<Rightarrow> bool" where
  "live_inv s \<longleftrightarrow>
     distinct (map name_of (threads s))
     \<and> (\<forall>n. has_problem (world s) n \<longrightarrow> n \<in> set (map name_of (threads s)))
     \<and> (\<forall>th \<in> set (threads s). \<not> gone th \<longrightarrow> has_problem (world s) (name_of th) = stalled th)
     \<and> (\<forall>th \<in> set (threads s). gone th \<longrightarrow> \<not> stalled th)"

lemma live_inv_update:
  assumes inv: "live_inv s" and i: "i < length (threads s)"
    and same: "name_of th = name_of (threads s ! i)"
    and frame: "\<And>n. n \<noteq> name_of th \<Longrightarrow> has_problem w n = has_problem (world s) n"
    and own: "\<not> gone th \<Longrightarrow> has_problem w (name_of th) = stalled th" "gone th \<Longrightarrow> \<not> stalled th"
  shows "live_inv (s\<lparr>threads := (threads s)[i := th], world := w\<rparr>)"
proof -
  have names: "map name_of ((threads s)[i := th]) = map name_of (threads s)"
    using i same by (simp add: map_update list_update_same_conv)
  have old: "t \<in> set (threads s) \<and> name_of t \<noteq> name_of th" if "t \<in> set ((threads s)[i := th])" "t \<noteq> th" for t
  proof -
    from that obtain j where j: "j < length (threads s)" "j \<noteq> i" "t = threads s ! j"
      by (metis in_set_conv_nth length_list_update nth_list_update_eq nth_list_update_neq)
    with inv i show ?thesis
      by (auto simp: live_inv_def same distinct_conv_nth)
  qed
  have mem: "name_of th \<in> set (map name_of (threads s))" using i same by simp
  show ?thesis
    unfolding live_inv_def
  proof (intro conjI allI ballI impI)
    fix n assume "has_problem (world (s\<lparr>threads := (threads s)[i := th], world := w\<rparr>)) n"
    then show "n \<in> set (map name_of (threads (s\<lparr>threads := (threads s)[i := th], world := w\<rparr>)))"
      using inv mem names frame [of n] by (cases "n = name_of th") (simp_all add: live_inv_def)
  next
    fix t assume t: "t \<in> set (threads (s\<lparr>threads := (threads s)[i := th], world := w\<rparr>))" "\<not> gone t"
    then show "has_problem (world (s\<lparr>threads := (threads s)[i := th], world := w\<rparr>)) (name_of t) = stalled t"
      using inv own(1) old [of t] frame [of "name_of t"] by (cases "t = th") (auto simp: live_inv_def)
  next
    fix t assume t: "t \<in> set (threads (s\<lparr>threads := (threads s)[i := th], world := w\<rparr>))" "gone t"
    then show "\<not> stalled t"
      using inv own(2) old [of t] by (cases "t = th") (auto simp: live_inv_def)
  qed (use inv names in \<open>simp add: live_inv_def\<close>)
qed

lemma live_step_inv: "live_step s s' \<Longrightarrow> live_inv s \<Longrightarrow> live_inv s'"
proof (induction rule: live_step.induct)
  case (spawns sp s failure now u th w)
  from spawns.hyps(2) have new: "name_of th = thread_name sp" "\<not> stalled th" "gone th \<longleftrightarrow> failure \<noteq> None"
    and prob: "\<And>n. has_problem w n \<longleftrightarrow> has_problem (world s) n \<or> (failure \<noteq> None \<and> n = thread_name sp)"
    by (auto simp: spawn_watched_def watched_new_def name_of_def Let_def split: option.splits)
  have free: "\<not> has_problem (world s) (thread_name sp)"
    using spawns.hyps(1) spawns.prems by (auto simp: live_inv_def)
  have other: "name_of t \<noteq> thread_name sp" if "t \<in> set (threads s)" for t
    using spawns.hyps(1) that by (metis image_eqI set_map)
  show ?case
    unfolding live_inv_def
  proof (intro conjI allI ballI impI)
    show "distinct (map name_of (threads (s\<lparr>threads := threads s @ [th], world := w\<rparr>)))"
      using spawns.hyps(1) spawns.prems new(1) by (simp add: live_inv_def)
  next
    fix n assume "has_problem (world (s\<lparr>threads := threads s @ [th], world := w\<rparr>)) n"
    then show "n \<in> set (map name_of (threads (s\<lparr>threads := threads s @ [th], world := w\<rparr>)))"
      using spawns.prems prob [of n] new(1) by (auto simp: live_inv_def)
  next
    fix t assume "t \<in> set (threads (s\<lparr>threads := threads s @ [th], world := w\<rparr>))" "\<not> gone t"
    then show "has_problem (world (s\<lparr>threads := threads s @ [th], world := w\<rparr>)) (name_of t) = stalled t"
      using spawns.prems prob [of "name_of t"] new free other [of t]
      by (cases "t \<in> set (threads s)") (simp_all add: live_inv_def)
  next
    fix t assume "t \<in> set (threads (s\<lparr>threads := threads s @ [th], world := w\<rparr>))" "gone t"
    then show "\<not> stalled t"
      using spawns.prems new(2) by (auto simp: live_inv_def)
  qed
next
  case (beats i s now)
  have eq: "s\<lparr>threads := (threads s)[i := beat_at (threads s ! i) now]\<rparr> =
      s\<lparr>threads := (threads s)[i := beat_at (threads s ! i) now], world := world s\<rparr>" by simp
  from beats show ?case
    by (subst eq, intro live_inv_update) (auto simp: beat_at_def name_of_def live_inv_def)
next
  case (ends i s panic u th w)
  from ended_facts [OF ends.hyps(3)] have "name_of th = name_of (threads s ! i)"
    by (simp add: name_of_def)
  with ends ended_facts [OF ends.hyps(3)] show ?case
    by (intro live_inv_update) auto
next
  case (looks s now u ths w)
  have ths: "ths = map (\<lambda>th. fst (look_at th now)) (threads s)" and w: "w = snd (look (threads s) now u (world s))"
    using looks.hyps look_threads [of "threads s" now u "world s"] by auto
  have d: "distinct (map name_of (threads s))" using looks.prems by (simp add: live_inv_def)
  have prob: "has_problem w (name_of th) = stalled (fst (look_at th now))"
    if "th \<in> set (threads s)" "\<not> gone th" for th
    using looks.prems that look_problem [OF d that(1), of now u "world s"]
    by (auto simp: live_inv_def w)
  show ?case
    using looks.prems prob look_other [of _ "threads s" now u "world s"]
    by (auto simp: live_inv_def ths w comp_def look_at_keeps look_at_stalled)
qed (auto simp: live_inv_def)

lemma live_reachable_inv: "live_reachable s \<Longrightarrow> live_inv s"
proof (induction rule: live_reachable.induct)
  case (live_begin h)
  then show ?case by (simp add: live_start_def live_inv_def has_problem_def)
qed (rule live_step_inv)

text \<open>
  C9. The lamp follows the watch: in every state the hardware link can reach, a running
  thread has a problem on its subsystem's entry exactly while the watch holds it stalled,
  a thread that is gone is never held stalled, and no problem names a thread that was
  never watched.
\<close>

theorem problems_follow_the_watch:
  assumes "live_reachable s"
  shows "(\<forall>th \<in> set (threads s). \<not> gone th \<longrightarrow> has_problem (world s) (name_of th) = stalled th)
     \<and> (\<forall>th \<in> set (threads s). gone th \<longrightarrow> \<not> stalled th)
     \<and> (\<forall>n. has_problem (world s) n \<longrightarrow> n \<in> name_of ` set (threads s))"
  using live_reachable_inv [OF assms] by (auto simp: live_inv_def)

text \<open>
  What an end leaves on the entry: when a running thread ends in a reachable state,
  it has a problem afterwards exactly when it panicked, or was to run as long as the
  hardware link and the stop was not under way; a stall it had at a clean end is cleared.
\<close>

theorem end_leaves_a_fault_only:
  assumes "live_reachable s" and "th \<in> set (threads s)" and "\<not> gone th"
    and "ended th panic (stopping s) u (world s) = (th', w')"
  shows "has_problem w' (name_of th) \<longleftrightarrow>
      panic \<noteq> None \<or> (lifetime (spec th) = Process \<and> \<not> stopping s)"
  using live_reachable_inv [OF assms(1)] assms(2,3) ended_facts(4) [OF assms(4), of "name_of th"]
  by (auto simp: live_inv_def)

section \<open>Witnesses\<close>

definition slow_spec :: spec where
  "slow_spec = \<lparr>job = ''lighting output'', thread_name = ''sacn-output'', subsystem = ''sacn'',
                allowance = Some (from_secs 10), lifetime = Process\<rparr>"

definition quiet_link :: health_world where
  "quiet_link = \<lparr>registry = \<lparr>entries = [], problems = []\<rparr>, announced = []\<rparr>"

definition spawned_one :: live where
  "spawned_one = (live_start quiet_link)\<lparr>threads := [watched_new slow_spec 0]\<rparr>"

lemma spawned_one_reachable: "live_reachable spawned_one"
proof -
  have "live_step (live_start quiet_link)
      ((live_start quiet_link)\<lparr>threads := threads (live_start quiet_link) @ [watched_new slow_spec 0],
                              world := world (live_start quiet_link)\<rparr>)"
    by (rule live_step.spawns [where sp = slow_spec and failure = None and now = 0 and u = 0])
      (auto simp: live_start_def spawn_watched_def)
  moreover have "live_reachable (live_start quiet_link)"
    by (rule live_reachable.live_begin) (simp add: quiet_link_def problem_of_def fun_eq_iff)
  ultimately show ?thesis
    using live_reachable.live_goes_on by (fastforce simp: spawned_one_def live_start_def)
qed

theorem problems_follow_the_watch_witness:
  "\<exists>s. live_reachable s \<and> (\<exists>th \<in> set (threads s). stalled th \<and> has_problem (world s) (name_of th))"
proof -
  obtain ths w where l: "look (threads spawned_one) 12000 5 (world spawned_one) = (ths, w)" by fastforce
  have r: "live_reachable (spawned_one\<lparr>threads := ths, world := w\<rparr>)"
    by (rule live_reachable.live_goes_on [OF spawned_one_reachable live_step.looks [OF l]])
  have "ths = [fst (look_at (watched_new slow_spec 0) 12000)]"
    using l look_threads [of "threads spawned_one" 12000 5 "world spawned_one"] by (simp add: spawned_one_def)
  then have th: "fst (look_at (watched_new slow_spec 0) 12000) \<in> set ths"
    "stalled (fst (look_at (watched_new slow_spec 0) 12000))"
    "\<not> gone (fst (look_at (watched_new slow_spec 0) 12000))"
    by (simp_all add: look_at_def watched_new_def slow_spec_def as_millis_def to_u64_def u64_max_def Let_def)
  with problems_follow_the_watch [OF r] r show ?thesis
    by (intro exI [of _ "spawned_one\<lparr>threads := ths, world := w\<rparr>"]) force
qed

theorem end_leaves_a_fault_only_witness:
  "has_problem (snd (ended (watched_new slow_spec 0) None (stopping spawned_one) 7 (world spawned_one))) ''sacn-output''"
proof -
  have "has_problem (snd (ended (watched_new slow_spec 0) None (stopping spawned_one) 7 (world spawned_one)))
      (name_of (watched_new slow_spec 0))"
    using end_leaves_a_fault_only [OF spawned_one_reachable, of "watched_new slow_spec 0" None 7
        "fst (ended (watched_new slow_spec 0) None (stopping spawned_one) 7 (world spawned_one))"
        "snd (ended (watched_new slow_spec 0) None (stopping spawned_one) 7 (world spawned_one))"]
    by (simp add: spawned_one_def watched_new_def slow_spec_def live_start_def)
  then show ?thesis by (simp add: name_of_def watched_new_def slow_spec_def)
qed

end
