(* ===== verification/Txt_Decode.thy ===== *)
theory Txt_Decode
  imports Text_Std
begin

text \<open>
  The encodings a text comes in (\<open>prompter/import/txt.rs\<close>): Windows-1252, which the Console's
  names and an "ANSI" text file are in, and UTF-16 after its byte-order mark. A text is the
  bytes of its UTF-8; a character is its scalar value.
\<close>

section \<open>A scalar value in UTF-8\<close>

definition utf8_char :: "nat \<Rightarrow> string" where
  "utf8_char n =
     (if n < 0x80 then [char_of n]
      else if n < 0x800 then [char_of (0xC0 + n div 64), char_of (0x80 + n mod 64)]
      else if n < 0x10000
      then [char_of (0xE0 + n div 4096), char_of (0x80 + n div 64 mod 64), char_of (0x80 + n mod 64)]
      else [char_of (0xF0 + n div 262144), char_of (0x80 + n div 4096 mod 64),
            char_of (0x80 + n div 64 mod 64), char_of (0x80 + n mod 64)])"

definition is_scalar :: "nat \<Rightarrow> bool" where
  "is_scalar n \<longleftrightarrow> n < 0xD800 \<or> (0xDFFF < n \<and> n < 0x110000)"

section \<open>Windows-1252\<close>

definition WINDOWS_1252_HIGH :: "nat option list" where
  "WINDOWS_1252_HIGH =
     [Some 0x20AC, None, Some 0x201A, Some 0x0192, Some 0x201E, Some 0x2026, Some 0x2020, Some 0x2021,
      Some 0x02C6, Some 0x2030, Some 0x0160, Some 0x2039, Some 0x0152, None, Some 0x017D, None,
      None, Some 0x2018, Some 0x2019, Some 0x201C, Some 0x201D, Some 0x2022, Some 0x2013, Some 0x2014,
      Some 0x02DC, Some 0x2122, Some 0x0161, Some 0x203A, Some 0x0153, None, Some 0x017E, Some 0x0178]"

definition windows_1252_char :: "char \<Rightarrow> nat option" where
  "windows_1252_char byte =
     (if 0x80 \<le> code byte \<and> code byte \<le> 0x9F then WINDOWS_1252_HIGH ! (code byte - 0x80)
      else Some (code byte))"

fun windows_1252 :: "string \<Rightarrow> string" where
  "windows_1252 [] = []"
| "windows_1252 (b # bs) =
     (case windows_1252_char b of Some n \<Rightarrow> utf8_char n @ windows_1252 bs | None \<Rightarrow> windows_1252 bs)"

section \<open>UTF-16\<close>

fun units :: "bool \<Rightarrow> string \<Rightarrow> nat list" where
  "units big_endian (a # b # bs) =
     (if big_endian then code a * 256 + code b else code b * 256 + code a) # units big_endian bs"
| "units big_endian _ = []"

text \<open>\<open>char::decode_utf16\<close>, collected: \<open>None\<close> at a lone surrogate.\<close>

fun decode_utf16 :: "nat list \<Rightarrow> string option" where
  "decode_utf16 [] = Some []"
| "decode_utf16 (u # us) =
     (if u < 0xD800 \<or> 0xDFFF < u then map_option ((@) (utf8_char u)) (decode_utf16 us)
      else if 0xDC00 \<le> u then None
      else (case us of
              v # vs \<Rightarrow>
                if 0xDC00 \<le> v \<and> v \<le> 0xDFFF
                then map_option ((@) (utf8_char (0x10000 + (u - 0xD800) * 0x400 + (v - 0xDC00)))) (decode_utf16 vs)
                else None
            | [] \<Rightarrow> None))"

definition utf16 :: "string \<Rightarrow> bool \<Rightarrow> string option" where
  "utf16 bytes big_endian =
     (if length bytes mod 2 \<noteq> 0 then None else decode_utf16 (units big_endian bytes))"

section \<open>A text file's bytes\<close>

datatype text_encoding = Utf8 | Utf16 | Windows1252

definition UTF8_BOM :: string where "UTF8_BOM = [CHR 0xEF, CHR 0xBB, CHR 0xBF]"
definition UTF16_LE_BOM :: string where "UTF16_LE_BOM = [CHR 0xFF, CHR 0xFE]"
definition UTF16_BE_BOM :: string where "UTF16_BE_BOM = [CHR 0xFE, CHR 0xFF]"

text \<open>The text and its encoding; \<open>None\<close> is the refusal of a file that is not text.\<close>

definition read_txt_text :: "string \<Rightarrow> (string \<times> text_encoding) option" where
  "read_txt_text bytes =
     (let decoded =
        (case strip_prefix bytes UTF8_BOM of
           Some rest \<Rightarrow> Some (utf8_lossy rest, Utf8)
         | None \<Rightarrow>
             (case strip_prefix bytes UTF16_LE_BOM of
                Some rest \<Rightarrow> map_option (\<lambda>t. (t, Utf16)) (utf16 rest False)
              | None \<Rightarrow>
                  (case strip_prefix bytes UTF16_BE_BOM of
                     Some rest \<Rightarrow> map_option (\<lambda>t. (t, Utf16)) (utf16 rest True)
                   | None \<Rightarrow> if utf8_valid bytes then Some (bytes, Utf8)
                             else Some (windows_1252 bytes, Windows1252))))
      in case decoded of
           None \<Rightarrow> None
         | Some (t, e) \<Rightarrow> if CHR 0x00 \<in> set t then None else Some (t, e))"

section \<open>What comes out is text\<close>

lemma code_char_of: "n < 256 \<Longrightarrow> code (char_of n) = n"
  by simp

lemma utf8_valid_step:
  "utf8_first (c # s) = (True, n) \<Longrightarrow> utf8_valid (c # s) = utf8_valid (drop n (c # s))"
  by (simp add: utf8_valid.simps(2))

lemma utf8_valid_char:
  assumes "is_scalar n"
  shows "utf8_valid (utf8_char n @ s) = utf8_valid s"
proof -
  consider "n < 0x80" | "0x80 \<le> n" "n < 0x800" | "0x800 \<le> n" "n < 0x10000" | "0x10000 \<le> n" by linarith
  then show ?thesis
  proof cases
    case 1
    then have "utf8_first (char_of n # s) = (True, 1)" by (simp add: utf8_first_def)
    with 1 show ?thesis by (simp add: utf8_char_def utf8_valid_step)
  next
    case 2
    let ?r = "char_of (0xC0 + n div 64) # char_of (0x80 + n mod 64) # s"
    have "0xC2 \<le> 0xC0 + n div 64" "0xC0 + n div 64 \<le> 0xDF" using 2 by auto
    then have "utf8_first ?r = (True, 2)"
      by (simp add: utf8_first_def cont_byte_def code_char_of)
    with 2 show ?thesis by (simp add: utf8_char_def utf8_valid_step)
  next
    case 3
    let ?e = "0xE0 + n div 4096" and ?f = "0x80 + n div 64 mod 64" and ?g = "0x80 + n mod 64"
    have e: "0xE0 \<le> ?e" "?e \<le> 0xEF" "?e < 256" using 3 by auto
    have f: "?f < 256" "0x80 \<le> ?f" "?f \<le> 0xBF" and g: "?g < 256" "0x80 \<le> ?g" "?g \<le> 0xBF" by auto
    have low: "0xA0 \<le> ?f" if "n div 4096 = 0"
    proof -
      from that have "n < 4096" by simp
      then have "n div 64 < 64" by simp
      moreover have "32 \<le> n div 64" using 3 by auto
      ultimately show ?thesis by simp
    qed
    have high: "?f \<le> 0x9F" if "n div 4096 = 13"
    proof -
      have "n = 53248 + n mod 4096" using that div_mult_mod_eq [of n 4096] by simp
      moreover have "n mod 4096 < 4096" by simp
      ultimately have "53248 \<le> n" "n \<le> 0xDFFF" by linarith+
      with assms have "n < 0xD800" by (auto simp: is_scalar_def)
      then have "n div 64 < 864" by (simp add: less_mult_imp_div_less)
      moreover have "832 \<le> n div 64" using \<open>53248 \<le> n\<close> by linarith
      ultimately obtain r where r: "n div 64 = 832 + r" "r < 32" using le_Suc_ex by force
      have "n div 64 mod 64 = r" unfolding r(1) using r(2) mod_mult_self3 [of 13 64 r] by simp
      with r(2) have "n div 64 mod 64 < 32" by simp
      then show ?thesis by simp
    qed
    have "second_of_three ?e (char_of ?f)"
      using f low high by (auto simp: second_of_three_def in_range_def cont_byte_def)
    then have "utf8_first (char_of ?e # char_of ?f # char_of ?g # s) = (True, 3)"
      using e f g by (simp add: utf8_first_def cont_byte_def Let_def)
    with 3 show ?thesis by (simp add: utf8_char_def utf8_valid_step)
  next
    case 4
    let ?d = "0xF0 + n div 262144" and ?e = "0x80 + n div 4096 mod 64"
      and ?f = "0x80 + n div 64 mod 64" and ?g = "0x80 + n mod 64"
    have top: "n < 0x110000" using assms 4 by (auto simp: is_scalar_def)
    have d: "0xF0 \<le> ?d" "?d \<le> 0xF4" "?d < 256" using top by auto
    have e: "?e < 256" "0x80 \<le> ?e" "?e \<le> 0xBF" and f: "?f < 256" "0x80 \<le> ?f" "?f \<le> 0xBF"
      and g: "?g < 256" "0x80 \<le> ?g" "?g \<le> 0xBF" by auto
    have low: "0x90 \<le> ?e" if "n div 262144 = 0"
    proof -
      from that have "n < 262144" by simp
      then have "n div 4096 < 64" by (simp add: less_mult_imp_div_less)
      moreover have "16 \<le> n div 4096" using 4 by linarith
      ultimately show ?thesis by simp
    qed
    have high: "?e \<le> 0x8F" if "n div 262144 = 4"
    proof -
      have "n div 4096 < 272" using top by (simp add: less_mult_imp_div_less)
      moreover have "256 \<le> n div 4096" using that by linarith
      ultimately obtain r where r: "n div 4096 = 256 + r" "r < 16" using le_Suc_ex by force
      have "n div 4096 mod 64 = r" unfolding r(1) using r(2) mod_mult_self3 [of 4 64 r] by simp
      with r(2) have "n div 4096 mod 64 < 16" by simp
      then show ?thesis by simp
    qed
    have "second_of_four ?d (char_of ?e)"
      using e low high by (auto simp: second_of_four_def in_range_def cont_byte_def)
    then have "utf8_first (char_of ?d # char_of ?e # char_of ?f # char_of ?g # s) = (True, 4)"
      using d e f g by (simp add: utf8_first_def cont_byte_def Let_def)
    with 4 show ?thesis by (simp add: utf8_char_def utf8_valid_step)
  qed
qed

lemma windows_1252_scalar: "windows_1252_char b = Some n \<Longrightarrow> is_scalar n"
proof -
  assume b: "windows_1252_char b = Some n"
  show ?thesis
  proof (cases "0x80 \<le> code b \<and> code b \<le> 0x9F")
    case True
    then have "code b - 0x80 < length WINDOWS_1252_HIGH" by (auto simp: WINDOWS_1252_HIGH_def)
    then have "Some n \<in> set WINDOWS_1252_HIGH"
      using b True nth_mem [of "code b - 0x80" WINDOWS_1252_HIGH] by (simp add: windows_1252_char_def)
    then show ?thesis by (auto simp: WINDOWS_1252_HIGH_def is_scalar_def)
  next
    case False
    with b have "n < 256" by (auto simp: windows_1252_char_def split: if_splits)
    then show ?thesis by (simp add: is_scalar_def)
  qed
qed

lemma windows_1252_valid: "utf8_valid (windows_1252 bs)"
  by (induction bs rule: windows_1252.induct)
    (auto simp: utf8_valid_char windows_1252_scalar split: option.split)

lemma units_bound: "u \<in> set (units be bs) \<Longrightarrow> u < 0x10000"
proof (induction be bs rule: units.induct)
  case (1 be a b bs)
  have "code a < 256" "code b < 256" by simp_all
  then have "code a * 256 + code b < 0x10000" "code b * 256 + code a < 0x10000" by linarith+
  with 1 show ?case by (auto split: if_splits)
qed auto

lemma decode_utf16_valid:
  "list_all (\<lambda>u. u < 0x10000) us \<Longrightarrow> decode_utf16 us = Some t \<Longrightarrow> utf8_valid t"
proof (induction us arbitrary: t rule: decode_utf16.induct)
  case 1
  then show ?case by simp
next
  case (2 u us)
  show ?case
  proof (cases "u < 0xD800 \<or> 0xDFFF < u")
    case True
    with 2 show ?thesis by (auto simp: utf8_valid_char is_scalar_def)
  next
    case False
    with "2.prems" obtain v vs r where us: "us = v # vs" "\<not> 0xDC00 \<le> u" "0xDC00 \<le> v \<and> v \<le> 0xDFFF"
      "decode_utf16 vs = Some r" "t = utf8_char (0x10000 + (u - 0xD800) * 0x400 + (v - 0xDC00)) @ r"
      by (auto split: if_splits list.splits)
    have "is_scalar (0x10000 + (u - 0xD800) * 0x400 + (v - 0xDC00))"
      using us(2,3) by (auto simp: is_scalar_def)
    with "2.IH"(2) [OF False us(2,1,3)] us "2.prems"(1) show ?thesis
      by (simp add: utf8_valid_char)
  qed
qed

lemma utf8_first_shapes:
  assumes "utf8_first (a # r) = (True, n)"
  obtains "code a < 0x80" "n = 1"
  | c1 r1 where "0xC2 \<le> code a" "code a \<le> 0xDF" "r = c1 # r1" "cont_byte c1" "n = 2"
  | c1 c2 r2 where "0xE0 \<le> code a" "code a \<le> 0xEF" "r = c1 # c2 # r2" "second_of_three (code a) c1"
      "cont_byte c2" "n = 3"
  | c1 c2 c3 r3 where "0xF0 \<le> code a" "code a \<le> 0xF4" "r = c1 # c2 # c3 # r3" "second_of_four (code a) c1"
      "cont_byte c2" "cont_byte c3" "n = 4"
proof -
  define b where "b = code a"
  have u: "utf8_first (a # r) = (True, n)" by fact
  consider "b < 0x80" | "0xC2 \<le> b" "b \<le> 0xDF" | "0xE0 \<le> b" "b \<le> 0xEF" | "0xF0 \<le> b" "b \<le> 0xF4"
    | "0x80 \<le> b" "\<not> (0xC2 \<le> b \<and> b \<le> 0xDF)" "\<not> (0xE0 \<le> b \<and> b \<le> 0xEF)" "\<not> (0xF0 \<le> b \<and> b \<le> 0xF4)"
    by linarith
  then show thesis
  proof cases
    case 1
    with u that(1) show thesis by (simp add: utf8_first_def b_def)
  next
    case 2
    with u that(2) show thesis
      by (cases r) (simp_all add: utf8_first_def flip: b_def split: if_splits)
  next
    case 3
    then have "utf8_first (a # r) =
        (case r of c1 # r1 \<Rightarrow> if second_of_three b c1
           then (case r1 of c2 # _ \<Rightarrow> if cont_byte c2 then (True, 3) else (False, 2) | [] \<Rightarrow> (False, 2))
           else (False, 1) | [] \<Rightarrow> (False, 1))"
      by (simp add: utf8_first_def flip: b_def)
    with 3 u that(3) show thesis by (auto simp flip: b_def split: list.splits if_splits)
  next
    case 4
    then have "utf8_first (a # r) =
        (case r of c1 # r1 \<Rightarrow> if second_of_four b c1
           then (case r1 of c2 # r2 \<Rightarrow> if cont_byte c2
             then (case r2 of c3 # _ \<Rightarrow> if cont_byte c3 then (True, 4) else (False, 3) | [] \<Rightarrow> (False, 3))
             else (False, 2) | [] \<Rightarrow> (False, 2))
           else (False, 1) | [] \<Rightarrow> (False, 1))"
      by (simp add: utf8_first_def flip: b_def)
    with 4 u that(4) show thesis by (auto simp flip: b_def split: list.splits if_splits)
  next
    case 5
    with u show thesis by (simp add: utf8_first_def flip: b_def split: if_splits)
  qed
qed

lemma utf8_first_take:
  assumes "s \<noteq> []" and "utf8_first s = (True, n)"
  shows "utf8_first (take n s @ t) = (True, n) \<and> drop n (take n s @ t) = t \<and> take n s \<noteq> []"
proof -
  obtain a r where s: "s = a # r" using assms(1) by (cases s) auto
  from assms(2) [unfolded s] show ?thesis
    by (rule utf8_first_shapes) (simp_all add: s utf8_first_def)
qed

lemma utf8_valid_lossy: "utf8_valid (utf8_lossy s)"
proof (induction s rule: utf8_lossy.induct)
  case 1
  then show ?case by simp
next
  case (2 c s)
  obtain ok n where f: "utf8_first (c # s) = (ok, n)" by fastforce
  note ih = "2.IH" [OF refl f [symmetric]]
  have step: "utf8_lossy (c # s) = (if ok then take n (c # s) else replacement) @ utf8_lossy (drop n (c # s))"
    using f by (simp only: utf8_lossy.simps(2) Let_def split)
  show ?case
  proof (cases ok)
    case True
    obtain a r where ar: "take n (c # s) @ utf8_lossy (drop n (c # s)) = a # r"
      using utf8_first_take [of "c # s" n "[]"] f True by (cases "take n (c # s)") auto
    have "utf8_first (a # r) = (True, n)" "drop n (a # r) = utf8_lossy (drop n (c # s))"
      using utf8_first_take [of "c # s" n "utf8_lossy (drop n (c # s))"] f True unfolding ar by auto
    with utf8_valid_step [of a r n] ih show ?thesis unfolding step using True ar by simp
  next
    case False
    have "utf8_first (replacement @ t) = (True, 3)" for t
      by (simp add: replacement_def utf8_first_def second_of_three_def cont_byte_def)
    then have "utf8_valid (replacement @ t) = utf8_valid t" for t
      using utf8_valid_step [of "CHR 0xEF" "[CHR 0xBF, CHR 0xBD] @ t" 3] by (simp add: replacement_def)
    with False ih show ?thesis unfolding step by simp
  qed
qed

text \<open>
  C13. Whatever a text file's bytes are, what is read from them is well-formed UTF-8 without a
  NUL, or the file is refused; and a file that is UTF-8, without a mark before it, is itself.
\<close>

theorem text_file_is_text:
  "(case read_txt_text bytes of Some (t, e) \<Rightarrow> utf8_valid t \<and> CHR 0x00 \<notin> set t | None \<Rightarrow> True)
   \<and> (utf8_valid bytes \<and> CHR 0x00 \<notin> set bytes \<and> \<not> starts_with bytes UTF8_BOM
        \<longrightarrow> read_txt_text bytes = Some (bytes, Utf8))"
proof
  have u16: "utf8_valid t" if "utf16 bs be = Some t" for bs be t
  proof -
    have "list_all (\<lambda>u. u < 0x10000) (units be bs)" using units_bound [of _ be bs] by (simp add: list_all_iff)
    with that show ?thesis using decode_utf16_valid by (auto simp: utf16_def split: if_splits)
  qed
  show "case read_txt_text bytes of Some (t, e) \<Rightarrow> utf8_valid t \<and> CHR 0x00 \<notin> set t | None \<Rightarrow> True"
    by (auto simp: read_txt_text_def Let_def utf8_valid_lossy windows_1252_valid
        dest: u16 split: option.splits if_splits)
  have no_marks: "\<not> utf8_valid (UTF16_LE_BOM @ r)" "\<not> utf8_valid (UTF16_BE_BOM @ r)" for r
    by (simp_all add: UTF16_LE_BOM_def UTF16_BE_BOM_def utf8_valid.simps(2) utf8_first_def)
  then have "strip_prefix bytes UTF16_LE_BOM = None \<and> strip_prefix bytes UTF16_BE_BOM = None" if "utf8_valid bytes"
    using that by (auto simp: strip_prefix_def starts_with_iff)
  then show "utf8_valid bytes \<and> CHR 0x00 \<notin> set bytes \<and> \<not> starts_with bytes UTF8_BOM
      \<longrightarrow> read_txt_text bytes = Some (bytes, Utf8)"
    by (simp add: read_txt_text_def strip_prefix_def)
qed

theorem text_file_is_text_witness: "read_txt_text ''Take one'' = Some (''Take one'', Utf8)"
proof -
  have "utf8_valid ''Take one''" by (intro utf8_valid_ascii) simp
  with text_file_is_text [of "''Take one''"] show ?thesis by (simp add: UTF8_BOM_def)
qed

end
