(* ===== verification/Osc_Read.thy ===== *)
theory Osc_Read
  imports Txt_Decode
begin

text \<open>
  The second reading of the Console's OSC datagrams (\<open>rme_totalmix_osc/osc_read.rs\<close>). The OSC
  library \<open>rosc\<close> is a function \<open>dec\<close> from bytes to what it left and the packet it read, or
  its error's text; that what it left is no longer than what it was given is a hypothesis of
  the theorems that need it. Numbers keep their bits: a float is the word it arrived as.
  The functions that look into bundles inside bundles run on fuel; \<open>read_datagram\<close> gives them
  the datagram's length and two, which is enough by the theorem below.
\<close>

section \<open>Packets\<close>

datatype osc_type =
    OscFloat "32 word" | OscInt "32 word" | OscDouble "64 word" | OscLong "64 word"
  | OscString string | OscBool bool | OscNil | OscInf | OscOther string

record osc_message =
  addr :: string
  args :: "osc_type list"

datatype osc_packet = Message osc_message | Bundle "64 word" "osc_packet list"

type_synonym decoder = "string \<Rightarrow> string + (string \<times> osc_packet)"

definition BUNDLE_HEADER_BYTES :: nat where "BUNDLE_HEADER_BYTES = 16"
definition ENDS_TOO_SOON :: string where "ENDS_TOO_SOON = ''it ends too soon''"

section \<open>Fields\<close>

definition from_be_bytes :: "string \<Rightarrow> nat" where
  "from_be_bytes bs = foldl (\<lambda>n c. n * 256 + code c) 0 bs"

definition take_bytes :: "nat \<Rightarrow> string \<Rightarrow> nat \<Rightarrow> string + (string \<times> nat)" where
  "take_bytes n bytes pos =
     (if pos + n \<le> length bytes then Inr (take n (drop pos bytes), pos + n) else Inl ENDS_TOO_SOON)"

fun position_of_nul :: "string \<Rightarrow> nat option" where
  "position_of_nul [] = None"
| "position_of_nul (c # s) = (if c = CHR 0x00 then Some 0 else map_option Suc (position_of_nul s))"

definition osc_string :: "string \<Rightarrow> nat \<Rightarrow> string + (string \<times> nat)" where
  "osc_string bytes pos =
     (if length bytes < pos then Inl ENDS_TOO_SOON
      else (let rest = drop pos bytes
            in case position_of_nul rest of
                 None \<Rightarrow> Inl ENDS_TOO_SOON
               | Some nul \<Rightarrow>
                   (let padded = (nul + 4) div 4 * 4
                    in if length rest < padded then Inl ENDS_TOO_SOON
                       else Inr (take nul rest, pos + padded))))"

definition osc_text :: "string \<Rightarrow> string" where
  "osc_text raw = (if utf8_valid raw then raw else windows_1252 raw)"

section \<open>A message\<close>

definition bad_tag :: string where "bad_tag = ''a type tag TotalMix does not send''"

definition read_arg :: "string \<Rightarrow> char \<Rightarrow> nat \<Rightarrow> string + (osc_type \<times> nat)" where
  "read_arg bytes tag pos =
     (let word = (\<lambda>n make. case take_bytes n bytes pos of
                     Inl e \<Rightarrow> Inl e | Inr (bs, pos') \<Rightarrow> Inr (make (from_be_bytes bs), pos'))
      in if tag = CHR ''f'' then word 4 (\<lambda>v. OscFloat (of_nat v))
         else if tag = CHR ''i'' then word 4 (\<lambda>v. OscInt (of_nat v))
         else if tag = CHR ''d'' then word 8 (\<lambda>v. OscDouble (of_nat v))
         else if tag = CHR ''h'' then word 8 (\<lambda>v. OscLong (of_nat v))
         else if tag = CHR ''s''
         then (case osc_string bytes pos of
                 Inl e \<Rightarrow> Inl e | Inr (raw, pos') \<Rightarrow> Inr (OscString (osc_text raw), pos'))
         else if tag = CHR ''T'' then Inr (OscBool True, pos)
         else if tag = CHR ''F'' then Inr (OscBool False, pos)
         else if tag = CHR ''N'' then Inr (OscNil, pos)
         else if tag = CHR ''I'' then Inr (OscInf, pos)
         else Inl bad_tag)"

fun read_args :: "string \<Rightarrow> string \<Rightarrow> nat \<Rightarrow> string + osc_type list" where
  "read_args bytes [] pos = Inr []"
| "read_args bytes (tag # tags) pos =
     (case read_arg bytes tag pos of
        Inl e \<Rightarrow> Inl e
      | Inr (a, pos') \<Rightarrow>
          (case read_args bytes tags pos' of Inl e \<Rightarrow> Inl e | Inr r \<Rightarrow> Inr (a # r)))"

definition read_message :: "string \<Rightarrow> string + osc_message" where
  "read_message bytes =
     (case osc_string bytes 0 of
        Inl e \<Rightarrow> Inl e
      | Inr (address, pos) \<Rightarrow>
          if \<not> utf8_valid address then Inl ''an address that is not UTF-8''
          else if \<not> starts_with address ''/'' then Inl ''an address that does not begin with /''
          else (case osc_string bytes pos of
                  Inl e \<Rightarrow> Inl e
                | Inr (raw_tags, pos') \<Rightarrow>
                    (case strip_prefix raw_tags '','' of
                       None \<Rightarrow> Inl ''type tags without their comma''
                     | Some tags \<Rightarrow>
                         (case read_args bytes tags pos' of
                            Inl e \<Rightarrow> Inl e
                          | Inr a \<Rightarrow> Inr \<lparr>addr = address, args = a\<rparr>))))"

section \<open>A bundle, read again\<close>

definition bundle_elements :: "string \<Rightarrow> string" where
  "bundle_elements bundle = drop BUNDLE_HEADER_BYTES bundle"

definition split_element :: "string \<Rightarrow> (string \<times> string) option" where
  "split_element elements =
     (case take_bytes 4 elements 0 of
        Inl _ \<Rightarrow> None
      | Inr (bs, pos) \<Rightarrow>
          (let size = from_be_bytes bs
           in if size = 0 \<or> size mod 4 \<noteq> 0 then None
              else if pos + size \<le> length elements
              then Some (take size (drop pos elements), drop (pos + size) elements)
              else None))"

record skipped =
  skipped_bytes :: nat
  first_skipped :: "string option"

definition nothing_skipped :: skipped where
  "nothing_skipped = \<lparr>skipped_bytes = 0, first_skipped = None\<rparr>"

definition skip_add :: "skipped \<Rightarrow> skipped \<Rightarrow> skipped" where
  "skip_add a b =
     \<lparr>skipped_bytes = skipped_bytes a + skipped_bytes b,
      first_skipped = (case first_skipped a of None \<Rightarrow> first_skipped b | Some x \<Rightarrow> Some x)\<rparr>"

fun read_bundle_again :: "decoder \<Rightarrow> nat \<Rightarrow> osc_packet list \<Rightarrow> string \<Rightarrow> string \<Rightarrow> (osc_packet list \<times> skipped) option"
  and look_into :: "decoder \<Rightarrow> nat \<Rightarrow> osc_packet list \<Rightarrow> string \<Rightarrow> (osc_packet list \<times> skipped) option"
  and read_rest_of_bundle :: "decoder \<Rightarrow> nat \<Rightarrow> osc_packet list \<Rightarrow> string \<Rightarrow> (osc_packet list \<times> skipped) option"
where
  "read_bundle_again dec 0 content elements rest = None"
| "read_bundle_again dec (Suc n) content elements rest =
     (case look_into dec n content elements of
        None \<Rightarrow> None
      | Some (content', sk) \<Rightarrow>
          (case read_rest_of_bundle dec n content' rest of
             None \<Rightarrow> None
           | Some (content'', sk') \<Rightarrow> Some (content'', skip_add sk sk')))"
| "look_into dec 0 content pos = None"
| "look_into dec (Suc n) [] pos = Some ([], nothing_skipped)"
| "look_into dec (Suc n) (packet # packets) pos =
     (case split_element pos of
        None \<Rightarrow> Some (packet # packets, nothing_skipped)
      | Some (element, after) \<Rightarrow>
          (case (case packet of
                   Message _ \<Rightarrow> Some (packet, nothing_skipped)
                 | Bundle t inner \<Rightarrow>
                     (case dec element of
                        Inl _ \<Rightarrow> Some (packet, nothing_skipped)
                      | Inr (inner_rest, _) \<Rightarrow>
                          map_option (\<lambda>(c, sk). (Bundle t c, sk))
                            (read_bundle_again dec n inner (bundle_elements element) inner_rest))) of
             None \<Rightarrow> None
           | Some (packet', sk) \<Rightarrow>
               (case look_into dec n packets after of
                  None \<Rightarrow> None
                | Some (packets', sk') \<Rightarrow> Some (packet' # packets', skip_add sk sk'))))"
| "read_rest_of_bundle dec 0 content rest = None"
| "read_rest_of_bundle dec (Suc n) content rest =
     (if rest = [] then Some (content, nothing_skipped)
      else case split_element rest of
        None \<Rightarrow> Some (content, \<lparr>skipped_bytes = length rest, first_skipped = Some rest\<rparr>)
      | Some (element, after) \<Rightarrow>
          (case (case dec element of
                   Inr (inner_rest, Bundle t inner) \<Rightarrow>
                     map_option (\<lambda>(c, sk). ([Bundle t c], sk))
                       (read_bundle_again dec n inner (bundle_elements element) inner_rest)
                 | Inr (_, Message m) \<Rightarrow> Some ([Message m], nothing_skipped)
                 | Inl _ \<Rightarrow>
                     (case read_message element of
                        Inr m \<Rightarrow> Some ([Message m], nothing_skipped)
                      | Inl _ \<Rightarrow> Some ([], \<lparr>skipped_bytes = length rest - length after,
                                          first_skipped = Some rest\<rparr>))) of
             None \<Rightarrow> None
           | Some (read, sk) \<Rightarrow>
               (case read_rest_of_bundle dec n (content @ read) after of
                  None \<Rightarrow> None
                | Some (content', sk') \<Rightarrow> Some (content', skip_add sk sk'))))"

record datagram_read =
  packet_read :: "osc_packet option"
  unread_part :: "(string \<times> string) option"

definition read_datagram :: "decoder \<Rightarrow> string \<Rightarrow> datagram_read option" where
  "read_datagram dec bytes =
     (case dec bytes of
        Inr (rest, Bundle t content) \<Rightarrow>
          map_option
            (\<lambda>(content', sk).
               \<lparr>packet_read = Some (Bundle t content'),
                unread_part = map_option
                  (\<lambda>from. (''a bundle with '' @ show_nat (skipped_bytes sk) @ '' of its ''
                             @ show_nat (length bytes) @ '' bytes left unread'', from))
                  (first_skipped sk)\<rparr>)
            (read_bundle_again dec (length bytes + 2) content (bundle_elements bytes) rest)
      | Inr (_, Message m) \<Rightarrow> Some \<lparr>packet_read = Some (Message m), unread_part = None\<rparr>
      | Inl err \<Rightarrow>
          Some (case read_message bytes of
                  Inr m \<Rightarrow> \<lparr>packet_read = Some (Message m), unread_part = None\<rparr>
                | Inl why \<Rightarrow>
                    \<lparr>packet_read = None,
                     unread_part = Some (''a datagram of '' @ show_nat (length bytes) @ '' bytes refused (''
                       @ err @ ''; read again: '' @ why @ '')'', bytes)\<rparr>))"

section \<open>The reading ends\<close>

lemma take_bytes_Inr: "take_bytes n bytes pos = Inr (bs, pos') \<longleftrightarrow>
    pos + n \<le> length bytes \<and> bs = take n (drop pos bytes) \<and> pos' = pos + n"
  by (auto simp: take_bytes_def)

lemma split_element_Some:
  assumes "split_element s = Some (e, a)"
  shows "s = take 4 s @ e @ a" and "length s = 4 + length e + length a"
    and "e \<noteq> []" and "length e mod 4 = 0"
proof -
  from assms obtain bs pos where t: "take_bytes 4 s 0 = Inr (bs, pos)"
    by (auto simp: split_element_def split: sum.splits)
  define size where "size = from_be_bytes bs"
  from t have len: "4 \<le> length s" "pos = 4" by (auto simp: take_bytes_Inr)
  from assms t len have sz: "size \<noteq> 0" "size mod 4 = 0" "4 + size \<le> length s"
    "e = take size (drop 4 s)" "a = drop (4 + size) s"
    by (auto simp: split_element_def size_def Let_def split: if_splits)
  then have le: "length e = size" by simp
  show "s = take 4 s @ e @ a"
    using sz(4,5) by (metis append_take_drop_id drop_drop add.commute)
  show "length s = 4 + length e + length a" using sz le by simp
  show "e \<noteq> []" "length e mod 4 = 0" using sz le by auto
qed

lemma bundle_elements_length: "length (bundle_elements s) \<le> length s"
  by (simp add: bundle_elements_def)

definition leaves_no_more :: "decoder \<Rightarrow> bool" where
  "leaves_no_more dec \<longleftrightarrow> (\<forall>bytes rest p. dec bytes = Inr (rest, p) \<longrightarrow> length rest \<le> length bytes)"

lemma enough_fuel:
  assumes "leaves_no_more dec"
  shows "(\<forall>c e r. max (length e) (length r) + 1 < n \<longrightarrow> read_bundle_again dec n c e r \<noteq> None)
     \<and> (\<forall>c p. length p < n \<longrightarrow> look_into dec n c p \<noteq> None)
     \<and> (\<forall>c r. length r < n \<longrightarrow> read_rest_of_bundle dec n c r \<noteq> None)"
proof (induction n)
  case 0
  then show ?case by simp
next
  case (Suc n)
  have again: "read_bundle_again dec n c e r \<noteq> None" if "max (length e) (length r) + 1 < n" for c e r
    using Suc that by blast
  have into: "look_into dec n c p \<noteq> None" if "length p < n" for c p using Suc that by blast
  have rest: "read_rest_of_bundle dec n c r \<noteq> None" if "length r < n" for c r using Suc that by blast
  have inner: "read_bundle_again dec n c (bundle_elements e) r \<noteq> None"
    if "split_element s = Some (e, a)" "dec e = Inr (r, q)" "length s < Suc n" for c e a r q s
  proof (rule again)
    have "length r \<le> length e" using assms that(2) unfolding leaves_no_more_def by blast
    then show "max (length (bundle_elements e)) (length r) + 1 < n"
      using split_element_Some(2) [OF that(1)] bundle_elements_length [of e] that(3) by simp
  qed
  show ?case
  proof (intro conjI allI impI)
    fix c and e r :: string
    assume "max (length e) (length r) + 1 < Suc n"
    then have lens: "length e < n" "length r < n" by auto
    from into [OF lens(1)] obtain c' sk where l: "look_into dec n c e = Some (c', sk)" by fast
    from rest [OF lens(2)] obtain c'' sk' where "read_rest_of_bundle dec n c' r = Some (c'', sk')" by fast
    with l show "read_bundle_again dec (Suc n) c e r \<noteq> None" by simp
  next
    fix c p
    assume len: "length (p :: string) < Suc n"
    show "look_into dec (Suc n) c p \<noteq> None"
    proof (cases c)
      case (Cons x xs)
      show ?thesis
      proof (cases "split_element p")
        case (Some ea)
        obtain e a where ea: "split_element p = Some (e, a)" using Some by (cases ea) auto
        have "length a < n" using split_element_Some(2) [OF ea] len by simp
        from into [OF this] obtain c' sk where l: "look_into dec n xs a = Some (c', sk)" by fast
        show ?thesis
        proof (cases "\<exists>t i ir q. x = Bundle t i \<and> dec e = Inr (ir, q)")
          case True
          then obtain t i ir q where x: "x = Bundle t i" "dec e = Inr (ir, q)" by blast
          from inner [OF ea x(2) len] obtain c'' sk'
            where "read_bundle_again dec n i (bundle_elements e) ir = Some (c'', sk')" by fast
          with l x Cons ea show ?thesis by simp
        next
          case False
          with l Cons ea show ?thesis by (cases x) (auto split: sum.splits)
        qed
      qed (simp add: Cons)
    qed simp
  next
    fix c r
    assume len: "length (r :: string) < Suc n"
    show "read_rest_of_bundle dec (Suc n) c r \<noteq> None"
    proof (cases "r = [] \<or> split_element r = None")
      case True
      then show ?thesis by auto
    next
      case False
      then obtain e a where ea: "split_element r = Some (e, a)" by auto
      have "length a < n" using split_element_Some(2) [OF ea] len by simp
      then have "\<exists>y. read_rest_of_bundle dec n c' a = Some y" for c'
        using rest [of a c'] by blast
      then have "\<exists>g. \<forall>c'. read_rest_of_bundle dec n c' a = Some (g c')" by (intro choice) blast
      then obtain g where after: "\<And>c'. read_rest_of_bundle dec n c' a = Some (g c')" by blast
      show ?thesis
      proof (cases "\<exists>ir t i. dec e = Inr (ir, Bundle t i)")
        case True
        then obtain ir t i where d: "dec e = Inr (ir, Bundle t i)" by blast
        from inner [OF ea d len] obtain c'' sk'
          where "read_bundle_again dec n i (bundle_elements e) ir = Some (c'', sk')" by fast
        with after d False ea show ?thesis by (simp split: prod.split)
      next
        case flat: False
        with after False ea show ?thesis by (auto split: sum.splits osc_packet.splits prod.splits)
      qed
    qed
  qed
qed

text \<open>
  C12. A datagram is always read to its end: whatever bytes arrive and whatever the library
  makes of them, as long as it leaves no more than it was given, the reading comes to an answer.
\<close>

theorem datagram_is_always_answered:
  assumes "leaves_no_more dec"
  shows "\<exists>r. read_datagram dec bytes = Some r"
proof (cases "dec bytes")
  case (Inl e)
  then show ?thesis by (simp add: read_datagram_def)
next
  case (Inr y)
  then obtain rest p where d: "dec bytes = Inr (rest, p)" by (cases y) auto
  then have "length rest \<le> length bytes" using assms unfolding leaves_no_more_def by blast
  then have "max (length (bundle_elements bytes)) (length rest) + 1 < length bytes + 2"
    using bundle_elements_length [of bytes] by simp
  then have "read_bundle_again dec (length bytes + 2) c (bundle_elements bytes) rest \<noteq> None" for c
    using enough_fuel [OF assms, of "length bytes + 2"] by blast
  with d show ?thesis by (cases p) (auto simp: read_datagram_def)
qed

section \<open>What the Console writes is what is read\<close>

fun to_be_bytes :: "nat \<Rightarrow> nat \<Rightarrow> string" where
  "to_be_bytes 0 v = []"
| "to_be_bytes (Suc n) v = to_be_bytes n (v div 256) @ [char_of (v mod 256)]"

lemma to_be_bytes_length [simp]: "length (to_be_bytes n v) = n"
  by (induction n arbitrary: v) auto

lemma from_to_be_bytes: "from_be_bytes (to_be_bytes n v) = v mod 256 ^ n"
proof (induction n arbitrary: v)
  case 0
  then show ?case by (simp add: from_be_bytes_def)
next
  case (Suc n)
  then have "from_be_bytes (to_be_bytes (Suc n) v) = (v div 256 mod 256 ^ n) * 256 + v mod 256"
    by (simp add: from_be_bytes_def)
  then show ?case by (simp add: mod_mult2_eq)
qed

text \<open>An OSC string on the wire: its bytes, a NUL, and NULs to a multiple of four.\<close>

definition osc_str :: "string \<Rightarrow> string" where
  "osc_str raw = raw @ replicate (4 - length raw mod 4) (CHR 0x00)"

fun arg_tag :: "osc_type \<Rightarrow> char" where
  "arg_tag (OscFloat _) = CHR ''f''" | "arg_tag (OscInt _) = CHR ''i''"
| "arg_tag (OscDouble _) = CHR ''d''" | "arg_tag (OscLong _) = CHR ''h''"
| "arg_tag (OscString _) = CHR ''s''" | "arg_tag (OscBool b) = (if b then CHR ''T'' else CHR ''F'')"
| "arg_tag OscNil = CHR ''N''" | "arg_tag OscInf = CHR ''I''" | "arg_tag (OscOther _) = CHR ''x''"

fun arg_bytes :: "osc_type \<Rightarrow> string" where
  "arg_bytes (OscFloat w) = to_be_bytes 4 (unat w)" | "arg_bytes (OscInt w) = to_be_bytes 4 (unat w)"
| "arg_bytes (OscDouble w) = to_be_bytes 8 (unat w)" | "arg_bytes (OscLong w) = to_be_bytes 8 (unat w)"
| "arg_bytes (OscString raw) = osc_str raw" | "arg_bytes _ = []"

fun as_read :: "osc_type \<Rightarrow> osc_type" where
  "as_read (OscString raw) = OscString (osc_text raw)" | "as_read a = a"

fun sendable :: "osc_type \<Rightarrow> bool" where
  "sendable (OscString raw) = (CHR 0x00 \<notin> set raw)" | "sendable (OscOther _) = False" | "sendable _ = True"

definition write_message :: "string \<Rightarrow> osc_type list \<Rightarrow> string" where
  "write_message address as =
     osc_str address @ osc_str (CHR '','' # map arg_tag as) @ concat (map arg_bytes as)"

lemma position_of_nul_append: "CHR 0x00 \<notin> set raw \<Longrightarrow> position_of_nul (raw @ CHR 0x00 # s) = Some (length raw)"
  by (induction raw) auto

lemma osc_str_length: "length (osc_str raw) = (length raw + 4) div 4 * 4"
proof -
  have "(length raw + 4) div 4 * 4 = length raw div 4 * 4 + 4"
    using div_add_self2 [of 4 "length raw"] by simp
  also have "\<dots> = length raw + (4 - length raw mod 4)"
    using div_mult_mod_eq [of "length raw" 4] mod_less_divisor [of 4 "length raw"] by linarith
  finally show ?thesis by (simp add: osc_str_def)
qed

lemma osc_string_osc_str:
  assumes "CHR 0x00 \<notin> set raw"
  shows "osc_string (pre @ osc_str raw @ post) (length pre) = Inr (raw, length (pre @ osc_str raw))"
proof -
  have "replicate (4 - length raw mod 4) (CHR 0x00) = CHR 0x00 # replicate (3 - length raw mod 4) (CHR 0x00)"
    using mod_less_divisor [of 4 "length raw"] by (simp flip: replicate_Suc)
  then have "position_of_nul (osc_str raw @ post) = Some (length raw)"
    using position_of_nul_append [OF assms] by (simp add: osc_str_def)
  moreover have "length (osc_str raw @ post) \<ge> (length raw + 4) div 4 * 4" using osc_str_length [of raw] by simp
  moreover have "take (length raw) (osc_str raw @ post) = raw" by (simp add: osc_str_def)
  ultimately show ?thesis by (simp add: osc_string_def osc_str_length)
qed

lemma take_bytes_here:
  "take_bytes n (pre @ to_be_bytes n v @ post) (length pre) = Inr (to_be_bytes n v, length pre + n)"
  by (simp add: take_bytes_def)

lemma unat_mod_32: "unat (w :: 32 word) mod 256 ^ 4 = unat w"
proof -
  have "unat w < 2 ^ LENGTH(32)" by (rule unsigned_less)
  then show ?thesis by simp
qed

lemma unat_mod_64: "unat (w :: 64 word) mod 256 ^ 8 = unat w"
proof -
  have "unat w < 2 ^ LENGTH(64)" by (rule unsigned_less)
  then show ?thesis by simp
qed

lemma arg_tag_no_nul: "CHR 0x00 \<notin> set (map arg_tag as)"
proof (induction as)
  case (Cons a as)
  have "arg_tag a \<noteq> CHR 0x00" by (cases a) auto
  with Cons show ?case by (metis list.simps(9) set_ConsD)
qed simp

lemma read_arg_written:
  assumes "sendable a"
  shows "read_arg (pre @ arg_bytes a @ post) (arg_tag a) (length pre) = Inr (as_read a, length (pre @ arg_bytes a))"
  using assms osc_string_osc_str [of _ pre post]
  by (cases a)
    (simp_all del: to_be_bytes.simps add: read_arg_def take_bytes_here from_to_be_bytes
      unat_mod_32 [simplified] unat_mod_64 [simplified])

lemma read_args_written:
  assumes "list_all sendable as"
  shows "read_args (pre @ concat (map arg_bytes as) @ post) (map arg_tag as) (length pre) = Inr (map as_read as)"
  using assms
proof (induction as arbitrary: pre)
  case Nil
  then show ?case by simp
next
  case (Cons a as)
  then show ?case
    using read_arg_written [of a pre "concat (map arg_bytes as) @ post"] Cons.IH [of "pre @ arg_bytes a"] by simp
qed

lemma read_written:
  assumes "utf8_valid address" and "starts_with address ''/''" and "CHR 0x00 \<notin> set address"
    and "list_all sendable as"
  shows "read_message (write_message address as @ post) = Inr \<lparr>addr = address, args = map as_read as\<rparr>"
proof -
  let ?tags = "CHR '','' # map arg_tag as" and ?body = "concat (map arg_bytes as)"
  have tags: "CHR 0x00 \<notin> set ?tags" using arg_tag_no_nul [of as] by simp
  have "osc_string (write_message address as @ post) 0 = Inr (address, length (osc_str address))"
    using osc_string_osc_str [OF assms(3), of "[]" "osc_str ?tags @ ?body @ post"] by (simp add: write_message_def)
  moreover have "osc_string (write_message address as @ post) (length (osc_str address))
      = Inr (?tags, length (osc_str address @ osc_str ?tags))"
    using osc_string_osc_str [OF tags, of "osc_str address" "?body @ post"] by (simp add: write_message_def)
  moreover have "read_args (write_message address as @ post) (map arg_tag as) (length (osc_str address @ osc_str ?tags))
      = Inr (map as_read as)"
    using read_args_written [OF assms(4), of "osc_str address @ osc_str ?tags" post] by (simp add: write_message_def)
  ultimately show ?thesis using assms(1,2) by (simp add: read_message_def strip_prefix_def)
qed

text \<open>
  C11. The Console's messages are read as they were sent: the address, and every argument, its
  bits as they arrived; a string's text where it is UTF-8, else its Windows-1252; and what
  follows the arguments is ignored.
\<close>

theorem message_read_as_sent:
  assumes "utf8_valid address" and "starts_with address ''/''" and "CHR 0x00 \<notin> set address"
    and "list_all sendable as"
  shows "read_message (write_message address as @ post) = Inr \<lparr>addr = address, args = map as_read as\<rparr>"
  using assms by (rule read_written)

theorem message_read_as_sent_witness:
  "read_message (write_message ''/input/8/name'' [OscString [CHR 0x42, CHR 0xD6, CHR 0xD6, CHR 0x4D], OscFloat 0x3F000000])
     = Inr \<lparr>addr = ''/input/8/name'',
            args = [OscString [CHR 0x42, CHR 0xC3, CHR 0x96, CHR 0xC3, CHR 0x96, CHR 0x4D], OscFloat 0x3F000000]\<rparr>"
proof -
  have "utf8_valid ''/input/8/name''" by (intro utf8_valid_ascii) simp
  moreover have "osc_text [CHR 0x42, CHR 0xD6, CHR 0xD6, CHR 0x4D]
      = [CHR 0x42, CHR 0xC3, CHR 0x96, CHR 0xC3, CHR 0x96, CHR 0x4D]"
    by (simp add: osc_text_def utf8_valid.simps(2) utf8_first_def cont_byte_def windows_1252_char_def utf8_char_def char_of_def bit_Suc_0_iff)
  ultimately show ?thesis
    using message_read_as_sent [of "''/input/8/name''"
        "[OscString [CHR 0x42, CHR 0xD6, CHR 0xD6, CHR 0x4D], OscFloat 0x3F000000]" "[]"]
    by simp
qed

section \<open>What the library left is read, element by element\<close>

definition frame :: "string \<Rightarrow> string" where
  "frame e = to_be_bytes 4 (length e) @ e"

definition well_sized :: "string \<Rightarrow> bool" where
  "well_sized e \<longleftrightarrow> e \<noteq> [] \<and> length e mod 4 = 0 \<and> length e < 256 ^ 4"

text \<open>An element that is no bundle: what either reading makes of it.\<close>

definition no_bundle :: "decoder \<Rightarrow> string \<Rightarrow> bool" where
  "no_bundle dec e = (case dec e of Inr (_, Bundle _ _) \<Rightarrow> False | _ \<Rightarrow> True)"

definition reading :: "decoder \<Rightarrow> string \<Rightarrow> osc_packet list" where
  "reading dec e =
     (case dec e of
        Inr (_, p) \<Rightarrow> [p]
      | Inl _ \<Rightarrow> (case read_message e of Inr m \<Rightarrow> [Message m] | Inl _ \<Rightarrow> []))"

definition unreadable :: "decoder \<Rightarrow> string \<Rightarrow> bool" where
  "unreadable dec e \<longleftrightarrow> reading dec e = []"

fun skipped_of :: "decoder \<Rightarrow> string list \<Rightarrow> string \<Rightarrow> skipped" where
  "skipped_of dec [] tail = nothing_skipped"
| "skipped_of dec (e # es) tail =
     (if unreadable dec e
      then skip_add \<lparr>skipped_bytes = length (frame e), first_skipped = Some (frame e @ concat (map frame es) @ tail)\<rparr>
             (skipped_of dec es tail)
      else skipped_of dec es tail)"

lemma split_element_frame:
  assumes "well_sized e"
  shows "split_element (frame e @ s) = Some (e, s)"
proof -
  have "take_bytes 4 (frame e @ s) 0 = Inr (to_be_bytes 4 (length e), 4)"
    using take_bytes_here [of 4 "[]" "length e" "e @ s"] by (simp add: frame_def del: to_be_bytes.simps)
  moreover have "from_be_bytes (to_be_bytes 4 (length e)) = length e"
    using assms from_to_be_bytes [of 4 "length e"] by (simp add: well_sized_def del: to_be_bytes.simps)
  ultimately show ?thesis
    using assms by (auto simp: split_element_def well_sized_def frame_def simp del: to_be_bytes.simps)
qed

lemma skip_add_nothing [simp]: "skip_add nothing_skipped s = s"
  by (simp add: skip_add_def nothing_skipped_def)

lemma rest_of_flat_bundle:
  assumes "list_all well_sized es" and "list_all (no_bundle dec) es" and "length (concat (map frame es)) < n"
  shows "read_rest_of_bundle dec n content (concat (map frame es))
     = Some (content @ concat (map (reading dec) es), skipped_of dec es [])"
  using assms
proof (induction es arbitrary: n content)
  case Nil
  then show ?case by (cases n) auto
next
  case (Cons e es)
  then obtain m where n: "n = Suc m" by (cases n) auto
  let ?after = "concat (map frame es)"
  have len: "length (frame e) = Suc (length e + 3)" by (simp add: frame_def)
  then have fe: "frame e \<noteq> []" and ne: "frame e @ ?after \<noteq> []" and m: "length ?after < m" using Cons.prems(3) n by auto
  have sp: "split_element (frame e @ ?after) = Some (e, ?after)"
    using Cons.prems(1) by (simp add: split_element_frame)
  have ih: "read_rest_of_bundle dec m c ?after = Some (c @ concat (map (reading dec) es), skipped_of dec es [])" for c
    using Cons.IH [of m c] Cons.prems m by simp
  show ?case
  proof (cases "dec e")
    case (Inr y)
    then obtain r q where d: "dec e = Inr (r, q)" by (cases y) auto
    with Cons.prems(2) obtain msg where q: "q = Message msg" by (cases q) (auto simp: no_bundle_def)
    then have rd: "reading dec e = [Message msg]" using d by (simp add: reading_def)
    from d q fe ne sp ih n rd show ?thesis by (simp add: unreadable_def)
  next
    case (Inl x)
    show ?thesis
    proof (cases "read_message e")
      case msg: (Inr msg)
      then have rd: "reading dec e = [Message msg]" using Inl by (simp add: reading_def)
      from Inl msg fe ne sp ih n rd show ?thesis by (simp add: unreadable_def)
    next
      case msg: (Inl why)
      then have rd: "reading dec e = []" using Inl by (simp add: reading_def)
      from Inl msg fe ne sp ih n len rd show ?thesis by (simp add: unreadable_def)
    qed
  qed
qed

lemma look_into_messages:
  "list_all (\<lambda>p. \<exists>m. p = Message m) content \<Longrightarrow> length s < n \<Longrightarrow>
     look_into dec n content s = Some (content, nothing_skipped)"
proof (induction content arbitrary: n s)
  case Nil
  then show ?case by (cases n) auto
next
  case (Cons p ps)
  then obtain m msg where n: "n = Suc m" "p = Message msg" by (cases n) auto
  show ?case
  proof (cases "split_element s")
    case None
    then show ?thesis by (simp add: n)
  next
    case (Some ea)
    then obtain e a where ea: "split_element s = Some (e, a)" by (cases ea) auto
    then have "length a < m" using split_element_Some(2) [OF ea] Cons.prems(2) n by simp
    with Cons ea n show ?thesis by simp
  qed
qed


section \<open>Witnesses\<close>

text \<open>A library that reads nothing but a bundle's header, and leaves what follows.\<close>

definition header_only :: decoder where
  "header_only bytes =
     (if starts_with bytes ''#bundle'' then Inr (drop BUNDLE_HEADER_BYTES bytes, Bundle 1 [])
      else Inl ''not read'')"

theorem datagram_is_always_answered_witness: "\<exists>r. read_datagram header_only ''#bundle'' = Some r"
  by (rule datagram_is_always_answered)
    (auto simp: leaves_no_more_def header_only_def BUNDLE_HEADER_BYTES_def split: if_splits)

definition fader_message :: string where
  "fader_message = write_message ''/1'' [OscInt 7]"

lemma fader_message_facts:
  "well_sized fader_message" "read_message fader_message = Inr \<lparr>addr = ''/1'', args = [OscInt 7]\<rparr>"
  "\<not> starts_with fader_message ''#bundle''"
proof -
  have "utf8_valid ''/1''" by (intro utf8_valid_ascii) simp
  from read_written [OF this, of "[OscInt 7]" "[]"]
  show "read_message fader_message = Inr \<lparr>addr = ''/1'', args = [OscInt 7]\<rparr>"
    by (simp add: fader_message_def)
  show "well_sized fader_message" "\<not> starts_with fader_message ''#bundle''"
    by (simp_all add: fader_message_def write_message_def osc_str_def well_sized_def)
qed


end
