(* ===== verification/Civil_Time.thy ===== *)
theory Civil_Time
  imports Text_Std "HOL-Library.Signed_Division"
begin

text \<open>
  The wall clock's times as text: Howard Hinnant's two date conversions, the stamp in a backup's
  file name (\<open>storage_backups.rs\<close>) and the stamp of the snapshots and the action log
  (\<open>cameras/runtime.rs\<close>). A \<open>SystemTime\<close> is the integer of nanoseconds since the epoch of
  1970, negative before it; \<open>as_millis_since\<close> is the moment a stamp keeps of it. The lemmas show
  that the conversions are inverse and keep order, and that a stamp is read back and sorts as
  its time does.
\<close>

type_synonym system_time = int

text \<open>\<open>time.duration_since(UNIX_EPOCH).unwrap_or_default()\<close>\<close>

definition since_epoch :: "system_time \<Rightarrow> duration" where
  "since_epoch t = nat t"

section \<open>Days and dates\<close>

definition civil_from_days :: "int \<Rightarrow> int \<times> int \<times> int" where
  "civil_from_days days =
     (let z = days + 719468;
          era = (if z \<ge> 0 then z else z - 146096) sdiv 146097;
          day_of_era = z - era * 146097;
          year_of_era = (day_of_era - day_of_era div 1460 + day_of_era div 36524 - day_of_era div 146096) div 365;
          day_of_year = day_of_era - (365 * year_of_era + year_of_era div 4 - year_of_era div 100);
          month_index = (5 * day_of_year + 2) div 153;
          day = day_of_year - (153 * month_index + 2) div 5 + 1;
          month = (if month_index < 10 then month_index + 3 else month_index - 9);
          year = year_of_era + era * 400 + of_bool (month \<le> 2)
      in (year, month, day))"

definition days_from_civil :: "int \<Rightarrow> int \<Rightarrow> int \<Rightarrow> int" where
  "days_from_civil year0 month day =
     (let year = year0 - of_bool (month \<le> 2);
          era = (if year \<ge> 0 then year else year - 399) sdiv 400;
          year_of_era = year - era * 400;
          day_of_year = (153 * ((month + 9) smod 12) + 2) sdiv 5 + day - 1;
          day_of_era = year_of_era * 365 + year_of_era sdiv 4 - year_of_era sdiv 100 + day_of_year
      in era * 146097 + day_of_era - 719468)"

section \<open>Stamps\<close>

text \<open>\<open>{n:0w}\<close>\<close>

definition pad :: "nat \<Rightarrow> nat \<Rightarrow> string" where
  "pad w n = replicate (w - length (show_nat n)) (CHR ''0'') @ show_nat n"

definition file_timestamp :: "system_time \<Rightarrow> string" where
  "file_timestamp time =
     (let total_seconds = as_secs (since_epoch time);
          millis = as_millis (since_epoch time) mod 1000;
          seconds_of_day = total_seconds mod 86400
      in case civil_from_days (int (total_seconds div 86400)) of (year, month, day) \<Rightarrow>
           pad 4 (nat year) @ ''-'' @ pad 2 (nat month) @ ''-'' @ pad 2 (nat day) @ ''T''
             @ pad 2 (seconds_of_day div 3600) @ ''-'' @ pad 2 (seconds_of_day mod 3600 div 60) @ ''-''
             @ pad 2 (seconds_of_day mod 60) @ ''-'' @ pad 3 millis @ ''Z'')"

definition utc_text :: "system_time \<Rightarrow> string" where
  "utc_text time =
     (let total_seconds = as_secs (since_epoch time);
          seconds_of_day = total_seconds mod 86400
      in case civil_from_days (int (total_seconds div 86400)) of (year, month, day) \<Rightarrow>
           pad 4 (nat year) @ ''-'' @ pad 2 (nat month) @ ''-'' @ pad 2 (nat day) @ ''T''
             @ pad 2 (seconds_of_day div 3600) @ '':'' @ pad 2 (seconds_of_day mod 3600 div 60) @ '':''
             @ pad 2 (seconds_of_day mod 60) @ ''.'' @ pad 3 (as_millis (since_epoch time) mod 1000) @ ''Z'')"

text \<open>\<open>text.get(at..at + width)\<close>: nothing outside the text, or inside a character.\<close>

definition char_boundary :: "string \<Rightarrow> nat \<Rightarrow> bool" where
  "char_boundary s i \<longleftrightarrow> i = length s \<or> (i < length s \<and> \<not> cont_byte (s ! i))"

definition str_get :: "string \<Rightarrow> nat \<Rightarrow> nat \<Rightarrow> string option" where
  "str_get s i n =
     (if i + n \<le> length s \<and> char_boundary s i \<and> char_boundary s (i + n)
      then Some (take n (drop i s)) else None)"

definition field :: "string \<Rightarrow> nat \<Rightarrow> nat \<Rightarrow> int option" where
  "field s i width = (case str_get s i width of None \<Rightarrow> None | Some d \<Rightarrow> parse_integer d)"

text \<open>The moment the fields of a stamp name, \<open>None\<close> for one before the epoch.\<close>

definition stamp_moment :: "string \<Rightarrow> system_time option" where
  "stamp_moment s =
     (case (field s 0 4, field s 5 2, field s 8 2, field s 11 2, field s 14 2, field s 17 2, field s 20 3) of
        (Some y, Some mo, Some d, Some h, Some mi, Some sec, Some ms) \<Rightarrow>
          (let days = days_from_civil y mo d;
               seconds = days * 86400 + h * 3600 + mi * 60 + sec;
               millis = seconds * 1000 + ms
           in if millis < 0 then None else Some (millis * 1000000))
      | _ \<Rightarrow> None)"

definition utc_time :: "string \<Rightarrow> system_time option" where
  "utc_time s =
     (case stamp_moment s of
        None \<Rightarrow> None
      | Some time \<Rightarrow> if utc_text time = s then Some time else None)"

section \<open>An era's years\<close>

definition year_start :: "int \<Rightarrow> int" where
  "year_start y = 365 * y + y div 4 - y div 100"

definition adjusted :: "int \<Rightarrow> int" where
  "adjusted e = e - e div 1460 + e div 36524 - e div 146096"

lemma adjusted_mono:
  assumes "0 \<le> x" "x \<le> e" "e < 146097"
  shows "adjusted x \<le> adjusted e"
proof -
  have keep: "x - x div 1460 \<le> e - e div 1460" using assms by linarith
  have b: "x div 36524 \<le> e div 36524" using assms by (intro zdiv_mono1) auto
  show ?thesis
  proof (cases "e = 146096 \<and> x \<noteq> e")
    case True
    then have "x \<le> 146095" using assms by simp
    then have "x - x div 1460 \<le> 145995" "x div 36524 \<le> 3" "x div 146096 = 0" using assms by auto
    with True show ?thesis by (simp add: adjusted_def)
  next
    case False
    then have "x div 146096 = e div 146096" using assms by auto
    with keep b show ?thesis unfolding adjusted_def by linarith
  qed
qed

lemma year_edges:
  assumes "0 \<le> y" "y < 400"
  shows "365 * y \<le> adjusted (year_start y)"
    and "adjusted (if y = 399 then 146096 else year_start (y + 1) - 1) < 365 * (y + 1)"
    and "0 \<le> year_start y" "(if y = 399 then 146096 else year_start (y + 1) - 1) \<le> year_start y + 365"
proof -
  have "list_all (\<lambda>y. 365 * y \<le> adjusted (year_start y)
      \<and> adjusted (if y = 399 then 146096 else year_start (y + 1) - 1) < 365 * (y + 1)
      \<and> 0 \<le> year_start y \<and> (if y = 399 then 146096 else year_start (y + 1) - 1) \<le> year_start y + 365) [0..399]"
    by code_simp
  moreover have "y \<in> set [0..399]" using assms by simp
  ultimately show "365 * y \<le> adjusted (year_start y)"
    "adjusted (if y = 399 then 146096 else year_start (y + 1) - 1) < 365 * (y + 1)"
    "0 \<le> year_start y" "(if y = 399 then 146096 else year_start (y + 1) - 1) \<le> year_start y + 365"
    unfolding list_all_iff by blast+
qed


definition year_of_era :: "int \<Rightarrow> int" where
  "year_of_era e = adjusted e div 365"

definition day_of_year :: "int \<Rightarrow> int" where
  "day_of_year e = e - year_start (year_of_era e)"

lemma year_of_era_is:
  assumes "0 \<le> y" "y < 400" "year_start y \<le> e" "e \<le> (if y = 399 then 146096 else year_start (y + 1) - 1)"
  shows "year_of_era e = y"
proof -
  let ?top = "if y = 399 then 146096 else year_start (y + 1) - 1"
  have top: "?top < 146097"
    using year_edges(4) [OF assms(1,2)] assms(1,2) by (auto simp: year_start_def)
  have "365 * y \<le> adjusted e"
    using year_edges(1) [OF assms(1,2)] adjusted_mono [of "year_start y" e] year_edges(3) [OF assms(1,2)] assms(3,4) top
    by linarith
  moreover have "adjusted e < 365 * (y + 1)"
    using year_edges(2) [OF assms(1,2)] adjusted_mono [of e ?top] year_edges(3) [OF assms(1,2)] assms(3,4) top
    by linarith
  ultimately have "365 * y \<le> adjusted e" "adjusted e < 365 * y + 365" by auto
  then show ?thesis unfolding year_of_era_def by (intro int_div_pos_eq [of _ _ _ "adjusted e - 365 * y"]) auto
qed

lemma some_year:
  assumes "0 \<le> e" "e < 146097"
  obtains y where "0 \<le> y" "y < 400" "year_start y \<le> e" "e \<le> (if y = 399 then 146096 else year_start (y + 1) - 1)"
proof (cases "year_start 399 \<le> e")
  case True
  then show thesis using that [of 399] assms by simp
next
  case False
  have start: "year_start 0 \<le> e" using assms by (simp add: year_start_def)
  have "\<exists>y::nat. y < 399 \<and> year_start (int y) \<le> e \<and> e < year_start (int y + 1)"
  proof (rule ccontr)
    assume no: "\<nexists>y::nat. y < 399 \<and> year_start (int y) \<le> e \<and> e < year_start (int y + 1)"
    have "y \<le> 399 \<longrightarrow> year_start (int y) \<le> e" for y :: nat
    proof (induction y)
      case 0
      then show ?case using start by simp
    next
      case (Suc y)
      show ?case
      proof
        assume "Suc y \<le> 399"
        with Suc have "y < 399" "year_start (int y) \<le> e" by auto
        with no have "\<not> e < year_start (int y + 1)" by blast
        then show "year_start (int (Suc y)) \<le> e" by (simp add: add.commute)
      qed
    qed
    from this [of 399] False show False by simp
  qed
  then obtain y :: nat where "y < 399" "year_start (int y) \<le> e" "e < year_start (int y + 1)" by blast
  then show thesis using that [of "int y"] by simp
qed

lemma era_day:
  assumes "0 \<le> e" "e < 146097"
  shows "0 \<le> year_of_era e" "year_of_era e < 400" "0 \<le> day_of_year e" "day_of_year e \<le> 365"
proof -
  from assms obtain y where y: "0 \<le> y" "y < 400" "year_start y \<le> e"
    "e \<le> (if y = 399 then 146096 else year_start (y + 1) - 1)" by (rule some_year)
  have "year_of_era e = y" by (rule year_of_era_is [OF y])
  moreover have "e \<le> year_start y + 365" using y(4) year_edges(4) [OF y(1,2)] by linarith
  ultimately show "0 \<le> year_of_era e" "year_of_era e < 400" "0 \<le> day_of_year e" "day_of_year e \<le> 365"
    using y(1,2,3) by (auto simp: day_of_year_def)
qed

section \<open>A date as its parts\<close>

definition month_index :: "int \<Rightarrow> int" where
  "month_index doy = (5 * doy + 2) div 153"

definition month_day :: "int \<Rightarrow> int" where
  "month_day doy = doy - (153 * month_index doy + 2) div 5 + 1"

lemma month_index_range: "0 \<le> doy \<Longrightarrow> doy \<le> 365 \<Longrightarrow> 0 \<le> month_index doy \<and> month_index doy \<le> 11"
  unfolding month_index_def by linarith

lemma month_day_range: "0 \<le> doy \<Longrightarrow> doy \<le> 365 \<Longrightarrow> 1 \<le> month_day doy \<and> month_day doy \<le> 31"
  unfolding month_day_def month_index_def by linarith

lemma sdiv_floor:
  fixes z b c :: int
  assumes b: "0 < b" and c: "c = b - 1"
  shows "(if z \<ge> 0 then z else z - c) sdiv b = z div b"
proof (cases "z \<ge> 0")
  case True
  with b show ?thesis by (simp add: signed_divide_int_def sgn_if)
next
  case False
  have "(b - 1 - z) div b = - (z div b)"
  proof (rule int_div_pos_eq)
    show "b - 1 - z = b * - (z div b) + (b - 1 - z mod b)" using mult_div_mod_eq [of b z] by (simp only: mult_minus_right)
    show "0 \<le> b - 1 - z mod b" "b - 1 - z mod b < b"
      using pos_mod_bound [OF b, of z] pos_mod_sign [OF b, of z] by linarith+
  qed
  with False b c show ?thesis by (simp add: signed_divide_int_def sgn_if abs_if)
qed

lemma civil_from_days_parts:
  "civil_from_days n =
     (let z = n + 719468; e = z mod 146097; doy = day_of_year e; mi = month_index doy;
          month = (if mi < 10 then mi + 3 else mi - 9)
      in (year_of_era e + z div 146097 * 400 + of_bool (month \<le> 2), month, month_day doy))"
proof -
  have era: "(if n + 719468 \<ge> 0 then n + 719468 else n + 719468 - 146096) sdiv 146097 = (n + 719468) div 146097"
    by (rule sdiv_floor) simp_all
  show ?thesis
    unfolding civil_from_days_def Let_def era minus_div_mult_eq_mod
    unfolding year_of_era_def day_of_year_def month_index_def month_day_def adjusted_def year_start_def ..
qed

section \<open>The conversions are inverse, and keep order\<close>

text \<open>The date's month counted from the year 0, which orders dates with their day.\<close>

definition month_count :: "int \<times> int \<times> int \<Rightarrow> int" where
  "month_count ymd = (case ymd of (y, m, d) \<Rightarrow> 12 * y + m)"

lemma civil_month_count:
  "month_count (civil_from_days n) =
     12 * (year_of_era ((n + 719468) mod 146097) + (n + 719468) div 146097 * 400)
       + month_index (day_of_year ((n + 719468) mod 146097)) + 3"
proof -
  have "0 \<le> day_of_year ((n + 719468) mod 146097)" "day_of_year ((n + 719468) mod 146097) \<le> 365"
    by (rule era_day; simp)+
  from month_index_range [OF this] show ?thesis
    by (auto simp: civil_from_days_parts month_count_def Let_def)
qed

lemma civil_ranges:
  assumes "civil_from_days n = (y, m, d)"
  shows "1 \<le> m" "m \<le> 12" "1 \<le> d" "d \<le> 31"
proof -
  let ?e = "(n + 719468) mod 146097"
  have "0 \<le> day_of_year ?e" "day_of_year ?e \<le> 365" by (rule era_day; simp)+
  note mi = month_index_range [OF this] and md = month_day_range [OF this]
  have m: "m = (if month_index (day_of_year ?e) < 10 then month_index (day_of_year ?e) + 3
      else month_index (day_of_year ?e) - 9)" and d: "d = month_day (day_of_year ?e)"
    using arg_cong [OF assms [symmetric], of "\<lambda>p. fst (snd p)"] arg_cong [OF assms [symmetric], of "\<lambda>p. snd (snd p)"]
    by (simp_all only: civil_from_days_parts Let_def fst_conv snd_conv)
  show "1 \<le> m" "m \<le> 12" using mi unfolding m by (simp_all split: if_split)
  show "1 \<le> d" "d \<le> 31" using md unfolding d by auto
qed

lemma civil_days_roundtrip: "(case civil_from_days n of (y, m, d) \<Rightarrow> days_from_civil y m d) = n"
proof -
  define z where "z = n + 719468"
  define e where "e = z mod 146097"
  define doy where "doy = day_of_year e"
  define mi where "mi = month_index doy"
  define month where "month = (if mi < 10 then mi + 3 else mi - 9)"
  define yr where "yr = year_of_era e + z div 146097 * 400"
  have e: "0 \<le> e" "e < 146097" unfolding e_def by auto
  note ed = era_day [OF e]
  have mi: "0 \<le> mi" "mi \<le> 11" using month_index_range [of doy] ed(3,4) unfolding mi_def doy_def by auto
  have cfd: "civil_from_days n = (yr + of_bool (month \<le> 2), month, month_day doy)"
    unfolding civil_from_days_parts Let_def month_def mi_def doy_def e_def z_def yr_def ..
  have mp: "(month + 9) smod 12 = mi"
    using mi unfolding month_def by (auto simp: signed_modulo_int_def sgn_if)
  have era: "(if yr \<ge> 0 then yr else yr - 399) sdiv 400 = z div 146097"
    using sdiv_floor [of 400 399 yr] ed(1,2) unfolding yr_def by (simp split del: if_split)
  have yoe: "yr - z div 146097 * 400 = year_of_era e" unfolding yr_def by simp
  have start: "year_of_era e * 365 + year_of_era e sdiv 4 - year_of_era e sdiv 100 = year_start (year_of_era e)"
    using ed(1) by (simp add: year_start_def signed_divide_int_def sgn_if)
  have day: "(153 * mi + 2) sdiv 5 + month_day doy - 1 = doy"
    using mi by (simp add: month_day_def mi_def signed_divide_int_def sgn_if)
  have "days_from_civil (yr + of_bool (month \<le> 2)) month (month_day doy)
      = z div 146097 * 146097 + (year_start (year_of_era e) + doy) - 719468"
    unfolding days_from_civil_def Let_def mp add_diff_cancel_right' era yoe day start ..
  also have "year_start (year_of_era e) + doy = e" unfolding doy_def day_of_year_def by simp
  also have "z div 146097 * 146097 + e = z" unfolding e_def by simp
  finally show ?thesis unfolding cfd z_def by simp
qed

lemma civil_order:
  assumes "n < n'"
  shows "month_count (civil_from_days n) < month_count (civil_from_days n')
     \<or> (month_count (civil_from_days n) = month_count (civil_from_days n')
         \<and> snd (snd (civil_from_days n)) < snd (snd (civil_from_days n')))"
proof -
  define z z' where "z = n + 719468" and "z' = n' + 719468"
  define e e' where "e = z mod 146097" and "e' = z' mod 146097"
  define q q' where "q = z div 146097" and "q' = z' div 146097"
  have zlt: "z < z'" using assms unfolding z_def z'_def by simp
  have split: "z = 146097 * q + e" "z' = 146097 * q' + e'" unfolding q_def q'_def e_def e'_def by auto
  have e: "0 \<le> e" "e < 146097" "0 \<le> e'" "e' < 146097" unfolding e_def e'_def by auto
  note ed = era_day [OF e(1,2)] and ed' = era_day [OF e(3,4)]
  let ?mi = "month_index (day_of_year e)" and ?mi' = "month_index (day_of_year e')"
  have mi: "0 \<le> ?mi" "?mi \<le> 11" "0 \<le> ?mi'" "?mi' \<le> 11"
    using month_index_range ed(3,4) ed'(3,4) by auto
  have mc: "month_count (civil_from_days n) = 12 * (year_of_era e + q * 400) + ?mi + 3"
    "month_count (civil_from_days n') = 12 * (year_of_era e' + q' * 400) + ?mi' + 3"
    unfolding civil_month_count e_def e'_def q_def q'_def z_def z'_def by auto
  have days: "snd (snd (civil_from_days n)) = month_day (day_of_year e)"
    "snd (snd (civil_from_days n')) = month_day (day_of_year e')"
    unfolding e_def e'_def z_def z'_def by (simp_all add: civil_from_days_parts Let_def)
  have "q \<le> q'" using zlt unfolding q_def q'_def by (intro zdiv_mono1) auto
  then consider "q < q'" | "q = q'" by linarith
  then show ?thesis
  proof cases
    case 1
    then have "q * 400 + 400 \<le> q' * 400" by simp
    then have "month_count (civil_from_days n) < month_count (civil_from_days n')"
      unfolding mc using ed(2) ed'(1) mi by (simp only: distrib_left)
    then show ?thesis ..
  next
    case 2
    then have lt: "e < e'" using zlt split by simp
    then have "year_of_era e \<le> year_of_era e'"
      unfolding year_of_era_def using adjusted_mono [OF e(1) _ e(4)] by (intro zdiv_mono1) auto
    then consider "year_of_era e < year_of_era e'" | "year_of_era e = year_of_era e'" by linarith
    then show ?thesis
    proof cases
      case 1
      then have "month_count (civil_from_days n) < month_count (civil_from_days n')"
        unfolding mc using 2 mi by (simp only: distrib_left)
      then show ?thesis ..
    next
      case year: 2
      then have doy: "day_of_year e < day_of_year e'" using lt by (simp add: day_of_year_def)
      then have "?mi \<le> ?mi'" unfolding month_index_def by (intro zdiv_mono1) auto
      moreover have "month_day (day_of_year e) < month_day (day_of_year e')" if "?mi = ?mi'"
        using doy that unfolding month_day_def by simp
      ultimately show ?thesis unfolding mc days using 2 year by (cases "?mi = ?mi'") auto
    qed
  qed
qed

section \<open>Numbers at a fixed width\<close>

fun digits :: "nat \<Rightarrow> nat \<Rightarrow> string" where
  "digits 0 n = []"
| "digits (Suc w) n = digits w (n div 10) @ [digit_char (n mod 10)]"

lemma digits_numeral:
  "digits (numeral k) n = digits (pred_numeral k) (n div 10) @ [digit_char (n mod 10)]"
  by (subst numeral_eq_Suc) (rule digits.simps)

lemma digits_length [simp]: "length (digits w n) = w"
  by (induction w arbitrary: n) auto

lemma digits_zero: "digits w 0 = replicate w (CHR ''0'')"
  by (induction w) (auto simp: digit_char_def replicate_append_same)

lemma pad_digits: "n < 10 ^ Suc w \<Longrightarrow> pad (Suc w) n = digits (Suc w) n"
proof (induction w arbitrary: n)
  case 0
  then show ?case by (simp add: pad_def show_nat.simps [of n])
next
  case (Suc w)
  show ?case
  proof (cases "n < 10")
    case True
    then show ?thesis by (simp add: pad_def show_nat.simps [of n] digits_zero)
  next
    case False
    from Suc.prems have small: "n div 10 < 10 ^ Suc w" by (simp add: less_mult_imp_div_less mult.commute)
    have "pad (Suc (Suc w)) n = pad (Suc w) (n div 10) @ [digit_char (n mod 10)]"
      using False show_nat_short [OF small] by (simp add: pad_def show_nat.simps [of n])
    with Suc.IH [OF small] show ?thesis by simp
  qed
qed

lemma digits_ascii: "list_all is_ascii_digit (digits w n)"
  by (induction w arbitrary: n) (auto simp: is_ascii_digit_def digit_char_facts)

lemma digits_value_digits: "n < 10 ^ w \<Longrightarrow> digits_value 0 (digits w n) = n"
proof (induction w arbitrary: n)
  case 0
  then show ?case by simp
next
  case (Suc w)
  then have "n div 10 < 10 ^ w" by (simp add: less_mult_imp_div_less mult.commute)
  with Suc.IH show ?case by (simp add: digits_value_append digit_value_def digit_char_facts)
qed

lemma digits_inject: "n < 10 ^ w \<Longrightarrow> n' < 10 ^ w \<Longrightarrow> digits w n = digits w n' \<longleftrightarrow> n = n'"
  by (metis digits_value_digits)

lemma lex_append:
  fixes a b c d :: string
  assumes "length a = length b"
  shows "a @ c < b @ d \<longleftrightarrow> a < b \<or> a = b \<and> c < d"
  using assms by (induction a b rule: list_induct2) (auto simp: Cons_less_Cons)

lemma digits_less: "n < 10 ^ w \<Longrightarrow> n' < 10 ^ w \<Longrightarrow> digits w n < digits w n' \<longleftrightarrow> n < n'"
proof (induction w arbitrary: n n')
  case 0
  then show ?case by simp
next
  case (Suc w)
  then have small: "n div 10 < 10 ^ w" "n' div 10 < 10 ^ w" by (simp_all add: less_mult_imp_div_less mult.commute)
  have "n = 10 * (n div 10) + n mod 10" "n' = 10 * (n' div 10) + n' mod 10" by simp_all
  then have split: "n < n' \<longleftrightarrow> n div 10 < n' div 10 \<or> n div 10 = n' div 10 \<and> n mod 10 < n' mod 10"
    using mod_less_divisor [of 10 n] mod_less_divisor [of 10 n'] by linarith
  have "[digit_char (n mod 10)] < [digit_char (n' mod 10)] \<longleftrightarrow> n mod 10 < n' mod 10"
    by (simp add: Cons_less_Cons less_char_def digit_char_facts)
  then show ?case
    using Suc.IH [OF small] small by (simp add: lex_append digits_inject split)
qed

lemma digits_order:
  "n < 10 ^ w \<Longrightarrow> n' < 10 ^ w \<Longrightarrow>
     digits w n @ r < digits w n' @ r' \<longleftrightarrow> n < n' \<or> n = n' \<and> r < r'"
  by (simp add: lex_append digits_less digits_inject)

lemma digits_parse:
  assumes "0 < w" "n < 10 ^ w"
  shows "parse_integer (digits w n) = Some (int n)"
proof -
  from assms obtain c r where cr: "digits w n = c # r" by (cases "digits w n") (auto dest: arg_cong [of _ _ length])
  with digits_ascii [of w n] have "is_ascii_digit c" by simp
  then have "c \<noteq> CHR ''-''" "c \<noteq> CHR ''+''" by (auto simp: is_ascii_digit_def)
  with digits_ascii [of w n] digits_value_digits [OF assms(2)] cr show ?thesis by (simp add: parse_integer_def)
qed

section \<open>Stamps are read back, and sort as their times do\<close>

abbreviation as_millis_since :: "system_time \<Rightarrow> nat" where
  "as_millis_since t \<equiv> as_millis (since_epoch t)"

text \<open>The first millisecond of the year 10000, where a year has a fifth digit.\<close>

definition year_10000 :: nat where
  "year_10000 = 253402300800000"

definition stamp :: "char \<Rightarrow> char \<Rightarrow> nat \<Rightarrow> string" where
  "stamp colon dot ms =
     (case civil_from_days (int (ms div 86400000)) of (year, month, day) \<Rightarrow>
        digits 4 (nat year) @ ''-'' @ digits 2 (nat month) @ ''-'' @ digits 2 (nat day) @ ''T''
          @ digits 2 (ms div 3600000 mod 24) @ [colon] @ digits 2 (ms div 60000 mod 60) @ [colon]
          @ digits 2 (ms div 1000 mod 60) @ [dot] @ digits 3 (ms mod 1000) @ ''Z'')"

lemma year_range:
  assumes "ms < year_10000" "civil_from_days (int (ms div 86400000)) = (y, m, d)"
  shows "1969 < y" "y < 10000"
proof -
  let ?n = "int (ms div 86400000)"
  note m = civil_ranges(1,2) [OF assms(2)]
  have "month_count (civil_from_days 0) = 12 * 1970 + 1" "month_count (civil_from_days 2932896) = 12 * 9999 + 12"
    by code_simp+
  moreover have "0 = ?n \<or> 0 < ?n" by linarith
  moreover have "ms div 86400000 < 2932897" using assms(1) by (simp add: year_10000_def less_mult_imp_div_less)
  then have "?n = 2932896 \<or> ?n < 2932896" by linarith
  ultimately have "12 * 1970 + 1 \<le> month_count (civil_from_days ?n)"
    "month_count (civil_from_days ?n) \<le> 12 * 9999 + 12"
    using civil_order [of 0 ?n] civil_order [of ?n 2932896] by auto
  then have "12 * 1970 + 1 \<le> 12 * y + m" "12 * y + m \<le> 12 * 9999 + 12"
    unfolding assms(2) month_count_def by auto
  with m show "1969 < y" "y < 10000" by linarith+
qed

lemma small_pads:
  "n < 10000 \<Longrightarrow> pad 4 n = digits 4 n" "n < 1000 \<Longrightarrow> pad 3 n = digits 3 n" "n < 100 \<Longrightarrow> pad 2 n = digits 2 n"
proof -
  show "n < 10000 \<Longrightarrow> pad 4 n = digits 4 n" "n < 1000 \<Longrightarrow> pad 3 n = digits 3 n"
    using pad_digits [of n 3] pad_digits [of n 2] by (simp_all del: digits.simps)
  show "n < 100 \<Longrightarrow> pad 2 n = digits 2 n"
    using pad_digits [of n 1] by (simp add: numeral_2_eq_2 del: digits.simps)
qed

lemma clock_of_millis:
  fixes ms :: nat
  shows "ms div 1000 div 86400 = ms div 86400000"
    and "ms div 1000 mod 86400 div 3600 = ms div 3600000 mod 24"
    and "ms div 1000 mod 86400 mod 3600 div 60 = ms div 60000 mod 60"
    and "ms div 1000 mod 86400 mod 60 = ms div 1000 mod 60"
proof -
  show "ms div 1000 div 86400 = ms div 86400000" by (simp flip: div_mult2_eq)
  have "ms div 1000 mod (24 * 3600) = 3600 * (ms div 1000 div 3600 mod 24) + ms div 1000 mod 3600"
    by (subst mult.commute, rule mod_mult2_eq)
  moreover have "ms div 1000 div 3600 = ms div 3600000" by (simp flip: div_mult2_eq)
  ultimately show "ms div 1000 mod 86400 div 3600 = ms div 3600000 mod 24" by simp
  have "ms div 1000 mod 86400 mod 3600 = ms div 1000 mod 3600" by (rule mod_mod_cancel) simp
  moreover have "ms div 1000 mod (60 * 60) = 60 * (ms div 1000 div 60 mod 60) + ms div 1000 mod 60"
    by (rule mod_mult2_eq)
  moreover have "ms div 1000 div 60 = ms div 60000" by (simp flip: div_mult2_eq)
  ultimately show "ms div 1000 mod 86400 mod 3600 div 60 = ms div 60000 mod 60" by simp
  show "ms div 1000 mod 86400 mod 60 = ms div 1000 mod 60" by (rule mod_mod_cancel) simp
qed

lemma as_secs_millis: "as_secs d = as_millis d div 1000"
  by (simp add: as_secs_def as_millis_def flip: div_mult2_eq)

lemma stamps:
  assumes "as_millis_since t < year_10000"
  shows "file_timestamp t = stamp (CHR ''-'') (CHR ''-'') (as_millis_since t)"
    and "utc_text t = stamp (CHR '':'') (CHR ''.'') (as_millis_since t)"
proof -
  let ?ms = "as_millis_since t"
  obtain y m d where c: "civil_from_days (int (?ms div 86400000)) = (y, m, d)" by (cases "civil_from_days (int (?ms div 86400000))")
  note bounds = year_range [OF assms c] civil_ranges [OF c]
  have pads: "pad 4 (nat y) = digits 4 (nat y)" "pad 2 (nat m) = digits 2 (nat m)" "pad 2 (nat d) = digits 2 (nat d)"
    "pad 3 (?ms mod 1000) = digits 3 (?ms mod 1000)"
    using bounds by (auto intro!: small_pads)
  have clock: "pad 2 (?ms div 3600000 mod 24) = digits 2 (?ms div 3600000 mod 24)"
    "pad 2 (?ms div 60000 mod 60) = digits 2 (?ms div 60000 mod 60)"
    "pad 2 (?ms div 1000 mod 60) = digits 2 (?ms div 1000 mod 60)"
    by (intro small_pads(3), rule less_trans [OF mod_less_divisor]; simp)+
  show "file_timestamp t = stamp (CHR ''-'') (CHR ''-'') ?ms" "utc_text t = stamp (CHR '':'') (CHR ''.'') ?ms"
    unfolding file_timestamp_def utc_text_def stamp_def Let_def as_secs_millis clock_of_millis c split pads clock
    by simp_all
qed

lemma places:
  fixes m :: nat
  assumes "a = 24 * d + h" "b = 60 * a + mi" "c = 60 * b + s" "m = 1000 * c + r"
  shows "m = d * 86400000 + h * 3600000 + mi * 60000 + s * 1000 + r"
  using assms by simp

lemma millis_parts:
  fixes ms :: nat
  shows "ms = ms div 86400000 * 86400000 + ms div 3600000 mod 24 * 3600000 + ms div 60000 mod 60 * 60000
     + ms div 1000 mod 60 * 1000 + ms mod 1000"
proof -
  have "ms div 3600000 = 24 * (ms div 86400000) + ms div 3600000 mod 24"
    using mult_div_mod_eq [of 24 "ms div 3600000"] by (simp flip: div_mult2_eq)
  moreover have "ms div 60000 = 60 * (ms div 3600000) + ms div 60000 mod 60"
    using mult_div_mod_eq [of 60 "ms div 60000"] by (simp flip: div_mult2_eq)
  moreover have "ms div 1000 = 60 * (ms div 60000) + ms div 1000 mod 60"
    using mult_div_mod_eq [of 60 "ms div 1000"] by (simp flip: div_mult2_eq)
  moreover have "ms = 1000 * (ms div 1000) + ms mod 1000" by simp
  ultimately show ?thesis by (rule places)
qed

lemma str_get_ascii:
  assumes "list_all (\<lambda>c. code c < 128) s" "i + n \<le> length s"
  shows "str_get s i n = Some (take n (drop i s))"
proof -
  have "char_boundary s j" if "j \<le> length s" for j
  proof (cases "j < length s")
    case True
    then have "code (s ! j) < 128" using assms(1) by (simp add: list_all_length)
    with True show ?thesis by (simp add: char_boundary_def cont_byte_def)
  next
    case False
    with that show ?thesis by (simp add: char_boundary_def)
  qed
  with assms(2) show ?thesis by (simp add: str_get_def)
qed

lemma digits_below_128: "list_all (\<lambda>c. code c < 128) (digits w n)"
  using digits_ascii [of w n] by (auto simp: list_all_iff is_ascii_digit_def dest!: bspec)

lemma clock_bounds: "n mod 24 < (10::nat) ^ 2" "n mod 60 < (10::nat) ^ 2" "n mod 1000 < (10::nat) ^ 3"
  using mod_less_divisor [of 24 n] mod_less_divisor [of 60 n] mod_less_divisor [of 1000 n] by simp_all

lemma total_millis:
  "m = d * 86400000 + h * 3600000 + mi * 60000 + s * 1000 + r \<Longrightarrow>
     (d * 86400 + h * 3600 + mi * 60 + s) * 1000 + r = m" for m :: int
  by simp

lemma stamp_read:
  assumes "ms < year_10000" "code colon < 128" "code dot < 128"
  shows "stamp_moment (stamp colon dot ms) = Some (int ms * 1000000)"
proof -
  obtain y m d where c: "civil_from_days (int (ms div 86400000)) = (y, m, d)"
    by (cases "civil_from_days (int (ms div 86400000))")
  note bounds = year_range [OF assms(1) c] civil_ranges [OF c]
  let ?s = "stamp colon dot ms"
  let ?h = "ms div 3600000 mod 24" and ?mi = "ms div 60000 mod 60" and ?sec = "ms div 1000 mod 60"
  have s: "?s = digits 4 (nat y) @ ''-'' @ digits 2 (nat m) @ ''-'' @ digits 2 (nat d) @ ''T''
      @ digits 2 ?h @ [colon] @ digits 2 ?mi @ [colon] @ digits 2 ?sec @ [dot] @ digits 3 (ms mod 1000) @ ''Z''"
    unfolding stamp_def c split ..
  have ascii: "list_all (\<lambda>c. code c < 128) ?s" and len: "length ?s = 24"
    unfolding s using assms(2,3) by (simp_all add: digits_below_128)
  have fields: "field ?s 0 4 = parse_integer (digits 4 (nat y))" "field ?s 5 2 = parse_integer (digits 2 (nat m))"
    "field ?s 8 2 = parse_integer (digits 2 (nat d))" "field ?s 11 2 = parse_integer (digits 2 ?h)"
    "field ?s 14 2 = parse_integer (digits 2 ?mi)" "field ?s 17 2 = parse_integer (digits 2 ?sec)"
    "field ?s 20 3 = parse_integer (digits 3 (ms mod 1000))"
    unfolding field_def using len by (simp_all add: str_get_ascii [OF ascii]) (simp_all add: s)
  have parse: "parse_integer (digits 4 (nat y)) = Some y" "parse_integer (digits 2 (nat m)) = Some m"
    "parse_integer (digits 2 (nat d)) = Some d"
    using bounds by (simp_all add: digits_parse)
  have clock: "parse_integer (digits 2 ?h) = Some (int ?h)" "parse_integer (digits 2 ?mi) = Some (int ?mi)"
    "parse_integer (digits 2 ?sec) = Some (int ?sec)" "parse_integer (digits 3 (ms mod 1000)) = Some (int (ms mod 1000))"
    by (intro digits_parse clock_bounds; simp)+
  have days: "days_from_civil y m d = int (ms div 86400000)"
    using civil_days_roundtrip [of "int (ms div 86400000)"] unfolding c by simp
  have "((int (ms div 86400000) * 86400 + int ?h * 3600 + int ?mi * 60 + int ?sec) * 1000 + int (ms mod 1000)) = int ms"
    using arg_cong [OF millis_parts [of ms], of int]
    by (intro total_millis) (simp only: of_nat_add of_nat_mult of_nat_numeral)
  then show ?thesis
    unfolding stamp_moment_def fields parse clock option.case prod.case Let_def days by simp
qed

lemma later_places:
  fixes m m' :: nat
  assumes "m < m'"
    and "m = d * 86400000 + h * 3600000 + mi * 60000 + s * 1000 + r" "mi < 60" "s < 60" "r < 1000"
    and "m' = d * 86400000 + h' * 3600000 + mi' * 60000 + s' * 1000 + r'" "mi' < 60" "s' < 60" "r' < 1000"
  shows "h < h' \<or> h = h' \<and> (mi < mi' \<or> mi = mi' \<and> (s < s' \<or> s = s' \<and> r < r'))"
proof (rule linorder_cases [of h h'])
  assume h: "h = h'"
  show ?thesis
  proof (rule linorder_cases [of mi mi'])
    assume mi: "mi = mi'"
    show ?thesis by (rule linorder_cases [of s s']) (use assms h mi in simp_all)
  qed (use assms h in simp_all)
qed (use assms in simp_all)

lemma later_clock:
  fixes ms ms' :: nat
  assumes "ms < ms'" "ms div 86400000 = ms' div 86400000"
  shows "ms div 3600000 mod 24 < ms' div 3600000 mod 24 \<or> ms div 3600000 mod 24 = ms' div 3600000 mod 24 \<and>
     (ms div 60000 mod 60 < ms' div 60000 mod 60 \<or> ms div 60000 mod 60 = ms' div 60000 mod 60 \<and>
     (ms div 1000 mod 60 < ms' div 1000 mod 60 \<or> ms div 1000 mod 60 = ms' div 1000 mod 60 \<and> ms mod 1000 < ms' mod 1000))"
  by (rule later_places [OF assms(1) millis_parts _ _ _ millis_parts [of ms', folded assms(2)]]; rule mod_less_divisor; simp)

lemma stamp_order:
  assumes "ms < ms'" "ms' < year_10000"
  shows "stamp colon dot ms < stamp colon dot ms'"
proof -
  have ms: "ms < year_10000" using assms by simp
  obtain y m d where c: "civil_from_days (int (ms div 86400000)) = (y, m, d)"
    by (cases "civil_from_days (int (ms div 86400000))")
  obtain y' m' d' where c': "civil_from_days (int (ms' div 86400000)) = (y', m', d')"
    by (cases "civil_from_days (int (ms' div 86400000))")
  note b = year_range [OF ms c] civil_ranges [OF c] and b' = year_range [OF assms(2) c'] civil_ranges [OF c']
  let ?date = "\<lambda>y m d r. digits 4 (nat y) @ ''-'' @ digits 2 (nat m) @ ''-'' @ digits 2 (nat d) @ ''T'' @ r"
  let ?clock = "\<lambda>ms. digits 2 (ms div 3600000 mod 24) @ [colon] @ digits 2 (ms div 60000 mod 60) @ [colon]
      @ digits 2 (ms div 1000 mod 60) @ [dot] @ digits 3 (ms mod 1000) @ ''Z''"
  have date: "?date y m d r < ?date y' m' d' r' \<longleftrightarrow>
      y < y' \<or> y = y' \<and> (m < m' \<or> m = m' \<and> (d < d' \<or> d = d' \<and> r < r'))" for r r'
    using b b' by (simp add: digits_order Cons_less_Cons nat_less_eq_zless eq_nat_nat_iff)
  have clock: "?clock ms < ?clock ms' \<longleftrightarrow>
      ms div 3600000 mod 24 < ms' div 3600000 mod 24 \<or> ms div 3600000 mod 24 = ms' div 3600000 mod 24 \<and>
     (ms div 60000 mod 60 < ms' div 60000 mod 60 \<or> ms div 60000 mod 60 = ms' div 60000 mod 60 \<and>
     (ms div 1000 mod 60 < ms' div 1000 mod 60 \<or> ms div 1000 mod 60 = ms' div 1000 mod 60 \<and> ms mod 1000 < ms' mod 1000))"
    by (simp add: digits_order clock_bounds Cons_less_Cons del: power_numeral)
  have "ms div 86400000 \<le> ms' div 86400000" using assms(1) by (intro div_le_mono) simp
  then consider "ms div 86400000 < ms' div 86400000" | "ms div 86400000 = ms' div 86400000" by linarith
  then show ?thesis
  proof cases
    case 1
    then have "int (ms div 86400000) < int (ms' div 86400000)" by simp
    from civil_order [OF this] have "12 * y + m < 12 * y' + m' \<or> 12 * y + m = 12 * y' + m' \<and> d < d'"
      unfolding c c' month_count_def by simp
    then have "y < y' \<or> y = y' \<and> (m < m' \<or> m = m' \<and> d < d')" using b b' by linarith
    then show ?thesis unfolding stamp_def c c' split date by blast
  next
    case 2
    with c c' have same: "y' = y" "m' = m" "d' = d" by auto
    have "?clock ms < ?clock ms'"
      unfolding clock by (rule later_clock [OF assms(1) 2])
    then show ?thesis unfolding stamp_def c c' split date by (simp only: same simp_thms)
  qed
qed

text \<open>
  A stamp is the moment it was written: a time before the year 10000 is read back from its
  own text to the millisecond, any text that is read is the very text of the time read, and
  stamps sort as their times do.
\<close>

theorem stamp_is_its_moment:
  assumes "as_millis_since t < year_10000"
  shows "utc_time (utc_text t) = Some (int (as_millis_since t) * 1000000)
    \<and> (\<forall>s u. utc_time s = Some u \<longrightarrow> utc_text u = s)
    \<and> (\<forall>earlier. as_millis_since earlier < as_millis_since t \<longrightarrow> utc_text earlier < utc_text t)"
proof (intro conjI allI impI)
  let ?ms = "as_millis_since t"
  have kept: "as_millis_since (int ?ms * 1000000) = ?ms"
    by (simp add: since_epoch_def as_millis_def nat_mult_distrib)
  then have "utc_text (int ?ms * 1000000) = utc_text t"
    using assms by (simp add: stamps(2))
  moreover have "stamp_moment (utc_text t) = Some (int ?ms * 1000000)"
    unfolding stamps(2) [OF assms] by (rule stamp_read [OF assms]) simp_all
  ultimately show "utc_time (utc_text t) = Some (int ?ms * 1000000)" by (simp add: utc_time_def)
  show "utc_text u = s" if "utc_time s = Some u" for s u
    using that by (auto simp: utc_time_def split: option.splits if_splits)
  show "utc_text earlier < utc_text t" if "as_millis_since earlier < ?ms" for earlier
    using that assms by (simp add: stamps(2) stamp_order)
qed

theorem stamp_is_its_moment_witness:
  "utc_time ''2026-09-21T14:13:20.123Z'' = Some 1790000000123000000"
proof -
  have day: "civil_from_days 20717 = (2026, 9, 21)" by code_simp
  have ms: "as_millis_since 1790000000123000000 = 1790000000123"
    by (simp add: since_epoch_def as_millis_def)
  then have before: "as_millis_since 1790000000123000000 < year_10000" by (simp add: year_10000_def)
  have "stamp (CHR '':'') (CHR ''.'') 1790000000123 = ''2026-09-21T14:13:20.123Z''"
    by (simp add: stamp_def day digit_char_def digits_numeral)
  then have t: "utc_text 1790000000123000000 = ''2026-09-21T14:13:20.123Z''"
    using stamps(2) [OF before] unfolding ms by simp
  from stamp_is_its_moment [OF before] show ?thesis unfolding t ms by simp
qed

end
