(* ===== verification/Lights_Config.thy ===== *)
theory Lights_Config
  imports Civil_Time
begin

text \<open>
  What the lighting output and the bridge watch read from the saved settings: the bridge's
  address and the rule that it be one machine's (\<open>commissioning.rs\<close>), whether lighting is on
  (\<open>lighting/helpers.rs\<close>, \<open>lighting/snapshot.rs\<close>), and whether the outputs are armed
  (\<open>lighting/output_arming.rs\<close>). The settings are a map from keys to their text.
\<close>

type_synonym settings = "string \<rightharpoonup> string"

section \<open>IPv4 addresses\<close>

datatype ipv4 = Ipv4 "8 word" "8 word" "8 word" "8 word"

text \<open>An octet as \<open>Ipv4Addr::from_str\<close> reads it: one to three digits, no zero before another
  digit, 255 at most.\<close>

definition parse_octet :: "string \<Rightarrow> 8 word option" where
  "parse_octet s =
     (if s \<noteq> [] \<and> length s \<le> 3 \<and> list_all is_ascii_digit s \<and> (length s = 1 \<or> hd s \<noteq> CHR ''0'')
         \<and> digits_value 0 s \<le> 255
      then Some (of_nat (digits_value 0 s)) else None)"

definition ipv4_of_text :: "string \<Rightarrow> ipv4 option" where
  "ipv4_of_text s =
     (case split_on (CHR ''.'') s of
        [a, b, c, d] \<Rightarrow>
          (case (parse_octet a, parse_octet b, parse_octet c, parse_octet d) of
             (Some a', Some b', Some c', Some d') \<Rightarrow> Some (Ipv4 a' b' c' d')
           | _ \<Rightarrow> None)
      | _ \<Rightarrow> None)"

fun show_ipv4 :: "ipv4 \<Rightarrow> string" where
  "show_ipv4 (Ipv4 a b c d) =
     show_nat (unat a) @ ''.'' @ show_nat (unat b) @ ''.'' @ show_nat (unat c) @ ''.'' @ show_nat (unat d)"

fun is_unspecified :: "ipv4 \<Rightarrow> bool" where
  "is_unspecified (Ipv4 a b c d) = (a = 0 \<and> b = 0 \<and> c = 0 \<and> d = 0)"

fun is_broadcast :: "ipv4 \<Rightarrow> bool" where
  "is_broadcast (Ipv4 a b c d) = (a = 255 \<and> b = 255 \<and> c = 255 \<and> d = 255)"

fun is_multicast :: "ipv4 \<Rightarrow> bool" where
  "is_multicast (Ipv4 a b c d) = (224 \<le> a \<and> a \<le> 239)"

definition parse_ipv4 :: "string \<Rightarrow> ipv4 option" where
  "parse_ipv4 s = ipv4_of_text (trim s)"

definition one_machine_ipv4 :: "string \<Rightarrow> ipv4 option" where
  "one_machine_ipv4 s =
     (case parse_ipv4 s of
        None \<Rightarrow> None
      | Some a \<Rightarrow> if \<not> (is_unspecified a \<or> is_broadcast a \<or> is_multicast a) then Some a else None)"

section \<open>The settings\<close>

definition LIGHTING_BRIDGE_IP_KEY :: string where
  "LIGHTING_BRIDGE_IP_KEY = ''app.commissioning.lighting.bridge_ip''"
definition LIGHTING_UNIVERSE_KEY :: string where
  "LIGHTING_UNIVERSE_KEY = ''app.commissioning.lighting.universe''"
definition LIGHTING_ENABLED_KEY :: string where
  "LIGHTING_ENABLED_KEY = ''app.lighting.enabled''"
definition LIGHTING_OUTPUT_ARMED_KEY :: string where
  "LIGHTING_OUTPUT_ARMED_KEY = ''app.lighting.output_armed''"
definition DEFAULT_UNIVERSE :: int where "DEFAULT_UNIVERSE = 1"

record lighting_config =
  enabled :: bool
  bridge_ip :: string
  config_universe :: int

definition parse_i64 :: "string \<Rightarrow> int option" where
  "parse_i64 s =
     (case parse_integer s of
        Some v \<Rightarrow> if - (2 ^ 63) \<le> v \<and> v < 2 ^ 63 then Some v else None
      | None \<Rightarrow> None)"

definition read_lighting_output_enabled :: "settings \<Rightarrow> string \<Rightarrow> bool" where
  "read_lighting_output_enabled settings bridge =
     (case settings LIGHTING_ENABLED_KEY of
        Some v \<Rightarrow> if v = ''true'' then True else if v = ''false'' then False else trim bridge \<noteq> []
      | None \<Rightarrow> trim bridge \<noteq> [])"

definition resolve_lighting_config :: "settings \<Rightarrow> lighting_config" where
  "resolve_lighting_config settings =
     (let bridge = (case settings LIGHTING_BRIDGE_IP_KEY of Some v \<Rightarrow> v | None \<Rightarrow> [])
      in \<lparr>enabled = read_lighting_output_enabled settings bridge,
          bridge_ip = bridge,
          config_universe =
            (case settings LIGHTING_UNIVERSE_KEY of
               None \<Rightarrow> DEFAULT_UNIVERSE
             | Some v \<Rightarrow>
                 (case parse_i64 v of
                    None \<Rightarrow> DEFAULT_UNIVERSE
                  | Some n \<Rightarrow> if 1 \<le> n \<and> n \<le> 63999 then n else DEFAULT_UNIVERSE))\<rparr>)"

definition lighting_watched_bridge :: "settings \<Rightarrow> ipv4 option" where
  "lighting_watched_bridge settings =
     (let config = resolve_lighting_config settings
      in if \<not> enabled config then None else one_machine_ipv4 (bridge_ip config))"

definition lighting_bridge_refused_at_wire :: "settings \<Rightarrow> string option" where
  "lighting_bridge_refused_at_wire settings =
     (let config = resolve_lighting_config settings; address = trim (bridge_ip config)
      in if enabled config \<and> ipv4_of_text address \<noteq> None \<and> one_machine_ipv4 address = None
         then Some address else None)"

definition lighting_output_armed :: "settings \<Rightarrow> bool" where
  "lighting_output_armed settings =
     (case settings LIGHTING_OUTPUT_ARMED_KEY of None \<Rightarrow> True | Some v \<Rightarrow> v \<noteq> ''false'')"

definition lighting_output_armed_setting :: "bool \<Rightarrow> string \<times> string" where
  "lighting_output_armed_setting armed =
     (LIGHTING_OUTPUT_ARMED_KEY, if armed then ''true'' else ''false'')"

lemma armed_setting_read [simp]:
  "lighting_output_armed (settings(fst (lighting_output_armed_setting b) \<mapsto> snd (lighting_output_armed_setting b))) = b"
  by (simp add: lighting_output_armed_def lighting_output_armed_setting_def)

end
