(* ===== verification/Lights_Watch.thy ===== *)
theory Lights_Watch
  imports Lights_Config
begin

text \<open>
  The watch of the lighting bridge (\<open>lighting_bridge_watch.rs\<close>): what a look finds, what the
  looks at one address add up to, and the passes of its thread. A look's connection and the
  clock are inputs. The watch is shown to be exactly its specification: a verdict read off the
  looks so far at the address now watched.
\<close>

section \<open>A look\<close>

definition BRIDGE_PORT :: nat where "BRIDGE_PORT = 80"
definition SILENT_LOOKS_TO_NOT_ANSWERING :: nat where "SILENT_LOOKS_TO_NOT_ANSWERING = 2"

datatype bridge_answer = Accepted | Refused | Silent

fun answers :: "bridge_answer \<Rightarrow> bool" where
  "answers Silent = False"
| "answers _ = True"

text \<open>What a connection comes to: taken, refused, or any other error.\<close>

datatype connect = Connected | ConnectionRefused | OtherError

definition bridge_look_stall_address :: "string \<Rightarrow> ipv4 option" where
  "bridge_look_stall_address value =
     (case ipv4_of_text (trim value) of
        Some (Ipv4 a b c d) \<Rightarrow>
          if (a, b, c) \<in> {(192, 0, 2), (198, 51, 100), (203, 0, 113)} then Some (Ipv4 a b c d) else None
      | None \<Rightarrow> None)"

text \<open>The answer, and whether a connection was made.\<close>

definition look_at_bridge_or_stall :: "connect \<Rightarrow> ipv4 \<Rightarrow> ipv4 option \<Rightarrow> bridge_answer \<times> bool" where
  "look_at_bridge_or_stall connect address stalled_at =
     (if stalled_at = Some address then (Silent, False)
      else (case connect of Connected \<Rightarrow> Accepted | ConnectionRefused \<Rightarrow> Refused | OtherError \<Rightarrow> Silent, True))"

section \<open>The watch of one address\<close>

record bridge_watch_report =
  report_answering :: bool
  report_silent_since :: "string option"

record watch_change =
  change_log :: "string option"
  verdict_moved :: bool

record watch =
  address :: ipv4
  last_answering_kind :: "bridge_answer option"
  silent_looks :: nat
  silent_since :: "string option"
  answering :: "bool option"

definition watch_new :: "ipv4 \<Rightarrow> watch" where
  "watch_new a = \<lparr>address = a, last_answering_kind = None, silent_looks = 0, silent_since = None, answering = None\<rparr>"

definition look_log :: "ipv4 \<Rightarrow> bridge_answer \<Rightarrow> bool option \<Rightarrow> bool option \<Rightarrow> bool \<Rightarrow> string option" where
  "look_log a answer before after kind_moved =
     (if after \<noteq> before \<and> after = Some False then
        Some (''The bridge at '' @ show_ipv4 a @ '' has not answered on port '' @ show_nat BRIDGE_PORT @ '' for ''
          @ show_nat SILENT_LOOKS_TO_NOT_ANSWERING @ '' looks in a row: Lighting says so, and nothing is locked.'')
      else if answers answer \<and> (after \<noteq> before \<or> kind_moved) then
        (let again = (if before = Some False then '' again'' else [])
         in Some (case answer of
                    Accepted \<Rightarrow> ''The bridge at '' @ show_ipv4 a @ '' answers'' @ again
                      @ '': it took a connection on port '' @ show_nat BRIDGE_PORT @ ''.''
                  | _ \<Rightarrow> ''The bridge at '' @ show_ipv4 a @ '' answers'' @ again
                      @ '': it refused a connection on port '' @ show_nat BRIDGE_PORT
                      @ '', so something is at that address.''))
      else None)"

definition take_look :: "watch \<Rightarrow> bridge_answer \<Rightarrow> system_time \<Rightarrow> watch \<times> watch_change" where
  "take_look w answer now =
     (let kind_moved = answers answer \<and> last_answering_kind w \<noteq> Some answer;
          w1 = (if answers answer then w\<lparr>last_answering_kind := Some answer\<rparr> else w);
          before = answering w1;
          w2 = (if answers answer then w1\<lparr>silent_looks := 0, silent_since := None, answering := Some True\<rparr>
                else (let w' = (if silent_looks w1 = 0 then w1\<lparr>silent_since := Some (utc_text now)\<rparr> else w1);
                          w'' = w'\<lparr>silent_looks := min (silent_looks w' + 1) u32_max\<rparr>
                      in if SILENT_LOOKS_TO_NOT_ANSWERING \<le> silent_looks w'' then w''\<lparr>answering := Some False\<rparr> else w''))
      in (w2, \<lparr>change_log = look_log (address w2) answer before (answering w2) kind_moved,
               verdict_moved = (answering w2 \<noteq> before)\<rparr>))"

definition watch_report :: "watch \<Rightarrow> bridge_watch_report option" where
  "watch_report w =
     map_option (\<lambda>ans. \<lparr>report_answering = ans, report_silent_since = (if ans then None else silent_since w)\<rparr>)
       (answering w)"

section \<open>The watch's pass\<close>

definition apply_look ::
  "watch option \<Rightarrow> ipv4 option \<Rightarrow> bridge_answer option \<Rightarrow> system_time \<Rightarrow> watch option \<times> watch_change" where
  "apply_look wo target answer now =
     (case (target, answer) of
        (Some a, Some ans) \<Rightarrow>
          (let other = (case wo of None \<Rightarrow> True | Some w \<Rightarrow> address w \<noteq> a);
               dropped_verdict = other \<and> (case wo of None \<Rightarrow> False | Some w \<Rightarrow> answering w \<noteq> None);
               current = (if other then watch_new a else the wo)
           in case take_look current ans now of
                (w', change) \<Rightarrow> (Some w', change\<lparr>verdict_moved := verdict_moved change \<or> dropped_verdict\<rparr>))
      | _ \<Rightarrow>
          (None, \<lparr>change_log = None,
                  verdict_moved = (case wo of None \<Rightarrow> False | Some w \<Rightarrow> answering w \<noteq> None)\<rparr>))"

definition bridge_watch_report :: "watch option \<Rightarrow> string \<Rightarrow> bridge_watch_report option" where
  "bridge_watch_report wo bridge =
     (case ipv4_of_text (trim bridge) of
        None \<Rightarrow> None
      | Some a \<Rightarrow> (case wo of None \<Rightarrow> None | Some w \<Rightarrow> if address w = a then watch_report w else None))"

text \<open>
  One pass of the thread: the settings read, or the error that leaves the watch as it was, what a
  connection to the address they name comes to, and the clock. Beside the watch it gives the
  line to log and whether the screen hears.
\<close>

definition watch_pass ::
  "ipv4 option \<Rightarrow> watch option \<Rightarrow> settings option \<times> connect \<times> system_time \<Rightarrow> watch option \<times> string option \<times> bool" where
  "watch_pass stalled_at wo input =
     (case input of
        (None, _, _) \<Rightarrow> (wo, None, False)
      | (Some settings, connect, now) \<Rightarrow>
          (let target = lighting_watched_bridge settings;
               answer = map_option (\<lambda>a. fst (look_at_bridge_or_stall connect a stalled_at)) target
           in case apply_look wo target answer now of
                (wo', change) \<Rightarrow> (wo', change_log change, verdict_moved change)))"

fun watch_run :: "ipv4 option \<Rightarrow> watch option \<Rightarrow> (settings option \<times> connect \<times> system_time) list \<Rightarrow> watch option" where
  "watch_run stalled_at wo [] = wo"
| "watch_run stalled_at wo (input # inputs) = watch_run stalled_at (fst (watch_pass stalled_at wo input)) inputs"

section \<open>What the watch promises\<close>

text \<open>The looks at the address now watched, the last first, and the verdict they give.\<close>

type_synonym looks = "(bridge_answer \<times> system_time) list"

fun verdict :: "looks \<Rightarrow> bool option" where
  "verdict [] = None"
| "verdict ((ans, t) # rest) =
     (if answers ans then Some True
      else (case rest of (earlier, _) # _ \<Rightarrow> if answers earlier then verdict rest else Some False | [] \<Rightarrow> None))"

definition silence :: "looks \<Rightarrow> looks" where
  "silence ls = takeWhile (\<lambda>(ans, _). \<not> answers ans) ls"

definition watch_of :: "ipv4 \<Rightarrow> looks \<Rightarrow> watch" where
  "watch_of a ls =
     \<lparr>address = a,
      last_answering_kind = map_option fst (find (\<lambda>(ans, _). answers ans) ls),
      silent_looks = min (length (silence ls)) u32_max,
      silent_since = (if silence ls = [] then None else Some (utc_text (snd (last (silence ls))))),
      answering = verdict ls\<rparr>"

text \<open>The specification: looks are kept while their address stays the watched one.\<close>

definition spec_pass ::
  "ipv4 option \<Rightarrow> (ipv4 \<times> looks) option \<Rightarrow> settings option \<times> connect \<times> system_time \<Rightarrow> (ipv4 \<times> looks) option" where
  "spec_pass stalled_at so input =
     (case input of
        (None, _, _) \<Rightarrow> so
      | (Some settings, connect, now) \<Rightarrow>
          (case lighting_watched_bridge settings of
             None \<Rightarrow> None
           | Some a \<Rightarrow>
               (let look = (fst (look_at_bridge_or_stall connect a stalled_at), now)
                in case so of
                     Some (b, ls) \<Rightarrow> Some (a, if b = a then look # ls else [look])
                   | None \<Rightarrow> Some (a, [look]))))"

fun spec_run :: "ipv4 option \<Rightarrow> (ipv4 \<times> looks) option \<Rightarrow> (settings option \<times> connect \<times> system_time) list \<Rightarrow> (ipv4 \<times> looks) option" where
  "spec_run stalled_at so [] = so"
| "spec_run stalled_at so (input # inputs) = spec_run stalled_at (spec_pass stalled_at so input) inputs"

text \<open>The word on the screen: the address and its verdict, once there is one.\<close>

definition word_of :: "watch option \<Rightarrow> (ipv4 \<times> bool) option" where
  "word_of wo = (case wo of None \<Rightarrow> None | Some w \<Rightarrow> map_option (\<lambda>v. (address w, v)) (answering w))"

lemma watch_of_new: "watch_new a = watch_of a []"
  by (simp add: watch_new_def watch_of_def silence_def)

lemma verdict_silent:
  "\<not> answers ans \<Longrightarrow> verdict ((ans, t) # ls) = (if silence ls = [] then verdict ls else Some False)"
  by (cases ls) (auto simp: silence_def)

lemma verdict_answer: "answers ans \<Longrightarrow> verdict ((ans, t) # ls) = Some True"
  by simp

declare verdict.simps(2) [simp del]

lemma take_look_of:
  "fst (take_look (watch_of a ls) ans now) = watch_of a ((ans, now) # ls)"
proof (cases "answers ans")
  case True
  then show ?thesis by (simp add: take_look_def watch_of_def silence_def Let_def verdict_answer)
next
  case False
  then have s: "silence ((ans, now) # ls) = (ans, now) # silence ls" by (simp add: silence_def)
  show ?thesis
  proof (cases "silence ls")
    case Nil
    with False s show ?thesis
      by (simp add: take_look_def watch_of_def Let_def verdict_silent SILENT_LOOKS_TO_NOT_ANSWERING_def u32_max_def)
  next
    case (Cons x xs)
    with False s show ?thesis
      by (auto simp: take_look_def watch_of_def Let_def verdict_silent SILENT_LOOKS_TO_NOT_ANSWERING_def u32_max_def)
  qed
qed

lemma take_look_moved: "verdict_moved (snd (take_look w ans now)) \<longleftrightarrow> answering (fst (take_look w ans now)) \<noteq> answering w"
  by (auto simp: take_look_def Let_def)

lemma watch_of_address [simp]: "address (watch_of a ls) = a" "answering (watch_of a ls) = verdict ls"
  by (simp_all add: watch_of_def)

lemma apply_look_Some:
  "apply_look wo (Some a) (Some ans) now =
     (case take_look (case wo of Some w \<Rightarrow> if address w = a then w else watch_new a | None \<Rightarrow> watch_new a) ans now of
        (w', change) \<Rightarrow>
          (Some w', change\<lparr>verdict_moved := verdict_moved change
             \<or> (case wo of None \<Rightarrow> False | Some w \<Rightarrow> address w \<noteq> a \<and> answering w \<noteq> None)\<rparr>))"
  by (auto simp: apply_look_def Let_def split: option.splits)

lemma watch_pass_of:
  "fst (watch_pass st (map_option (\<lambda>(a, ls). watch_of a ls) so) input)
     = map_option (\<lambda>(a, ls). watch_of a ls) (spec_pass st so input)"
proof (cases input)
  case (fields so' connect now)
  show ?thesis
  proof (cases "so' = None \<or> lighting_watched_bridge (the so') = None")
    case True
    with fields show ?thesis by (cases so') (auto simp: watch_pass_def spec_pass_def apply_look_def)
  next
    case False
    then obtain settings a where sa: "so' = Some settings" "lighting_watched_bridge settings = Some a" by auto
    define ans where "ans = fst (look_at_bridge_or_stall connect a st)"
    have "fst (apply_look (map_option (\<lambda>(a, ls). watch_of a ls) so) (Some a) (Some ans) now)
        = map_option (\<lambda>(a, ls). watch_of a ls)
            (case so of Some (b, ls) \<Rightarrow> Some (a, if b = a then (ans, now) # ls else [(ans, now)]) | None \<Rightarrow> Some (a, [(ans, now)]))"
    proof (cases so)
      case None
      then show ?thesis using take_look_of [of a "[]" ans now] by (auto simp: apply_look_Some watch_of_new split: prod.split)
    next
      case (Some bl)
      obtain b ls where "bl = (b, ls)" by fastforce
      with Some show ?thesis
        using take_look_of [of a ls ans now] take_look_of [of a "[]" ans now]
        by (cases "b = a") (auto simp: apply_look_Some watch_of_new split: prod.split)
    qed
    moreover have "fst (watch_pass st wo input) = fst (apply_look wo (Some a) (Some ans) now)" for wo
      unfolding fields by (simp add: watch_pass_def sa ans_def split: prod.split)
    moreover have "spec_pass st so input =
        (case so of Some (b, ls) \<Rightarrow> Some (a, if b = a then (ans, now) # ls else [(ans, now)]) | None \<Rightarrow> Some (a, [(ans, now)]))"
      unfolding fields ans_def by (simp add: spec_pass_def sa Let_def)
    ultimately show ?thesis by simp
  qed
qed

lemma watch_run_of:
  "watch_run st (map_option (\<lambda>(a, ls). watch_of a ls) so) inputs
     = map_option (\<lambda>(a, ls). watch_of a ls) (spec_run st so inputs)"
  by (induction inputs arbitrary: so) (simp_all add: watch_pass_of)

lemma take_look_address [simp]: "address (fst (take_look w ans now)) = address w"
  by (simp add: take_look_def Let_def)

lemma first_look_of_an_address: "answering w = None \<Longrightarrow> silent_looks w = 0 \<Longrightarrow>
    answering (fst (take_look w ans now)) = (if answers ans then Some True else None)"
  by (simp add: take_look_def Let_def SILENT_LOOKS_TO_NOT_ANSWERING_def u32_max_def)

lemma heard_iff_word_moved:
  "snd (snd (watch_pass st wo input)) \<longleftrightarrow> word_of (fst (watch_pass st wo input)) \<noteq> word_of wo"
proof (cases input)
  case (fields so connect now)
  show ?thesis
  proof (cases "so = None \<or> lighting_watched_bridge (the so) = None")
    case True
    with fields show ?thesis
      by (cases so) (auto simp: watch_pass_def apply_look_def word_of_def split: option.splits)
  next
    case False
    then obtain settings a where sa: "so = Some settings" "lighting_watched_bridge settings = Some a" by auto
    define ans where "ans = fst (look_at_bridge_or_stall connect a st)"
    have pass: "watch_pass st wo input = (case apply_look wo (Some a) (Some ans) now of
        (wo', change) \<Rightarrow> (wo', change_log change, verdict_moved change))"
      using fields sa by (simp add: watch_pass_def Let_def ans_def)
    define w where "w = (case wo of Some w \<Rightarrow> if address w = a then w else watch_new a | None \<Rightarrow> watch_new a)"
    obtain w' change where t: "take_look w ans now = (w', change)" by fastforce
    have moved: "verdict_moved change \<longleftrightarrow> answering w' \<noteq> answering w" using take_look_moved [of w ans now] t by simp
    have addr: "address w = a" unfolding w_def by (auto simp: watch_new_def split: option.splits)
    then have addr': "address w' = a" using take_look_address [of w ans now] t by simp
    show ?thesis
    proof (cases wo)
      case None
      then have "answering w = None" unfolding w_def by (simp add: watch_new_def)
      with None t moved addr' show ?thesis unfolding pass apply_look_Some w_def [symmetric]
        by (simp add: word_of_def)
    next
      case (Some old)
      show ?thesis
      proof (cases "address old = a")
        case True
        then have "w = old" unfolding w_def Some by simp
        with Some True t moved addr' show ?thesis unfolding pass apply_look_Some w_def [symmetric]
          by (cases "answering w'"; cases "answering old") (auto simp: word_of_def)
      next
        case False
        then have "w = watch_new a" unfolding w_def Some by simp
        then have "answering w = None" by (simp add: watch_new_def)
        with Some False t moved addr' show ?thesis unfolding pass apply_look_Some w_def [symmetric]
          by (cases "answering w'"; cases "answering old") (auto simp: word_of_def)
      qed
    qed
  qed
qed

text \<open>
  C16. The watch is its specification: after any passes it holds what the looks at the address
  now watched, and they alone, give it: answering once a look was answered, not answering after
  two silent looks in a row, silent since the first of them; and the screen hears exactly when
  the address or the verdict it shows moves.
\<close>

theorem watch_is_its_looks:
  "watch_run st None inputs = map_option (\<lambda>(a, ls). watch_of a ls) (spec_run st None inputs)
   \<and> (snd (snd (watch_pass st (watch_run st None inputs) input))
        = (word_of (fst (watch_pass st (watch_run st None inputs) input)) \<noteq> word_of (watch_run st None inputs)))"
  using watch_run_of [of st None inputs] by (simp add: heard_iff_word_moved)

end
