(* ===== verification/Lights_Packet.thy ===== *)
theory Lights_Packet
  imports Prelude
begin

text \<open>
  The packets of the lighting output (\<open>build_e131_data_packet\<close> in \<open>lighting_sacn_output.rs\<close>):
  ANSI E1.31 data packets of 638 bytes, written field by field into zeros, and a receiver's
  reading of one, which gives back the universe, the sequence number, whether the stream ends
  and the slots. Bytes are words of 8 bits.
\<close>

type_synonym byte = "8 word"

definition E131_PRIORITY :: byte where "E131_PRIORITY = 100"
definition E131_PACKET_LEN :: nat where "E131_PACKET_LEN = 638"
definition E131_OPTIONS_STREAM_TERMINATED :: byte where "E131_OPTIONS_STREAM_TERMINATED = 0x40"
definition SOURCE_NAME :: string where "SOURCE_NAME = ''SSE ExEd Studio Control''"
definition SOURCE_CID :: "byte list" where
  "SOURCE_CID = [0xa3, 0x7d, 0x5e, 0x21, 0x9b, 0x04, 0x4a, 0x6f, 0x8c, 0x2e, 0xd1, 0x57, 0x33, 0x90, 0x41, 0xbe]"

definition ascii_bytes :: "string \<Rightarrow> byte list" where
  "ascii_bytes s = map (\<lambda>c. of_nat (of_char c)) s"

text \<open>\<open>to_be_bytes\<close> of a \<open>u16\<close> and of a \<open>u32\<close>\<close>

definition be16 :: "16 word \<Rightarrow> byte list" where
  "be16 w = [ucast (drop_bit 8 w), ucast w]"

definition be32 :: "32 word \<Rightarrow> byte list" where
  "be32 w = [ucast (drop_bit 24 w), ucast (drop_bit 16 w), ucast (drop_bit 8 w), ucast w]"

definition flags_and_length :: "nat \<Rightarrow> byte list" where
  "flags_and_length pdu_length = be16 (or 0x7000 (and (of_nat pdu_length) 0x0FFF))"

text \<open>\<open>packet[at..at + bytes.len()].copy_from_slice(bytes)\<close>\<close>

definition put_at :: "nat \<times> byte list \<Rightarrow> byte list \<Rightarrow> byte list" where
  "put_at w p = take (fst w) p @ snd w @ drop (fst w + length (snd w)) p"

definition e131_fields :: "16 word \<Rightarrow> byte \<Rightarrow> bool \<Rightarrow> byte list \<Rightarrow> (nat \<times> byte list) list" where
  "e131_fields universe sequence stream_terminated slots =
     [(0, be16 0x0010),
      (2, be16 0x0000),
      (4, ascii_bytes ''ASC-E1.17'' @ [0, 0, 0]),
      (16, flags_and_length (E131_PACKET_LEN - 16)),
      (18, be32 0x00000004),
      (22, SOURCE_CID),
      (38, flags_and_length (E131_PACKET_LEN - 38)),
      (40, be32 0x00000002),
      (44, ascii_bytes SOURCE_NAME),
      (108, [E131_PRIORITY]),
      (109, be16 0x0000),
      (111, [sequence]),
      (112, [if stream_terminated then E131_OPTIONS_STREAM_TERMINATED else 0x00]),
      (113, be16 universe),
      (115, flags_and_length (E131_PACKET_LEN - 115)),
      (117, [0x02]),
      (118, [0xA1]),
      (119, be16 0x0000),
      (121, be16 0x0001),
      (123, be16 513),
      (125, [0x00]),
      (126, slots)]"

definition build_e131_data_packet :: "16 word \<Rightarrow> byte \<Rightarrow> bool \<Rightarrow> byte list \<Rightarrow> byte list" where
  "build_e131_data_packet universe sequence stream_terminated slots =
     fold put_at (e131_fields universe sequence stream_terminated slots) (replicate E131_PACKET_LEN 0)"

section \<open>Fields laid out in order\<close>

fun laid_out :: "nat \<Rightarrow> nat \<Rightarrow> (nat \<times> byte list) list \<Rightarrow> byte list" where
  "laid_out n pos [] = replicate (n - pos) 0"
| "laid_out n pos ((p, bs) # ws) = replicate (p - pos) 0 @ bs @ laid_out n (p + length bs) ws"

fun in_order :: "nat \<Rightarrow> nat \<Rightarrow> (nat \<times> byte list) list \<Rightarrow> bool" where
  "in_order n pos [] = (pos \<le> n)"
| "in_order n pos ((p, bs) # ws) = (pos \<le> p \<and> in_order n (p + length bs) ws)"

lemma in_order_le: "in_order n pos ws \<Longrightarrow> pos \<le> n"
  by (induction n pos ws rule: in_order.induct) auto

lemma fold_put_at:
  "in_order n (length pre) ws \<Longrightarrow>
     fold put_at ws (pre @ replicate (n - length pre) 0) = pre @ laid_out n (length pre) ws"
proof (induction ws arbitrary: pre)
  case Nil
  then show ?case by simp
next
  case (Cons w ws)
  obtain p bs where w: "w = (p, bs)" by fastforce
  from Cons.prems w have o: "length pre \<le> p" "in_order n (p + length bs) ws" by auto
  from in_order_le [OF o(2)] have n: "p + length bs \<le> n" .
  let ?pre = "pre @ replicate (p - length pre) 0 @ bs"
  have "put_at w (pre @ replicate (n - length pre) 0) = ?pre @ replicate (n - length ?pre) 0"
    using o(1) n w by (simp add: put_at_def min_def)
  moreover have "length ?pre = p + length bs" using o(1) by simp
  ultimately show ?case using Cons.IH [of ?pre] o w by simp
qed

lemma packet_laid_out:
  assumes "length slots = 512"
  shows "build_e131_data_packet u q t slots = laid_out E131_PACKET_LEN 0 (e131_fields u q t slots)"
proof -
  have "in_order E131_PACKET_LEN 0 (e131_fields u q t slots)"
    using assms by (simp add: e131_fields_def be16_def be32_def flags_and_length_def ascii_bytes_def
        SOURCE_CID_def SOURCE_NAME_def E131_PACKET_LEN_def)
  from fold_put_at [of _ "[]", simplified, OF this] show ?thesis by (simp add: build_e131_data_packet_def)
qed

section \<open>A receiver\<close>

definition from_be16 :: "byte list \<Rightarrow> 16 word" where
  "from_be16 bs = or (push_bit 8 (ucast (bs ! 0))) (ucast (bs ! 1))"

definition slice :: "nat \<Rightarrow> nat \<Rightarrow> byte list \<Rightarrow> byte list" where
  "slice i n p = take n (drop i p)"

record e131_data =
  e131_universe :: "16 word"
  e131_sequence :: byte
  e131_terminated :: bool
  e131_slots :: "byte list"

text \<open>
  What E1.31 requires of a data packet: the ACN identifier, the three vectors, each layer's length
  to the packet's end, one address increment over 513 values, and the null start code.
\<close>

definition receive_e131 :: "byte list \<Rightarrow> e131_data option" where
  "receive_e131 p =
     (if length p = 638 \<and> slice 0 4 p = [0x00, 0x10, 0x00, 0x00]
         \<and> slice 4 12 p = [0x41, 0x53, 0x43, 0x2d, 0x45, 0x31, 0x2e, 0x31, 0x37, 0, 0, 0]
         \<and> slice 16 6 p = [0x72, 0x6E, 0, 0, 0, 4]
         \<and> slice 38 6 p = [0x72, 0x58, 0, 0, 0, 2]
         \<and> slice 115 11 p = [0x72, 0x0B, 0x02, 0xA1, 0, 0, 0, 1, 0x02, 0x01, 0]
      then Some \<lparr>e131_universe = from_be16 (slice 113 2 p), e131_sequence = p ! 111,
                 e131_terminated = (and (p ! 112) 0x40 \<noteq> 0), e131_slots = slice 126 512 p\<rparr>
      else None)"

lemma from_be16_be16: "from_be16 (be16 w) = w"
  unfolding from_be16_def be16_def
  by (rule bit_word_eqI) (auto simp: bit_simps)

lemma packet_bytes:
  assumes "length slots = 512"
  shows "build_e131_data_packet u q t slots =
    [0x00, 0x10, 0x00, 0x00, 0x41, 0x53, 0x43, 0x2d, 0x45, 0x31, 0x2e, 0x31, 0x37, 0, 0, 0,
     0x72, 0x6E, 0, 0, 0, 4] @ SOURCE_CID @ [0x72, 0x58, 0, 0, 0, 2] @ ascii_bytes SOURCE_NAME @ replicate 41 0
     @ [100, 0, 0, q, if t then 0x40 else 0] @ be16 u @ [0x72, 0x0B, 0x02, 0xA1, 0, 0, 0, 1, 0x02, 0x01, 0] @ slots"
  unfolding packet_laid_out [OF assms] e131_fields_def E131_PACKET_LEN_def
  using assms
  by (simp add: be32_def be16_def [of "_ :: 16 word"] flags_and_length_def ascii_bytes_def SOURCE_CID_def SOURCE_NAME_def
      E131_PRIORITY_def E131_OPTIONS_STREAM_TERMINATED_def)

lemma packet_received_as_sent':
  assumes "length slots = 512"
  shows "receive_e131 (build_e131_data_packet u q t slots)
     = Some \<lparr>e131_universe = u, e131_sequence = q, e131_terminated = t, e131_slots = slots\<rparr>"
proof -
  have "length (ascii_bytes SOURCE_NAME) = 23" "length SOURCE_CID = 16" "length (be16 u) = 2"
    by (simp_all add: ascii_bytes_def SOURCE_NAME_def SOURCE_CID_def be16_def)
  then show ?thesis
    unfolding packet_bytes [OF assms] receive_e131_def slice_def
    using assms from_be16_be16 [of u] by (simp add: nth_append nth_Cons')
qed

text \<open>
  C15. A receiver reads from every packet the universe, the sequence number, whether the stream
  ends, and all 512 slots as they were given; and the packet is E1.31's 638 bytes.
\<close>

theorem packet_received_as_sent:
  assumes "length slots = 512"
  shows "receive_e131 (build_e131_data_packet u q t slots)
     = Some \<lparr>e131_universe = u, e131_sequence = q, e131_terminated = t, e131_slots = slots\<rparr>"
  by (rule packet_received_as_sent' [OF assms])

theorem packet_received_as_sent_witness:
  "receive_e131 (build_e131_data_packet 63999 7 True (replicate 512 255))
     = Some \<lparr>e131_universe = 63999, e131_sequence = 7, e131_terminated = True, e131_slots = replicate 512 255\<rparr>"
  by (rule packet_received_as_sent) simp

end
