(* ===== verification/Lights_Sends.thy ===== *)
theory Lights_Sends
  imports Lights_Config Lights_Packet
begin

text \<open>
  How the sends to the lighting bridge go (\<open>SendTally\<close> in \<open>lighting_sacn_output.rs\<close>): what each
  packet adds, and what a tick's sends mean for the health entry and the log. A socket's error is
  its text.
\<close>

definition FAILING_LINE_EVERY :: duration where "FAILING_LINE_EVERY = from_secs 60"
definition RESUMED_AFTER :: duration where "RESUMED_AFTER = from_secs 1"

type_synonym target = "ipv4 \<times> 16 word"

definition show_target :: "target \<Rightarrow> string" where
  "show_target t = show_ipv4 (fst t) @ '':'' @ show_nat (unat (snd t))"

record send_tally =
  failing :: bool
  failed :: nat
  sent :: nat
  sent_since_failure :: nat
  last_error :: string
  tally_target :: "target option"
  last_failure_at :: "instant option"
  line_from :: "instant option"

definition no_sends :: send_tally where
  "no_sends = \<lparr>failing = False, failed = 0, sent = 0, sent_since_failure = 0, last_error = [],
     tally_target = None, last_failure_at = None, line_from = None\<rparr>"

text \<open>\<open>saturating_add(1)\<close> on a \<open>u64\<close>, and \<open>saturating_add\<close>.\<close>

definition sat_add :: "nat \<Rightarrow> nat \<Rightarrow> nat" where
  "sat_add a b = min (a + b) u64_max"

datatype send_report = Failing string string | StillFailing string | Resumed string

definition tally_sent :: "send_tally \<Rightarrow> send_tally" where
  "tally_sent t = t\<lparr>sent := sat_add (sent t) 1, sent_since_failure := sat_add (sent_since_failure t) 1\<rparr>"

definition tally_failed :: "target \<Rightarrow> string \<Rightarrow> instant \<Rightarrow> send_tally \<Rightarrow> send_tally" where
  "tally_failed tgt err now t =
     t\<lparr>failed := sat_add (failed t) 1, sent_since_failure := 0, last_error := err,
       tally_target := Some tgt, last_failure_at := Some now\<rparr>"

definition tally_report :: "instant \<Rightarrow> send_tally \<Rightarrow> send_tally \<times> send_report option" where
  "tally_report now t =
     (case tally_target t of
        None \<Rightarrow> (t, None)
      | Some tgt \<Rightarrow>
          if \<not> failing t then
            (if failed t = 0 then (t, None)
             else (t\<lparr>failing := True, line_from := Some now, failed := 0, sent := 0\<rparr>,
                   Some (Failing
                     (''Light output: packets to the lighting bridge at '' @ show_target tgt @ '' are not sent (''
                        @ last_error t @ ''); the rig does not follow until they are. Check the lighting network and the PC'' @ [CHR 39] @ ''s routes.'')
                     (''Lighting sACN output: '' @ show_nat (failed t) @ '' packet(s) to '' @ show_target tgt
                        @ '' could not be sent ('' @ last_error t @ '').''))))
          else
            (let quiet_for = (case last_failure_at t of Some at' \<Rightarrow> since at' now | None \<Rightarrow> 0)
             in if RESUMED_AFTER \<le> quiet_for \<and> 0 < sent_since_failure t
                then (no_sends, Some (Resumed (''Lighting sACN output: packets to '' @ show_target tgt @ '' are sent again.'')))
                else if (case line_from t of Some from \<Rightarrow> FAILING_LINE_EVERY \<le> since from now | None \<Rightarrow> False)
                then (t\<lparr>line_from := Some now, failed := 0, sent := 0\<rparr>,
                      if sat_add (failed t) (sent t) = 0 then None
                      else Some (StillFailing
                        (''Lighting sACN output: '' @ show_nat (failed t) @ '' of '' @ show_nat (sat_add (failed t) (sent t))
                           @ '' packet(s) to '' @ show_target tgt @ '' could not be sent in the last minute (''
                           @ last_error t @ '').'')))
                else (t, None)))"

definition tally_reset :: "send_tally \<Rightarrow> send_tally \<times> bool" where
  "tally_reset t = (no_sends, failing t)"

section \<open>The tally's invariant\<close>

definition tally_inv :: "send_tally \<Rightarrow> bool" where
  "tally_inv t \<longleftrightarrow> (failing t \<longrightarrow> tally_target t \<noteq> None \<and> line_from t \<noteq> None \<and> last_failure_at t \<noteq> None)
     \<and> (0 < failed t \<longrightarrow> tally_target t \<noteq> None \<and> last_failure_at t \<noteq> None)"

named_theorems tally_invs \<open>what keeps the tally's invariant\<close>

lemma tally_inv_no_sends [tally_invs]: "tally_inv no_sends"
  by (simp add: tally_inv_def no_sends_def)

lemma tally_inv_sent [tally_invs]: "tally_inv t \<Longrightarrow> tally_inv (tally_sent t)"
  by (simp add: tally_inv_def tally_sent_def)

lemma tally_inv_failed [tally_invs]: "tally_inv t \<Longrightarrow> tally_inv (tally_failed tgt err now t)"
  by (simp add: tally_inv_def tally_failed_def)

lemma tally_inv_report [tally_invs]: "tally_inv t \<Longrightarrow> tally_inv (fst (tally_report now t))"
  by (auto simp: tally_inv_def tally_report_def no_sends_def Let_def split: option.splits)

text \<open>
  The report moves the entry's word exactly as the tally's: to attention when the failing begins,
  back when it ends, and never otherwise.
\<close>

lemma report_moves_failing:
  "failing (fst (tally_report now t)) =
     (case snd (tally_report now t) of Some (Failing _ _) \<Rightarrow> True | Some (Resumed _) \<Rightarrow> False | _ \<Rightarrow> failing t)"
  by (auto simp: tally_report_def no_sends_def Let_def split: option.splits)

lemma first_failure_is_said:
  "tally_inv t \<Longrightarrow> 0 < failed t \<Longrightarrow> \<not> failing t \<Longrightarrow> \<exists>d l. snd (tally_report now t) = Some (Failing d l)"
  by (auto simp: tally_inv_def tally_report_def)

end
