(* ===== verification/Lights_Output.thy ===== *)
theory Lights_Output
  imports Lights_Sends "HOL-Library.AList"
begin

text \<open>
  The sACN lighting output (\<open>lighting_sacn_output.rs\<close>): what it keeps from tick to tick, and the
  tick. What the renderer gives for a tick is an input; so are the wire's answers, one for each
  packet in the order they are put on it, and the clock's readings inside the tick. The field
  \<open>out\<close> gathers what the output does: packets, log lines and the words of its health entry.
\<close>

section \<open>What the output keeps\<close>

definition SACN_PORT :: "16 word" where "SACN_PORT = 5568"
definition KEEPALIVE_INTERVAL :: duration where "KEEPALIVE_INTERVAL = from_millis 800"
definition SETTINGS_SAFETY_REREAD :: duration where "SETTINGS_SAFETY_REREAD = from_secs 2"
definition STREAM_TERMINATED_SENDS :: nat where "STREAM_TERMINATED_SENDS = 3"

definition SOCKET_READY_DETAIL :: string where
  "SOCKET_READY_DETAIL = ''Light output socket ready (sACN over UDP)''"
definition HELD_DETAIL :: string where
  "HELD_DETAIL = ''Light outputs held: nothing is sent to the rig until they are armed in Setup / Support''"
definition SIMULATED_DETAIL :: string where
  "SIMULATED_DETAIL = ''Lights simulated: nothing is sent to the rig (SSE_LIGHTS_SIMULATED)''"

record universe_tx =
  sequence :: byte
  last_slots :: "byte list"
  last_sent_at :: instant

record universe_frame =
  universe :: "16 word"
  slots :: "byte list"

record output_state =
  state_bridge :: ipv4
  frames :: "universe_frame list"

datatype state_word = Ok | Attention
datatype level = INFO | WARN | ERROR

datatype event =
    Packet target "byte list" bool
  | LogLine level string
  | Entry state_word string
  | AppChanged

text \<open>The universes on the wire, in the order the map gives them; no theorem rests on that order.\<close>

record sacn_output =
  port :: "16 word"
  active_bridge :: "ipv4 option"
  universes :: "(16 word \<times> universe_tx) list"
  held :: bool
  simulated :: bool
  sends :: send_tally
  refused_said :: "string option"
  attempts :: nat
  out :: "event list"

definition output_new :: "16 word \<Rightarrow> sacn_output" where
  "output_new p = \<lparr>port = p, active_bridge = None, universes = [], held = False, simulated = False,
     sends = no_sends, refused_said = None, attempts = 0, out = []\<rparr>"

definition say :: "event \<Rightarrow> sacn_output \<Rightarrow> sacn_output" where
  "say e s = s\<lparr>out := out s @ [e]\<rparr>"

definition detail :: "sacn_output \<Rightarrow> string" where
  "detail s = (if held s then HELD_DETAIL else if simulated s then SIMULATED_DETAIL else SOCKET_READY_DETAIL)"

section \<open>Packets\<close>

text \<open>\<open>wire k\<close> is the error of the \<open>k\<close>th packet put on the wire, \<open>None\<close> where it went.\<close>

type_synonym wire = "nat \<Rightarrow> string option"

definition send_packet :: "wire \<Rightarrow> byte list \<Rightarrow> target \<Rightarrow> instant \<Rightarrow> sacn_output \<Rightarrow> sacn_output \<times> bool" where
  "send_packet wire packet tgt now s =
     (if simulated s then (s, True)
      else (let s1 = s\<lparr>attempts := attempts s + 1\<rparr>
            in case wire (attempts s) of
                 None \<Rightarrow> (say (Packet tgt packet True) (s1\<lparr>sends := tally_sent (sends s1)\<rparr>), True)
               | Some err \<Rightarrow> (say (Packet tgt packet False) (s1\<lparr>sends := tally_failed tgt err now (sends s1)\<rparr>), False)))"

definition send_frame :: "wire \<Rightarrow> ipv4 \<Rightarrow> universe_frame \<Rightarrow> instant \<Rightarrow> sacn_output \<Rightarrow> sacn_output" where
  "send_frame wire bridge frame now s =
     (let entry = (case map_of (universes s) (universe frame) of
                     Some e \<Rightarrow> e
                   | None \<Rightarrow> \<lparr>sequence = 0, last_slots = replicate 512 0,
                              last_sent_at = (if KEEPALIVE_INTERVAL \<le> now then now - KEEPALIVE_INTERVAL else now)\<rparr>);
          s1 = s\<lparr>universes := AList.update (universe frame) entry (universes s)\<rparr>;
          changed = (last_slots entry \<noteq> slots frame);
          keep_alive = (KEEPALIVE_INTERVAL \<le> since (last_sent_at entry) now)
      in if \<not> (changed \<or> keep_alive) then s1
         else (case send_packet wire (build_e131_data_packet (universe frame) (sequence entry) False (slots frame))
                      (bridge, port s1) now s1 of
                 (s2, went) \<Rightarrow>
                   if went
                   then s2\<lparr>universes := AList.update (universe frame)
                            \<lparr>sequence = sequence entry + 1, last_slots = slots frame, last_sent_at = now\<rparr> (universes s2)\<rparr>
                   else s2))"

fun send_frames :: "wire \<Rightarrow> ipv4 \<Rightarrow> universe_frame list \<Rightarrow> (nat \<Rightarrow> instant) \<Rightarrow> nat \<Rightarrow> sacn_output \<Rightarrow> sacn_output" where
  "send_frames wire bridge [] clock k s = s"
| "send_frames wire bridge (f # fs) clock k s =
     send_frames wire bridge fs clock (Suc k) (send_frame wire bridge f (clock k) s)"

fun terminate_sends :: "nat \<Rightarrow> wire \<Rightarrow> target \<Rightarrow> 16 word \<Rightarrow> byte \<Rightarrow> byte list \<Rightarrow> instant \<Rightarrow> sacn_output \<Rightarrow> sacn_output" where
  "terminate_sends 0 wire tgt u q sl now s = s"
| "terminate_sends (Suc n) wire tgt u q sl now s =
     terminate_sends n wire tgt u (q + 1) sl now
       (fst (send_packet wire (build_e131_data_packet u q True sl) tgt now s))"

fun terminate_universes :: "wire \<Rightarrow> ipv4 \<Rightarrow> 16 word list \<Rightarrow> instant \<Rightarrow> sacn_output \<Rightarrow> sacn_output" where
  "terminate_universes wire bridge [] now s = s"
| "terminate_universes wire bridge (u # us) now s =
     (case map_of (universes s) u of
        None \<Rightarrow> terminate_universes wire bridge us now s
      | Some entry \<Rightarrow>
          terminate_universes wire bridge us now
            (terminate_sends STREAM_TERMINATED_SENDS wire (bridge, port s) u (sequence entry) (last_slots entry) now
               (s\<lparr>universes := AList.delete u (universes s)\<rparr>)))"

section \<open>What the sends mean for the entry\<close>

definition forget_sends :: "string \<Rightarrow> sacn_output \<Rightarrow> sacn_output" where
  "forget_sends why s =
     (case tally_reset (sends s) of
        (t, was_failing) \<Rightarrow>
          (let s1 = s\<lparr>sends := t\<rparr>
           in if was_failing
              then say (LogLine INFO (''Lighting sACN output: '' @ why
                     @ '' while its packets could not be sent; the entry reads the output'' @ [CHR 39] @ ''s own state again.''))
                   (say (Entry Ok (detail s1)) s1)
              else s1))"

definition settle_sends :: "instant \<Rightarrow> sacn_output \<Rightarrow> sacn_output" where
  "settle_sends now s =
     (if active_bridge s = None then forget_sends ''the stream ended'' s
      else (case tally_report now (sends s) of
              (t, r) \<Rightarrow>
                (let s1 = s\<lparr>sends := t\<rparr>
                 in case r of
                      Some (Failing d l) \<Rightarrow> say (Entry Attention d) (say (LogLine ERROR l) s1)
                    | Some (StillFailing l) \<Rightarrow> say (LogLine WARN l) s1
                    | Some (Resumed l) \<Rightarrow> say (Entry Ok (detail s1)) (say (LogLine INFO l) s1)
                    | None \<Rightarrow> s1)))"

definition say_refused_bridge :: "settings \<Rightarrow> sacn_output \<Rightarrow> sacn_output" where
  "say_refused_bridge settings s =
     (let refused = lighting_bridge_refused_at_wire settings
      in if refused = refused_said s then s
         else (let s1 = (case refused of
                           Some a \<Rightarrow> say (LogLine WARN (''Lighting sACN output: the bridge address '' @ a
                             @ '' is no machine'' @ [CHR 39] @ ''s (0.0.0.0, a broadcast or a multicast address) and nothing is streamed to it. Enter the bridge''
                             @ [CHR 39] @ ''s own address in Setup.'')) s
                         | None \<Rightarrow> s)
               in s1\<lparr>refused_said := refused\<rparr>))"

section \<open>A tick\<close>

text \<open>
  \<open>clock 0\<close> is read where the old bridge's stream ends, \<open>clock 1\<close> where stale universes end, then
  one for each frame, then one to settle.
\<close>

definition hold_word :: "settings \<Rightarrow> sacn_output \<Rightarrow> sacn_output" where
  "hold_word settings s =
     (let h = (\<not> lighting_output_armed settings)
      in if h = held s then s
         else (let s1 = s\<lparr>held := h\<rparr>
               in say (LogLine INFO (if h then ''Light outputs held: the sACN output sends nothing until they are armed.''
                                     else ''Light outputs armed: the sACN output follows the lighting state.''))
                    (say AppChanged (say (Entry Ok (detail s1)) s1))))"

definition move_bridge :: "wire \<Rightarrow> output_state \<Rightarrow> instant \<Rightarrow> sacn_output \<Rightarrow> sacn_output" where
  "move_bridge wire st now s =
     (if active_bridge s = Some (state_bridge st) then s
      else (let s1 = (case active_bridge s of
                        None \<Rightarrow> s
                      | Some previous \<Rightarrow>
                          forget_sends ''the stream moved to another bridge''
                            (terminate_universes wire previous (map fst (universes s)) now s))
            in say (LogLine INFO (''Lighting sACN output active: streaming '' @ show_nat (length (frames st))
                      @ '' universe(s) to '' @ show_ipv4 (state_bridge st) @ '':'' @ show_nat (unat (port s1)) @ ''.''))
                 (s1\<lparr>active_bridge := Some (state_bridge st)\<rparr>)))"

definition stream :: "wire \<Rightarrow> output_state \<Rightarrow> (nat \<Rightarrow> instant) \<Rightarrow> sacn_output \<Rightarrow> sacn_output" where
  "stream wire st clock s =
     (let s1 = move_bridge wire st (clock 0) s;
          current = map universe (frames st);
          stale = filter (\<lambda>u. u \<notin> set current) (map fst (universes s1));
          s2 = (if stale \<noteq> [] then terminate_universes wire (state_bridge st) stale (clock 1) s1 else s1)
      in send_frames wire (state_bridge st) (frames st) clock 2 s2)"

definition go_idle :: "wire \<Rightarrow> instant \<Rightarrow> sacn_output \<Rightarrow> sacn_output" where
  "go_idle wire now s =
     (case active_bridge s of
        None \<Rightarrow> s
      | Some previous \<Rightarrow>
          say (LogLine INFO ''Lighting sACN output idle: stream terminated; fixtures hold last levels.'')
            (terminate_universes wire previous (map fst (universes s)) now (s\<lparr>active_bridge := None\<rparr>)))"

definition tick :: "wire \<Rightarrow> settings \<Rightarrow> output_state option \<Rightarrow> (nat \<Rightarrow> instant) \<Rightarrow> sacn_output \<Rightarrow> sacn_output" where
  "tick wire settings rendered clock s =
     (let s1 = say_refused_bridge settings (hold_word settings s);
          st = (if \<not> lighting_output_armed settings then None else rendered)
      in case st of
           Some st' \<Rightarrow> settle_sends (clock (2 + length (frames st'))) (stream wire st' clock s1)
         | None \<Rightarrow> settle_sends (clock 1) (go_idle wire (clock 0) s1))"

text \<open>The start of the thread, its socket bound: \<open>armed\<close> is the flag read, \<open>None\<close> where it could not be.\<close>

definition output_start :: "bool \<Rightarrow> settings option \<Rightarrow> sacn_output" where
  "output_start sim first =
     (let s0 = output_new SACN_PORT;
          s1 = s0\<lparr>simulated := sim, held := (case first of Some settings \<Rightarrow> \<not> lighting_output_armed settings | None \<Rightarrow> False)\<rparr>;
          s2 = say (Entry Ok (detail s1)) s1;
          s3 = (if simulated s2 then say (LogLine INFO
                  ''Lights simulated (SSE_LIGHTS_SIMULATED): the sACN output puts nothing on the wire, armed or held.'') s2 else s2)
      in if held s3 then say (LogLine INFO
           ''Light outputs held at start: the sACN output sends nothing until they are armed.'') s3 else s3)"

section \<open>The thread's pass\<close>

record 'i render_cache =
  input :: "'i option"
  generation :: "nat option"
  read_at :: "instant option"

text \<open>\<open>read\<close> is what a read of the settings gives, already parsed; it counts only when due.\<close>

definition input_for_tick :: "nat \<Rightarrow> instant \<Rightarrow> 'i option \<Rightarrow> 'i render_cache \<Rightarrow> 'i render_cache \<times> 'i option" where
  "input_for_tick gen now read c =
     (let due = (case (generation c, read_at c) of
                   (Some seen, Some r) \<Rightarrow> seen \<noteq> gen \<or> SETTINGS_SAFETY_REREAD \<le> since r now
                 | _ \<Rightarrow> True);
          c' = (if due then (case read of
                               Some i \<Rightarrow> \<lparr>input = Some i, generation = Some gen, read_at = Some now\<rparr>
                             | None \<Rightarrow> c)
                else c)
      in (c', input c'))"

section \<open>What the rig holds\<close>

text \<open>
  A receiver keeps, for each source address and universe, the slots of the last data packet it
  read, and lets go of them at a packet that ends the stream.
\<close>

type_synonym rig = "ipv4 \<times> 16 word \<Rightarrow> byte list option"

fun rig_step :: "event \<Rightarrow> rig \<Rightarrow> rig" where
  "rig_step (Packet tgt bytes True) r =
     (case receive_e131 bytes of
        None \<Rightarrow> r
      | Some d \<Rightarrow> r((fst tgt, e131_universe d) := (if e131_terminated d then None else Some (e131_slots d))))"
| "rig_step _ r = r"

definition rig_of :: "event list \<Rightarrow> rig" where
  "rig_of es = fold rig_step es Map.empty"

definition view :: "ipv4 \<Rightarrow> (16 word \<times> universe_tx) list \<Rightarrow> rig" where
  "view b us = (\<lambda>(c, u). if c = b then map_option last_slots (map_of us u) else None)"

fun no_packet :: "event \<Rightarrow> bool" where
  "no_packet (Packet _ _ _) = False"
| "no_packet _ = True"

lemma rig_of_append [simp]: "rig_of (es @ [e]) = rig_step e (rig_of es)"
  by (simp add: rig_of_def)

lemma rig_step_no_packet [simp]: "no_packet e \<Longrightarrow> rig_step e r = r"
  by (cases e) auto

definition same_stream :: "sacn_output \<Rightarrow> sacn_output \<Rightarrow> bool" where
  "same_stream s s' \<longleftrightarrow> universes s' = universes s \<and> active_bridge s' = active_bridge s
     \<and> simulated s' = simulated s \<and> port s' = port s \<and> rig_of (out s') = rig_of (out s)"

named_theorems streams \<open>what leaves the stream as it is\<close>

lemma same_stream_refl: "same_stream s s"
  by (simp add: same_stream_def)

lemma same_stream_trans [trans]: "same_stream s s' \<Longrightarrow> same_stream s' s'' \<Longrightarrow> same_stream s s''"
  by (simp add: same_stream_def)

lemma same_stream_say [streams]: "no_packet e \<Longrightarrow> same_stream s s' \<Longrightarrow> same_stream s (say e s')"
  by (simp add: same_stream_def say_def)

lemma same_stream_fields [streams]:
  "same_stream s s' \<Longrightarrow> same_stream s (s'\<lparr>sends := t\<rparr>)"
  "same_stream s s' \<Longrightarrow> same_stream s (s'\<lparr>held := h\<rparr>)"
  "same_stream s s' \<Longrightarrow> same_stream s (s'\<lparr>refused_said := r\<rparr>)"
  by (simp_all add: same_stream_def)

lemma same_stream_forget: "same_stream s (forget_sends why s)"
  by (auto simp: forget_sends_def tally_reset_def Let_def intro!: streams same_stream_refl)

lemma same_stream_settle: "same_stream s (settle_sends now s)"
  by (auto simp: settle_sends_def Let_def intro!: streams same_stream_refl same_stream_forget
      split: prod.split option.split send_report.split)

lemma same_stream_refused: "same_stream s (say_refused_bridge settings s)"
  by (auto simp: say_refused_bridge_def Let_def intro!: streams same_stream_refl split: option.split)

lemma same_stream_hold: "same_stream s (hold_word settings s)"
  by (auto simp: hold_word_def Let_def intro!: streams same_stream_refl)

section \<open>Packets reach the rig\<close>

definition slots_ok :: "(16 word \<times> universe_tx) list \<Rightarrow> bool" where
  "slots_ok us \<longleftrightarrow> (\<forall>(u, e) \<in> set us. length (last_slots e) = 512)"

lemma slots_ok_update: "slots_ok us \<Longrightarrow> length (last_slots e) = 512 \<Longrightarrow> slots_ok (AList.update u e us)"
  unfolding slots_ok_def by (induction us) (auto split: if_splits)

lemma slots_ok_delete: "slots_ok us \<Longrightarrow> slots_ok (AList.delete u us)"
  unfolding slots_ok_def AList.delete_eq by auto

lemma slots_ok_get: "slots_ok us \<Longrightarrow> map_of us u = Some e \<Longrightarrow> length (last_slots e) = 512"
  unfolding slots_ok_def by (blast dest: map_of_SomeD)

lemma send_packet_went:
  assumes "\<forall>k. wire k = None" "\<not> simulated s"
  shows "send_packet wire p tgt now s =
     (s\<lparr>attempts := attempts s + 1, sends := tally_sent (sends s), out := out s @ [Packet tgt p True]\<rparr>, True)"
  using assms by (simp add: send_packet_def Let_def say_def)

lemma terminate_sends_rig:
  assumes "\<forall>k. wire k = None" "\<not> simulated s" "length sl = 512"
  shows "(terminate_sends n wire (b, p) u q sl now s) = s\<lparr>attempts := attempts (terminate_sends n wire (b, p) u q sl now s),
      sends := sends (terminate_sends n wire (b, p) u q sl now s), out := out (terminate_sends n wire (b, p) u q sl now s)\<rparr>
    \<and> rig_of (out (terminate_sends n wire (b, p) u q sl now s)) =
      (if n = 0 then rig_of (out s) else (rig_of (out s))((b, u) := None))"
  using assms(2)
proof (induction n arbitrary: q s)
  case 0
  then show ?case by simp
next
  case (Suc n)
  let ?s = "s\<lparr>attempts := attempts s + 1, sends := tally_sent (sends s),
      out := out s @ [Packet (b, p) (build_e131_data_packet u q True sl) True]\<rparr>"
  have step: "terminate_sends (Suc n) wire (b, p) u q sl now s = terminate_sends n wire (b, p) u (q + 1) sl now ?s"
    by (simp add: send_packet_went [OF assms(1) Suc.prems])
  have "\<not> simulated ?s" using Suc.prems by simp
  note ih = Suc.IH [OF this, of "q + 1"]
  have "rig_of (out ?s) = (rig_of (out s))((b, u) := None)"
    by (simp add: packet_received_as_sent' [OF assms(3)])
  with ih show ?case unfolding step by (cases n) (simp_all add: fun_upd_def fun_eq_iff)
qed

section \<open>The stream is what the rig holds\<close>

definition on_rig :: "ipv4 \<Rightarrow> sacn_output \<Rightarrow> bool" where
  "on_rig b s \<longleftrightarrow> \<not> simulated s \<and> slots_ok (universes s) \<and> distinct (map fst (universes s))
     \<and> rig_of (out s) = view b (universes s)"

lemma view_delete: "(view b us)((b, u) := None) = view b (AList.delete u us)"
  by (auto simp: view_def fun_eq_iff AList.delete_conv')

lemma view_update: "(view b us)((b, u) \<mapsto> last_slots e) = view b (AList.update u e us)"
  by (auto simp: view_def fun_eq_iff AList.update_conv')

lemma on_rig_same: "same_stream s s' \<Longrightarrow> on_rig b s \<Longrightarrow> on_rig b s'"
  by (simp add: same_stream_def on_rig_def)

lemma terminate_one:
  fixes now :: instant
  assumes w: "\<forall>k. wire k = None" and g: "on_rig b s" and e: "map_of (universes s) u = Some e"
  defines "s' \<equiv> terminate_sends STREAM_TERMINATED_SENDS wire (b, port s) u (sequence e) (last_slots e) now
      (s\<lparr>universes := AList.delete u (universes s)\<rparr>)"
  shows "on_rig b s' \<and> universes s' = AList.delete u (universes s) \<and> active_bridge s' = active_bridge s \<and> port s' = port s"
proof -
  let ?s = "s\<lparr>universes := AList.delete u (universes s)\<rparr>"
  from g have g': "\<not> simulated s" "slots_ok (universes s)" "distinct (map fst (universes s))"
    "rig_of (out s) = view b (universes s)" by (auto simp: on_rig_def)
  have "\<not> simulated ?s" using g'(1) by simp
  note t = terminate_sends_rig [OF w this slots_ok_get [OF g'(2) e], of STREAM_TERMINATED_SENDS b "port s" u "sequence e" now,
      folded s'_def]
  have fields: "universes s' = AList.delete u (universes s)" "active_bridge s' = active_bridge s" "port s' = port s"
    "\<not> simulated s'" using g'(1) by (subst conjunct1 [OF t]; simp)+
  have "rig_of (out s') = (rig_of (out s))((b, u) := None)"
    using conjunct2 [OF t] by (simp add: STREAM_TERMINATED_SENDS_def)
  then have "rig_of (out s') = view b (universes s')" unfolding g'(4) fields(1) view_delete .
  with fields slots_ok_delete [OF g'(2)] g'(3) show ?thesis
    by (simp add: on_rig_def distinct_delete)
qed

lemma terminate_universes_rig:
  assumes "\<forall>k. wire k = None" and "on_rig b s"
  shows "on_rig b (terminate_universes wire b us now s)
     \<and> active_bridge (terminate_universes wire b us now s) = active_bridge s
     \<and> port (terminate_universes wire b us now s) = port s
     \<and> (\<forall>u. map_of (universes (terminate_universes wire b us now s)) u =
           (if u \<in> set us then None else map_of (universes s) u))"
  using assms(2)
proof (induction us arbitrary: s)
  case Nil
  then show ?case by simp
next
  case (Cons u us)
  show ?case
  proof (cases "map_of (universes s) u")
    case None
    with Cons show ?thesis by auto
  next
    case (Some e)
    let ?s = "terminate_sends STREAM_TERMINATED_SENDS wire (b, port s) u (sequence e) (last_slots e) now
      (s\<lparr>universes := AList.delete u (universes s)\<rparr>)"
    note one = terminate_one [OF assms(1) Cons.prems Some, of now]
    then have "on_rig b ?s" by blast
    from Cons.IH [OF this] one Some show ?thesis by (auto simp: AList.delete_conv')
  qed
qed

lemma terminate_all:
  assumes "\<forall>k. wire k = None" and "on_rig b s"
  shows "universes (terminate_universes wire b (map fst (universes s)) now s) = []"
proof -
  have "map_of (universes (terminate_universes wire b (map fst (universes s)) now s)) = Map.empty"
    using terminate_universes_rig [OF assms, of "map fst (universes s)" now]
    by (auto simp: fun_eq_iff map_of_eq_None_iff)
  then show ?thesis by simp
qed

lemma send_frame_rig:
  assumes w: "\<forall>k. wire k = None" and g: "on_rig b s" and now: "KEEPALIVE_INTERVAL \<le> now"
    and sl: "length (slots f) = 512"
  shows "on_rig b (send_frame wire b f now s)
     \<and> active_bridge (send_frame wire b f now s) = active_bridge s
     \<and> (\<forall>u. map_option last_slots (map_of (universes (send_frame wire b f now s)) u) =
           (if u = universe f then Some (slots f) else map_option last_slots (map_of (universes s) u)))"
proof -
  from g have g': "\<not> simulated s" "slots_ok (universes s)" "distinct (map fst (universes s))"
    "rig_of (out s) = view b (universes s)" by (auto simp: on_rig_def)
  define entry where "entry = (case map_of (universes s) (universe f) of
      Some e \<Rightarrow> e
    | None \<Rightarrow> \<lparr>sequence = 0, last_slots = replicate 512 0,
        last_sent_at = (if KEEPALIVE_INTERVAL \<le> now then now - KEEPALIVE_INTERVAL else now)\<rparr>)"
  have len: "length (last_slots entry) = 512"
    using slots_ok_get [OF g'(2)] by (auto simp: entry_def split: option.split)
  define s1 where "s1 = s\<lparr>universes := AList.update (universe f) entry (universes s)\<rparr>"
  define due where "due \<longleftrightarrow> last_slots entry \<noteq> slots f \<or> KEEPALIVE_INTERVAL \<le> since (last_sent_at entry) now"
  have sf: "send_frame wire b f now s =
     (if \<not> due then s1
      else (case send_packet wire (build_e131_data_packet (universe f) (sequence entry) False (slots f)) (b, port s1) now s1 of
              (s2, went) \<Rightarrow>
                if went then s2\<lparr>universes := AList.update (universe f)
                  \<lparr>sequence = sequence entry + 1, last_slots = slots f, last_sent_at = now\<rparr> (universes s2)\<rparr> else s2))"
    unfolding send_frame_def Let_def entry_def [symmetric] s1_def [symmetric] due_def ..
  show ?thesis
  proof (cases due)
    case False
    then have "\<exists>e. map_of (universes s) (universe f) = Some e"
      using now unfolding due_def by (cases "map_of (universes s) (universe f)") (auto simp: entry_def since_def)
    then have old: "map_of (universes s) (universe f) = Some entry" unfolding entry_def by auto
    have same: "map_of (universes s1) = map_of (universes s)"
      unfolding s1_def using old by (auto simp: AList.update_conv' fun_eq_iff)
    then have v: "view b (universes s1) = view b (universes s)" by (simp only: view_def)
    have "last_slots entry = slots f" using False unfolding due_def by simp
    with same old v g' len show ?thesis
      unfolding sf using False
      by (auto simp: on_rig_def s1_def slots_ok_update distinct_update)
  next
    case True
    have sim: "\<not> simulated s1" using g'(1) by (simp add: s1_def)
    let ?e = "\<lparr>sequence = sequence entry + 1, last_slots = slots f, last_sent_at = now\<rparr>"
    let ?p = "Packet (b, port s1) (build_e131_data_packet (universe f) (sequence entry) False (slots f)) True"
    have res: "send_frame wire b f now s = s1\<lparr>attempts := attempts s1 + 1, sends := tally_sent (sends s1),
        out := out s1 @ [?p], universes := AList.update (universe f) ?e (universes s1)\<rparr>"
      unfolding sf using True by (simp add: send_packet_went [OF w sim])
    have "rig_of (out s @ [?p]) = (view b (universes s))((b, universe f) \<mapsto> last_slots ?e)"
      by (simp add: packet_received_as_sent' [OF sl] g'(4))
    also have "\<dots> = view b (AList.update (universe f) ?e (universes s1))"
      unfolding s1_def view_update [symmetric] by (auto simp: view_def fun_eq_iff AList.update_conv')
    finally have "rig_of (out s @ [?p]) = view b (AList.update (universe f) ?e (universes s1))" .
    then show ?thesis
      unfolding res using g' len sl
      by (auto simp: on_rig_def s1_def slots_ok_update distinct_update AList.update_conv')
  qed
qed

lemma send_frames_rig:
  assumes w: "\<forall>k. wire k = None" and now: "\<forall>k. KEEPALIVE_INTERVAL \<le> clock k"
  shows "on_rig b s \<Longrightarrow> \<forall>f \<in> set fs. length (slots f) = 512 \<Longrightarrow> distinct (map universe fs) \<Longrightarrow>
     on_rig b (send_frames wire b fs clock k s)
     \<and> active_bridge (send_frames wire b fs clock k s) = active_bridge s
     \<and> (\<forall>u. map_option last_slots (map_of (universes (send_frames wire b fs clock k s)) u) =
           (case map_of (map (\<lambda>f. (universe f, slots f)) fs) u of
              Some sl \<Rightarrow> Some sl | None \<Rightarrow> map_option last_slots (map_of (universes s) u)))"
proof (induction fs arbitrary: k s)
  case Nil
  then show ?case by simp
next
  case (Cons f fs)
  let ?s = "send_frame wire b f (clock k) s"
  note one = send_frame_rig [OF w Cons.prems(1), of "clock k" f] now Cons.prems(2)
  then have g: "on_rig b ?s" and a: "active_bridge ?s = active_bridge s"
    and m: "map_option last_slots (map_of (universes ?s) u) =
        (if u = universe f then Some (slots f) else map_option last_slots (map_of (universes s) u))" for u
    by auto
  have "map_of (map (\<lambda>f. (universe f, slots f)) fs) (universe f) = None"
    using Cons.prems(3) by (auto simp: map_of_eq_None_iff)
  with Cons.IH [OF g, of "Suc k"] Cons.prems a show ?case
    by (auto simp: m split: option.splits)
qed

text \<open>The output between ticks: what the rig holds is the stream's, and no stream means nothing.\<close>

definition settled :: "sacn_output \<Rightarrow> bool" where
  "settled s \<longleftrightarrow> (case active_bridge s of
     Some b \<Rightarrow> on_rig b s
   | None \<Rightarrow> \<not> simulated s \<and> universes s = [] \<and> rig_of (out s) = Map.empty)"

lemma settled_same: "same_stream s s' \<Longrightarrow> settled s \<Longrightarrow> settled s'"
  by (auto simp: settled_def same_stream_def on_rig_def split: option.splits)

lemma view_nil: "view b [] = Map.empty"
  by (auto simp: view_def fun_eq_iff)

lemma nothing_on_rig:
  "universes s = [] \<Longrightarrow> on_rig b s \<longleftrightarrow> \<not> simulated s \<and> rig_of (out s) = Map.empty"
  by (simp add: on_rig_def slots_ok_def view_nil)

lemma move_bridge_rig:
  assumes w: "\<forall>k. wire k = None" and "settled s"
  shows "on_rig (state_bridge st) (move_bridge wire st now s)
     \<and> active_bridge (move_bridge wire st now s) = Some (state_bridge st)"
proof (cases "active_bridge s = Some (state_bridge st)")
  case True
  with assms(2) show ?thesis by (simp add: move_bridge_def settled_def)
next
  case False
  define s1 where "s1 = (case active_bridge s of
      None \<Rightarrow> s
    | Some previous \<Rightarrow> forget_sends ''the stream moved to another bridge''
        (terminate_universes wire previous (map fst (universes s)) now s))"
  have s1: "universes s1 = [] \<and> \<not> simulated s1 \<and> rig_of (out s1) = Map.empty"
  proof (cases "active_bridge s")
    case None
    with assms(2) show ?thesis by (simp add: s1_def settled_def)
  next
    case (Some previous)
    then have g: "on_rig previous s" using assms(2) by (simp add: settled_def)
    let ?t = "terminate_universes wire previous (map fst (universes s)) now s"
    have "universes ?t = []" by (rule terminate_all [OF w g])
    moreover from this terminate_universes_rig [OF w g, of "map fst (universes s)" now]
    have "\<not> simulated ?t \<and> rig_of (out ?t) = Map.empty" by (simp add: nothing_on_rig)
    ultimately show ?thesis
      using same_stream_forget [of ?t "''the stream moved to another bridge''"] Some
      by (simp add: s1_def same_stream_def)
  qed
  then have "on_rig (state_bridge st) (s1\<lparr>active_bridge := Some (state_bridge st)\<rparr>)" by (simp add: nothing_on_rig)
  moreover have "move_bridge wire st now s =
      say (LogLine INFO (''Lighting sACN output active: streaming '' @ show_nat (length (frames st))
        @ '' universe(s) to '' @ show_ipv4 (state_bridge st) @ '':'' @ show_nat (unat (port s1)) @ ''.''))
      (s1\<lparr>active_bridge := Some (state_bridge st)\<rparr>)"
    using False unfolding move_bridge_def Let_def s1_def [symmetric] by simp
  ultimately show ?thesis
    using on_rig_same [OF same_stream_say [OF _ same_stream_refl]] by (simp add: say_def on_rig_def)
qed

definition frames_ok :: "output_state \<Rightarrow> bool" where
  "frames_ok st \<longleftrightarrow> distinct (map universe (frames st)) \<and> (\<forall>f \<in> set (frames st). length (slots f) = 512)"

text \<open>What a state asks the rig to hold.\<close>

definition rig_for :: "output_state option \<Rightarrow> rig" where
  "rig_for so = (\<lambda>(c, u). case so of
     None \<Rightarrow> None
   | Some st \<Rightarrow> if c = state_bridge st then map_of (map (\<lambda>f. (universe f, slots f)) (frames st)) u else None)"

lemma stream_rig:
  assumes w: "\<forall>k. wire k = None" and now: "\<forall>k. KEEPALIVE_INTERVAL \<le> clock k" and "settled s" and f: "frames_ok st"
  shows "settled (stream wire st clock s) \<and> rig_of (out (stream wire st clock s)) = rig_for (Some st)"
proof -
  let ?b = "state_bridge st" and ?cur = "map universe (frames st)"
  let ?of = "\<lambda>u. map_of (map (\<lambda>f. (universe f, slots f)) (frames st)) u"
  define s1 where "s1 = move_bridge wire st (clock 0) s"
  define stale where "stale = filter (\<lambda>u. u \<notin> set ?cur) (map fst (universes s1))"
  define s2 where "s2 = (if stale \<noteq> [] then terminate_universes wire ?b stale (clock 1) s1 else s1)"
  have s1: "on_rig ?b s1" "active_bridge s1 = Some ?b" using move_bridge_rig [OF w assms(3)] unfolding s1_def by auto
  have s2: "on_rig ?b s2" "active_bridge s2 = Some ?b"
    and left: "map_of (universes s2) u = (if u \<in> set stale then None else map_of (universes s1) u)" for u
    using terminate_universes_rig [OF w s1(1), of stale "clock 1"] s1(1,2) unfolding s2_def by auto
  have gone: "map_of (universes s2) u = None" if "?of u = None" for u
  proof -
    from that have u: "u \<notin> set ?cur" by (simp add: map_of_eq_None_iff image_image)
    show ?thesis
    proof (cases "map_of (universes s1) u")
      case None
      with left show ?thesis by simp
    next
      case (Some e)
      then have "u \<in> set stale" using u map_of_SomeD [OF Some] unfolding stale_def by (auto simp: rev_image_eqI)
      with left show ?thesis by simp
    qed
  qed
  have res: "stream wire st clock s = send_frames wire ?b (frames st) clock 2 s2"
    unfolding stream_def Let_def s1_def [symmetric] stale_def [symmetric] s2_def [symmetric] ..
  note fs = send_frames_rig [OF w now s2(1), of "frames st" 2] f
  then have g: "on_rig ?b (stream wire st clock s)" "active_bridge (stream wire st clock s) = Some ?b"
    and m: "map_option last_slots (map_of (universes (stream wire st clock s)) u) =
      (case ?of u of Some sl \<Rightarrow> Some sl | None \<Rightarrow> map_option last_slots (map_of (universes s2) u))" for u
    unfolding res using s2(2) by (auto simp: frames_ok_def)
  have "rig_of (out (stream wire st clock s)) = view ?b (universes (stream wire st clock s))"
    using g(1) by (simp add: on_rig_def)
  also have "\<dots> = rig_for (Some st)"
    unfolding view_def rig_for_def m by (auto simp: fun_eq_iff gone split: option.split)
  finally show ?thesis using g by (simp add: settled_def)
qed

lemma go_idle_rig:
  assumes w: "\<forall>k. wire k = None" and "settled s"
  shows "settled (go_idle wire now s) \<and> rig_of (out (go_idle wire now s)) = rig_for None
    \<and> active_bridge (go_idle wire now s) = None"
proof (cases "active_bridge s")
  case None
  with assms(2) show ?thesis by (auto simp: go_idle_def settled_def rig_for_def fun_eq_iff)
next
  case (Some previous)
  let ?s = "s\<lparr>active_bridge := None\<rparr>"
  have g: "on_rig previous ?s" using assms(2) Some by (simp add: settled_def on_rig_def)
  let ?t = "terminate_universes wire previous (map fst (universes ?s)) now ?s"
  have u: "universes ?t = []" by (rule terminate_all [OF w g])
  from terminate_universes_rig [OF w g, of "map fst (universes ?s)" now] u
  have t: "\<not> simulated ?t" "rig_of (out ?t) = Map.empty" "active_bridge ?t = None" by (simp_all add: nothing_on_rig)
  with u Some show ?thesis
    by (simp add: go_idle_def settled_def say_def rig_for_def fun_eq_iff)
qed

fun ticks :: "wire \<Rightarrow> (settings \<times> output_state option \<times> (nat \<Rightarrow> instant)) list \<Rightarrow> sacn_output \<Rightarrow> sacn_output" where
  "ticks wire [] s = s"
| "ticks wire ((settings, rendered, clock) # rest) s = ticks wire rest (tick wire settings rendered clock s)"

definition sound_input :: "settings \<times> output_state option \<times> (nat \<Rightarrow> instant) \<Rightarrow> bool" where
  "sound_input i \<longleftrightarrow> (case i of (settings, rendered, clock) \<Rightarrow>
     (\<forall>st. rendered = Some st \<longrightarrow> frames_ok st) \<and> (\<forall>k. KEEPALIVE_INTERVAL \<le> clock k))"

lemma tick_rig:
  assumes w: "\<forall>k. wire k = None" and "settled s" and i: "sound_input (settings, rendered, clock)"
  shows "settled (tick wire settings rendered clock s)
    \<and> rig_of (out (tick wire settings rendered clock s)) = rig_for (if lighting_output_armed settings then rendered else None)"
proof -
  define s1 where "s1 = say_refused_bridge settings (hold_word settings s)"
  have "same_stream s s1" unfolding s1_def by (rule same_stream_trans [OF same_stream_hold same_stream_refused])
  then have s1: "settled s1" using assms(2) by (rule settled_same)
  show ?thesis
  proof (cases "if \<not> lighting_output_armed settings then None else rendered")
    case None
    let ?t = "go_idle wire (clock 0) s1"
    have "tick wire settings rendered clock s = settle_sends (clock 1) ?t"
      using None unfolding tick_def Let_def s1_def [symmetric] by simp
    moreover have "rig_for (if lighting_output_armed settings then rendered else None) = rig_for None"
      using None by (auto split: if_splits)
    ultimately show ?thesis
      using go_idle_rig [OF w s1, of "clock 0"] settled_same [OF same_stream_settle, of ?t "clock 1"]
        same_stream_settle [of ?t "clock 1"] by (auto simp: same_stream_def)
  next
    case (Some st)
    then have a: "lighting_output_armed settings" "rendered = Some st" by (auto split: if_splits)
    let ?t = "stream wire st clock s1"
    have "tick wire settings rendered clock s = settle_sends (clock (2 + length (frames st))) ?t"
      using Some unfolding tick_def Let_def s1_def [symmetric] by simp
    moreover have "frames_ok st" "\<forall>k. KEEPALIVE_INTERVAL \<le> clock k" using i a by (auto simp: sound_input_def)
    note stream_rig [OF w this(2) s1 this(1)]
    ultimately show ?thesis
      using settled_same [OF same_stream_settle, of ?t "clock (2 + length (frames st))"]
        same_stream_settle [of ?t "clock (2 + length (frames st))"] a by (auto simp: same_stream_def)
  qed
qed

lemma settled_start: "settled (output_start False first)"
  by (auto simp: settled_def output_start_def output_new_def say_def Let_def rig_of_def split: option.split)

lemma ticks_settled:
  assumes "\<forall>k. wire k = None" and "settled s" and "\<forall>i \<in> set inputs. sound_input i"
  shows "settled (ticks wire inputs s)"
  using assms(2,3)
proof (induction inputs arbitrary: s)
  case (Cons i inputs)
  obtain settings rendered clock where i: "i = (settings, rendered, clock)" by (cases i) auto
  with Cons tick_rig [OF assms(1) Cons.prems(1)] show ?case by simp
qed simp

lemma ticks_append: "ticks wire (is @ is') s = ticks wire is' (ticks wire is s)"
  by (induction "is" arbitrary: s) auto

text \<open>
  While the wire takes the packets, the rig holds after every tick exactly what the renderer
  gave for it: the slots of each universe at the state's bridge, nothing of a universe or a
  bridge that is no longer streamed to, and nothing at all while the outputs are held.
\<close>

theorem rig_follows_the_state:
  assumes "\<forall>k. wire k = None" and "\<forall>i \<in> set (earlier @ [(settings, rendered, clock)]). sound_input i"
  shows "rig_of (out (ticks wire (earlier @ [(settings, rendered, clock)]) (output_start False first)))
     = rig_for (if lighting_output_armed settings then rendered else None)"
proof -
  have "settled (ticks wire earlier (output_start False first))"
    using assms(2) by (intro ticks_settled [OF assms(1) settled_start]) auto
  from tick_rig [OF assms(1) this] assms(2) show ?thesis by (simp add: ticks_append)
qed

definition one_frame :: output_state where
  "one_frame = \<lparr>state_bridge = Ipv4 10 1 0 1, frames = [\<lparr>universe = 1, slots = replicate 512 255\<rparr>]\<rparr>"

theorem rig_follows_the_state_witness:
  "rig_of (out (ticks (\<lambda>_. None) [(Map.empty, Some one_frame, \<lambda>_. 1000000000)] (output_start False None))) (Ipv4 10 1 0 1, 1)
     = Some (replicate 512 255)"
  using rig_follows_the_state [of "\<lambda>_. None" "[]" Map.empty "Some one_frame" "\<lambda>_. 1000000000" None]
  by (simp add: sound_input_def frames_ok_def one_frame_def KEEPALIVE_INTERVAL_def rig_for_def lighting_output_armed_def)

section \<open>Held, or simulated, nothing is sent\<close>

definition grew :: "(event \<Rightarrow> bool) \<Rightarrow> sacn_output \<Rightarrow> sacn_output \<Rightarrow> bool" where
  "grew P s s' \<longleftrightarrow> (\<exists>new. out s' = out s @ new \<and> list_all P new)"

lemma grew_refl: "grew P s s"
  by (simp add: grew_def)

lemma grew_trans [trans]: "grew P s s' \<Longrightarrow> grew P s' s'' \<Longrightarrow> grew P s s''"
  unfolding grew_def by (metis append.assoc list_all_append)

lemma grew_say: "P e \<Longrightarrow> grew P s s' \<Longrightarrow> grew P s (say e s')"
  unfolding grew_def say_def by auto

lemma grew_mono: "grew P s s' \<Longrightarrow> (\<And>e. P e \<Longrightarrow> Q e) \<Longrightarrow> grew Q s s'"
  unfolding grew_def by (metis list.pred_mono_strong)

text \<open>A packet that ends the stream of one of the universes \<open>us\<close> at the bridge \<open>b\<close>, or none.\<close>

definition ends_stream :: "ipv4 option \<Rightarrow> 16 word set \<Rightarrow> event \<Rightarrow> bool" where
  "ends_stream b us e \<longleftrightarrow> (\<forall>tgt bytes went. e = Packet tgt bytes went \<longrightarrow>
     b = Some (fst tgt) \<and> (\<exists>u \<in> us. \<exists>q sl. bytes = build_e131_data_packet u q True sl))"

lemma ends_stream_none [simp]: "no_packet e \<Longrightarrow> ends_stream b us e"
  by (cases e) (auto simp: ends_stream_def)

lemma grew_settle: "grew no_packet s (settle_sends now s)"
  unfolding settle_sends_def forget_sends_def tally_reset_def Let_def
  by (auto simp: grew_def say_def split: prod.split option.split send_report.split)

lemma grew_hold_refused: "grew no_packet s (say_refused_bridge settings (hold_word settings s))"
  unfolding say_refused_bridge_def hold_word_def Let_def
  by (auto simp: grew_def say_def split: option.split)

lemma terminate_sends_grew:
  "u \<in> us \<Longrightarrow> grew (ends_stream (Some b) us) s (terminate_sends n wire (b, p) u q sl now s)"
proof (induction n arbitrary: q s)
  case 0
  then show ?case by (simp add: grew_refl)
next
  case (Suc n)
  let ?s = "fst (send_packet wire (build_e131_data_packet u q True sl) (b, p) now s)"
  have "grew (ends_stream (Some b) us) s ?s"
    using Suc.prems by (auto simp: send_packet_def Let_def say_def grew_def ends_stream_def split: option.split)
  from grew_trans [OF this Suc.IH [OF Suc.prems]] show ?case by simp
qed

lemma terminate_universes_grew:
  "set vs \<subseteq> us \<Longrightarrow> grew (ends_stream (Some b) us) s (terminate_universes wire b vs now s)"
proof (induction vs arbitrary: s)
  case Nil
  then show ?case by (simp add: grew_refl)
next
  case (Cons u vs)
  show ?case
  proof (cases "map_of (universes s) u")
    case None
    with Cons show ?thesis by simp
  next
    case (Some e)
    let ?d = "s\<lparr>universes := AList.delete u (universes s)\<rparr>"
    let ?s = "terminate_sends STREAM_TERMINATED_SENDS wire (b, port s) u (sequence e) (last_slots e) now ?d"
    have "grew (ends_stream (Some b) us) ?d ?s" using Cons.prems by (intro terminate_sends_grew) auto
    then have "grew (ends_stream (Some b) us) s ?s" by (simp add: grew_def)
    from grew_trans [OF this Cons.IH] Cons.prems Some show ?thesis by simp
  qed
qed

lemma simulated_kept [simp]:
  "simulated (say e s) = simulated s" "simulated (hold_word settings s) = simulated s"
  "simulated (say_refused_bridge settings s) = simulated s"
  by (auto simp: say_def hold_word_def say_refused_bridge_def Let_def split: option.split)

lemma active_forget [simp]: "active_bridge (forget_sends why s) = active_bridge s"
  by (simp add: forget_sends_def tally_reset_def Let_def say_def)

lemma simulated_forget [simp]: "simulated (forget_sends why s) = simulated s"
  by (simp add: forget_sends_def tally_reset_def Let_def)

lemma active_kept [simp]:
  "active_bridge (say e s) = active_bridge s" "active_bridge (hold_word settings s) = active_bridge s"
  "active_bridge (say_refused_bridge settings s) = active_bridge s"
  "universes (say_refused_bridge settings (hold_word settings s)) = universes s"
  by (auto simp: say_def hold_word_def say_refused_bridge_def Let_def split: option.split)

lemma active_send [simp]: "active_bridge (fst (send_packet wire p tgt now s)) = active_bridge s"
  by (auto simp: send_packet_def Let_def split: option.split)

lemma active_terminate [simp]:
  "active_bridge (terminate_sends n wire tgt u q sl now s) = active_bridge s"
  by (induction n wire tgt u q sl now s rule: terminate_sends.induct) simp_all

lemma active_terminate_universes [simp]:
  "active_bridge (terminate_universes wire b us now s) = active_bridge s"
  by (induction wire b us now s rule: terminate_universes.induct) (auto split: option.split)

lemma active_settle [simp]: "active_bridge (settle_sends now s) = active_bridge s"
  using same_stream_settle [of s now] by (simp add: same_stream_def)

text \<open>The simulated output: every packet counts as sent, and none leaves.\<close>

lemma simulated_send: "simulated s \<Longrightarrow> send_packet wire p tgt now s = (s, True)"
  by (simp add: send_packet_def)

lemma simulated_terminate: "simulated s \<Longrightarrow> terminate_sends n wire tgt u q sl now s = s"
  by (induction n wire tgt u q sl now s rule: terminate_sends.induct) (simp_all add: simulated_send)

lemma simulated_terminate_universes:
  "simulated s \<Longrightarrow> out (terminate_universes wire b us now s) = out s \<and> simulated (terminate_universes wire b us now s)"
  by (induction wire b us now s rule: terminate_universes.induct)
    (auto simp: simulated_terminate split: option.split)

lemma simulated_frames:
  "simulated s \<Longrightarrow> out (send_frames wire b fs clock k s) = out s \<and> simulated (send_frames wire b fs clock k s)"
  by (induction wire b fs clock k s rule: send_frames.induct)
    (auto simp: send_frame_def Let_def simulated_send)

lemma simulated_stream: "simulated s \<Longrightarrow> grew no_packet s (stream wire st clock s) \<and> simulated (stream wire st clock s)"
proof -
  assume sim: "simulated s"
  have "grew no_packet s (move_bridge wire st (clock 0) s) \<and> simulated (move_bridge wire st (clock 0) s)"
    using sim simulated_terminate_universes [OF sim]
    by (auto simp: move_bridge_def Let_def grew_def say_def forget_sends_def tally_reset_def split: option.split)
  then show ?thesis
    unfolding stream_def Let_def
    by (auto simp: grew_def simulated_terminate_universes simulated_frames)
qed

lemma simulated_idle: "simulated s \<Longrightarrow> grew no_packet s (go_idle wire now s)"
  using simulated_terminate_universes [of "s\<lparr>active_bridge := None\<rparr>"]
  by (auto simp: go_idle_def grew_def say_def split: option.split)

lemma held_idle:
  "grew (ends_stream (active_bridge s) (set (map fst (universes s)))) s (go_idle wire now s)
   \<and> active_bridge (go_idle wire now s) = None"
proof (cases "active_bridge s")
  case None
  then show ?thesis by (simp add: go_idle_def grew_refl)
next
  case (Some b)
  let ?P = "ends_stream (Some b) (set (map fst (universes s)))"
  let ?s = "s\<lparr>active_bridge := None\<rparr>"
  have "grew ?P ?s (terminate_universes wire b (map fst (universes s)) now ?s)"
    by (rule terminate_universes_grew) simp
  then have "grew ?P s (terminate_universes wire b (map fst (universes s)) now ?s)" by (simp add: grew_def)
  then have "grew ?P s (go_idle wire now s)" using Some by (auto simp: go_idle_def intro!: grew_say)
  with Some show ?thesis by (simp add: go_idle_def)
qed

text \<open>
  C14. Nothing is sent unasked: a simulated output puts no packet on the wire; and while the
  outputs are held a tick sends nothing but the ends of the streams that ran, to the bridge they
  ran to, whatever the renderer gives, after which no stream runs and the next held tick sends
  nothing at all.
\<close>

theorem nothing_is_sent_unasked:
  "(simulated s \<longrightarrow> grew no_packet s (tick wire settings rendered clock s))
   \<and> (\<not> lighting_output_armed settings \<longrightarrow>
        grew (ends_stream (active_bridge s) (set (map fst (universes s)))) s (tick wire settings rendered clock s)
        \<and> active_bridge (tick wire settings rendered clock s) = None
        \<and> (active_bridge s = None \<longrightarrow> grew no_packet s (tick wire settings rendered clock s)))"
proof (intro conjI impI)
  define s1 where "s1 = say_refused_bridge settings (hold_word settings s)"
  have g1: "grew no_packet s s1" unfolding s1_def by (rule grew_hold_refused)
  have tick: "tick wire settings rendered clock s =
      (case if \<not> lighting_output_armed settings then None else rendered of
         Some st' \<Rightarrow> settle_sends (clock (2 + length (frames st'))) (stream wire st' clock s1)
       | None \<Rightarrow> settle_sends (clock 1) (go_idle wire (clock 0) s1))"
    unfolding tick_def Let_def s1_def ..
  {
    assume "simulated s"
    then have sim: "simulated s1" unfolding s1_def by simp
    have "grew no_packet s1 (settle_sends n (stream wire st clock s1))" for n st
      using grew_trans [OF conjunct1 [OF simulated_stream [OF sim]] grew_settle] .
    moreover have "grew no_packet s1 (settle_sends n (go_idle wire now s1))" for n now
      using grew_trans [OF simulated_idle [OF sim] grew_settle] .
    ultimately have "grew no_packet s1 (tick wire settings rendered clock s)"
      unfolding tick by (auto split: option.split)
    then show "grew no_packet s (tick wire settings rendered clock s)" by (rule grew_trans [OF g1])
  }
  assume held: "\<not> lighting_output_armed settings"
  then have t: "tick wire settings rendered clock s = settle_sends (clock 1) (go_idle wire (clock 0) s1)"
    unfolding tick by simp
  have same: "active_bridge s1 = active_bridge s" "universes s1 = universes s" unfolding s1_def by simp_all
  let ?P = "ends_stream (active_bridge s) (set (map fst (universes s)))"
  have "grew ?P s s1" using g1 by (rule grew_mono) simp
  also have "grew ?P s1 (go_idle wire (clock 0) s1)" using held_idle [of s1 wire "clock 0"] unfolding same by blast
  also have "grew ?P (go_idle wire (clock 0) s1) (tick wire settings rendered clock s)"
    unfolding t by (rule grew_mono [OF grew_settle]) simp
  finally show "grew ?P s (tick wire settings rendered clock s)" .
  show "active_bridge (tick wire settings rendered clock s) = None"
    unfolding t using held_idle [of s1 wire "clock 0"] by simp
  assume "active_bridge s = None"
  then have "go_idle wire (clock 0) s1 = s1" using same(1) by (simp add: go_idle_def)
  then show "grew no_packet s (tick wire settings rendered clock s)"
    unfolding t using grew_trans [OF g1 grew_settle] by simp
qed

theorem nothing_is_sent_unasked_witness:
  "active_bridge (tick (\<lambda>_. None) [LIGHTING_OUTPUT_ARMED_KEY \<mapsto> ''false''] (Some one_frame) (\<lambda>_. 0)
     (output_new 5568\<lparr>active_bridge := Some (Ipv4 10 1 0 1)\<rparr>)) = None"
  using nothing_is_sent_unasked [of "output_new 5568\<lparr>active_bridge := Some (Ipv4 10 1 0 1)\<rparr>" "\<lambda>_. None"
      "[LIGHTING_OUTPUT_ARMED_KEY \<mapsto> ''false'']" "Some one_frame" "\<lambda>_. 0"]
  by (simp add: lighting_output_armed_def)

section \<open>The entry's word\<close>

text \<open>The word the entry was last given.\<close>

definition entry_word :: "event list \<Rightarrow> state_word option" where
  "entry_word es = fold (\<lambda>e w. case e of Entry x _ \<Rightarrow> Some x | _ \<Rightarrow> w) es None"

definition a_send_failed :: "event list \<Rightarrow> bool" where
  "a_send_failed es \<longleftrightarrow> (\<exists>tgt bytes. Packet tgt bytes False \<in> set es)"

text \<open>While packets go out: the tally is sound, counts no failure that did not happen, and the
  entry is as it was.\<close>

definition counted :: "sacn_output \<Rightarrow> bool" where
  "counted s \<longleftrightarrow> tally_inv (sends s) \<and> (tally_target (sends s) \<noteq> None \<longrightarrow> a_send_failed (out s))"

definition sending :: "sacn_output \<Rightarrow> sacn_output \<Rightarrow> bool" where
  "sending s s' \<longleftrightarrow> failing (sends s') = failing (sends s) \<and> entry_word (out s') = entry_word (out s)
     \<and> (counted s \<longrightarrow> counted s')"

lemma sending_refl: "sending s s"
  by (simp add: sending_def)

lemma sending_trans: "sending s s' \<Longrightarrow> sending s' s'' \<Longrightarrow> sending s s''"
  by (simp add: sending_def)

lemma entry_word_append [simp]:
  "entry_word (es @ es') = fold (\<lambda>e w. case e of Entry x _ \<Rightarrow> Some x | _ \<Rightarrow> w) es' (entry_word es)"
  by (simp add: entry_word_def)

lemma a_send_failed_append [simp]:
  "a_send_failed (es @ es') \<longleftrightarrow> a_send_failed es \<or> (\<exists>tgt bytes. Packet tgt bytes False \<in> set es')"
  by (auto simp: a_send_failed_def)

lemma sending_packet: "sending s (fst (send_packet wire p tgt now s))"
proof (cases "simulated s")
  case False
  show ?thesis
  proof (cases "wire (attempts s)")
    case None
    with False show ?thesis
      by (auto simp: send_packet_def Let_def say_def sending_def counted_def tally_invs) (auto simp: tally_sent_def)
  next
    case (Some err)
    with False show ?thesis
      by (auto simp: send_packet_def Let_def say_def sending_def counted_def tally_invs) (auto simp: tally_failed_def)
  qed
qed (simp add: send_packet_def sending_refl)

lemma sending_universes: "sending s (s'\<lparr>universes := us\<rparr>) = sending s s'" "sending (s\<lparr>universes := us\<rparr>) s' = sending s s'"
  by (simp_all add: sending_def counted_def)

lemma send_frame_shape:
  "\<exists>us us' p tgt. send_frame wire b f now s \<in> {s\<lparr>universes := us\<rparr>, fst (send_packet wire p tgt now (s\<lparr>universes := us\<rparr>)),
     (fst (send_packet wire p tgt now (s\<lparr>universes := us\<rparr>)))\<lparr>universes := us'\<rparr>}"
proof -
  define entry where "entry = (case map_of (universes s) (universe f) of
      Some e \<Rightarrow> e
    | None \<Rightarrow> \<lparr>sequence = 0, last_slots = replicate 512 0,
        last_sent_at = (if KEEPALIVE_INTERVAL \<le> now then now - KEEPALIVE_INTERVAL else now)\<rparr>)"
  define due where "due \<longleftrightarrow> last_slots entry \<noteq> slots f \<or> KEEPALIVE_INTERVAL \<le> since (last_sent_at entry) now"
  let ?us = "AList.update (universe f) entry (universes s)"
  let ?p = "build_e131_data_packet (universe f) (sequence entry) False (slots f)"
  obtain s2 went where p: "send_packet wire ?p (b, port s) now (s\<lparr>universes := ?us\<rparr>) = (s2, went)" by fastforce
  have sf: "send_frame wire b f now s = (if \<not> due then s\<lparr>universes := ?us\<rparr>
      else if went then s2\<lparr>universes := AList.update (universe f)
        \<lparr>sequence = sequence entry + 1, last_slots = slots f, last_sent_at = now\<rparr> (universes s2)\<rparr> else s2)"
    unfolding send_frame_def Let_def entry_def [symmetric] due_def using p by simp
  show ?thesis
    by (intro exI [of _ ?us] exI [of _ "AList.update (universe f)
        \<lparr>sequence = sequence entry + 1, last_slots = slots f, last_sent_at = now\<rparr> (universes s2)"]
        exI [of _ ?p] exI [of _ "(b, port s)"]) (simp add: sf p)
qed

lemma sending_frame: "sending s (send_frame wire b f now s)"
proof -
  obtain us us' p tgt where "send_frame wire b f now s \<in> {s\<lparr>universes := us\<rparr>,
      fst (send_packet wire p tgt now (s\<lparr>universes := us\<rparr>)),
      (fst (send_packet wire p tgt now (s\<lparr>universes := us\<rparr>)))\<lparr>universes := us'\<rparr>}"
    using send_frame_shape by blast
  then show ?thesis
    using sending_packet [of "s\<lparr>universes := us\<rparr>" wire p tgt now] sending_refl [of s]
    by (auto simp: sending_universes)
qed

lemma sending_frames: "sending s (send_frames wire b fs clock k s)"
  by (induction wire b fs clock k s rule: send_frames.induct)
    (auto intro: sending_refl sending_trans [OF sending_frame])

lemma sending_terminate: "sending s (terminate_sends n wire tgt u q sl now s)"
  by (induction n wire tgt u q sl now s rule: terminate_sends.induct)
    (auto intro: sending_refl sending_trans [OF sending_packet])

lemma sending_terminate_universes: "sending s (terminate_universes wire b us now s)"
proof (induction wire b us now s rule: terminate_universes.induct)
  case (2 wire b u us now s)
  show ?case
  proof (cases "map_of (universes s) u")
    case (Some e)
    have "sending s (terminate_sends STREAM_TERMINATED_SENDS wire (b, port s) u (sequence e) (last_slots e) now
        (s\<lparr>universes := AList.delete u (universes s)\<rparr>))"
      using sending_terminate [of "s\<lparr>universes := AList.delete u (universes s)\<rparr>"] by (simp only: sending_universes)
    with 2 Some show ?thesis by (auto intro: sending_trans)
  qed (use 2 in simp)
qed (simp add: sending_refl)

text \<open>The invariant between ticks.\<close>

definition entry_inv :: "sacn_output \<Rightarrow> bool" where
  "entry_inv s \<longleftrightarrow> counted s \<and> entry_word (out s) = Some (if failing (sends s) then Attention else Ok)
     \<and> (active_bridge s = None \<longrightarrow> \<not> failing (sends s)) \<and> (held s \<longrightarrow> active_bridge s = None)
     \<and> (\<not> failing (sends s) \<longrightarrow> failed (sends s) = 0)"

definition consistent :: "sacn_output \<Rightarrow> bool" where
  "consistent s \<longleftrightarrow> counted s \<and> entry_word (out s) = Some (if failing (sends s) then Attention else Ok)"

lemma counted_no_sends: "counted (s\<lparr>sends := no_sends\<rparr>)"
  by (simp add: counted_def tally_inv_no_sends) (simp add: no_sends_def)

lemma counted_say: "counted s \<Longrightarrow> counted (say e s)"
  by (auto simp: counted_def say_def)

lemma sending_consistent: "sending s s' \<Longrightarrow> consistent s \<Longrightarrow> consistent s'"
  by (simp add: sending_def consistent_def)

lemma no_sends_quiet [simp]: "failing no_sends = False" "failed no_sends = 0"
  by (simp_all add: no_sends_def)

lemma forget_consistent:
  assumes "entry_word (out s) = Some Ok \<or> failing (sends s)"
  shows "consistent (forget_sends why s) \<and> \<not> failing (sends (forget_sends why s)) \<and> failed (sends (forget_sends why s)) = 0"
  using assms counted_no_sends [of s]
  by (auto simp: forget_sends_def tally_reset_def Let_def consistent_def say_def counted_def)

lemma report_consistent:
  assumes "consistent s" and "active_bridge s \<noteq> None"
  shows "consistent (settle_sends now s)
    \<and> (\<not> failing (sends (settle_sends now s)) \<longrightarrow> failed (sends (settle_sends now s)) = 0)"
proof -
  obtain t r where tr: "tally_report now (sends s) = (t, r)" by fastforce
  have inv: "tally_inv (sends s)" using assms(1) by (simp add: consistent_def counted_def)
  have t: "tally_inv t" using tally_inv_report [OF inv, of now] tr by simp
  have target: "tally_target t \<noteq> None \<longrightarrow> tally_target (sends s) \<noteq> None"
    using tr by (auto simp: tally_report_def no_sends_def Let_def split: option.splits if_splits)
  then have c: "counted (s\<lparr>sends := t\<rparr>)" using assms(1) t by (auto simp: consistent_def counted_def)
  have f: "failing t = (case r of Some (Failing _ _) \<Rightarrow> True | Some (Resumed _) \<Rightarrow> False | _ \<Rightarrow> failing (sends s))"
    using report_moves_failing [of now "sends s"] tr by simp
  have zero: "failed t = 0" if "\<not> failing t"
  proof (cases "failing (sends s)")
    case True
    with that f have "r \<noteq> None \<and> (\<exists>l. r = Some (Resumed l))" by (auto split: option.splits send_report.splits)
    then have "t = no_sends" using tr True by (auto simp: tally_report_def Let_def split: option.splits if_splits)
    then show ?thesis by simp
  next
    case False
    have "failed (sends s) = 0"
    proof (rule ccontr)
      assume "failed (sends s) \<noteq> 0"
      then obtain d l where "r = Some (Failing d l)"
        using first_failure_is_said [OF inv _ False, of now] tr by auto
      with f that show False by simp
    qed
    then show ?thesis using tr False by (auto simp: tally_report_def split: option.splits if_splits)
  qed
  from assms(1) have w: "entry_word (out s) = Some (if failing (sends s) then Attention else Ok)" by (simp add: consistent_def)
  have se: "settle_sends now s = (let s1 = s\<lparr>sends := t\<rparr> in case r of
      Some (Failing d l) \<Rightarrow> say (Entry Attention d) (say (LogLine ERROR l) s1)
    | Some (StillFailing l) \<Rightarrow> say (LogLine WARN l) s1
    | Some (Resumed l) \<Rightarrow> say (Entry Ok (detail s1)) (say (LogLine INFO l) s1)
    | None \<Rightarrow> s1)"
    using assms(2) tr by (auto simp: settle_sends_def)
  show ?thesis
  proof (cases r)
    case None
    with se c f w zero show ?thesis by (auto simp: consistent_def)
  next
    case (Some x)
    with se c f w zero show ?thesis
      by (cases x) (auto simp: consistent_def say_def counted_def Let_def)
  qed
qed

lemma move_consistent: "consistent s \<Longrightarrow> consistent (move_bridge wire st now s)"
proof -
  assume c: "consistent s"
  have f: "consistent (forget_sends why (terminate_universes wire b us now s))" for why b us
    using forget_consistent sending_consistent [OF sending_terminate_universes c, of wire b us now]
    by (auto simp: consistent_def)
  have "consistent (s'\<lparr>active_bridge := a\<rparr>) = consistent s'" for s' a
    by (simp add: consistent_def counted_def)
  moreover have "consistent s' \<Longrightarrow> consistent (say (LogLine l x) s')" for s' l x
    using counted_say [of s'] by (auto simp: consistent_def say_def)
  ultimately show ?thesis
    using c f by (auto simp: move_bridge_def Let_def split: option.split)
qed

lemma stream_consistent: "consistent s \<Longrightarrow> consistent (stream wire st clock s)"
  using move_consistent [of s wire st "clock 0"]
  by (auto simp: stream_def Let_def intro: sending_consistent [OF sending_frames] sending_consistent [OF sending_terminate_universes])

lemma hold_refused:
  "sends (say_refused_bridge settings (hold_word settings s)) = sends s"
  "held (say_refused_bridge settings (hold_word settings s)) = (\<not> lighting_output_armed settings)"
  "counted s \<Longrightarrow> counted (say_refused_bridge settings (hold_word settings s))"
  "entry_word (out (say_refused_bridge settings (hold_word settings s)))
     = (if held s = (\<not> lighting_output_armed settings) then entry_word (out s) else Some Ok)"
  by (auto simp: say_refused_bridge_def hold_word_def Let_def say_def counted_def split: option.split)

lemma tick_entry:
  assumes "entry_inv s"
  shows "entry_inv (tick wire settings rendered clock s)"
proof -
  define s1 where "s1 = say_refused_bridge settings (hold_word settings s)"
  from assms have inv: "counted s" "entry_word (out s) = Some (if failing (sends s) then Attention else Ok)"
    "active_bridge s = None \<Longrightarrow> \<not> failing (sends s)" "held s \<Longrightarrow> active_bridge s = None" by (auto simp: entry_inv_def)
  have s1: "sends s1 = sends s" "held s1 = (\<not> lighting_output_armed settings)" "counted s1" "active_bridge s1 = active_bridge s"
    "entry_word (out s1) = (if held s = (\<not> lighting_output_armed settings) then entry_word (out s) else Some Ok)"
    using hold_refused inv(1) unfolding s1_def by auto
  have held_settle: "held (settle_sends now s') = held s'" for now s'
    by (auto simp: settle_sends_def forget_sends_def tally_reset_def Let_def say_def split: prod.split option.split send_report.split)
  show ?thesis
  proof (cases "if \<not> lighting_output_armed settings then None else rendered")
    case None
    let ?t = "go_idle wire (clock 0) s1"
    have t: "tick wire settings rendered clock s = settle_sends (clock 1) ?t"
      using None unfolding tick_def Let_def s1_def [symmetric] by simp
    have a: "active_bridge ?t = None" using held_idle by blast
    have "sending s1 ?t"
    proof (cases "active_bridge s1")
      case (Some b)
      have "sending (s1\<lparr>active_bridge := None\<rparr>) (terminate_universes wire b (map fst (universes s1)) (clock 0) (s1\<lparr>active_bridge := None\<rparr>))"
        by (rule sending_terminate_universes)
      with Some show ?thesis by (auto simp: go_idle_def sending_def counted_def say_def)
    qed (simp add: go_idle_def sending_refl)
    then have ts: "failing (sends ?t) = failing (sends s)" "entry_word (out ?t) = entry_word (out s1)"
      using s1(1) by (auto simp: sending_def)
    have "entry_word (out ?t) = Some Ok \<or> failing (sends ?t)" unfolding ts s1(5) inv(2) by auto
    from forget_consistent [OF this, of "''the stream ended''"] show ?thesis
      unfolding t entry_inv_def using a
      by (auto simp: consistent_def settle_sends_def)
  next
    case (Some st)
    then have armed: "lighting_output_armed settings" by (auto split: if_splits)
    let ?t = "stream wire st clock s1"
    have t: "tick wire settings rendered clock s = settle_sends (clock (2 + length (frames st))) ?t"
      using Some unfolding tick_def Let_def s1_def [symmetric] by simp
    have "consistent s1"
    proof (cases "held s")
      case True
      then have "\<not> failing (sends s)" by (intro inv(3) inv(4))
      with s1 armed True show ?thesis by (simp add: consistent_def)
    next
      case False
      with s1 armed inv(2) show ?thesis by (simp add: consistent_def)
    qed
    then have c: "consistent ?t" by (rule stream_consistent)
    have active: "active_bridge (send_frames wire b fs clock k s') = active_bridge s'" for b fs k s'
    proof (induction fs arbitrary: k s')
      case (Cons f fs)
      have "active_bridge (send_frame wire b f (clock k) s') = active_bridge s'"
        using send_frame_shape [of wire b f "clock k" s'] by auto
      with Cons show ?case by simp
    qed simp
    have a: "active_bridge ?t = Some (state_bridge st)"
      by (simp add: stream_def Let_def active move_bridge_def)
    have h: "\<not> held ?t"
    proof -
      have hp: "held (fst (send_packet wire p tgt now s')) = held s'" for p tgt now s'
        by (auto simp: send_packet_def Let_def say_def split: option.split)
      have ht: "held (terminate_sends n wire tgt u q sl now s') = held s'" for n tgt u q sl now s'
        by (induction n arbitrary: q s') (simp_all add: hp)
      have hu: "held (terminate_universes wire b us now s') = held s'" for b us now s'
        by (induction us arbitrary: s') (auto simp: ht split: option.split)
      have hf: "held (send_frame wire b f now s') = held s'" for b f now s'
        using send_frame_shape [of wire b f now s'] by (auto simp: hp)
      have hfs: "held (send_frames wire b fs clock k s') = held s'" for b fs k s'
        by (induction fs arbitrary: k s') (simp_all add: hf)
      have "held ?t = held s1"
        by (auto simp: stream_def Let_def hfs hu move_bridge_def forget_sends_def tally_reset_def say_def split: option.split)
      with s1(2) armed show ?thesis by simp
    qed
    from report_consistent [OF c, of "clock (2 + length (frames st))"] a h show ?thesis
      unfolding t entry_inv_def by (auto simp: consistent_def held_settle)
  qed
qed

lemma start_entry: "entry_inv (output_start sim first)"
  by (auto simp: entry_inv_def output_start_def output_new_def say_def Let_def counted_def tally_inv_no_sends
      entry_word_def split: option.split) (simp_all add: no_sends_def)

text \<open>
  The health entry says how the sends go: after every tick, whatever the wire answers and
  the operator holds or arms, it reads attention exactly while the tally holds the sends for
  failing, no failure is left unsaid under an entry that reads ok, and attention is never read
  where no send has failed.
\<close>

theorem entry_follows_the_sends:
  "let s = ticks wire inputs (output_start sim first)
   in entry_word (out s) = Some (if failing (sends s) then Attention else Ok)
      \<and> (if failing (sends s) then a_send_failed (out s) else failed (sends s) = 0)"
proof -
  have "entry_inv s \<Longrightarrow> entry_inv (ticks wire inputs s)" for s
    by (induction wire inputs s rule: ticks.induct) (auto intro: tick_entry)
  then have "entry_inv (ticks wire inputs (output_start sim first))" using start_entry by blast
  then show ?thesis by (auto simp: Let_def entry_inv_def counted_def tally_inv_def)
qed

end
