(* ===== verification/Backups.thy ===== *)
theory Backups
  imports Civil_Time
begin

text \<open>
  The database backups (\<open>storage_backups.rs\<close>, and the daily scheduler of \<open>main.rs\<close>): their names,
  which are kept, when the next daily is due, and a file written so that a power cut leaves the
  old or the new. The directory is the list of its entries in the order \<open>read_dir\<close> gives them.
  SQLite's copy and its check, and whether a file can be removed, are parameters.
\<close>

section \<open>Reasons and names\<close>

definition DATABASE_BACKUP_PREFIX :: string where "DATABASE_BACKUP_PREFIX = ''db-''"
definition DATABASE_BACKUP_EXTENSION :: string where "DATABASE_BACKUP_EXTENSION = ''sqlite3''"
definition DAILY_BACKUP_INTERVAL :: duration where "DAILY_BACKUP_INTERVAL = from_secs (24 * 60 * 60)"

datatype snapshot_reason = PreMigration | Daily | Shutdown | PreRestore | Replaced

definition all_reasons :: "snapshot_reason list" where
  "all_reasons = [PreMigration, Daily, Shutdown, PreRestore, Replaced]"

fun reason_str :: "snapshot_reason \<Rightarrow> string" where
  "reason_str PreMigration = ''pre-migration''"
| "reason_str Daily = ''daily''"
| "reason_str Shutdown = ''shutdown''"
| "reason_str PreRestore = ''pre-restore''"
| "reason_str Replaced = ''replaced''"

fun retention :: "snapshot_reason \<Rightarrow> nat" where
  "retention PreMigration = 5"
| "retention Daily = 14"
| "retention Shutdown = 3"
| "retention PreRestore = 5"
| "retention Replaced = 5"

definition snapshot_reason_of :: "string \<Rightarrow> snapshot_reason option" where
  "snapshot_reason_of file_name =
     (case strip_prefix file_name DATABASE_BACKUP_PREFIX of
        None \<Rightarrow> None
      | Some a \<Rightarrow>
          (case strip_suffix a DATABASE_BACKUP_EXTENSION of
             None \<Rightarrow> None
           | Some b \<Rightarrow>
               (case strip_suffix b ''.'' of
                  None \<Rightarrow> None
                | Some stem \<Rightarrow> find (\<lambda>r. ends_with stem (''-'' @ reason_str r)) all_reasons)))"

definition snapshot_name :: "system_time \<Rightarrow> snapshot_reason \<Rightarrow> string" where
  "snapshot_name time reason =
     DATABASE_BACKUP_PREFIX @ file_timestamp time @ ''-'' @ reason_str reason @ ''.'' @ DATABASE_BACKUP_EXTENSION"

text \<open>
  Fifty looks at the clock, a millisecond apart; \<open>clock k\<close> is what the \<open>k\<close>th reads, and \<open>taken\<close>
  whether the directory holds a name.
\<close>

fun reserve_from :: "nat \<Rightarrow> (nat \<Rightarrow> system_time) \<Rightarrow> (string \<Rightarrow> bool) \<Rightarrow> snapshot_reason \<Rightarrow> nat \<Rightarrow> string option" where
  "reserve_from 0 clock taken reason k = None"
| "reserve_from (Suc n) clock taken reason k =
     (let candidate = snapshot_name (clock k) reason
      in if \<not> taken candidate then Some candidate else reserve_from n clock taken reason (Suc k))"

definition reserve_snapshot_path ::
  "(nat \<Rightarrow> system_time) \<Rightarrow> (string \<Rightarrow> bool) \<Rightarrow> snapshot_reason \<Rightarrow> string \<Rightarrow> string + string" where
  "reserve_snapshot_path clock taken reason dir =
     (case reserve_from 50 clock taken reason 0 of
        Some name \<Rightarrow> Inr name
      | None \<Rightarrow> Inl (''Could not reserve a backup file name in '' @ dir))"

section \<open>The directory\<close>

datatype dir_entry = Entry string bool | Unreadable

datatype listing = NoDirectory | Unlistable string | Listing "dir_entry list"

fun file_names :: "dir_entry list \<Rightarrow> string list" where
  "file_names [] = []"
| "file_names (Entry name is_file # es) =
     (if is_file \<and> utf8_valid name then name # file_names es else file_names es)"
| "file_names (Unreadable # es) = file_names es"

definition without :: "string \<Rightarrow> dir_entry list \<Rightarrow> dir_entry list" where
  "without name = filter (\<lambda>e. case e of Entry n _ \<Rightarrow> n \<noteq> name | Unreadable \<Rightarrow> True)"

text \<open>The files removed one by one, up to the first that cannot be.\<close>

fun remove_files :: "(string \<Rightarrow> bool) \<Rightarrow> string list \<Rightarrow> dir_entry list \<Rightarrow> string list \<Rightarrow> dir_entry list \<times> (string + string list)" where
  "remove_files can [] es removed = (es, Inr removed)"
| "remove_files can (name # names) es removed =
     (if can name then remove_files can names (without name es) (removed @ [name])
      else (es, Inl (''cannot remove '' @ name)))"

definition excess_of :: "string list \<Rightarrow> snapshot_reason \<Rightarrow> string list" where
  "excess_of all r =
     (let names = sort (filter (\<lambda>n. snapshot_reason_of n = Some r) all)
      in take (length names - retention r) names)"

definition prune_snapshots :: "(string \<Rightarrow> bool) \<Rightarrow> listing \<Rightarrow> listing \<times> (string + string list)" where
  "prune_snapshots can dir =
     (case dir of
        NoDirectory \<Rightarrow> (NoDirectory, Inr [])
      | Unlistable err \<Rightarrow> (Unlistable err, Inl err)
      | Listing es \<Rightarrow>
          if Unreadable \<in> set es then (Listing es, Inl ''an entry cannot be read'')
          else (case remove_files can (concat (map (excess_of (file_names es)) all_reasons)) es [] of
                  (es', result) \<Rightarrow> (Listing es', result)))"

definition snapshots_newest_first :: "listing \<Rightarrow> string list" where
  "snapshots_newest_first dir =
     (case dir of
        Listing es \<Rightarrow>
          rev (sort (filter (\<lambda>n. case snapshot_reason_of n of None \<Rightarrow> False | Some r \<Rightarrow> r \<noteq> Replaced) (file_names es)))
      | _ \<Rightarrow> [])"

definition newest_snapshot :: "listing \<Rightarrow> string option" where
  "newest_snapshot dir = (case snapshots_newest_first dir of [] \<Rightarrow> None | n # _ \<Rightarrow> Some n)"

section \<open>One backup\<close>

text \<open>
  What the copy's calls do: the error of making the directory, whether the path is text, the
  error of \<open>VACUUM INTO\<close> and whether it left a file, and the error of the copy's check.
\<close>

record copy_calls =
  dir_error :: "string option"
  path_is_text :: bool
  vacuum_error :: "string option"
  vacuum_left :: bool
  verify_error :: "string option"

definition copy_failed :: "(string \<Rightarrow> bool) \<Rightarrow> string \<Rightarrow> dir_entry list \<Rightarrow> dir_entry list" where
  "copy_failed can target es = (if can target then without target es else es)"

definition has_name :: "dir_entry list \<Rightarrow> string \<Rightarrow> bool" where
  "has_name es name \<longleftrightarrow> (\<exists>e \<in> set es. case e of Entry n _ \<Rightarrow> n = name | Unreadable \<Rightarrow> False)"

definition snapshot_database_with ::
  "copy_calls \<Rightarrow> (nat \<Rightarrow> system_time) \<Rightarrow> (string \<Rightarrow> bool) \<Rightarrow> string \<Rightarrow> snapshot_reason \<Rightarrow> dir_entry list
     \<Rightarrow> listing \<times> (string + string)" where
  "snapshot_database_with calls clock can dir reason es =
     (case dir_error calls of
        Some e \<Rightarrow> (Listing es, Inl e)
      | None \<Rightarrow>
          (case reserve_snapshot_path clock (has_name es) reason dir of
             Inl e \<Rightarrow> (Listing es, Inl e)
           | Inr target \<Rightarrow>
               if \<not> path_is_text calls then (Listing es, Inl (''Backup path is not valid UTF-8: '' @ dir))
               else (case vacuum_error calls of
                       Some e \<Rightarrow>
                         (Listing (copy_failed can target (if vacuum_left calls then es @ [Entry target True] else es)), Inl e)
                     | None \<Rightarrow>
                         (let copied = es @ [Entry target True]
                          in case verify_error calls of
                               Some e \<Rightarrow> (Listing (copy_failed can target copied), Inl e)
                             | None \<Rightarrow>
                                 (case prune_snapshots can (Listing copied) of
                                    (dir', Inl e) \<Rightarrow> (dir', Inl e)
                                  | (dir', Inr _) \<Rightarrow> (dir', Inr target))))))"

section \<open>When the next daily is due\<close>

definition daily_backup_wait :: "system_time option \<Rightarrow> system_time \<Rightarrow> duration" where
  "daily_backup_wait newest_daily_at now =
     (case newest_daily_at of
        None \<Rightarrow> 0
      | Some written \<Rightarrow> if written \<le> now then DAILY_BACKUP_INTERVAL - nat (now - written) else 0)"

definition daily_backup_written_at :: "string \<Rightarrow> system_time option" where
  "daily_backup_written_at file_name =
     (let suffix = ''-'' @ reason_str Daily @ ''.'' @ DATABASE_BACKUP_EXTENSION
      in case strip_prefix file_name DATABASE_BACKUP_PREFIX of
           None \<Rightarrow> None
         | Some a \<Rightarrow>
             (case strip_suffix a suffix of
                None \<Rightarrow> None
              | Some s \<Rightarrow>
                  (case stamp_moment s of
                     None \<Rightarrow> None
                   | Some written \<Rightarrow> if file_timestamp written = s then Some written else None)))"

record daily_backup =
  file_name :: string
  written_at :: system_time

fun dailies :: "string list \<Rightarrow> daily_backup list" where
  "dailies [] = []"
| "dailies (n # ns) =
     (case daily_backup_written_at n of
        None \<Rightarrow> dailies ns
      | Some w \<Rightarrow> \<lparr>file_name = n, written_at = w\<rparr> # dailies ns)"

text \<open>\<open>max_by_key\<close>: the last of the greatest.\<close>

fun max_written :: "daily_backup list \<Rightarrow> daily_backup option" where
  "max_written [] = None"
| "max_written (d # ds) =
     (case max_written ds of
        None \<Rightarrow> Some d
      | Some m \<Rightarrow> if written_at m < written_at d then Some d else Some m)"

definition newest_daily_backup :: "listing \<Rightarrow> system_time \<Rightarrow> daily_backup option" where
  "newest_daily_backup dir now =
     (case dir of
        Listing es \<Rightarrow> max_written (filter (\<lambda>d. written_at d \<le> now) (dailies (file_names es)))
      | _ \<Rightarrow> None)"

definition daily_backup_wait_line :: "duration \<Rightarrow> string \<Rightarrow> string" where
  "daily_backup_wait_line wait newest_daily =
     (let minutes = (wait + (60000000000 - 1)) div 60000000000
      in ''The next daily database backup is due in '' @ show_nat (minutes div 60) @ '' h ''
           @ show_nat (minutes mod 60) @ '' min; the newest daily is '' @ newest_daily @ ''.'')"

text \<open>
  The scheduler's looks, each the clock and the directory it finds: the lines it logs, and how
  many looks it took to return, \<open>None\<close> where the looks given end before it does.
\<close>

fun sleep_until_due :: "bool \<Rightarrow> (system_time \<times> listing) list \<Rightarrow> string list \<times> nat option" where
  "sleep_until_due log_wait [] = ([], None)"
| "sleep_until_due log_wait ((now, dir) # looks) =
     (let newest = newest_daily_backup dir now;
          wait = daily_backup_wait (map_option written_at newest) now
      in if wait = 0 then ([], Some 1)
         else (case sleep_until_due False looks of
                 (lines, n) \<Rightarrow>
                   ((case newest of
                       Some d \<Rightarrow> if log_wait then daily_backup_wait_line wait (file_name d) # lines else lines
                     | None \<Rightarrow> lines),
                    map_option Suc n)))"

section \<open>A file written durably\<close>

text \<open>
  A file's bytes are on the disk once flushed; before that a power cut may leave any of them or
  none. A step that fails leaves what the steps before it did, then the part file is removed.
\<close>

datatype stored = Flushed string | Unflushed string

type_synonym disk = "string \<rightharpoonup> stored"

datatype write_step = Create | WriteAll | SyncAll | Rename

definition part_name :: "string \<Rightarrow> string" where
  "part_name path = path @ ''.part''"

text \<open>
  The disk after each step, with \<open>ok\<close> telling which succeed, and whether the write did. The
  empty path names no file.
\<close>

definition write_durably :: "(write_step \<Rightarrow> bool) \<Rightarrow> string \<Rightarrow> string \<Rightarrow> disk \<Rightarrow> disk list \<times> bool" where
  "write_durably ok path bytes d0 =
     (let part = part_name path;
          d1 = d0(part \<mapsto> Unflushed []);
          d2 = d1(part \<mapsto> Unflushed bytes);
          d3 = d2(part \<mapsto> Flushed bytes);
          d4 = d3(path \<mapsto> Flushed bytes, part := None)
      in if path = [] then ([d0], False)
         else if \<not> ok Create then ([d0, d0(part := None)], False)
         else if \<not> ok WriteAll then ([d0, d1, d2, d2(part := None)], False)
         else if \<not> ok SyncAll then ([d0, d1, d2, d2(part := None)], False)
         else if \<not> ok Rename then ([d0, d1, d2, d3, d3(part := None)], False)
         else ([d0, d1, d2, d3, d4], True))"

text \<open>What a power cut may leave of a disk.\<close>

definition power_cut :: "disk \<Rightarrow> disk \<Rightarrow> bool" where
  "power_cut d d' \<longleftrightarrow> (\<forall>name. (\<forall>b. d name = Some (Flushed b) \<longrightarrow> d' name = Some (Flushed b)) \<and> (d name = None \<longrightarrow> d' name = None))"

section \<open>A backup's name says when and why it was written\<close>

lemma strip_prefix_append [simp]: "strip_prefix (p @ a) p = Some a"
  by (simp add: strip_prefix_def starts_with_iff)

lemma reason_of_name: "snapshot_reason_of (snapshot_name t r) = Some r"
proof -
  let ?stem = "file_timestamp t @ ''-'' @ reason_str r"
  have name: "snapshot_name t r = DATABASE_BACKUP_PREFIX @ ((?stem @ ''.'') @ DATABASE_BACKUP_EXTENSION)"
    by (simp add: snapshot_name_def)
  have "find (\<lambda>r'. ends_with ?stem (''-'' @ reason_str r')) all_reasons = Some r"
    by (cases r) (simp_all add: all_reasons_def ends_with_def)
  then show ?thesis unfolding name snapshot_reason_of_def strip_prefix_append option.case strip_suffix_append .
qed

lemma read_back_millis:
  "as_millis_since (int ms * 1000000) = ms"
  by (simp add: since_epoch_def as_millis_def nat_mult_distrib)

lemma name_tells_when_and_why':
  assumes "as_millis_since t < year_10000"
  shows "snapshot_reason_of (snapshot_name t r) = Some r
    \<and> daily_backup_written_at (snapshot_name t Daily) = Some (int (as_millis_since t) * 1000000)
    \<and> (as_millis_since earlier < as_millis_since t \<longrightarrow> snapshot_name earlier r < snapshot_name t r)"
proof (intro conjI impI)
  show "snapshot_reason_of (snapshot_name t r) = Some r" by (rule reason_of_name)
  let ?ms = "as_millis_since t"
  have ts: "file_timestamp t = stamp (CHR ''-'') (CHR ''-'') ?ms" by (rule stamps(1) [OF assms])
  then have "stamp_moment (file_timestamp t) = Some (int ?ms * 1000000)"
    by (simp add: stamp_read [OF assms])
  moreover have "file_timestamp (int ?ms * 1000000) = file_timestamp t"
    using assms ts stamps(1) [of "int ?ms * 1000000"] by (simp add: read_back_millis)
  moreover have name: "snapshot_name t Daily = DATABASE_BACKUP_PREFIX @
      (file_timestamp t @ (''-'' @ reason_str Daily @ ''.'' @ DATABASE_BACKUP_EXTENSION))"
    by (simp add: snapshot_name_def)
  ultimately show "daily_backup_written_at (snapshot_name t Daily) = Some (int ?ms * 1000000)"
    unfolding daily_backup_written_at_def Let_def name strip_prefix_append option.case strip_suffix_append by simp
  assume lt: "as_millis_since earlier < ?ms"
  with assms have ts': "file_timestamp earlier = stamp (CHR ''-'') (CHR ''-'') (as_millis_since earlier)"
    by (intro stamps(1)) simp
  have len: "length (stamp a b n) = length (stamp a b m)" for a b n m
    by (simp add: stamp_def split: prod.split)
  have "file_timestamp earlier < file_timestamp t" unfolding ts ts' by (rule stamp_order [OF lt assms])
  then show "snapshot_name earlier r < snapshot_name t r"
    unfolding snapshot_name_def by (simp add: lex_append len ts ts')
qed

text \<open>
  C18. A backup's name tells its reason and, for a daily, the moment it was written, to the
  millisecond; and the names of one reason sort as the moments they were written.
\<close>

theorem name_tells_when_and_why:
  assumes "as_millis_since t < year_10000"
  shows "snapshot_reason_of (snapshot_name t r) = Some r
    \<and> daily_backup_written_at (snapshot_name t Daily) = Some (int (as_millis_since t) * 1000000)
    \<and> (as_millis_since earlier < as_millis_since t \<longrightarrow> snapshot_name earlier r < snapshot_name t r)"
  by (rule name_tells_when_and_why' [OF assms])

theorem name_tells_when_and_why_witness:
  "daily_backup_written_at (snapshot_name 1790000000123456789 Daily) = Some 1790000000123000000
   \<and> snapshot_name 5 Shutdown < snapshot_name 1790000000123456789 Shutdown"
proof -
  have ms: "as_millis_since 1790000000123456789 = 1790000000123" "as_millis_since 5 = 0"
    by (simp_all add: since_epoch_def as_millis_def)
  then have "as_millis_since 1790000000123456789 < year_10000" by (simp add: year_10000_def)
  from name_tells_when_and_why [OF this, of Shutdown 5] show ?thesis unfolding ms by simp
qed

section \<open>The newest stay\<close>

lemma remove_files_ok:
  "remove_files can names es removed = (es', Inr out) \<Longrightarrow>
     es' = filter (\<lambda>e. \<forall>n f. e = Entry n f \<longrightarrow> n \<notin> set names) es \<and> out = removed @ names"
proof (induction names arbitrary: es removed)
  case Nil
  then show ?case by simp
next
  case (Cons name names)
  then have "remove_files can names (without name es) (removed @ [name]) = (es', Inr out)"
    by (simp split: if_splits)
  from Cons.IH [OF this]
  have ih: "es' = filter (\<lambda>e. \<forall>n f. e = Entry n f \<longrightarrow> n \<notin> set names) (without name es)"
    "out = removed @ name # names"
    by simp_all
  then show ?case by (auto simp: without_def intro!: filter_cong split: dir_entry.splits)
qed

lemma file_names_filter:
  "file_names (filter (\<lambda>e. \<forall>n f. e = Entry n f \<longrightarrow> n \<notin> N) es) = filter (\<lambda>n. n \<notin> N) (file_names es)"
  by (induction es rule: file_names.induct) auto

lemma take_sort_facts:
  assumes "distinct xs"
  shows "length (filter (\<lambda>n. n \<notin> set (take k (sort xs))) xs) = length xs - k"
    and "n \<in> set (take k (sort xs)) \<Longrightarrow> m \<in> set xs \<Longrightarrow> m \<notin> set (take k (sort xs)) \<Longrightarrow> n < (m :: 'a :: linorder)"
proof -
  let ?s = "sort xs"
  have d: "distinct ?s" using assms by simp
  have "length (filter (\<lambda>n. n \<notin> set (take k ?s)) xs) = card (set xs - set (take k ?s))"
    using assms by (simp add: distinct_card [symmetric] set_diff_eq)
  also have "\<dots> = card (set ?s) - card (set (take k ?s))"
    using set_take_subset [of k ?s] by (subst card_Diff_subset) auto
  also have "\<dots> = length xs - k" using d assms by (simp add: distinct_card)
  finally show "length (filter (\<lambda>n. n \<notin> set (take k ?s)) xs) = length xs - k" .
  assume n: "n \<in> set (take k ?s)" and m: "m \<in> set xs" "m \<notin> set (take k ?s)"
  then have "m \<in> set (drop k ?s)" by (metis UnE append_take_drop_id set_append set_sort)
  moreover have "sorted (take k ?s @ drop k ?s)" by simp
  ultimately have "n \<le> m" using n unfolding sorted_append by blast
  with n m show "n < m" by (metis order_less_le)
qed

lemma excess_reason: "n \<in> set (excess_of all r) \<Longrightarrow> snapshot_reason_of n = Some r \<and> n \<in> set all"
  by (auto simp: excess_of_def Let_def dest: in_set_takeD)

lemma all_reasons_all: "r \<in> set all_reasons"
  by (cases r) (simp_all add: all_reasons_def)

lemma prune_keeps_the_newest':
  assumes "prune_snapshots can (Listing es) = (Listing es', Inr removed)" and "distinct (file_names es)"
  shows "(\<forall>r. let had = filter (\<lambda>n. snapshot_reason_of n = Some r) (file_names es);
                kept = filter (\<lambda>n. snapshot_reason_of n = Some r) (file_names es')
            in length kept = min (length had) (retention r)
               \<and> (\<forall>gone \<in> set had - set kept. \<forall>n \<in> set kept. gone < n))
     \<and> (\<forall>n \<in> set removed. n \<in> set (file_names es) \<and> snapshot_reason_of n \<noteq> None)
     \<and> (\<forall>e \<in> set es. e \<in> set es' \<or> (\<exists>n f. e = Entry n f \<and> n \<in> set removed))"
proof -
  let ?out = "concat (map (excess_of (file_names es)) all_reasons)"
  from assms(1) have "remove_files can ?out es [] = (es', Inr removed)"
    by (auto simp: prune_snapshots_def split: if_splits prod.splits)
  from remove_files_ok [OF this]
  have es': "es' = filter (\<lambda>e. \<forall>n f. e = Entry n f \<longrightarrow> n \<notin> set ?out) es" and out: "removed = ?out" by auto
  have names: "file_names es' = filter (\<lambda>n. n \<notin> set ?out) (file_names es)"
    unfolding es' by (rule file_names_filter)
  have of_reason: "n \<in> set ?out \<longleftrightarrow> n \<in> set (excess_of (file_names es) r)" if "snapshot_reason_of n = Some r" for n r
    using that excess_reason all_reasons_all [of r] by fastforce
  show ?thesis
  proof (intro conjI allI ballI)
    fix r
    let ?had = "filter (\<lambda>n. snapshot_reason_of n = Some r) (file_names es)"
    let ?k = "length ?had - retention r"
    let ?kept = "filter (\<lambda>n. n \<notin> set (take ?k (sort ?had))) ?had"
    have kept: "filter (\<lambda>n. snapshot_reason_of n = Some r) (file_names es') = ?kept"
      unfolding names filter_filter
    proof (rule filter_cong [OF refl])
      fix n
      have ex: "excess_of (file_names es) r = take ?k (sort ?had)" by (simp add: excess_of_def Let_def)
      show "(n \<notin> set ?out \<and> snapshot_reason_of n = Some r)
          = (snapshot_reason_of n = Some r \<and> n \<notin> set (take ?k (sort ?had)))"
        using of_reason [of n r] unfolding ex by blast
    qed
    have d: "distinct ?had" using assms(2) by simp
    have "length ?kept = min (length ?had) (retention r)"
      using take_sort_facts(1) [OF d, of ?k] by simp
    moreover have "gone < n" if "gone \<in> set ?had - set ?kept" "n \<in> set ?kept" for gone n
      using take_sort_facts(2) [OF d, of gone ?k n] that by auto
    ultimately show "let had = ?had; kept = filter (\<lambda>n. snapshot_reason_of n = Some r) (file_names es')
        in length kept = min (length had) (retention r) \<and> (\<forall>gone \<in> set had - set kept. \<forall>n \<in> set kept. gone < n)"
      unfolding kept Let_def by blast
  next
    fix n assume "n \<in> set removed"
    then obtain r where "n \<in> set (excess_of (file_names es) r)" unfolding out by auto
    from excess_reason [OF this] show "n \<in> set (file_names es)" "snapshot_reason_of n \<noteq> None" by auto
  next
    fix e assume "e \<in> set es"
    then show "e \<in> set es' \<or> (\<exists>n f. e = Entry n f \<and> n \<in> set removed)"
      unfolding es' out by (cases e) auto
  qed
qed

text \<open>
  Cn. Pruning removes, of each reason, the oldest beyond its retention and nothing else: as many
  stay as the retention allows, each older than none that was removed, and whatever is no
  backup of the engine's stays.
\<close>

theorem prune_keeps_the_newest:
  assumes "prune_snapshots can (Listing es) = (Listing es', Inr removed)" and "distinct (file_names es)"
  shows "(\<forall>r. let had = filter (\<lambda>n. snapshot_reason_of n = Some r) (file_names es);
                kept = filter (\<lambda>n. snapshot_reason_of n = Some r) (file_names es')
            in length kept = min (length had) (retention r)
               \<and> (\<forall>gone \<in> set had - set kept. \<forall>n \<in> set kept. gone < n))
     \<and> (\<forall>n \<in> set removed. n \<in> set (file_names es) \<and> snapshot_reason_of n \<noteq> None)
     \<and> (\<forall>e \<in> set es. e \<in> set es' \<or> (\<exists>n f. e = Entry n f \<and> n \<in> set removed))"
  using prune_keeps_the_newest' [OF assms] .

definition four_shutdowns :: "dir_entry list" where
  "four_shutdowns = [Entry ''db-3-shutdown.sqlite3'' True, Entry ''notes.txt'' True, Entry ''db-1-shutdown.sqlite3'' True,
     Entry ''db-4-shutdown.sqlite3'' True, Entry ''db-2-shutdown.sqlite3'' True]"

theorem prune_keeps_the_newest_witness:
  "prune_snapshots (\<lambda>_. True) (Listing four_shutdowns)
     = (Listing (without ''db-1-shutdown.sqlite3'' four_shutdowns), Inr [''db-1-shutdown.sqlite3''])
   \<and> Entry ''notes.txt'' True \<in> set (without ''db-1-shutdown.sqlite3'' four_shutdowns)"
proof -
  have names: "file_names four_shutdowns = [''db-3-shutdown.sqlite3'', ''notes.txt'', ''db-1-shutdown.sqlite3'',
      ''db-4-shutdown.sqlite3'', ''db-2-shutdown.sqlite3'']"
    unfolding four_shutdowns_def by (simp add: utf8_valid_ascii)
  have reasons: "snapshot_reason_of ''db-3-shutdown.sqlite3'' = Some Shutdown" "snapshot_reason_of ''notes.txt'' = None"
    "snapshot_reason_of ''db-1-shutdown.sqlite3'' = Some Shutdown" "snapshot_reason_of ''db-4-shutdown.sqlite3'' = Some Shutdown"
    "snapshot_reason_of ''db-2-shutdown.sqlite3'' = Some Shutdown"
    by (simp_all add: snapshot_reason_of_def strip_prefix_def strip_suffix_def ends_with_def all_reasons_def
        DATABASE_BACKUP_PREFIX_def DATABASE_BACKUP_EXTENSION_def)
  have "excess_of (file_names four_shutdowns) Shutdown = [''db-1-shutdown.sqlite3'']"
    unfolding names excess_of_def Let_def filter.simps reasons
    by (simp add: Cons_le_Cons less_char_def less_eq_char_def)
  moreover have "excess_of (file_names four_shutdowns) r = []" if "r \<noteq> Shutdown" for r
    unfolding names excess_of_def Let_def filter.simps reasons using that by simp
  moreover have "Unreadable \<notin> set four_shutdowns" by (simp add: four_shutdowns_def)
  ultimately have p: "prune_snapshots (\<lambda>_. True) (Listing four_shutdowns)
     = (Listing (without ''db-1-shutdown.sqlite3'' four_shutdowns), Inr [''db-1-shutdown.sqlite3''])"
    by (simp add: prune_snapshots_def all_reasons_def)
  have "distinct (file_names four_shutdowns)" unfolding names by simp
  note stays = conjunct2 [OF conjunct2 [OF prune_keeps_the_newest [OF p this]]]
  have "Entry ''notes.txt'' True \<in> set four_shutdowns" by (simp add: four_shutdowns_def)
  from bspec [OF stays this] have "Entry ''notes.txt'' True \<in> set (without ''db-1-shutdown.sqlite3'' four_shutdowns)"
    by auto
  with p show ?thesis by simp
qed

section \<open>The next daily\<close>

lemma max_written_facts:
  "max_written ds = None \<longleftrightarrow> ds = []"
  "max_written ds = Some m \<Longrightarrow> m \<in> set ds \<and> (\<forall>d \<in> set ds. written_at d \<le> written_at m)"
  by (induction ds arbitrary: m) (auto split: option.splits if_splits)

text \<open>
  The next daily is due at once exactly when no daily on disk was written in the day that
  ends now; else it is due a day after the newest of those, which is never more than a day away.
\<close>

theorem daily_due_once_a_day:
  fixes es :: "dir_entry list" and now :: system_time
  defines "wait \<equiv> daily_backup_wait (map_option written_at (newest_daily_backup (Listing es) now)) now"
    and "recent \<equiv> filter (\<lambda>d. now - int DAILY_BACKUP_INTERVAL < written_at d \<and> written_at d \<le> now) (dailies (file_names es))"
  shows "(wait = 0 \<longleftrightarrow> recent = [])
    \<and> (wait \<noteq> 0 \<longrightarrow> wait \<le> DAILY_BACKUP_INTERVAL
         \<and> (\<exists>d \<in> set recent. now + int wait = written_at d + int DAILY_BACKUP_INTERVAL
              \<and> (\<forall>d' \<in> set recent. written_at d' \<le> written_at d)))"
proof (cases "newest_daily_backup (Listing es) now")
  case None
  then have "filter (\<lambda>d. written_at d \<le> now) (dailies (file_names es)) = []"
    by (simp add: newest_daily_backup_def max_written_facts(1))
  then have "recent = []" unfolding recent_def by (auto simp: filter_empty_conv)
  with None show ?thesis unfolding wait_def by (simp add: daily_backup_wait_def)
next
  case (Some m)
  then have m: "m \<in> set (dailies (file_names es))" "written_at m \<le> now"
    and top: "d \<in> set (dailies (file_names es)) \<Longrightarrow> written_at d \<le> now \<Longrightarrow> written_at d \<le> written_at m" for d
    using max_written_facts(2) [of "filter (\<lambda>d. written_at d \<le> now) (dailies (file_names es))" m]
    by (simp_all add: newest_daily_backup_def)
  have wait: "wait = DAILY_BACKUP_INTERVAL - nat (now - written_at m)"
    using Some m(2) unfolding wait_def by (simp add: daily_backup_wait_def)
  show ?thesis
  proof (cases "now - int DAILY_BACKUP_INTERVAL < written_at m")
    case True
    then have r: "m \<in> set recent" using m unfolding recent_def by simp
    have w: "int wait = written_at m + int DAILY_BACKUP_INTERVAL - now" "wait \<noteq> 0"
      using True m(2) unfolding wait by linarith+
    then have "now + int wait = written_at m + int DAILY_BACKUP_INTERVAL" by simp
    moreover have "\<forall>d' \<in> set recent. written_at d' \<le> written_at m" using top unfolding recent_def by simp
    moreover have "wait \<le> DAILY_BACKUP_INTERVAL" unfolding wait by simp
    moreover have "recent \<noteq> []" using r by auto
    ultimately show ?thesis using r w(2) by blast
  next
    case False
    then have "recent = []" using top unfolding recent_def filter_empty_conv by force
    moreover have "wait = 0" using False m(2) unfolding wait by linarith
    ultimately show ?thesis by simp
  qed
qed

section \<open>A power cut\<close>

text \<open>
  C19. A file is written whole or not at all: whatever step fails, and whenever the power is cut,
  the disk holds the old file or all of the new; and where the write says it succeeded, the new.
\<close>

theorem power_cut_leaves_old_or_new:
  assumes "d0 path = None \<or> (\<exists>old. d0 path = Some (Flushed old))"
  shows "(\<forall>d \<in> set (fst (write_durably ok path bytes d0)). \<forall>left. power_cut d left \<longrightarrow>
            left path = d0 path \<or> left path = Some (Flushed bytes))
     \<and> (snd (write_durably ok path bytes d0) \<longrightarrow>
          last (fst (write_durably ok path bytes d0)) = d0(path \<mapsto> Flushed bytes, part_name path := None))"
proof -
  have other: "part_name path \<noteq> path" by (simp add: part_name_def)
  have cut: "left path = d0 path \<or> left path = Some (Flushed bytes)"
    if "power_cut d left" "d path = d0 path \<or> d path = Some (Flushed bytes)" for d left
    using that assms unfolding power_cut_def by metis
  have "\<forall>d \<in> set (fst (write_durably ok path bytes d0)). d path = d0 path \<or> d path = Some (Flushed bytes)"
    using other by (auto simp: write_durably_def Let_def)
  moreover have "snd (write_durably ok path bytes d0) \<Longrightarrow>
      last (fst (write_durably ok path bytes d0)) = d0(path \<mapsto> Flushed bytes, part_name path := None)"
    using other by (auto simp: write_durably_def Let_def fun_eq_iff split: if_splits)
  ultimately show ?thesis using cut by blast
qed

theorem power_cut_leaves_old_or_new_witness:
  "last (fst (write_durably (\<lambda>_. True) ''a'' ''new'' Map.empty)) ''a'' = Some (Flushed ''new'')"
  using power_cut_leaves_old_or_new [of Map.empty "''a''" "\<lambda>_. True" "''new''"]
  by (simp add: write_durably_def Let_def part_name_def)

section \<open>Only good copies stay\<close>

lemma reserved_is_free:
  "reserve_from n clock taken reason k = Some name \<Longrightarrow>
     \<not> taken name \<and> (\<exists>j. k \<le> j \<and> j < k + n \<and> name = snapshot_name (clock j) reason)"
proof (induction n arbitrary: k)
  case 0
  then show ?case by simp
next
  case (Suc n)
  show ?case
  proof (cases "taken (snapshot_name (clock k) reason)")
    case True
    with Suc.prems have "reserve_from n clock taken reason (Suc k) = Some name" by (simp add: Let_def)
    from Suc.IH [OF this] obtain j where "\<not> taken name" "Suc k \<le> j" "j < Suc k + n" "name = snapshot_name (clock j) reason"
      by blast
    then show ?thesis by (intro conjI exI [of _ j]) auto
  next
    case False
    with Suc.prems have "name = snapshot_name (clock k) reason" by (simp add: Let_def)
    with False show ?thesis by (intro conjI exI [of _ k]) auto
  qed
qed

lemma remove_files_subset: "remove_files can names es removed = (es', out) \<Longrightarrow> set es' \<subseteq> set es"
proof (induction names arbitrary: es removed)
  case (Cons name names)
  have "set (without name es) \<subseteq> set es" by (auto simp: without_def)
  with Cons.prems Cons.IH [of "without name es" "removed @ [name]"] show ?case
    by (cases "can name") auto
qed simp

lemma prune_subset: "prune_snapshots can (Listing es) = (dir, out) \<Longrightarrow> \<exists>es'. dir = Listing es' \<and> set es' \<subseteq> set es"
  by (auto simp: prune_snapshots_def split: if_splits prod.splits dest: remove_files_subset)

lemma without_new: "\<not> has_name es name \<Longrightarrow> without name (es @ [Entry name True]) = es"
  by (auto simp: has_name_def without_def filter_id_conv split: dir_entry.splits)

lemma file_names_in: "n \<in> set (file_names es) \<longleftrightarrow> Entry n True \<in> set es \<and> utf8_valid n"
  by (induction es rule: file_names.induct) auto


text \<open>
  Where the clock was set back, so that as many backups of the reason are dated later as the
  retention keeps, the copy just made is the oldest by name: it is pruned at once, and the
  backup still reports it.
\<close>

theorem copy_of_a_clock_set_back_is_pruned:
  assumes pruned: "prune_snapshots can (Listing (es @ [Entry target True])) = (Listing es', Inr removed)"
    and names: "distinct (file_names (es @ [Entry target True]))"
    and later: "\<forall>n \<in> set (file_names es). snapshot_reason_of n = Some reason \<longrightarrow> target < n"
    and full: "retention reason \<le> length (filter (\<lambda>n. snapshot_reason_of n = Some reason) (file_names es))"
    and new: "utf8_valid target" "snapshot_reason_of target = Some reason"
  shows "target \<notin> set (file_names es')"
proof
  assume still: "target \<in> set (file_names es')"
  have app: "file_names (es @ [Entry target True]) = file_names es @ [target]"
    using new(1) by (induction es rule: file_names.induct) auto
  let ?had = "filter (\<lambda>n. snapshot_reason_of n = Some reason) (file_names (es @ [Entry target True]))"
  let ?kept = "filter (\<lambda>n. snapshot_reason_of n = Some reason) (file_names es')"
  note facts = conjunct1 [OF prune_keeps_the_newest' [OF pruned names], rule_format, of reason, unfolded Let_def]
  have "length ?kept = min (length ?had) (retention reason)" using facts by blast
  moreover have "length ?had = Suc (length (filter (\<lambda>n. snapshot_reason_of n = Some reason) (file_names es)))"
    unfolding app using new(2) by simp
  ultimately have "length ?kept < length ?had" using full by linarith
  moreover have "distinct ?had" using names by simp
  ultimately have "card (set ?kept) < card (set ?had)"
    using card_length [of ?kept] distinct_card [of ?had] by linarith
  then have "\<not> set ?had \<subseteq> set ?kept" using card_mono [OF finite_set, of "set ?had" ?kept] by linarith
  then obtain gone where gone: "gone \<in> set ?had - set ?kept" by blast
  have "target \<in> set ?kept" using still new(2) by simp
  then have "gone < target" using facts gone by blast
  moreover have "gone = target \<or> target < gone" using gone later unfolding app by (auto split: if_splits)
  ultimately show False by auto
qed

section \<open>Witnesses\<close>

abbreviation (input) a_moment :: system_time where
  "a_moment \<equiv> 1790000000123000000"

lemma a_moment_millis: "as_millis_since a_moment = 1790000000123"
  by (simp add: since_epoch_def as_millis_def)

lemma a_moment_early: "as_millis_since a_moment < year_10000"
  by (simp add: a_moment_millis year_10000_def)

lemma name_utf8: "utf8_valid (snapshot_name a_moment r)"
proof (rule utf8_valid_ascii)
  have "list_all (\<lambda>c. code c < 128) (reason_str r)" by (cases r) simp_all
  moreover have "list_all (\<lambda>c. code c < 128) (stamp (CHR ''-'') (CHR ''-'') ms)" for ms
    by (simp add: stamp_def digits_below_128 split: prod.split)
  ultimately show "list_all (\<lambda>c. code c < 128) (snapshot_name a_moment r)"
    by (simp add: snapshot_name_def stamps(1) [OF a_moment_early] DATABASE_BACKUP_PREFIX_def DATABASE_BACKUP_EXTENSION_def)
qed

theorem daily_due_once_a_day_witness:
  "daily_backup_wait (map_option written_at
       (newest_daily_backup (Listing [Entry (snapshot_name a_moment Daily) True]) (a_moment + 3600000000000)))
     (a_moment + 3600000000000) = from_secs (23 * 60 * 60)"
proof -
  let ?es = "[Entry (snapshot_name a_moment Daily) True]" and ?now = "a_moment + 3600000000000"
  have w: "daily_backup_written_at (snapshot_name a_moment Daily) = Some a_moment"
    using name_tells_when_and_why' [OF a_moment_early] by (simp add: a_moment_millis)
  then have d: "dailies (file_names ?es) = [\<lparr>file_name = snapshot_name a_moment Daily, written_at = a_moment\<rparr>]"
    using name_utf8 by simp
  from daily_due_once_a_day [of ?es ?now] show ?thesis
    unfolding d by (simp add: DAILY_BACKUP_INTERVAL_def)
qed


end
