(* ===== verification/Sha256.thy ===== *)
theory Sha256
  imports Text_Std "HOL-Library.Word"
begin

text \<open>
  The checksum the pictures helper holds NDI's library to (\<open>pictures-link/src/sha256.rs\<close>): the
  compression of one block, the digest of any bytes, and the pin read from the text of
  \<open>ndi-library.json\<close>. Against them stands FIPS 180-4's own description: the message padded as
  a whole, the schedule as a recursion, the named functions. A byte is a word of 8 bits.
\<close>

definition K :: "32 word list" where
  "K =
     [0x428a2f98, 0x71374491, 0xb5c0fbcf, 0xe9b5dba5, 0x3956c25b, 0x59f111f1, 0x923f82a4, 0xab1c5ed5] @
     [0xd807aa98, 0x12835b01, 0x243185be, 0x550c7dc3, 0x72be5d74, 0x80deb1fe, 0x9bdc06a7, 0xc19bf174] @
     [0xe49b69c1, 0xefbe4786, 0x0fc19dc6, 0x240ca1cc, 0x2de92c6f, 0x4a7484aa, 0x5cb0a9dc, 0x76f988da] @
     [0x983e5152, 0xa831c66d, 0xb00327c8, 0xbf597fc7, 0xc6e00bf3, 0xd5a79147, 0x06ca6351, 0x14292967] @
     [0x27b70a85, 0x2e1b2138, 0x4d2c6dfc, 0x53380d13, 0x650a7354, 0x766a0abb, 0x81c2c92e, 0x92722c85] @
     [0xa2bfe8a1, 0xa81a664b, 0xc24b8b70, 0xc76c51a3, 0xd192e819, 0xd6990624, 0xf40e3585, 0x106aa070] @
     [0x19a4c116, 0x1e376c08, 0x2748774c, 0x34b0bcb5, 0x391c0cb3, 0x4ed8aa4a, 0x5b9cca4f, 0x682e6ff3] @
     [0x748f82ee, 0x78a5636f, 0x84c87814, 0x8cc70208, 0x90befffa, 0xa4506ceb, 0xbef9a3f7, 0xc67178f2]"

definition START :: "32 word list" where
  "START = [0x6a09e667, 0xbb67ae85, 0x3c6ef372, 0xa54ff53a, 0x510e527f, 0x9b05688c, 0x1f83d9ab, 0x5be0cd19]"

section \<open>One block\<close>

fun be_word :: "8 word list \<Rightarrow> 32 word" where
  "be_word [a, b, c, d] = or (push_bit 24 (ucast a)) (or (push_bit 16 (ucast b)) (or (push_bit 8 (ucast c)) (ucast d)))"
| "be_word _ = 0"

text \<open>\<open>block.chunks_exact(4)\<close>, each as a word.\<close>

fun words_of :: "8 word list \<Rightarrow> 32 word list" where
  "words_of (a # b # c # d # bs) = be_word [a, b, c, d] # words_of bs"
| "words_of _ = []"

definition load :: "8 word list \<Rightarrow> 32 word list" where
  "load block = take 64 (words_of block @ replicate 64 0)"

definition extend_step :: "nat \<Rightarrow> 32 word list \<Rightarrow> 32 word list" where
  "extend_step i w =
     (let s0 = xor (word_rotr 7 (w ! (i - 15))) (xor (word_rotr 18 (w ! (i - 15))) (drop_bit 3 (w ! (i - 15))));
          s1 = xor (word_rotr 17 (w ! (i - 2))) (xor (word_rotr 19 (w ! (i - 2))) (drop_bit 10 (w ! (i - 2))))
      in w[i := w ! (i - 16) + s0 + w ! (i - 7) + s1])"

definition schedule :: "8 word list \<Rightarrow> 32 word list" where
  "schedule block = fold extend_step [16..<64] (load block)"

type_synonym letters = "32 word \<times> 32 word \<times> 32 word \<times> 32 word \<times> 32 word \<times> 32 word \<times> 32 word \<times> 32 word"

definition round_step :: "32 word list \<Rightarrow> nat \<Rightarrow> letters \<Rightarrow> letters" where
  "round_step w i letters =
     (case letters of (a, b, c, d, e, f, g, h) \<Rightarrow>
        (let s1 = xor (word_rotr 6 e) (xor (word_rotr 11 e) (word_rotr 25 e));
             choice = xor (and e f) (and (not e) g);
             t1 = h + s1 + choice + K ! i + w ! i;
             s0 = xor (word_rotr 2 a) (xor (word_rotr 13 a) (word_rotr 22 a));
             majority = xor (and a b) (xor (and a c) (and b c));
             t2 = s0 + majority
         in (t1 + t2, a, b, c, d + t1, e, f, g)))"

fun letters_of :: "32 word list \<Rightarrow> letters" where
  "letters_of [a, b, c, d, e, f, g, h] = (a, b, c, d, e, f, g, h)"
| "letters_of _ = (0, 0, 0, 0, 0, 0, 0, 0)"

definition compress :: "32 word list \<Rightarrow> 8 word list \<Rightarrow> 32 word list" where
  "compress state block =
     (case fold (round_step (schedule block)) [0..<64] (letters_of state) of
        (a, b, c, d, e, f, g, h) \<Rightarrow> map2 (+) state [a, b, c, d, e, f, g, h])"

section \<open>The digest\<close>

text \<open>\<open>chunks_exact(64)\<close>: the whole blocks, and the remainder.\<close>

function chunks :: "8 word list \<Rightarrow> 8 word list list \<times> 8 word list" where
  "chunks bytes =
     (if length bytes < 64 then ([], bytes)
      else (case chunks (drop 64 bytes) of (blocks, rest) \<Rightarrow> (take 64 bytes # blocks, rest)))"
  by pat_completeness auto
termination
  by (relation "measure length") auto

declare chunks.simps [simp del]

definition be64 :: "64 word \<Rightarrow> 8 word list" where
  "be64 w = map (\<lambda>k. ucast (drop_bit (8 * k) w)) [7, 6, 5, 4, 3, 2, 1, 0]"

fun hex_digits :: "nat \<Rightarrow> nat \<Rightarrow> string" where
  "hex_digits 0 v = []"
| "hex_digits (Suc n) v = hex_digits n (v div 16) @ [hex_char (v mod 16)]"

text \<open>\<open>{word:08x}\<close>: a word of 32 bits never has more than the eight digits.\<close>

definition hex8 :: "32 word \<Rightarrow> string" where
  "hex8 w = hex_digits 8 (unat w)"

definition tail_of :: "nat \<Rightarrow> 8 word list \<Rightarrow> 8 word list" where
  "tail_of len rest =
     (let zeros = replicate 128 0;
          t1 = rest @ drop (length rest) zeros;
          t2 = t1[length rest := 0x80];
          n = (if length rest < 56 then 64 else 128);
          bits = of_nat len * (8 :: 64 word)
      in take n (take (n - 8) t2 @ be64 bits @ drop n t2))"

definition sha256_hex :: "8 word list \<Rightarrow> string" where
  "sha256_hex bytes =
     (case chunks bytes of
        (blocks, rest) \<Rightarrow>
          concat (map hex8 (foldl compress (foldl compress START blocks) (fst (chunks (tail_of (length bytes) rest))))))"

section \<open>The pin\<close>

text \<open>\<open>pin.find(KEY)\<close>, and what follows the key.\<close>

fun after_first :: "string \<Rightarrow> string \<Rightarrow> string option" where
  "after_first key s =
     (if starts_with s key then Some (drop (length key) s)
      else (case s of [] \<Rightarrow> None | _ # r \<Rightarrow> after_first key r))"

declare after_first.simps [simp del]

definition lower_hex :: "char \<Rightarrow> bool" where
  "lower_hex c \<longleftrightarrow> is_ascii_digit c \<or> (97 \<le> code c \<and> code c \<le> 102)"

definition pinned_sha256 :: "string \<Rightarrow> string option" where
  "pinned_sha256 pin =
     (case after_first (CHR 34 # ''sha256'' @ [CHR 34]) pin of
        None \<Rightarrow> None
      | Some after \<Rightarrow>
          (case strip_prefix (trim_start after) '':'' of
             None \<Rightarrow> None
           | Some a \<Rightarrow>
               (case strip_prefix (trim_start a) [CHR 34] of
                  None \<Rightarrow> None
                | Some quoted \<Rightarrow>
                    (case split_once (CHR 34) quoted of
                       None \<Rightarrow> None
                     | Some (value, _) \<Rightarrow>
                         if length value = 64 \<and> list_all lower_hex value then Some value else None))))"

section \<open>The library held to the pin\<close>

text \<open>
  \<open>library_matches_pin\<close> of \<open>pictures-link/src/vmix.rs\<close>: \<open>pin\<close> is the file compiled in, \<open>read\<close> what
  reading the library's file gave, \<open>Inl\<close> the system's error or \<open>Inr\<close> its bytes.
\<close>

definition library_matches_pin :: "string \<Rightarrow> string + 8 word list \<Rightarrow> string + unit" where
  "library_matches_pin pin read =
     (case pinned_sha256 pin of
        None \<Rightarrow> Inl ''the pin holds no SHA-256''
      | Some pinned \<Rightarrow>
          (case read of
             Inl error \<Rightarrow> Inl (''could not be read: '' @ error)
           | Inr bytes \<Rightarrow>
               (let digest = sha256_hex bytes
                in if digest \<noteq> pinned
                   then Inl (''is not the pinned file: its SHA-256 is '' @ digest @ '', the pin's '' @ pinned)
                   else Inr ())))"

section \<open>FIPS 180-4\<close>

definition Ch :: "32 word \<Rightarrow> 32 word \<Rightarrow> 32 word \<Rightarrow> 32 word" where
  "Ch x y z = xor (and x y) (and (not x) z)"
definition Maj :: "32 word \<Rightarrow> 32 word \<Rightarrow> 32 word \<Rightarrow> 32 word" where
  "Maj x y z = xor (and x y) (xor (and x z) (and y z))"
definition Sum0 :: "32 word \<Rightarrow> 32 word" where
  "Sum0 x = xor (word_rotr 2 x) (xor (word_rotr 13 x) (word_rotr 22 x))"
definition Sum1 :: "32 word \<Rightarrow> 32 word" where
  "Sum1 x = xor (word_rotr 6 x) (xor (word_rotr 11 x) (word_rotr 25 x))"
definition sig0 :: "32 word \<Rightarrow> 32 word" where
  "sig0 x = xor (word_rotr 7 x) (xor (word_rotr 18 x) (drop_bit 3 x))"
definition sig1 :: "32 word \<Rightarrow> 32 word" where
  "sig1 x = xor (word_rotr 17 x) (xor (word_rotr 19 x) (drop_bit 10 x))"

text \<open>The schedule of a message block \<open>M\<close> of sixteen words.\<close>

fun W :: "32 word list \<Rightarrow> nat \<Rightarrow> 32 word" where
  "W M t = (if t < 16 then M ! t else sig1 (W M (t - 2)) + W M (t - 7) + sig0 (W M (t - 15)) + W M (t - 16))"

declare W.simps [simp del]

fun fips_rounds :: "32 word list \<Rightarrow> nat \<Rightarrow> letters \<Rightarrow> letters" where
  "fips_rounds M 0 v = v"
| "fips_rounds M (Suc t) v =
     (case fips_rounds M t v of (a, b, c, d, e, f, g, h) \<Rightarrow>
        (let T1 = h + Sum1 e + Ch e f g + K ! t + W M t; T2 = Sum0 a + Maj a b c
         in (T1 + T2, a, b, c, d + T1, e, f, g)))"

definition fips_block :: "32 word list \<Rightarrow> 8 word list \<Rightarrow> 32 word list" where
  "fips_block H block =
     (case fips_rounds (words_of block) 64 (letters_of H) of
        (a, b, c, d, e, f, g, h) \<Rightarrow> map2 (+) H [a, b, c, d, e, f, g, h])"

text \<open>A one bit, the fewest zeros that fill the last block, and the length in bits.\<close>

definition fips_pad :: "8 word list \<Rightarrow> 8 word list" where
  "fips_pad bytes =
     bytes @ [0x80] @ replicate ((119 - length bytes mod 64) mod 64) 0 @ be64 (of_nat (8 * length bytes))"

definition fips_sha256_hex :: "8 word list \<Rightarrow> string" where
  "fips_sha256_hex bytes = concat (map hex8 (foldl fips_block START (fst (chunks (fips_pad bytes)))))"

section \<open>The schedule in place is the recursion\<close>

lemma words_of_length: "length (words_of bs) = length bs div 4"
  by (induction bs rule: words_of.induct) auto

lemma load_nth:
  assumes "length block = 64" "t < 16"
  shows "load block ! t = words_of block ! t"
  using assms by (simp add: load_def nth_append words_of_length)

lemma extend_step_W:
  assumes "16 \<le> i" "\<And>t. t < i \<Longrightarrow> w ! t = W M t"
  shows "extend_step i w = w[i := W M i]"
proof -
  have "w ! (i - 15) = W M (i - 15)" "w ! (i - 2) = W M (i - 2)" "w ! (i - 16) = W M (i - 16)" "w ! (i - 7) = W M (i - 7)"
    using assms by auto
  moreover have "W M i = sig1 (W M (i - 2)) + W M (i - 7) + sig0 (W M (i - 15)) + W M (i - 16)"
    using assms(1) by (simp add: W.simps [of M i])
  ultimately show ?thesis by (simp add: extend_step_def Let_def sig0_def sig1_def algebra_simps)
qed

lemma extend_schedule:
  assumes "length block = 64" "n \<le> 48"
  shows "length (fold extend_step [16..<16 + n] (load block)) = 64
    \<and> (\<forall>t < 16 + n. fold extend_step [16..<16 + n] (load block) ! t = W (words_of block) t)"
  using assms(2)
proof (induction n)
  case 0
  then show ?case
    using assms(1) load_nth [OF assms(1)] by (simp add: load_def words_of_length W.simps)
next
  case (Suc n)
  let ?w = "fold extend_step [16..<16 + n] (load block)" and ?i = "16 + n"
  from Suc have len: "length ?w = 64" and w: "\<And>t. t < ?i \<Longrightarrow> ?w ! t = W (words_of block) t" by auto
  have "[16..<16 + Suc n] = [16..<16 + n] @ [?i]" by (simp only: add_Suc_right upt_Suc) simp
  then have "fold extend_step [16..<16 + Suc n] (load block) = extend_step ?i ?w" by simp
  moreover have "extend_step ?i ?w = ?w[?i := W (words_of block) ?i]"
    using w by (intro extend_step_W) auto
  moreover have "?i < 64" using Suc.prems by simp
  ultimately show ?case using len w by (auto simp: nth_list_update less_Suc_eq)
qed

lemma schedule_is_W:
  assumes "length block = 64" "t < 64"
  shows "schedule block ! t = W (words_of block) t"
  using extend_schedule [OF assms(1), of 48] assms(2) by (simp add: schedule_def)

lemma rounds_are_fips:
  assumes "length block = 64" "n \<le> 64"
  shows "fold (round_step (schedule block)) [0..<n] v = fips_rounds (words_of block) n v"
  using assms(2)
proof (induction n)
  case (Suc n)
  then show ?case
    by (simp add: round_step_def schedule_is_W [OF assms(1)] Sum0_def Sum1_def Ch_def Maj_def split: prod.split)
qed simp

lemma compress_is_fips: "length block = 64 \<Longrightarrow> compress H block = fips_block H block"
  by (simp add: compress_def fips_block_def rounds_are_fips)

section \<open>The tail is the padding\<close>

lemma chunks_facts:
  "chunks bytes = (bs, rest) \<Longrightarrow> length rest = length bytes mod 64 \<and> (\<forall>b \<in> set bs. length b = 64)
     \<and> fst (chunks (bytes @ t)) = bs @ fst (chunks (rest @ t))"
proof (induction bytes arbitrary: bs rest rule: chunks.induct)
  case (1 bytes)
  show ?case
  proof (cases "length bytes < 64")
    case True
    with "1.prems" have "bs = []" "rest = bytes" by (simp_all add: chunks.simps [of bytes])
    with True show ?thesis by simp
  next
    case False
    obtain bs' rest' where c: "chunks (drop 64 bytes) = (bs', rest')" by fastforce
    with False "1.prems" have b: "bs = take 64 bytes # bs'" "rest = rest'" by (simp_all add: chunks.simps [of bytes])
    from "1.IH" [OF False c] have ih: "length rest' = length (drop 64 bytes) mod 64" "\<forall>b \<in> set bs'. length b = 64"
      "fst (chunks (drop 64 bytes @ t)) = bs' @ fst (chunks (rest' @ t))" by auto
    have "length (drop 64 bytes) mod 64 = length bytes mod 64" using False by (simp add: le_mod_geq)
    moreover have "fst (chunks (bytes @ t)) = take 64 bytes # fst (chunks (drop 64 bytes @ t))"
      using False by (simp add: chunks.simps [of "bytes @ t"] split: prod.split)
    ultimately show ?thesis using ih b False by simp
  qed
qed

lemma tail_of_is_padding:
  assumes "length rest = len mod 64"
  shows "tail_of len rest = rest @ [0x80] @ replicate ((119 - len mod 64) mod 64) 0 @ be64 (of_nat (8 * len))"
proof -
  define r where "r = len mod 64"
  have r: "length rest = r" "r < 64" using assms unfolding r_def by auto
  define n where "n = (if r < 56 then 64 else 128 :: nat)"
  have z: "(119 - r) mod 64 = n - 9 - r"
  proof (cases "r < 56")
    case True
    then have "119 - r = 64 + (55 - r)" by simp
    then have "(119 - r) mod 64 = (55 - r) mod 64" by (simp only: mod_add_self1)
    with True show ?thesis by (simp add: n_def)
  next
    case False
    with r show ?thesis by (simp add: n_def)
  qed
  have "128 - r = Suc (127 - r)" using r by simp
  then have "replicate (128 - r) (0 :: 8 word) = 0 # replicate (127 - r) 0" by simp
  then have t2: "(rest @ drop (length rest) (replicate 128 0))[length rest := 0x80] = rest @ 0x80 # replicate (127 - r) 0"
    using r(1) by (simp add: list_update_append)
  have n: "r + 9 \<le> n" "n \<le> 128" using r(2) by (auto simp: n_def)
  define filled where "filled = rest @ 0x80 # replicate (n - 9 - r) (0 :: 8 word)"
  have front: "take (n - 8) (rest @ 0x80 # replicate (127 - r) 0) = filled"
  proof -
    have l: "n - 8 - length rest = Suc (n - 9 - r)" using n r by simp
    have m: "min (n - 9 - r) (127 - r) = n - 9 - r" using n by simp
    have "take (n - 8) rest = rest" using n r by simp
    then show ?thesis unfolding filled_def take_append l take_Suc_Cons take_replicate m by simp
  qed
  have "length (filled @ be64 bits) = n" for bits using n r by (simp add: filled_def be64_def)
  then have whole: "take n (filled @ be64 bits @ rest') = filled @ be64 bits" for bits rest'
    unfolding append_assoc [symmetric] by (metis append_eq_conv_conj)
  have eight: "of_nat (8 * len) = of_nat len * (8 :: 64 word)" by (simp add: mult.commute)
  show ?thesis
    unfolding tail_of_def Let_def t2 r_def [symmetric] z eight
    unfolding r(1) n_def [symmetric] front whole by (simp add: filled_def)
qed

lemma foldl_compress: "\<forall>b \<in> set bs. length b = 64 \<Longrightarrow> foldl compress H bs = foldl fips_block H bs"
  by (induction bs arbitrary: H) (auto simp: compress_is_fips)

lemma sha256_fips:
  "sha256_hex bytes = fips_sha256_hex bytes"
proof -
  obtain blocks rest where c: "chunks bytes = (blocks, rest)" by fastforce
  let ?t = "[0x80] @ replicate ((119 - length bytes mod 64) mod 64) 0 @ be64 (of_nat (8 * length bytes))"
  have tail: "tail_of (length bytes) rest = rest @ ?t"
    using chunks_facts [OF c] tail_of_is_padding by simp
  obtain last_blocks r where cl: "chunks (rest @ ?t) = (last_blocks, r)" by fastforce
  have "foldl compress (foldl compress START blocks) last_blocks = foldl fips_block START (blocks @ last_blocks)"
    using chunks_facts [OF c] chunks_facts [OF cl] by (simp add: foldl_compress)
  moreover have "fst (chunks (fips_pad bytes)) = blocks @ last_blocks"
    using chunks_facts [OF c, of ?t] cl by (simp add: fips_pad_def)
  ultimately have "foldl compress (foldl compress START blocks) last_blocks = foldl fips_block START (fst (chunks (fips_pad bytes)))"
    by simp
  then show ?thesis by (simp only: sha256_hex_def fips_sha256_hex_def c tail cl prod.case fst_conv)
qed


section \<open>The digest and the pin have one form\<close>

lemma hex_digits_length: "length (hex_digits n v) = n"
  by (induction n v rule: hex_digits.induct) auto

lemma hex_char_lower: "d < 16 \<Longrightarrow> lower_hex (hex_char d)"
proof -
  assume "d < 16"
  moreover have "list_all (\<lambda>d. lower_hex (hex_char d)) [0..<16]"
    by (simp add: upt_rec lower_hex_def is_ascii_digit_def hex_char_def)
  ultimately show ?thesis by (auto simp: list_all_iff)
qed

lemma hex_digits_lower: "list_all lower_hex (hex_digits n v)"
  by (induction n v rule: hex_digits.induct) (auto simp: hex_char_lower)

lemma compress_length: "length H = 8 \<Longrightarrow> length (compress H block) = 8"
  by (simp add: compress_def split: prod.split)

lemma foldl_compress_length: "length H = 8 \<Longrightarrow> length (foldl compress H bs) = 8"
  by (induction bs arbitrary: H) (auto simp: compress_length)

lemma concat_hex8: "length (concat (map hex8 ws)) = 8 * length ws \<and> list_all lower_hex (concat (map hex8 ws))"
  by (induction ws) (auto simp: hex8_def hex_digits_length hex_digits_lower)

lemma digest_form: "length (sha256_hex bytes) = 64 \<and> list_all lower_hex (sha256_hex bytes)"
proof -
  obtain blocks rest where c: "chunks bytes = (blocks, rest)" by fastforce
  have "length START = 8" by (simp add: START_def)
  then show ?thesis
    by (simp add: sha256_hex_def c concat_hex8 foldl_compress_length)
qed

text \<open>
  The digest has the pin's form, whatever the bytes: 64 characters, each a digit or
  one of a to f; and a pin that writes it (its \<open>sha256\<close> first) is read back as it.
\<close>

theorem digest_is_a_pin:
  "length (sha256_hex bytes) = 64 \<and> list_all lower_hex (sha256_hex bytes)
   \<and> pinned_sha256 ([CHR 34] @ ''sha256'' @ [CHR 34] @ '': '' @ [CHR 34] @ sha256_hex bytes @ [CHR 34] @ rest)
     = Some (sha256_hex bytes)"
proof -
  have q: "CHR 34 \<notin> set (sha256_hex bytes)"
    using digest_form [of bytes] by (auto simp: list_all_iff lower_hex_def is_ascii_digit_def)
  have a: "after_first (CHR 34 # ''sha256'' @ [CHR 34])
      ([CHR 34] @ ''sha256'' @ [CHR 34] @ '': '' @ [CHR 34] @ sha256_hex bytes @ [CHR 34] @ rest)
    = Some ('': '' @ [CHR 34] @ sha256_hex bytes @ [CHR 34] @ rest)"
    by (subst after_first.simps) simp
  have b: "trim_start ('': '' @ t) = '': '' @ t" for t
    by (subst trim_start.simps) (simp add: ws_len_def)
  have d: "trim_start ('' '' @ CHR 34 # t) = CHR 34 # t" for t
    by (subst trim_start.simps, simp add: ws_len_def, subst trim_start.simps, simp add: ws_len_def)
  have e: "split_once (CHR 34) (sha256_hex bytes @ CHR 34 # rest) = Some (sha256_hex bytes, rest)"
    using q by (simp add: split_once_Some)
  show ?thesis
    using digest_form [of bytes] d e unfolding pinned_sha256_def a option.case b
    by (simp add: strip_prefix_def)
qed

text \<open>
  The helper loads a library only when its bytes hash to the pin by the standard.
\<close>

theorem only_the_pinned_library:
  "library_matches_pin pin read = Inr () \<longleftrightarrow>
     (\<exists>bytes. read = Inr bytes \<and> pinned_sha256 pin = Some (fips_sha256_hex bytes))"
  by (auto simp: library_matches_pin_def sha256_fips Let_def split: option.split sum.split if_splits)

end
