(* ===== verification/Camera_Message.thy ===== *)
theory Camera_Message
  imports Text_Std "HOL-Library.Word"
begin

text \<open>
  The camera control messages of CAM 1's link (\<open>cameras/pocket/protocol.rs\<close>): a message, its
  framing, the reading of every message in a notification, and the integers a message carries. A
  byte is a word of 8 bits; a signed value is an \<open>int\<close> in its type's range, written and read as
  two's complement, least significant byte first. What is framed is read back as it was, in order,
  whatever follows it.
\<close>

definition MAX_MESSAGE :: nat where "MAX_MESSAGE = 64"
definition BROADCAST :: "8 word" where "BROADCAST = 255"
definition COMMAND_CHANGE :: "8 word" where "COMMAND_CHANGE = 0"
definition HEADER :: nat where "HEADER = 4"
definition COMMAND_HEAD :: nat where "COMMAND_HEAD = 4"
definition TYPE_VOID :: "8 word" where "TYPE_VOID = 0"
definition TYPE_INT8 :: "8 word" where "TYPE_INT8 = 1"
definition TYPE_INT16 :: "8 word" where "TYPE_INT16 = 2"
definition TYPE_INT32 :: "8 word" where "TYPE_INT32 = 3"
definition TYPE_FIXED16 :: "8 word" where "TYPE_FIXED16 = 128"
definition OPERATION_ASSIGN :: "8 word" where "OPERATION_ASSIGN = 0"
definition OPERATION_OFFSET :: "8 word" where "OPERATION_OFFSET = 1"

datatype parameter = Parameter "8 word" "8 word"

fun category :: "parameter \<Rightarrow> 8 word" where "category (Parameter c _) = c"
fun param_number :: "parameter \<Rightarrow> 8 word" where "param_number (Parameter _ n) = n"

record message =
  parameter :: parameter
  data_type :: "8 word"
  operation :: "8 word"
  data :: "8 word list"

section \<open>Integers on the wire\<close>

definition i16_bytes :: "int \<Rightarrow> 8 word list" where
  "i16_bytes v = (let w = word_of_int v :: 16 word in [ucast w, ucast (drop_bit 8 w)])"

definition i32_bytes :: "int \<Rightarrow> 8 word list" where
  "i32_bytes v =
     (let w = word_of_int v :: 32 word
      in [ucast w, ucast (drop_bit 8 w), ucast (drop_bit 16 w), ucast (drop_bit 24 w)])"

definition i16_of :: "8 word \<Rightarrow> 8 word \<Rightarrow> int" where
  "i16_of a b = sint (or (ucast a) (push_bit 8 (ucast b)) :: 16 word)"

definition i32_of :: "8 word \<Rightarrow> 8 word \<Rightarrow> 8 word \<Rightarrow> 8 word \<Rightarrow> int" where
  "i32_of a b c d =
     sint (or (ucast a) (or (push_bit 8 (ucast b)) (or (push_bit 16 (ucast c)) (push_bit 24 (ucast d)))) :: 32 word)"

text \<open>\<open>chunks_exact(2)\<close> and \<open>chunks_exact(4)\<close>, each read; what is left over is dropped.\<close>

fun pairs_of :: "8 word list \<Rightarrow> int list" where
  "pairs_of (a # b # rest) = i16_of a b # pairs_of rest"
| "pairs_of _ = []"

fun fours_of :: "8 word list \<Rightarrow> int list" where
  "fours_of (a # b # c # d # rest) = i32_of a b c d # fours_of rest"
| "fours_of _ = []"

definition int8s :: "message \<Rightarrow> int list" where
  "int8s m = map sint (data m)"

definition int16s :: "message \<Rightarrow> int list" where
  "int16s m = pairs_of (data m)"

definition int32s :: "message \<Rightarrow> int list" where
  "int32s m = fours_of (data m)"

definition int32_value :: "message \<Rightarrow> int option" where
  "int32_value m = (case data m of a # b # c # d # _ \<Rightarrow> Some (i32_of a b c d) | _ \<Rightarrow> None)"

definition assign :: "parameter \<Rightarrow> 8 word \<Rightarrow> 8 word list \<Rightarrow> message" where
  "assign p t bytes = \<lparr>parameter = p, data_type = t, operation = OPERATION_ASSIGN, data = bytes\<rparr>"

definition void :: "parameter \<Rightarrow> message" where
  "void p = assign p TYPE_VOID []"

definition int8 :: "parameter \<Rightarrow> int list \<Rightarrow> message" where
  "int8 p values = assign p TYPE_INT8 (map word_of_int values)"

definition int16 :: "parameter \<Rightarrow> int list \<Rightarrow> message" where
  "int16 p values = assign p TYPE_INT16 (concat (map i16_bytes values))"

definition int32 :: "parameter \<Rightarrow> int \<Rightarrow> message" where
  "int32 p value = assign p TYPE_INT32 (i32_bytes value)"

section \<open>Framing\<close>

text \<open>\<open>while bytes.len() % 4 != 0 { bytes.push(0) }\<close>\<close>

function pad_to_four :: "8 word list \<Rightarrow> 8 word list" where
  "pad_to_four bytes = (if length bytes mod 4 \<noteq> 0 then pad_to_four (bytes @ [0]) else bytes)"
  by pat_completeness auto
termination
proof (relation "measure (\<lambda>bytes. (4 - length bytes mod 4) mod 4)")
  fix bytes :: "8 word list"
  assume "length bytes mod 4 \<noteq> 0"
  then have "length bytes mod 4 = 1 \<or> length bytes mod 4 = 2 \<or> length bytes mod 4 = 3" by linarith
  moreover have "Suc (length bytes) mod 4 = (if length bytes mod 4 = 3 then 0 else Suc (length bytes mod 4))"
    by (simp add: mod_Suc)
  ultimately show "(bytes @ [0], bytes) \<in> measure (\<lambda>bytes. (4 - length bytes mod 4) mod 4)" by auto
qed simp

declare pad_to_four.simps [simp del]

definition encode :: "message \<Rightarrow> string + 8 word list" where
  "encode m =
     (let len = COMMAND_HEAD + length (data m)
      in if 255 < len \<or> MAX_MESSAGE < HEADER + len
         then Inl (''A camera message holds at most '' @ show_nat (MAX_MESSAGE - HEADER - COMMAND_HEAD)
                     @ '' bytes of data; this one has '' @ show_nat (length (data m)) @ ''.'')
         else Inr (pad_to_four
           ([BROADCAST, of_nat len, COMMAND_CHANGE, 0]
            @ [category (parameter m), param_number (parameter m), data_type m, operation m]
            @ data m)))"

definition div_ceil :: "nat \<Rightarrow> nat \<Rightarrow> nat" where
  "div_ceil a b = (a + b - 1) div b"

text \<open>
  \<open>decode_all\<close>'s loop from the place it stands at. \<open>body.checked_add(length)\<close> does not overflow:
  a slice's length and a byte fit a \<open>usize\<close>.
\<close>

function decode_from :: "8 word list \<Rightarrow> nat \<Rightarrow> message list" where
  "decode_from bytes pos =
     (if pos + HEADER \<le> length bytes then
        (let len = unat (bytes ! (pos + 1));
             command = bytes ! (pos + 2);
             body = pos + HEADER;
             stop = body + len
         in if stop \<le> length bytes then
              (if command = COMMAND_CHANGE \<and> COMMAND_HEAD \<le> len
               then [\<lparr>parameter = Parameter (bytes ! body) (bytes ! (body + 1)), data_type = bytes ! (body + 2),
                      operation = bytes ! (body + 3), data = take (stop - (body + COMMAND_HEAD)) (drop (body + COMMAND_HEAD) bytes)\<rparr>]
               else [])
              @ decode_from bytes (div_ceil stop 4 * 4)
            else [])
      else [])"
  by pat_completeness auto
termination
proof (relation "measure (\<lambda>(bytes, pos). length bytes - pos)")
  fix bytes :: "8 word list" and pos len command body stop
  assume "pos + HEADER \<le> length bytes" "body = pos + HEADER" "stop = body + len"
  moreover have "stop \<le> div_ceil stop 4 * 4" unfolding div_ceil_def by linarith
  ultimately show "((bytes, div_ceil stop 4 * 4), bytes, pos) \<in> measure (\<lambda>(bytes, pos). length bytes - pos)"
    by (auto simp: HEADER_def)
qed simp

declare decode_from.simps [simp del]

definition decode_all :: "8 word list \<Rightarrow> message list" where
  "decode_all bytes = decode_from bytes 0"

section \<open>What is framed is read back\<close>

lemma div_ceil_4: "div_ceil (4 * q + r) 4 = q + (r + 3) div 4"
  by (simp add: div_ceil_def add.assoc)

lemma pad_to_four_form:
  "pad_to_four bytes = bytes @ replicate (div_ceil (length bytes) 4 * 4 - length bytes) 0"
proof (induction bytes rule: pad_to_four.induct)
  case (1 bytes)
  show ?case
  proof (cases "length bytes mod 4 = 0")
    case True
    then have "div_ceil (length bytes) 4 * 4 = length bytes" by (auto simp: div_ceil_4 [of _ 0, simplified] elim!: dvdE)
    with True show ?thesis by (simp add: pad_to_four.simps [of bytes])
  next
    case False
    obtain q r where qr: "length bytes = 4 * q + r" "r < 4"
      using mult_div_mod_eq [of 4 "length bytes"] mod_less_divisor [of 4 "length bytes"] by (metis zero_less_numeral)
    with False have "r = 1 \<or> r = 2 \<or> r = 3" by auto
    then have "div_ceil (Suc (length bytes)) 4 * 4 = div_ceil (length bytes) 4 * 4"
      "div_ceil (length bytes) 4 * 4 - length bytes = Suc (div_ceil (length bytes) 4 * 4 - Suc (length bytes))"
      unfolding qr(1) add_Suc_right [symmetric] div_ceil_4 by auto
    with 1 [OF False] False show ?thesis by (simp add: pad_to_four.simps [of bytes])
  qed
qed

lemma pad_to_four_length: "length (pad_to_four bytes) = div_ceil (length bytes) 4 * 4"
proof -
  have "length bytes \<le> div_ceil (length bytes) 4 * 4" unfolding div_ceil_def by linarith
  then show ?thesis by (simp add: pad_to_four_form)
qed

lemma byte_of_nat: "n < 256 \<Longrightarrow> unat (of_nat n :: 8 word) = n"
  by (simp add: unat_of_nat take_bit_nat_eq_self_iff)

lemma div_ceil_shift: "4 dvd k \<Longrightarrow> div_ceil (k + n) 4 * 4 = k + div_ceil n 4 * 4"
  by (elim dvdE) (simp add: div_ceil_4, simp add: div_ceil_def)

lemma decode_from_shift:
  assumes "4 dvd length pre"
  shows "decode_from (pre @ bytes) (length pre + pos) = decode_from bytes pos"
proof (induction bytes pos rule: decode_from.induct)
  case (1 bytes pos)
  show ?case
  proof (cases "pos + HEADER \<le> length bytes \<and> pos + HEADER + unat (bytes ! (pos + 1)) \<le> length bytes")
    case True
    let ?stop = "pos + HEADER + unat (bytes ! (pos + 1))"
    have ih: "decode_from (pre @ bytes) (length pre + div_ceil ?stop 4 * 4) = decode_from bytes (div_ceil ?stop 4 * 4)"
      using 1 True by simp
    have n: "(pre @ bytes) ! (length pre + pos + k) = bytes ! (pos + k)" for k
      by (simp add: nth_append add.assoc)
    have s: "length pre + pos + HEADER + unat (bytes ! (pos + 1)) = length pre + ?stop" by simp
    have d: "drop (length pre + pos + HEADER + COMMAND_HEAD) (pre @ bytes) = drop (pos + HEADER + COMMAND_HEAD) bytes"
      by (simp add: add.assoc)
    have t: "length pre + ?stop - (length pre + pos + HEADER + COMMAND_HEAD) = ?stop - (pos + HEADER + COMMAND_HEAD)"
      by simp
    have n': "(pre @ bytes) ! (length pre + pos + HEADER + k) = bytes ! (pos + HEADER + k)"
      "(pre @ bytes) ! (length pre + pos + HEADER) = bytes ! (pos + HEADER)" for k
      by (simp_all add: nth_append add.assoc)
    show ?thesis
      using True
      unfolding decode_from.simps [of "pre @ bytes" "length pre + pos"] decode_from.simps [of bytes pos] Let_def
      unfolding n n' s d t div_ceil_shift [OF assms] ih
      by simp
  next
    case False
    have "(pre @ bytes) ! (length pre + pos + 1) = bytes ! (pos + 1)" by (simp add: nth_append add.assoc)
    with False show ?thesis
      unfolding decode_from.simps [of "pre @ bytes" "length pre + pos"] decode_from.simps [of bytes pos] Let_def
      by auto
  qed
qed

lemma encode_Inr:
  "encode m = Inr b \<Longrightarrow> length (data m) \<le> 56 \<and> 4 dvd length b
     \<and> b = pad_to_four ([BROADCAST, of_nat (4 + length (data m)), COMMAND_CHANGE, 0]
            @ [category (parameter m), param_number (parameter m), data_type m, operation m] @ data m)"
  by (auto simp: encode_def Let_def MAX_MESSAGE_def HEADER_def COMMAND_HEAD_def pad_to_four_length split: if_splits)

lemma decode_encoded:
  assumes "encode m = Inr b"
  shows "decode_from (b @ rest) 0 = m # decode_from rest 0"
proof -
  let ?l = "length (data m)"
  let ?bytes = "[BROADCAST, of_nat (4 + ?l), COMMAND_CHANGE, 0]
            @ [category (parameter m), param_number (parameter m), data_type m, operation m] @ data m"
  from encode_Inr [OF assms] have l: "?l \<le> 56" and four: "4 dvd length b" and b: "b = pad_to_four ?bytes" by auto
  have lb: "length b = div_ceil (8 + ?l) 4 * 4" unfolding b pad_to_four_form
    by (simp add: div_ceil_def)
  obtain zs where zs: "b = ?bytes @ zs" unfolding b pad_to_four_form by blast
  have u: "unat (of_nat (4 + ?l) :: 8 word) = 4 + ?l" using l by (intro byte_of_nat) simp
  have m: "\<lparr>parameter = Parameter (category (parameter m)) (param_number (parameter m)), data_type = data_type m,
      operation = operation m, data = data m\<rparr> = m"
    by (cases m; cases "parameter m") auto
  define B where "B = b @ rest"
  have at: "B ! 1 = of_nat (4 + ?l)" "B ! 2 = COMMAND_CHANGE" "B ! 4 = category (parameter m)"
    "B ! 5 = param_number (parameter m)" "B ! 6 = data_type m" "B ! 7 = operation m" "take ?l (drop 8 B) = data m"
    by (simp_all add: B_def zs)
  have at': "unat (B ! Suc 0) = 4 + ?l" "B ! Suc (Suc 0) = COMMAND_CHANGE"
    using at(1-2) u by (simp_all add: numeral_2_eq_2)
  have long: "4 \<le> length B" "8 + ?l \<le> length B" by (simp_all add: B_def zs)
  have "decode_from B 0 = m # decode_from B (length b)"
    using long unfolding decode_from.simps [of B 0] Let_def
    by (simp add: at' lb HEADER_def COMMAND_HEAD_def at m)
  then have "decode_from (b @ rest) 0 = m # decode_from (b @ rest) (length b + 0)" by (simp add: B_def)
  then show ?thesis by (simp only: decode_from_shift [OF four])
qed

lemma decode_frames:
  "list_all2 (\<lambda>m b. encode m = Inr b) ms bs \<Longrightarrow> decode_from (concat bs @ rest) 0 = ms @ decode_from rest 0"
  by (induction ms bs rule: list_all2_induct) (auto simp: decode_encoded)

lemma encode_short: "encode m = Inr b \<Longrightarrow> length b \<le> MAX_MESSAGE"
  using encode_Inr [of m b] by (auto simp: pad_to_four_length MAX_MESSAGE_def div_ceil_def)

lemma encode_total: "(\<exists>b. encode m = Inr b) \<longleftrightarrow> length (data m) \<le> 56"
  by (auto simp: encode_def Let_def MAX_MESSAGE_def HEADER_def COMMAND_HEAD_def)

text \<open>
  C21. Messages framed one after another are read back as they were, in order, and
  what follows them is read as it would be alone.
\<close>

theorem frames_are_read_back:
  assumes "list_all2 (\<lambda>m b. encode m = Inr b) ms bs"
  shows "decode_all (concat bs @ rest) = ms @ decode_all rest"
  unfolding decode_all_def by (rule decode_frames [OF assms])

theorem frames_are_read_back_witness:
  "decode_all ([255, 5, 0, 0, 10, 1, 1, 0, 2, 0, 0, 0] @ [255, 9])
     = [\<lparr>parameter = Parameter 10 1, data_type = 1, operation = 0, data = [2]\<rparr>]"
proof -
  let ?m = "\<lparr>parameter = Parameter 10 1, data_type = 1, operation = 0, data = [2]\<rparr>"
  have "encode ?m = Inr [255, 5, 0, 0, 10, 1, 1, 0, 2, 0, 0, 0]" by code_simp
  then have "list_all2 (\<lambda>m b. encode m = Inr b) [?m] [[255, 5, 0, 0, 10, 1, 1, 0, 2, 0, 0, 0]]" by simp
  from frames_are_read_back [OF this, of "[255, 9]"] show ?thesis
    by (simp add: decode_all_def decode_from.simps [of "[255, 9]"] HEADER_def)
qed

section \<open>The integers are read back\<close>

lemma i16_bytes_length [simp]: "length (i16_bytes v) = 2"
  by (simp add: i16_bytes_def Let_def)

lemma sint_back:
  fixes v :: int
  assumes "- (2 ^ (LENGTH('a) - 1)) \<le> v" "v < 2 ^ (LENGTH('a :: len) - 1)"
  shows "sint (word_of_int v :: 'a word) = v"
  using assms by (simp add: sint_sbintrunc' signed_take_bit_int_eq_self)

lemma i16_back: "- 32768 \<le> v \<Longrightarrow> v \<le> 32767 \<Longrightarrow> i16_bytes v = [a, b] \<Longrightarrow> i16_of a b = v"
proof -
  assume v: "- 32768 \<le> v" "v \<le> 32767" and ab: "i16_bytes v = [a, b]"
  have "(or (ucast (ucast w :: 8 word)) (push_bit 8 (ucast (ucast (drop_bit 8 w) :: 8 word))) :: 16 word) = w" for w :: "16 word"
    by (rule bit_word_eqI) (auto simp: bit_simps)
  with v ab show "i16_of a b = v" by (auto simp: i16_bytes_def i16_of_def Let_def sint_back)
qed

lemma pairs_of_bytes:
  "list_all (\<lambda>v. - 32768 \<le> v \<and> v \<le> 32767) vs \<Longrightarrow> pairs_of (concat (map i16_bytes vs)) = vs"
proof (induction vs)
  case (Cons v vs)
  obtain a b where "i16_bytes v = [a, b]" by (simp add: i16_bytes_def Let_def)
  with Cons i16_back [of v a b] show ?case by simp
qed simp

lemma int16s_int16:
  "list_all (\<lambda>v. - 32768 \<le> v \<and> v \<le> 32767) vs \<Longrightarrow> int16s (int16 p vs) = vs"
  by (simp add: int16s_def int16_def assign_def pairs_of_bytes)

lemma int8s_int8:
  "list_all (\<lambda>v. - 128 \<le> v \<and> v \<le> 127) vs \<Longrightarrow> int8s (int8 p vs) = vs"
  by (simp add: int8s_def int8_def assign_def) (induction vs, auto simp: sint_back)

lemma int32_value_int32:
  assumes "- 2147483648 \<le> v" "v \<le> 2147483647"
  shows "int32_value (int32 p v) = Some v"
proof -
  have "(or (ucast (ucast w :: 8 word)) (or (push_bit 8 (ucast (ucast (drop_bit 8 w) :: 8 word)))
      (or (push_bit 16 (ucast (ucast (drop_bit 16 w) :: 8 word))) (push_bit 24 (ucast (ucast (drop_bit 24 w) :: 8 word)))))
      :: 32 word) = w" for w :: "32 word"
    by (rule bit_word_eqI, subgoal_tac "n < 24 \<or> 24 + (n - 24) = n") (auto simp: bit_simps)
  with assms show ?thesis
    by (simp add: int32_value_def int32_def assign_def i32_bytes_def i32_of_def Let_def sint_back)
qed

lemma i16_of_range: "- 32768 \<le> i16_of a b \<and> i16_of a b \<le> 32767"
  unfolding i16_of_def
  using sint_range_size [of "or (ucast a) (push_bit 8 (ucast b)) :: 16 word"] by (simp add: word_size)

lemma i32_of_range: "- 2147483648 \<le> i32_of a b c d \<and> i32_of a b c d \<le> 2147483647"
  unfolding i32_of_def
  using sint_range_size [of "or (ucast a) (or (push_bit 8 (ucast b)) (or (push_bit 16 (ucast c)) (push_bit 24 (ucast d)))) :: 32 word"]
  by (simp add: word_size)

lemma pairs_of_range: "v \<in> set (pairs_of bs) \<Longrightarrow> - 32768 \<le> v \<and> v \<le> 32767"
  by (induction bs rule: pairs_of.induct) (auto simp: i16_of_range)

lemma int16s_range: "v \<in> set (int16s m) \<Longrightarrow> - 32768 \<le> v \<and> v \<le> 32767"
  unfolding int16s_def by (rule pairs_of_range)

end
