(* ===== verification/Camera_Words.thy ===== *)
theory Camera_Words
  imports Camera_Message Complex_Main
begin

text \<open>
  The words the operator reads and the numbers CAM 1 sends (\<open>cameras/pocket/protocol.rs\<close>,
  \<open>cameras/pocket/format.rs\<close>, \<open>cameras/pocket/timecode.rs\<close>). An \<open>f64\<close> is its exact value, an infinity
  or no number; what the floating-point unit and its library answer (the rounding of an exact
  result, \<open>powf\<close>, \<open>log2\<close>, parsing and printing) is the argument \<open>ops\<close>, and the operations that are
  exact in \<open>f64\<close> (a product by a power of two, \<open>round\<close>, a comparison) are written out. The literals
  1e-9 and 0.03 stand for the numbers nearest to them.
\<close>

datatype f64 = Fin rat | Inf | NegInf | NaN

record f64_ops =
  fl :: "rat \<Rightarrow> f64"
  parse_f64 :: "string \<Rightarrow> f64 option"
  powf2 :: "f64 \<Rightarrow> f64"
  log2 :: "f64 \<Rightarrow> f64"
  show_f64 :: "f64 \<Rightarrow> string"
  show_tenth :: "f64 \<Rightarrow> string"

text \<open>\<open>round\<close>: to the nearest integer, a half away from zero.\<close>

definition round_away :: "rat \<Rightarrow> int" where
  "round_away x = (if 0 \<le> x then \<lfloor>x + 1 / 2\<rfloor> else \<lceil>x - 1 / 2\<rceil>)"

definition f64_pos :: "f64 \<Rightarrow> bool" where
  "f64_pos x \<longleftrightarrow> (case x of Fin r \<Rightarrow> 0 < r | Inf \<Rightarrow> True | _ \<Rightarrow> False)"

text \<open>A product by a positive constant.\<close>

definition f64_times :: "f64_ops \<Rightarrow> f64 \<Rightarrow> rat \<Rightarrow> f64" where
  "f64_times ops x c = (case x of Fin r \<Rightarrow> fl ops (r * c) | _ \<Rightarrow> x)"

definition clamp :: "int \<Rightarrow> int \<Rightarrow> int \<Rightarrow> int" where
  "clamp lo hi n = max lo (min hi n)"

text \<open>\<open>fixed16_from\<close> is \<open>NaN as i16\<close>, which is zero, for no number.\<close>

definition fixed16_from :: "f64 \<Rightarrow> int" where
  "fixed16_from value =
     (case value of
        Fin r \<Rightarrow> clamp (- 32768) 32767 (round_away (r * 2048))
      | Inf \<Rightarrow> 32767 | NegInf \<Rightarrow> - 32768 | NaN \<Rightarrow> 0)"

definition fixed16_to :: "int \<Rightarrow> f64" where
  "fixed16_to raw = Fin (of_int raw / 2048)"

definition fixed16 :: "parameter \<Rightarrow> f64 list \<Rightarrow> message" where
  "fixed16 p values = assign p TYPE_FIXED16 (concat (map (\<lambda>v. i16_bytes (fixed16_from v)) values))"

definition fixed16s :: "message \<Rightarrow> f64 list" where
  "fixed16s m = map fixed16_to (int16s m)"

definition rounded :: "f64_ops \<Rightarrow> f64 \<Rightarrow> nat \<Rightarrow> f64" where
  "rounded ops value decimals =
     (case f64_times ops value (10 ^ decimals) of
        Fin r \<Rightarrow> fl ops (of_int (round_away r) / 10 ^ decimals)
      | x \<Rightarrow> x)"

definition int16_of :: "f64 \<Rightarrow> int option" where
  "int16_of value =
     (case value of
        Fin r \<Rightarrow> (if - 32768 \<le> round_away r \<and> round_away r \<le> 32767 then Some (round_away r) else None)
      | _ \<Rightarrow> None)"

section \<open>The words\<close>

definition DEGREE :: string where "DEGREE = [CHR 0xC2, CHR 0xB0]"
definition ARROW :: string where "ARROW = [CHR 0xE2, CHR 0x86, CHR 0x92]"
definition TIMES :: string where "TIMES = [CHR 0xC3, CHR 0x97]"

text \<open>The f-numbers by their tenths.\<close>

definition F_NUMBERS :: "int list" where
  "F_NUMBERS = [10, 11, 12, 14, 16, 18, 20, 22, 25, 28, 32, 35, 40, 45, 50, 56, 63, 71, 80,
     90, 100, 110, 130, 140, 160, 180, 200, 220]"

definition f64_minus :: "f64_ops \<Rightarrow> f64 \<Rightarrow> f64 \<Rightarrow> f64" where
  "f64_minus ops x y =
     (case (x, y) of
        (Fin a, Fin b) \<Rightarrow> fl ops (a - b)
      | (Fin _, Inf) \<Rightarrow> NegInf | (Fin _, NegInf) \<Rightarrow> Inf | (Inf, Fin _) \<Rightarrow> Inf | (NegInf, Fin _) \<Rightarrow> NegInf
      | (Inf, NegInf) \<Rightarrow> Inf | (NegInf, Inf) \<Rightarrow> NegInf | _ \<Rightarrow> NaN)"

definition f64_abs :: "f64 \<Rightarrow> f64" where
  "f64_abs x = (case x of Fin r \<Rightarrow> Fin \<bar>r\<bar> | NegInf \<Rightarrow> Inf | _ \<Rightarrow> x)"

fun f64_less :: "f64 \<Rightarrow> f64 \<Rightarrow> bool" where
  "f64_less (Fin a) (Fin b) = (a < b)"
| "f64_less (Fin a) Inf = True"
| "f64_less NegInf (Fin b) = True"
| "f64_less NegInf Inf = True"
| "f64_less _ _ = False"

text \<open>\<open>min_by\<close>: the first of the nearest; two that do not compare are taken as equal.\<close>

fun nearest :: "f64_ops \<Rightarrow> f64 \<Rightarrow> f64 \<Rightarrow> f64 list \<Rightarrow> f64" where
  "nearest ops exact best [] = best"
| "nearest ops exact best (a # as) =
     nearest ops exact
       (if f64_less (f64_abs (f64_minus ops a exact)) (f64_abs (f64_minus ops best exact)) then a else best) as"

definition f_number_word :: "f64_ops \<Rightarrow> f64 \<Rightarrow> string" where
  "f_number_word ops f_number =
     (case f_number of
        Fin r \<Rightarrow> (if 10 \<le> r then ''f/'' @ show_int (round_away r) else ''f/'' @ show_tenth ops f_number)
      | Inf \<Rightarrow> ''f/'' @ show_int 9223372036854775807
      | _ \<Rightarrow> ''f/'' @ show_tenth ops f_number)"

text \<open>An aperture value read is a fixed-point number, so the exact f-number is above zero and finite.\<close>

definition within_three_percent :: "f64_ops \<Rightarrow> f64 \<Rightarrow> f64 \<Rightarrow> bool" where
  "within_three_percent ops name exact =
     (case (f64_minus ops name exact, exact) of
        (Fin d, Fin e) \<Rightarrow>
          (case fl ops (d / e) of Fin q \<Rightarrow> \<bar>q\<bar> \<le> 3 / 100 | _ \<Rightarrow> False)
      | _ \<Rightarrow> False)"

definition f_number_text :: "f64_ops \<Rightarrow> rat \<Rightarrow> string" where
  "f_number_text ops aperture_value =
     (let exact = powf2 ops (Fin (aperture_value / 2));
          names = map (\<lambda>t. fl ops (of_int t / 10)) F_NUMBERS;
          name = nearest ops exact (hd names) (tl names)
      in f_number_word ops (if within_three_percent ops name exact then name else rounded ops exact 1))"

definition aperture_value_of :: "f64_ops \<Rightarrow> string \<Rightarrow> f64 option" where
  "aperture_value_of ops word =
     (case strip_prefix (trim word) ''f/'' of
        None \<Rightarrow> None
      | Some a \<Rightarrow>
          (case parse_f64 ops (trim a) of
             None \<Rightarrow> None
           | Some number \<Rightarrow> if f64_pos number then Some (f64_times ops (log2 ops number) 2) else None))"

text \<open>The test that a number is an integer, within 1e-9.\<close>

definition near_integer :: "f64_ops \<Rightarrow> rat \<Rightarrow> bool" where
  "near_integer ops r =
     (case fl ops (r - of_int (round_away r)) of Fin d \<Rightarrow> \<bar>d\<bar> < 1 / 1000000000 | _ \<Rightarrow> False)"

definition shutter_angle_text :: "f64_ops \<Rightarrow> int \<Rightarrow> string" where
  "shutter_angle_text ops hundredths =
     (case fl ops (of_int hundredths / 100) of
        Fin r \<Rightarrow>
          (if near_integer ops r then show_int (round_away r) @ DEGREE
           else show_f64 ops (rounded ops (Fin r) 2) @ DEGREE)
      | degrees \<Rightarrow> show_f64 ops degrees @ DEGREE)"

definition clamp_i32 :: "f64 \<Rightarrow> int" where
  "clamp_i32 x =
     (case x of
        Fin r \<Rightarrow> clamp (- 2147483648) 2147483647 (round_away r)
      | Inf \<Rightarrow> 2147483647 | NegInf \<Rightarrow> - 2147483648 | NaN \<Rightarrow> 0)"

definition shutter_angle_of :: "f64_ops \<Rightarrow> string \<Rightarrow> int option" where
  "shutter_angle_of ops word =
     (case strip_suffix (trim word) DEGREE of
        None \<Rightarrow> None
      | Some a \<Rightarrow>
          (case parse_f64 ops (trim a) of
             None \<Rightarrow> None
           | Some degrees \<Rightarrow> if f64_pos degrees then Some (clamp_i32 (f64_times ops degrees 100)) else None))"

definition nd_text :: "f64_ops \<Rightarrow> f64 \<Rightarrow> string" where
  "nd_text ops stops =
     (case rounded ops stops 1 of
        Fin r \<Rightarrow>
          (if r \<le> 0 then ''Clear''
           else if near_integer ops r then show_int (round_away r) @ '' stops''
           else show_f64 ops (Fin r) @ '' stops'')
      | NegInf \<Rightarrow> ''Clear''
      | x \<Rightarrow> show_f64 ops x @ '' stops'')"

definition nd_of :: "f64_ops \<Rightarrow> string \<Rightarrow> f64 option" where
  "nd_of ops word =
     (let word = trim word
      in if eq_ignore_ascii_case word ''clear'' then Some (Fin 0)
         else (case strip_suffix word ''stops'' of
                 Some a \<Rightarrow> parse_f64 ops (trim a)
               | None \<Rightarrow>
                   (case strip_suffix word ''stop'' of Some a \<Rightarrow> parse_f64 ops (trim a) | None \<Rightarrow> None)))"

definition DYNAMIC_RANGES :: "(int \<times> string) list" where
  "DYNAMIC_RANGES = [(0, ''Film''), (1, ''Video''), (2, ''Extended video'')]"

definition DISPLAY_LUTS :: "(int \<times> string) list" where
  "DISPLAY_LUTS =
     [(0, ''None''), (1, ''Custom''), (2, ''Film '' @ ARROW @ '' Video''), (3, ''Film '' @ ARROW @ '' Ext. video'')]"

definition dynamic_range_text :: "int \<Rightarrow> string option" where
  "dynamic_range_text n = map_option snd (find (\<lambda>p. fst p = n) DYNAMIC_RANGES)"

definition dynamic_range_of :: "string \<Rightarrow> int option" where
  "dynamic_range_of word = map_option fst (find (\<lambda>p. snd p = trim word) DYNAMIC_RANGES)"

definition display_lut_text :: "int \<Rightarrow> string option" where
  "display_lut_text n = map_option snd (find (\<lambda>p. fst p = n) DISPLAY_LUTS)"

definition display_lut_of :: "string \<Rightarrow> int option" where
  "display_lut_of word = map_option fst (find (\<lambda>p. snd p = trim word) DISPLAY_LUTS)"

section \<open>The recording format\<close>

definition FLAG_FILE_M_RATE :: "16 word" where "FLAG_FILE_M_RATE = 1"

definition SIZES :: "(int \<times> int \<times> string) list" where
  "SIZES =
     [(1920, 1080, ''HD''), (3840, 2160, ''UHD''), (4096, 2160, ''4K DCI''), (6144, 3456, ''6K''),
      (6144, 2560, ''6K 2.4:1''), (5744, 3024, ''5.7K 17:9''), (4096, 1720, ''4K 2.4:1''),
      (3728, 3104, ''3.7K anamorphic''), (2868, 1512, ''2.8K 17:9'')]"

record recording_format =
  file_frame_rate :: int
  sensor_frame_rate :: int
  width :: int
  height :: int
  flags :: "16 word"

definition no_format :: recording_format where
  "no_format = \<lparr>file_frame_rate = 0, sensor_frame_rate = 0, width = 0, height = 0, flags = 0\<rparr>"

fun from_values :: "int list \<Rightarrow> recording_format option" where
  "from_values (a # b # c # d # e # _) =
     Some \<lparr>file_frame_rate = a, sensor_frame_rate = b, width = c, height = d, flags = word_of_int e\<rparr>"
| "from_values _ = None"

definition to_values :: "recording_format \<Rightarrow> int list" where
  "to_values f = [file_frame_rate f, sensor_frame_rate f, width f, height f, sint (flags f)]"

definition resolution_word :: "recording_format \<Rightarrow> string" where
  "resolution_word f =
     (case find (\<lambda>(w, h, _). w = width f \<and> h = height f) SIZES of
        None \<Rightarrow> show_int (width f) @ '' '' @ TIMES @ '' '' @ show_int (height f)
      | Some (_, _, word) \<Rightarrow> word)"

definition frame_rate_word :: "recording_format \<Rightarrow> string" where
  "frame_rate_word f =
     (let rate = file_frame_rate f
      in if and (flags f) FLAG_FILE_M_RATE \<noteq> 0 \<and> rate = 24 then ''23.98''
         else if and (flags f) FLAG_FILE_M_RATE \<noteq> 0 \<and> rate = 30 then ''29.97''
         else if and (flags f) FLAG_FILE_M_RATE \<noteq> 0 \<and> rate = 60 then ''59.94''
         else if and (flags f) FLAG_FILE_M_RATE \<noteq> 0 \<and> rate = 120 then ''119.88''
         else show_int rate)"

definition with_resolution :: "recording_format \<Rightarrow> string \<Rightarrow> recording_format option" where
  "with_resolution f word =
     (case find (\<lambda>(_, _, name). name = word) SIZES of
        None \<Rightarrow> None
      | Some (w, h, _) \<Rightarrow> Some (f\<lparr>width := w, height := h, sensor_frame_rate := 0\<rparr>))"

definition rate_of_word :: "string \<Rightarrow> (int \<times> bool) option" where
  "rate_of_word word =
     (if trim word = ''23.98'' then Some (24, True)
      else if trim word = ''29.97'' then Some (30, True)
      else if trim word = ''59.94'' then Some (60, True)
      else if trim word = ''119.88'' then Some (120, True)
      else (case parse_i16 (trim word) of Some rate \<Rightarrow> if 0 < rate then Some (rate, False) else None | None \<Rightarrow> None))"

definition with_frame_rate :: "recording_format \<Rightarrow> string \<Rightarrow> recording_format option" where
  "with_frame_rate f word =
     (case rate_of_word word of
        None \<Rightarrow> None
      | Some (rate, m_rate) \<Rightarrow>
          Some (f\<lparr>file_frame_rate := rate, sensor_frame_rate := 0,
            flags := if m_rate then or (flags f) FLAG_FILE_M_RATE else and (flags f) (not FLAG_FILE_M_RATE)\<rparr>))"

section \<open>The timecode\<close>

definition bcd :: "8 word \<Rightarrow> string" where
  "bcd b = show_nat (unat (and (drop_bit 4 b) 0x0F)) @ show_nat (unat (and b 0x0F))"

definition timecode_text :: "8 word list \<Rightarrow> string option" where
  "timecode_text bytes =
     (case (if length bytes = 4 then bytes else if length bytes = 12 then drop 8 bytes else []) of
        [frames, seconds, minutes, hours] \<Rightarrow>
          Some (bcd (and hours 0x3F) @ '':'' @ bcd minutes @ '':'' @ bcd seconds @ '':'' @ bcd frames)
      | _ \<Rightarrow> None)"

section \<open>A word read back\<close>

lemma trim_words [simp]:
  "trim ''Film'' = ''Film''" "trim ''Video'' = ''Video''" "trim ''Extended video'' = ''Extended video''"
  "trim ''None'' = ''None''" "trim ''Custom'' = ''Custom''"
  "trim (''Film '' @ ARROW @ '' Video'') = ''Film '' @ ARROW @ '' Video''"
  "trim (''Film '' @ ARROW @ '' Ext. video'') = ''Film '' @ ARROW @ '' Ext. video''"
  "trim ''23.98'' = ''23.98''" "trim ''29.97'' = ''29.97''" "trim ''59.94'' = ''59.94''" "trim ''119.88'' = ''119.88''"
  by code_simp+

lemma dynamic_range_back: "dynamic_range_text n = Some w \<Longrightarrow> dynamic_range_of w = Some n"
  by (auto simp: dynamic_range_text_def dynamic_range_of_def DYNAMIC_RANGES_def split: if_splits)

lemma display_lut_cases:
  "display_lut_text n = Some w \<Longrightarrow> n \<in> {0, 1, 2, 3} \<and> display_lut_of w = Some n"
  unfolding display_lut_of_def
  by (auto simp: display_lut_text_def DISPLAY_LUTS_def ARROW_def simp flip: append.simps split: if_splits; code_simp)

lemma display_lut_of_text: "display_lut_of w = Some n \<Longrightarrow> n \<in> {0, 1, 2, 3} \<and> display_lut_text n = Some (trim w)"
  by (auto simp: display_lut_of_def display_lut_text_def DISPLAY_LUTS_def split: if_splits)

lemma dynamic_range_of_text:
  "dynamic_range_of w = Some n \<Longrightarrow> n \<in> {0, 1, 2} \<and> dynamic_range_text n = Some (trim w)"
  by (auto simp: dynamic_range_of_def dynamic_range_text_def DYNAMIC_RANGES_def split: if_splits)

lemma sizes_distinct: "list_all (\<lambda>(w, h, name). find (\<lambda>(a, b, _). a = w \<and> b = h) SIZES = Some (w, h, name)) SIZES"
  by code_simp

lemma resolution_back: "with_resolution f w = Some g \<Longrightarrow> resolution_word g = w"
proof -
  assume g: "with_resolution f w = Some g"
  then obtain a b n where "find (\<lambda>(_, _, name). name = w) SIZES = Some (a, b, n)"
    and ab: "width g = a" "height g = b"
    by (auto simp: with_resolution_def split: option.splits prod.splits)
  then have "(a, b, w) \<in> set SIZES" by (auto simp: find_Some_iff) (metis nth_mem)
  with sizes_distinct ab show ?thesis by (auto simp: list_all_iff resolution_word_def)
qed

lemma resolution_word_size: "width f = width g \<Longrightarrow> height f = height g \<Longrightarrow> resolution_word f = resolution_word g"
  unfolding resolution_word_def by (simp only:)

lemma frame_rate_word_rate:
  "file_frame_rate f = file_frame_rate g \<Longrightarrow> flags f = flags g \<Longrightarrow> frame_rate_word f = frame_rate_word g"
  unfolding frame_rate_word_def by (simp only:)

lemma with_resolution_keeps:
  "with_resolution f w = Some g \<Longrightarrow> file_frame_rate g = file_frame_rate f \<and> flags g = flags f"
  by (auto simp: with_resolution_def split: option.splits)

lemma with_frame_rate_keeps: "with_frame_rate f w = Some g \<Longrightarrow> width g = width f \<and> height g = height f"
  by (auto simp: with_frame_rate_def split: option.splits)

lemma show_int_no_dot: "CHR ''.'' \<notin> set (show_int n)"
proof -
  have "CHR ''.'' \<notin> set (show_nat k)" for k
    using show_nat_digits [of k] by (auto simp: list_all_iff is_ascii_digit_def)
  then show ?thesis by (simp add: show_int_def)
qed

lemma trim_show_int [simp]: "trim (show_int n) = show_int n"
proof (cases "n < 0")
  case True
  have "\<not> has_whitespace (''-'' @ show_nat (nat (- n)))"
    using show_nat_digits [of "nat (- n)"] digits_no_ws by (simp add: ws_len_def)
  with True show ?thesis by (simp add: show_int_def trim_no_ws)
qed (simp add: show_int_def)

lemma parse_integer_show_int: "parse_integer (show_int n) = Some n"
proof (cases "n < 0")
  case True
  then show ?thesis
    using show_nat_digits [of "nat (- n)"] by (simp add: show_int_def parse_integer_def)
qed (simp add: show_int_def parse_integer_show_nat)

lemma rate_of_show_int:
  assumes "- 32768 \<le> n" "n \<le> 32767"
  shows "rate_of_word (show_int n) = (if 0 < n then Some (n, False) else None)"
proof -
  have "show_int n \<noteq> ''23.98''" "show_int n \<noteq> ''29.97''" "show_int n \<noteq> ''59.94''" "show_int n \<noteq> ''119.88''"
    using show_int_no_dot [of n] by auto
  with assms show ?thesis by (simp add: rate_of_word_def parse_i16_def parse_integer_show_int)
qed

lemma m_rate_flag:
  "and (or x FLAG_FILE_M_RATE) FLAG_FILE_M_RATE \<noteq> 0" "and (and x (not FLAG_FILE_M_RATE)) FLAG_FILE_M_RATE = 0"
proof -
  have "bit (and (or x FLAG_FILE_M_RATE) FLAG_FILE_M_RATE) 0" by (simp add: FLAG_FILE_M_RATE_def bit_simps)
  then show "and (or x FLAG_FILE_M_RATE) FLAG_FILE_M_RATE \<noteq> 0" by auto
  show "and (and x (not FLAG_FILE_M_RATE)) FLAG_FILE_M_RATE = 0"
    by (rule bit_word_eqI) (auto simp: bit_simps)
qed

lemma frame_rate_of_rate:
  "rate_of_word w = Some (rate, m) \<Longrightarrow> with_frame_rate f w = Some g \<Longrightarrow>
     file_frame_rate g = rate \<and> (and (flags g) FLAG_FILE_M_RATE \<noteq> 0) = m"
  using m_rate_flag by (cases m) (auto simp: with_frame_rate_def)

lemma frame_rate_back:
  assumes g: "with_frame_rate g0 (frame_rate_word f) = Some g" and r: "- 32768 \<le> file_frame_rate f" "file_frame_rate f \<le> 32767"
  shows "frame_rate_word g = frame_rate_word f"
proof -
  obtain rate m where rm: "rate_of_word (frame_rate_word f) = Some (rate, m)"
    using g by (auto simp: with_frame_rate_def split: option.splits)
  note eq = frame_rate_of_rate [OF rm g]
  show ?thesis
  proof (cases "frame_rate_word f = show_int (file_frame_rate f)")
    case True
    with rm rate_of_show_int [OF r] have "rate = file_frame_rate f" "\<not> m" by (auto split: if_splits)
    with eq True show ?thesis by (simp add: frame_rate_word_def)
  next
    case False
    then have "frame_rate_word f \<in> {''23.98'', ''29.97'', ''59.94'', ''119.88''}"
      by (auto simp: frame_rate_word_def Let_def split: if_splits)
    with rm eq show ?thesis by (auto simp: rate_of_word_def frame_rate_word_def [of g] Let_def)
  qed
qed

lemma rate_of_word_range: "rate_of_word w = Some (rate, m) \<Longrightarrow> 0 < rate \<and> rate \<le> 32767"
  by (auto simp: rate_of_word_def parse_i16_def split: if_splits option.splits)

lemma from_to_values: "from_values (to_values f) = Some f"
  by (simp add: to_values_def)

lemma int16_of_range: "int16_of x = Some n \<Longrightarrow> - 32768 \<le> n \<and> n \<le> 32767"
  by (auto simp: int16_of_def split: f64.splits if_splits)

lemma int16_of_int: "- 32768 \<le> n \<Longrightarrow> n \<le> 32767 \<Longrightarrow> int16_of (Fin (of_int n)) = Some n"
proof -
  have "round_away (of_int n) = n"
    by (auto simp: round_away_def floor_eq_iff ceiling_eq_iff)
  moreover assume "- 32768 \<le> n" "n \<le> 32767"
  ultimately show ?thesis by (simp add: int16_of_def)
qed

end
