(* ===== verification/Camera_Press.thy ===== *)
theory Camera_Press
  imports Camera_Words
begin

text \<open>
  What CAM 1 reports and what a press sends it (\<open>cameras/pocket/protocol.rs\<close>, with the reading,
  the values and the commands of \<open>cameras/simulated.rs\<close> and the settings of \<open>cameras/model.rs\<close>): a
  message read into the reading, and the operator's commands made into messages, a message that
  sets part of a parameter carrying the other part as the camera last reported it.
\<close>

definition LENS_FOCUS :: parameter where "LENS_FOCUS = Parameter 0 0"
definition LENS_AUTOFOCUS :: parameter where "LENS_AUTOFOCUS = Parameter 0 1"
definition LENS_APERTURE_VALUE :: parameter where "LENS_APERTURE_VALUE = Parameter 0 2"
definition LENS_AUTO_APERTURE :: parameter where "LENS_AUTO_APERTURE = Parameter 0 5"
definition VIDEO_WHITE_BALANCE :: parameter where "VIDEO_WHITE_BALANCE = Parameter 1 2"
definition VIDEO_AUTO_WHITE_BALANCE :: parameter where "VIDEO_AUTO_WHITE_BALANCE = Parameter 1 3"
definition VIDEO_DYNAMIC_RANGE :: parameter where "VIDEO_DYNAMIC_RANGE = Parameter 1 7"
definition VIDEO_RECORDING_FORMAT :: parameter where "VIDEO_RECORDING_FORMAT = Parameter 1 9"
definition VIDEO_SHUTTER_ANGLE :: parameter where "VIDEO_SHUTTER_ANGLE = Parameter 1 11"
definition VIDEO_SHUTTER_SPEED :: parameter where "VIDEO_SHUTTER_SPEED = Parameter 1 12"
definition VIDEO_ISO :: parameter where "VIDEO_ISO = Parameter 1 14"
definition VIDEO_DISPLAY_LUT :: parameter where "VIDEO_DISPLAY_LUT = Parameter 1 15"
definition VIDEO_ND_FILTER :: parameter where "VIDEO_ND_FILTER = Parameter 1 16"
definition MEDIA_TRANSPORT_MODE :: parameter where "MEDIA_TRANSPORT_MODE = Parameter 10 1"
definition STATUS_CATEGORY :: "8 word" where "STATUS_CATEGORY = 9"
definition STATUS_BATTERY :: parameter where "STATUS_BATTERY = Parameter 9 0"
definition STATUS_RECORD_TIME :: parameter where "STATUS_RECORD_TIME = Parameter 9 2"

definition TRANSPORT_RECORD :: int where "TRANSPORT_RECORD = 2"
definition TRANSPORT_PREVIEW :: int where "TRANSPORT_PREVIEW = 0"

lemmas parameter_defs =
  LENS_FOCUS_def LENS_AUTOFOCUS_def LENS_APERTURE_VALUE_def LENS_AUTO_APERTURE_def VIDEO_WHITE_BALANCE_def
  VIDEO_AUTO_WHITE_BALANCE_def VIDEO_DYNAMIC_RANGE_def VIDEO_RECORDING_FORMAT_def VIDEO_SHUTTER_ANGLE_def
  VIDEO_SHUTTER_SPEED_def VIDEO_ISO_def VIDEO_DISPLAY_LUT_def VIDEO_ND_FILTER_def MEDIA_TRANSPORT_MODE_def
  STATUS_BATTERY_def STATUS_RECORD_TIME_def

lemmas type_defs =
  TYPE_VOID_def TYPE_INT8_def TYPE_INT16_def TYPE_INT32_def TYPE_FIXED16_def OPERATION_ASSIGN_def OPERATION_OFFSET_def

section \<open>What the camera reports\<close>

record camera_battery =
  millivolts :: nat
  percent :: nat
  battery_flags :: "8 word"

record camera_reading =
  iso :: "string option"
  shutter :: "string option"
  iris :: "string option"
  nd :: "string option"
  white_balance :: "f64 option"
  tint :: "f64 option"
  focus :: "f64 option"
  resolution :: "string option"
  frame_rate :: "string option"
  dynamic_range :: "string option"
  display_lut :: "string option"
  display_lut_on :: "bool option"
  recording :: "bool option"
  timecode :: "string option"
  battery :: "camera_battery option"
  record_time_left_minutes :: "nat option"

definition no_reading :: camera_reading where
  "no_reading = \<lparr>iso = None, shutter = None, iris = None, nd = None, white_balance = None, tint = None,
     focus = None, resolution = None, frame_rate = None, dynamic_range = None, display_lut = None,
     display_lut_on = None, recording = None, timecode = None, battery = None, record_time_left_minutes = None\<rparr>"

definition same_values :: "camera_reading \<Rightarrow> camera_reading \<Rightarrow> bool" where
  "same_values a b \<longleftrightarrow>
     a\<lparr>timecode := None, battery := None, record_time_left_minutes := None\<rparr>
       = b\<lparr>timecode := None, battery := None, record_time_left_minutes := None\<rparr>"

definition first :: "'a list \<Rightarrow> 'a option" where
  "first xs = (case xs of [] \<Rightarrow> None | x # _ \<Rightarrow> Some x)"

text \<open>\<open>filter(|value| *value > 0)\<close> of a message's four bytes.\<close>

definition positive_int32 :: "message \<Rightarrow> int option" where
  "positive_int32 m = (case int32_value m of Some v \<Rightarrow> if 0 < v then Some v else None | None \<Rightarrow> None)"

text \<open>\<open>position.clamp(0.0, 1.0)\<close> of a fixed-point number.\<close>

definition unit_clamp :: "f64 \<Rightarrow> f64" where
  "unit_clamp x = (case x of Fin r \<Rightarrow> Fin (max 0 (min 1 r)) | Inf \<Rightarrow> Fin 1 | NegInf \<Rightarrow> Fin 0 | NaN \<Rightarrow> NaN)"

definition read_white_balance :: "int list \<Rightarrow> camera_reading \<Rightarrow> camera_reading" where
  "read_white_balance values r =
     (case values of
        [] \<Rightarrow> r
      | [kelvin] \<Rightarrow> r\<lparr>white_balance := Some (Fin (of_int kelvin))\<rparr>
      | kelvin # t # _ \<Rightarrow> r\<lparr>white_balance := Some (Fin (of_int kelvin)), tint := Some (Fin (of_int t))\<rparr>)"

definition read_shutter_speed :: "message \<Rightarrow> camera_reading \<Rightarrow> camera_reading" where
  "read_shutter_speed m r =
     (case positive_int32 m of
        None \<Rightarrow> r
      | Some speed \<Rightarrow>
          (let angle_known = (case shutter r of Some s \<Rightarrow> ends_with s DEGREE | None \<Rightarrow> False)
           in if angle_known then r else r\<lparr>shutter := Some (''1/'' @ show_int speed)\<rparr>))"

definition read_display_lut :: "int list \<Rightarrow> camera_reading \<Rightarrow> camera_reading" where
  "read_display_lut values r =
     (let r1 = (case first values of
                  None \<Rightarrow> r
                | Some n \<Rightarrow> (case display_lut_text n of None \<Rightarrow> r | Some word \<Rightarrow> r\<lparr>display_lut := Some word\<rparr>))
      in case values of _ # on # _ \<Rightarrow> r1\<lparr>display_lut_on := Some (on \<noteq> 0)\<rparr> | _ \<Rightarrow> r1)"

definition read_battery :: "int list \<Rightarrow> camera_reading \<Rightarrow> camera_reading" where
  "read_battery values r =
     (case values of
        mv # pc # raw # _ \<Rightarrow>
          r\<lparr>battery := Some \<lparr>millivolts = nat (max mv 0), percent = nat (clamp 0 100 pc), battery_flags = word_of_int raw\<rparr>\<rparr>
      | _ \<Rightarrow> r)"

definition u32_of_minutes :: "int list \<Rightarrow> nat" where
  "u32_of_minutes slots = nat (min (sum_list (filter (\<lambda>m. 0 < m) slots)) 4294967295)"

definition apply_message :: "f64_ops \<Rightarrow> camera_reading \<Rightarrow> message \<Rightarrow> camera_reading \<times> bool" where
  "apply_message ops r m =
     (let p = parameter m; t = data_type m
      in if operation m = OPERATION_OFFSET then (r, False)
         else if p = LENS_FOCUS \<and> t = TYPE_FIXED16 then
           ((case first (fixed16s m) of
               Some position \<Rightarrow> r\<lparr>focus := Some (rounded ops (unit_clamp position) 2)\<rparr>
             | None \<Rightarrow> r), True)
         else if p = LENS_APERTURE_VALUE \<and> t = TYPE_FIXED16 then
           ((case first (int16s m) of
               Some raw \<Rightarrow> r\<lparr>iris := Some (f_number_text ops (of_int raw / 2048))\<rparr>
             | None \<Rightarrow> r), True)
         else if p = VIDEO_WHITE_BALANCE \<and> t = TYPE_INT16 then (read_white_balance (int16s m) r, True)
         else if p = VIDEO_DYNAMIC_RANGE \<and> t = TYPE_INT8 then
           ((case first (int8s m) of
               Some n \<Rightarrow> (case dynamic_range_text n of Some word \<Rightarrow> r\<lparr>dynamic_range := Some word\<rparr> | None \<Rightarrow> r)
             | None \<Rightarrow> r), True)
         else if p = VIDEO_RECORDING_FORMAT \<and> t = TYPE_INT16 then
           ((case from_values (int16s m) of
               Some f \<Rightarrow> r\<lparr>resolution := Some (resolution_word f), frame_rate := Some (frame_rate_word f)\<rparr>
             | None \<Rightarrow> r), True)
         else if p = VIDEO_SHUTTER_ANGLE \<and> t = TYPE_INT32 then
           ((case positive_int32 m of
               Some hundredths \<Rightarrow> r\<lparr>shutter := Some (shutter_angle_text ops hundredths)\<rparr>
             | None \<Rightarrow> r), True)
         else if p = VIDEO_SHUTTER_SPEED \<and> t = TYPE_INT32 then (read_shutter_speed m r, True)
         else if p = VIDEO_ISO \<and> t = TYPE_INT32 then
           ((case positive_int32 m of Some n \<Rightarrow> r\<lparr>iso := Some (show_int n)\<rparr> | None \<Rightarrow> r), True)
         else if p = VIDEO_DISPLAY_LUT \<and> t = TYPE_INT8 then (read_display_lut (int8s m) r, True)
         else if p = VIDEO_ND_FILTER \<and> t = TYPE_FIXED16 then
           ((case first (fixed16s m) of Some stops \<Rightarrow> r\<lparr>nd := Some (nd_text ops stops)\<rparr> | None \<Rightarrow> r), True)
         else if p = MEDIA_TRANSPORT_MODE \<and> t = TYPE_INT8 then
           ((case first (int8s m) of Some mode \<Rightarrow> r\<lparr>recording := Some (mode = TRANSPORT_RECORD)\<rparr> | None \<Rightarrow> r), True)
         else if p = STATUS_BATTERY \<and> t = TYPE_INT16 then (read_battery (int16s m) r, True)
         else if p = STATUS_RECORD_TIME \<and> (t = TYPE_INT16 \<or> t = TYPE_INT32) then
           (r\<lparr>record_time_left_minutes := Some (u32_of_minutes (if t = TYPE_INT16 then int16s m else int32s m))\<rparr>, True)
         else (r, False))"

section \<open>What a press sends\<close>

datatype setting = Iso | Shutter | Iris | Nd | WhiteBalance | Tint | Focus | Resolution | FrameRate | DynamicRange
  | DisplayLut | DisplayLutOn

datatype camera_value = Text string | Number f64 | Switch bool

datatype auto_kind = AutoFocus | AutoWhiteBalance | AutoIris

datatype camera_command = Set setting camera_value | FocusSteps int | Auto auto_kind | RecordStart | RecordStop

fun setting_label :: "setting \<Rightarrow> string" where
  "setting_label Iso = ''ISO''"
| "setting_label Shutter = ''shutter''"
| "setting_label Iris = ''iris''"
| "setting_label Nd = ''ND''"
| "setting_label WhiteBalance = ''white balance''"
| "setting_label Tint = ''tint''"
| "setting_label Focus = ''focus''"
| "setting_label Resolution = ''resolution''"
| "setting_label FrameRate = ''frame rate''"
| "setting_label DynamicRange = ''dynamic range''"
| "setting_label DisplayLut = ''display LUT''"
| "setting_label DisplayLutOn = ''display LUT''"

definition cannot_carry :: "f64_ops \<Rightarrow> setting \<Rightarrow> camera_value \<Rightarrow> string" where
  "cannot_carry ops s v =
     ''The Pocket's protocol cannot carry '' @ setting_label s @ '' ''
     @ (case v of Text t \<Rightarrow> t | Number n \<Rightarrow> show_f64 ops n | Switch on \<Rightarrow> if on then ''on'' else ''off'') @ ''.''"

definition not_yet :: "string \<Rightarrow> string \<Rightarrow> string" where
  "not_yet what press = ''CAM 1 has not reported '' @ what @ '' yet, so '' @ press @ '' cannot be sent with it.''"

text \<open>\<open>ok_or\<close>, and \<open>?\<close>.\<close>

definition ok_or :: "'a option \<Rightarrow> 'e \<Rightarrow> 'e + 'a" where
  "ok_or x e = (case x of Some v \<Rightarrow> Inr v | None \<Rightarrow> Inl e)"

definition then_do :: "'e + 'a \<Rightarrow> ('a \<Rightarrow> 'e + 'b) \<Rightarrow> 'e + 'b" where
  "then_do x f = (case x of Inl e \<Rightarrow> Inl e | Inr v \<Rightarrow> f v)"

definition positive_i32 :: "string \<Rightarrow> int option" where
  "positive_i32 s = (case parse_i32 (trim s) of Some n \<Rightarrow> if 0 < n then Some n else None | None \<Rightarrow> None)"

definition current_format :: "camera_reading \<Rightarrow> recording_format option" where
  "current_format current =
     (case resolution current of
        None \<Rightarrow> None
      | Some res \<Rightarrow>
          (case with_resolution no_format res of
             None \<Rightarrow> None
           | Some f \<Rightarrow> (case frame_rate current of None \<Rightarrow> None | Some rate \<Rightarrow> with_frame_rate f rate)))"

definition unit_range :: "f64 \<Rightarrow> bool" where
  "unit_range x \<longleftrightarrow> (case x of Fin r \<Rightarrow> 0 \<le> r \<and> r \<le> 1 | _ \<Rightarrow> False)"

fun set_message :: "f64_ops \<Rightarrow> setting \<Rightarrow> camera_value \<Rightarrow> camera_reading \<Rightarrow> string + message" where
  "set_message ops Iso (Text text) current =
     then_do (ok_or (positive_i32 text) (cannot_carry ops Iso (Text text))) (\<lambda>n. Inr (int32 VIDEO_ISO n))"
| "set_message ops Shutter (Text text) current =
     (case shutter_angle_of ops text of
        Some hundredths \<Rightarrow> Inr (int32 VIDEO_SHUTTER_ANGLE hundredths)
      | None \<Rightarrow>
          then_do (ok_or (case strip_prefix (trim text) ''1/'' of Some s \<Rightarrow> positive_i32 s | None \<Rightarrow> None)
              (cannot_carry ops Shutter (Text text)))
            (\<lambda>speed. Inr (int32 VIDEO_SHUTTER_SPEED speed)))"
| "set_message ops Iris (Text text) current =
     then_do (ok_or (aperture_value_of ops text) (cannot_carry ops Iris (Text text)))
       (\<lambda>av. Inr (fixed16 LENS_APERTURE_VALUE [av]))"
| "set_message ops Nd (Text text) current =
     then_do (ok_or (nd_of ops text) (cannot_carry ops Nd (Text text))) (\<lambda>stops. Inr (fixed16 VIDEO_ND_FILTER [stops]))"
| "set_message ops WhiteBalance (Number kelvin) current =
     then_do (ok_or (tint current) (not_yet ''its tint'' ''a white balance'')) (\<lambda>t.
     then_do (ok_or (int16_of kelvin) (cannot_carry ops WhiteBalance (Number kelvin))) (\<lambda>k16.
     then_do (ok_or (int16_of t) (cannot_carry ops WhiteBalance (Number kelvin))) (\<lambda>t16.
       Inr (int16 VIDEO_WHITE_BALANCE [k16, t16]))))"
| "set_message ops Tint (Number t) current =
     then_do (ok_or (white_balance current) (not_yet ''its white balance'' ''a tint'')) (\<lambda>kelvin.
     then_do (ok_or (int16_of kelvin) (cannot_carry ops Tint (Number t))) (\<lambda>k16.
     then_do (ok_or (int16_of t) (cannot_carry ops Tint (Number t))) (\<lambda>t16.
       Inr (int16 VIDEO_WHITE_BALANCE [k16, t16]))))"
| "set_message ops Focus (Number position) current =
     (if unit_range position then Inr (fixed16 LENS_FOCUS [position]) else Inl (cannot_carry ops Focus (Number position)))"
| "set_message ops Resolution (Text word) current =
     then_do (ok_or (current_format current) (not_yet ''its recording format'' ''a resolution'')) (\<lambda>f.
     then_do (ok_or (with_resolution f word) (cannot_carry ops Resolution (Text word))) (\<lambda>g.
       Inr (int16 VIDEO_RECORDING_FORMAT (to_values g))))"
| "set_message ops FrameRate (Text word) current =
     then_do (ok_or (current_format current) (not_yet ''its recording format'' ''a frame rate'')) (\<lambda>f.
     then_do (ok_or (with_frame_rate f word) (cannot_carry ops FrameRate (Text word))) (\<lambda>g.
       Inr (int16 VIDEO_RECORDING_FORMAT (to_values g))))"
| "set_message ops DynamicRange (Text word) current =
     then_do (ok_or (dynamic_range_of word) (cannot_carry ops DynamicRange (Text word)))
       (\<lambda>n. Inr (int8 VIDEO_DYNAMIC_RANGE [n]))"
| "set_message ops DisplayLut (Text word) current =
     then_do (ok_or (display_lut_of word) (cannot_carry ops DisplayLut (Text word))) (\<lambda>n.
     then_do (ok_or (display_lut_on current) (not_yet ''whether its display LUT is on'' ''a display LUT'')) (\<lambda>on.
       Inr (int8 VIDEO_DISPLAY_LUT [n, if on then 1 else 0])))"
| "set_message ops DisplayLutOn (Switch on) current =
     then_do (ok_or (case display_lut current of Some word \<Rightarrow> display_lut_of word | None \<Rightarrow> None)
         (not_yet ''its display LUT'' ''the switch''))
       (\<lambda>n. Inr (int8 VIDEO_DISPLAY_LUT [n, if on then 1 else 0]))"
| "set_message ops s v current = Inl (cannot_carry ops s v)"

fun message_for :: "f64_ops \<Rightarrow> camera_command \<Rightarrow> camera_reading \<Rightarrow> string + message" where
  "message_for ops RecordStart current = Inr (int8 MEDIA_TRANSPORT_MODE [TRANSPORT_RECORD])"
| "message_for ops RecordStop current = Inr (int8 MEDIA_TRANSPORT_MODE [TRANSPORT_PREVIEW])"
| "message_for ops (Auto AutoFocus) current = Inr (void LENS_AUTOFOCUS)"
| "message_for ops (Auto AutoIris) current = Inr (void LENS_AUTO_APERTURE)"
| "message_for ops (Auto AutoWhiteBalance) current = Inr (void VIDEO_AUTO_WHITE_BALANCE)"
| "message_for ops (FocusSteps _) current =
     Inl ''CAM 1's focus is a position, not a step: the Pocket takes no focus step.''"
| "message_for ops (Set s v) current = set_message ops s v current"

text \<open>\<open>encode_commands\<close>: \<open>working\<close> takes each message before the next is made.\<close>

fun encode_commands :: "f64_ops \<Rightarrow> camera_command list \<Rightarrow> camera_reading \<Rightarrow> string + 8 word list list" where
  "encode_commands ops [] working = Inr []"
| "encode_commands ops (c # cs) working =
     then_do (message_for ops c working) (\<lambda>m.
     then_do (encode m) (\<lambda>bytes.
     then_do (encode_commands ops cs (fst (apply_message ops working m))) (\<lambda>rest.
       Inr (bytes # rest))))"

section \<open>A reading holds what a camera can report\<close>

definition heard :: "f64_ops \<Rightarrow> camera_reading \<Rightarrow> message list \<Rightarrow> camera_reading" where
  "heard ops r ms = foldl (\<lambda>r m. fst (apply_message ops r m)) r ms"

definition an_i16 :: "f64 option \<Rightarrow> bool" where
  "an_i16 x \<longleftrightarrow> (case x of None \<Rightarrow> True | Some v \<Rightarrow> \<exists>k. v = Fin (of_int k) \<and> - 32768 \<le> k \<and> k \<le> 32767)"

definition a_rate :: "string option \<Rightarrow> bool" where
  "a_rate x \<longleftrightarrow> (case x of None \<Rightarrow> True
     | Some w \<Rightarrow> \<exists>f. w = frame_rate_word f \<and> - 32768 \<le> file_frame_rate f \<and> file_frame_rate f \<le> 32767)"

definition a_lut :: "string option \<Rightarrow> bool" where
  "a_lut x \<longleftrightarrow> (case x of None \<Rightarrow> True | Some w \<Rightarrow> \<exists>n. display_lut_text n = Some w)"

definition reported :: "camera_reading \<Rightarrow> bool" where
  "reported r \<longleftrightarrow> an_i16 (white_balance r) \<and> an_i16 (tint r) \<and> a_rate (frame_rate r) \<and> a_lut (display_lut r)"

text \<open>Which fields a message can touch, one case for each arm of the match.\<close>

inductive touched :: "camera_reading \<Rightarrow> message \<Rightarrow> camera_reading \<Rightarrow> bool" for r m where
  unread: "touched r m r"
| focus: "touched r m (r\<lparr>focus := x\<rparr>)"
| iris: "touched r m (r\<lparr>iris := x\<rparr>)"
| white_balance: "touched r m (read_white_balance (int16s m) r)"
| dynamic_range: "touched r m (r\<lparr>dynamic_range := x\<rparr>)"
| format: "from_values (int16s m) = Some f \<Longrightarrow>
    touched r m (r\<lparr>resolution := Some (resolution_word f), frame_rate := Some (frame_rate_word f)\<rparr>)"
| shutter: "touched r m (r\<lparr>shutter := x\<rparr>)"
| iso: "touched r m (r\<lparr>iso := x\<rparr>)"
| display_lut: "touched r m (read_display_lut (int8s m) r)"
| nd: "touched r m (r\<lparr>nd := x\<rparr>)"
| recording: "touched r m (r\<lparr>recording := x\<rparr>)"
| battery: "touched r m (r\<lparr>battery := x\<rparr>)"
| record_time: "touched r m (r\<lparr>record_time_left_minutes := x\<rparr>)"

lemma touched_if: "(c \<Longrightarrow> touched r m (fst a)) \<Longrightarrow> (\<not> c \<Longrightarrow> touched r m (fst b)) \<Longrightarrow> touched r m (fst (if c then a else b))"
  by simp

lemma touched_speed: "touched r m (read_shutter_speed m r)"
  by (auto simp: read_shutter_speed_def Let_def intro: touched.intros split: option.split)

lemma touched_battery: "touched r m (read_battery vs r)"
  by (auto simp: read_battery_def intro: touched.intros split: list.split)

lemma apply_touches: "touched r m (fst (apply_message ops r m))"
  unfolding apply_message_def Let_def
  by (intro touched_if; simp only: fst_conv split: option.split;
      intro conjI allI impI touched.intros touched_speed touched_battery)

lemma reported_white_balance:
  assumes "reported r" "\<And>v. v \<in> set vs \<Longrightarrow> - 32768 \<le> v \<and> v \<le> 32767"
  shows "reported (read_white_balance vs r)"
proof -
  consider "vs = []" | k where "vs = [k]" | k t rest where "vs = k # t # rest" by (metis list.exhaust)
  then show ?thesis
    using assms by cases (auto simp: read_white_balance_def reported_def an_i16_def)
qed

lemma reported_display_lut: "reported r \<Longrightarrow> reported (read_display_lut vs r)"
  by (auto simp: read_display_lut_def reported_def a_lut_def Let_def split: option.split list.split)

lemma from_values_rate: "from_values vs = Some f \<Longrightarrow> file_frame_rate f \<in> set vs"
  by (cases vs rule: from_values.cases) auto

lemma reported_touched:
  assumes "touched r m r'" "reported r"
  shows "reported r'"
  using assms
proof cases
  case white_balance
  with assms(2) int16s_range [of _ m] show ?thesis by (simp add: reported_white_balance)
next
  case display_lut
  with assms(2) show ?thesis by (simp add: reported_display_lut)
next
  case (format f)
  from int16s_range [OF from_values_rate [OF format(2)]]
  have "a_rate (Some (frame_rate_word f))" by (auto simp: a_rate_def)
  with format assms(2) show ?thesis by (simp add: reported_def)
qed (use assms(2) in \<open>simp_all add: reported_def\<close>)

lemma reported_heard: "reported r \<Longrightarrow> reported (heard ops r ms)"
proof (induction ms arbitrary: r)
  case (Cons m ms)
  then show ?case using reported_touched [OF apply_touches] by (simp add: heard_def)
qed (simp add: heard_def)

lemma reported_no_reading: "reported no_reading"
  by (simp add: reported_def no_reading_def an_i16_def a_rate_def a_lut_def)

section \<open>What each press sets\<close>

lemma int_parameter [simp]:
  "parameter (int8 p vs) = p" "parameter (int16 p vs) = p" "parameter (int32 p v) = p" "parameter (fixed16 p fs) = p"
  "data_type (int8 p vs) = TYPE_INT8" "data_type (int16 p vs) = TYPE_INT16" "data_type (int32 p v) = TYPE_INT32"
  "data_type (fixed16 p fs) = TYPE_FIXED16"
  "operation (int8 p vs) = OPERATION_ASSIGN" "operation (int16 p vs) = OPERATION_ASSIGN"
  "operation (int32 p v) = OPERATION_ASSIGN" "operation (fixed16 p fs) = OPERATION_ASSIGN"
  by (simp_all add: int8_def int16_def int32_def fixed16_def assign_def)

lemma apply_white_balance:
  assumes "- 32768 \<le> k" "k \<le> 32767" "- 32768 \<le> t" "t \<le> 32767"
  shows "fst (apply_message ops r (int16 VIDEO_WHITE_BALANCE [k, t]))
    = r\<lparr>white_balance := Some (Fin (of_int k)), tint := Some (Fin (of_int t))\<rparr>"
proof -
  have "int16s (int16 VIDEO_WHITE_BALANCE [k, t]) = [k, t]" using assms by (intro int16s_int16) simp
  then show ?thesis
    unfolding apply_message_def Let_def int_parameter by (simp add: parameter_defs type_defs read_white_balance_def)
qed

lemma apply_format:
  assumes "list_all (\<lambda>v. - 32768 \<le> v \<and> v \<le> 32767) (to_values f)"
  shows "fst (apply_message ops r (int16 VIDEO_RECORDING_FORMAT (to_values f)))
    = r\<lparr>resolution := Some (resolution_word f), frame_rate := Some (frame_rate_word f)\<rparr>"
  unfolding apply_message_def Let_def int_parameter int16s_int16 [OF assms] from_to_values
  by (simp add: parameter_defs type_defs)

lemma apply_dynamic_range:
  assumes "dynamic_range_of w = Some n"
  shows "fst (apply_message ops r (int8 VIDEO_DYNAMIC_RANGE [n])) = r\<lparr>dynamic_range := Some (trim w)\<rparr>"
proof -
  from dynamic_range_of_text [OF assms] have n: "n \<in> {0, 1, 2}" "dynamic_range_text n = Some (trim w)" by auto
  then have "int8s (int8 VIDEO_DYNAMIC_RANGE [n]) = [n]" by (intro int8s_int8) auto
  with n show ?thesis
    unfolding apply_message_def Let_def int_parameter by (simp add: parameter_defs type_defs first_def)
qed

lemma apply_display_lut:
  assumes "display_lut_text n = Some w"
  shows "fst (apply_message ops r (int8 VIDEO_DISPLAY_LUT [n, if on then 1 else 0]))
    = r\<lparr>display_lut := Some w, display_lut_on := Some on\<rparr>"
proof -
  have "n \<in> {0, 1, 2, 3}" using display_lut_cases [OF assms] by simp
  then have "int8s (int8 VIDEO_DISPLAY_LUT [n, if on then 1 else 0]) = [n, if on then 1 else 0]"
    by (intro int8s_int8) auto
  with assms show ?thesis
    unfolding apply_message_def Let_def int_parameter
    by (simp add: parameter_defs type_defs first_def read_display_lut_def)
qed

lemma apply_fixed16:
  "\<exists>x. fst (apply_message ops r (fixed16 LENS_APERTURE_VALUE vs)) = r\<lparr>iris := x\<rparr>
     \<or> fst (apply_message ops r (fixed16 LENS_APERTURE_VALUE vs)) = r"
  "\<exists>x. fst (apply_message ops r (fixed16 VIDEO_ND_FILTER vs)) = r\<lparr>nd := x\<rparr>
     \<or> fst (apply_message ops r (fixed16 VIDEO_ND_FILTER vs)) = r"
  "\<exists>x. fst (apply_message ops r (fixed16 LENS_FOCUS vs)) = r\<lparr>focus := x\<rparr>
     \<or> fst (apply_message ops r (fixed16 LENS_FOCUS vs)) = r"
  unfolding apply_message_def Let_def int_parameter
  by (auto simp: parameter_defs type_defs split: option.split)

lemma apply_int32:
  "\<exists>x. fst (apply_message ops r (int32 VIDEO_ISO v)) = r\<lparr>iso := x\<rparr> \<or> fst (apply_message ops r (int32 VIDEO_ISO v)) = r"
  "\<exists>x. fst (apply_message ops r (int32 VIDEO_SHUTTER_ANGLE v)) = r\<lparr>shutter := x\<rparr>
     \<or> fst (apply_message ops r (int32 VIDEO_SHUTTER_ANGLE v)) = r"
  "\<exists>x. fst (apply_message ops r (int32 VIDEO_SHUTTER_SPEED v)) = r\<lparr>shutter := x\<rparr>
     \<or> fst (apply_message ops r (int32 VIDEO_SHUTTER_SPEED v)) = r"
  unfolding apply_message_def Let_def int_parameter
  by (auto simp: parameter_defs type_defs read_shutter_speed_def Let_def split: option.split)

lemma then_do_Inr: "then_do x f = Inr y \<longleftrightarrow> (\<exists>v. x = Inr v \<and> f v = Inr y)"
  by (cases x) (auto simp: then_do_def)

lemma ok_or_Inr: "ok_or x e = Inr v \<longleftrightarrow> x = Some v"
  by (cases x) (auto simp: ok_or_def)

definition setting_value :: "setting \<Rightarrow> camera_reading \<Rightarrow> camera_value option" where
  "setting_value s r =
     (case s of
        Iso \<Rightarrow> map_option Text (iso r) | Shutter \<Rightarrow> map_option Text (shutter r) | Iris \<Rightarrow> map_option Text (iris r)
      | Nd \<Rightarrow> map_option Text (nd r) | WhiteBalance \<Rightarrow> map_option Number (white_balance r)
      | Tint \<Rightarrow> map_option Number (tint r) | Focus \<Rightarrow> map_option Number (focus r)
      | Resolution \<Rightarrow> map_option Text (resolution r) | FrameRate \<Rightarrow> map_option Text (frame_rate r)
      | DynamicRange \<Rightarrow> map_option Text (dynamic_range r) | DisplayLut \<Rightarrow> map_option Text (display_lut r)
      | DisplayLutOn \<Rightarrow> map_option Switch (display_lut_on r))"

abbreviation fits_i16 :: "int \<Rightarrow> bool" where
  "fits_i16 v \<equiv> - 32768 \<le> v \<and> v \<le> 32767"

definition format_fits :: "recording_format \<Rightarrow> bool" where
  "format_fits f \<longleftrightarrow> fits_i16 (file_frame_rate f) \<and> fits_i16 (sensor_frame_rate f) \<and> fits_i16 (width f) \<and> fits_i16 (height f)"

lemma to_values_range: "format_fits f \<Longrightarrow> list_all fits_i16 (to_values f)"
  using sint_range_size [of "flags f"] by (simp add: format_fits_def to_values_def word_size)

lemma with_resolution_fits:
  assumes "format_fits f" "with_resolution f w = Some g"
  shows "format_fits g"
proof -
  have "list_all (\<lambda>(w, h, _). fits_i16 w \<and> fits_i16 h) SIZES" by code_simp
  moreover from assms(2) obtain a b n where "find (\<lambda>(_, _, name). name = w) SIZES = Some (a, b, n)"
    and g: "g = f\<lparr>width := a, height := b, sensor_frame_rate := 0\<rparr>"
    by (auto simp: with_resolution_def split: option.splits prod.splits)
  then have "(a, b, w) \<in> set SIZES" by (auto simp: find_Some_iff) (metis nth_mem)
  ultimately show ?thesis using assms(1) g by (auto simp: format_fits_def list_all_iff)
qed

lemma with_frame_rate_fits:
  assumes "format_fits f" "with_frame_rate f w = Some g"
  shows "format_fits g"
proof -
  from assms(2) obtain rate m where rm: "rate_of_word w = Some (rate, m)"
    and g: "file_frame_rate g = rate" "sensor_frame_rate g = 0" "width g = width f" "height g = height f"
    by (auto simp: with_frame_rate_def split: option.splits prod.splits)
  with rate_of_word_range [OF rm] assms(1) show ?thesis by (simp add: format_fits_def)
qed

lemma current_format_facts:
  assumes "reported r" "current_format r = Some f"
  shows "format_fits f \<and> resolution r = Some (resolution_word f) \<and> frame_rate r = Some (frame_rate_word f)"
proof -
  from assms(2) obtain res f0 rate where f0: "resolution r = Some res" "with_resolution no_format res = Some f0"
    and f: "frame_rate r = Some rate" "with_frame_rate f0 rate = Some f"
    by (auto simp: current_format_def split: option.splits)
  have "format_fits no_format" by (simp add: format_fits_def no_format_def)
  then have fits: "format_fits f" using with_resolution_fits [OF _ f0(2)] with_frame_rate_fits [OF _ f(2)] by blast
  from assms(1) f(1) obtain h where h: "rate = frame_rate_word h" "fits_i16 (file_frame_rate h)"
    by (auto simp: reported_def a_rate_def)
  then have "frame_rate_word f = rate" using frame_rate_back [of f0 h f] f(2) by simp
  moreover have "resolution_word f = res"
    using resolution_back [OF f0(2)] with_frame_rate_keeps [OF f(2)] resolution_word_size [of f f0] by simp
  ultimately show ?thesis using f0(1) f(1) fits by simp
qed

lemma white_balance_back:
  assumes "reported r" "white_balance r = Some x" "int16_of x = Some k"
  shows "x = Fin (of_int k)"
  using assms int16_of_int by (auto simp: reported_def an_i16_def)

lemma tint_back:
  assumes "reported r" "tint r = Some x" "int16_of x = Some k"
  shows "x = Fin (of_int k)"
  using assms int16_of_int by (auto simp: reported_def an_i16_def)

lemma set_changes_one:
  assumes r: "reported r" and m: "set_message ops s v r = Inr m" and s': "s' \<noteq> s"
  shows "setting_value s' (fst (apply_message ops r m)) = setting_value s' r
    \<and> recording (fst (apply_message ops r m)) = recording r"
proof (cases s)
  case Iso
  with m obtain n where "m = int32 VIDEO_ISO n" by (cases v) (auto simp: then_do_Inr)
  with apply_int32(1) [of ops r n] s' Iso show ?thesis by (cases s') (auto simp: setting_value_def)
next
  case Shutter
  with m obtain n where "m = int32 VIDEO_SHUTTER_ANGLE n \<or> m = int32 VIDEO_SHUTTER_SPEED n"
    by (cases v) (auto simp: then_do_Inr split: option.splits)
  with apply_int32(2,3) [of ops r n] s' Shutter show ?thesis by (cases s') (auto simp: setting_value_def)
next
  case Iris
  with m obtain x where "m = fixed16 LENS_APERTURE_VALUE [x]" by (cases v) (auto simp: then_do_Inr)
  with apply_fixed16(1) [of ops r "[x]"] s' Iris show ?thesis by (cases s') (auto simp: setting_value_def)
next
  case Nd
  with m obtain x where "m = fixed16 VIDEO_ND_FILTER [x]" by (cases v) (auto simp: then_do_Inr)
  with apply_fixed16(2) [of ops r "[x]"] s' Nd show ?thesis by (cases s') (auto simp: setting_value_def)
next
  case Focus
  with m obtain x where "m = fixed16 LENS_FOCUS [x]" by (cases v) (auto split: if_splits)
  with apply_fixed16(3) [of ops r "[x]"] s' Focus show ?thesis by (cases s') (auto simp: setting_value_def)
next
  case WhiteBalance
  with m obtain k x t where k: "m = int16 VIDEO_WHITE_BALANCE [k, t]" "tint r = Some x" "int16_of x = Some t" "fits_i16 k"
    using int16_of_range by (cases v) (auto simp: then_do_Inr ok_or_Inr)
  with tint_back [OF r k(2,3)] int16_of_range [OF k(3)] s' WhiteBalance show ?thesis
    by (cases s') (auto simp: setting_value_def apply_white_balance)
next
  case Tint
  with m obtain k x t where k: "m = int16 VIDEO_WHITE_BALANCE [k, t]" "white_balance r = Some x" "int16_of x = Some k" "fits_i16 t"
    using int16_of_range by (cases v) (auto simp: then_do_Inr ok_or_Inr)
  with white_balance_back [OF r k(2,3)] int16_of_range [OF k(3)] s' Tint show ?thesis
    by (cases s') (auto simp: setting_value_def apply_white_balance)
next
  case Resolution
  with m obtain w f g where g: "m = int16 VIDEO_RECORDING_FORMAT (to_values g)" "current_format r = Some f"
    "with_resolution f w = Some g"
    by (cases v) (auto simp: then_do_Inr ok_or_Inr)
  have "format_fits g" and "frame_rate r = Some (frame_rate_word g)"
    using current_format_facts [OF r g(2)] with_resolution_fits [OF _ g(3)] with_resolution_keeps [OF g(3)]
      frame_rate_word_rate [of g f] by auto
  with g(1) s' Resolution show ?thesis
    by (cases s') (auto simp: setting_value_def apply_format to_values_range)
next
  case FrameRate
  with m obtain w f g where g: "m = int16 VIDEO_RECORDING_FORMAT (to_values g)" "current_format r = Some f"
    "with_frame_rate f w = Some g"
    by (cases v) (auto simp: then_do_Inr ok_or_Inr)
  have "format_fits g" and "resolution r = Some (resolution_word g)"
    using current_format_facts [OF r g(2)] with_frame_rate_fits [OF _ g(3)] with_frame_rate_keeps [OF g(3)]
      resolution_word_size [of g f] by auto
  with g(1) s' FrameRate show ?thesis
    by (cases s') (auto simp: setting_value_def apply_format to_values_range)
next
  case DynamicRange
  with m obtain w n where "m = int8 VIDEO_DYNAMIC_RANGE [n]" "dynamic_range_of w = Some n"
    by (cases v) (auto simp: then_do_Inr ok_or_Inr)
  with s' DynamicRange show ?thesis by (cases s') (auto simp: setting_value_def apply_dynamic_range)
next
  case DisplayLut
  with m obtain w n on where "m = int8 VIDEO_DISPLAY_LUT [n, if on then 1 else 0]" "display_lut_of w = Some n"
    "display_lut_on r = Some on"
    by (cases v) (auto simp: then_do_Inr ok_or_Inr)
  with s' DisplayLut display_lut_of_text [of w n] show ?thesis
    by (cases s') (auto simp: setting_value_def apply_display_lut simp del: if_split)
next
  case DisplayLutOn
  with m obtain w n on where n: "m = int8 VIDEO_DISPLAY_LUT [n, if on then 1 else 0]" "display_lut r = Some w"
    "display_lut_of w = Some n"
    by (cases v) (auto simp: then_do_Inr ok_or_Inr split: option.splits)
  from r n(2) obtain k where "display_lut_text k = Some w" by (auto simp: reported_def a_lut_def)
  with display_lut_cases [of k w] n(3) have "display_lut_text n = Some w" by auto
  with n s' DisplayLutOn show ?thesis by (cases s') (auto simp: setting_value_def apply_display_lut)
qed

section \<open>A press\<close>

text \<open>
  C22. A press that sets one setting leaves every other as the camera last reported it, the other
  half of its parameter too, and does not start or stop a recording; what the camera holds stays
  what a camera can report.
\<close>

theorem press_changes_its_setting_only:
  assumes "reported r" "message_for ops (Set s v) r = Inr m" "s' \<noteq> s"
  shows "setting_value s' (fst (apply_message ops r m)) = setting_value s' r
    \<and> recording (fst (apply_message ops r m)) = recording r
    \<and> reported (fst (apply_message ops r m))"
  using set_changes_one [OF assms(1) _ assms(3)] reported_touched [OF apply_touches assms(1)] assms(2) by simp

text \<open>Arithmetic that rounds nothing, for the examples.\<close>

definition exact_ops :: f64_ops where
  "exact_ops = \<lparr>fl = Fin, parse_f64 = (\<lambda>_. None), powf2 = (\<lambda>x. x), log2 = (\<lambda>x. x),
     show_f64 = (\<lambda>_. []), show_tenth = (\<lambda>_. [])\<rparr>"

theorem press_changes_its_setting_only_witness:
  "setting_value Tint (fst (apply_message exact_ops (no_reading\<lparr>white_balance := Some (Fin 5600), tint := Some (Fin 2)\<rparr>)
      (int16 VIDEO_WHITE_BALANCE [3200, 2]))) = Some (Number (Fin 2))"
proof -
  let ?r = "no_reading\<lparr>white_balance := Some (Fin 5600), tint := Some (Fin 2)\<rparr>"
  have i: "int16_of (Fin 3200) = Some 3200" "int16_of (Fin 2) = Some 2"
    using int16_of_int [of 3200] int16_of_int [of 2] by simp_all
  have "\<exists>k. (5600 :: rat) = of_int k \<and> fits_i16 k" "\<exists>k. (2 :: rat) = of_int k \<and> fits_i16 k"
    by (rule exI [of _ 5600], simp) (rule exI [of _ 2], simp)
  then have r: "reported ?r" by (simp add: reported_def an_i16_def no_reading_def a_rate_def a_lut_def)
  have "message_for exact_ops (Set WhiteBalance (Number (Fin 3200))) ?r = Inr (int16 VIDEO_WHITE_BALANCE [3200, 2])"
    by (simp add: i then_do_def ok_or_def)
  from press_changes_its_setting_only [OF r this, of Tint] show ?thesis by (simp add: setting_value_def)
qed

lemma press_frames:
  "encode_commands ops cs r = Inr frames \<Longrightarrow>
     \<exists>ms. list_all2 (\<lambda>m b. encode m = Inr b) ms frames \<and> length ms = length cs
       \<and> (\<forall>i < length cs. message_for ops (cs ! i) (heard ops r (take i ms)) = Inr (ms ! i))"
proof (induction cs arbitrary: r frames)
  case (Cons c cs)
  then obtain m bytes rest where m: "message_for ops c r = Inr m" "encode m = Inr bytes" "frames = bytes # rest"
    and rest: "encode_commands ops cs (fst (apply_message ops r m)) = Inr rest"
    by (auto simp: then_do_Inr)
  from Cons.IH [OF rest] obtain ms where ms: "list_all2 (\<lambda>m b. encode m = Inr b) ms rest" "length ms = length cs"
    and i: "\<And>i. i < length cs \<Longrightarrow> message_for ops (cs ! i) (heard ops (fst (apply_message ops r m)) (take i ms)) = Inr (ms ! i)"
    by auto
  have "message_for ops ((c # cs) ! i) (heard ops r (take i (m # ms))) = Inr ((m # ms) ! i)" if "i < length (c # cs)" for i
    using that m(1) i by (cases i) (auto simp: heard_def)
  with ms m show ?case by (intro exI [of _ "m # ms"]) simp
qed simp

text \<open>
  C23. What a press sends is read back as one message for each of its commands, in order, each
  made from what the camera holds once it has taken those before it; and every frame fits the
  camera's 64 bytes.
\<close>

theorem press_is_read_as_made:
  assumes "encode_commands ops cs r = Inr frames"
  shows "length (decode_all (concat frames)) = length cs
    \<and> (\<forall>i < length cs. message_for ops (cs ! i) (heard ops r (take i (decode_all (concat frames))))
         = Inr (decode_all (concat frames) ! i))
    \<and> list_all (\<lambda>b. length b \<le> MAX_MESSAGE) frames"
proof -
  from press_frames [OF assms] obtain ms where ms: "list_all2 (\<lambda>m b. encode m = Inr b) ms frames" "length ms = length cs"
    and i: "\<forall>i < length cs. message_for ops (cs ! i) (heard ops r (take i ms)) = Inr (ms ! i)" by blast
  have "decode_from [] 0 = []" by (simp add: decode_from.simps HEADER_def)
  with decode_frames [OF ms(1), of "[]"] have "decode_all (concat frames) = ms" by (simp add: decode_all_def)
  moreover have "list_all (\<lambda>b. length b \<le> MAX_MESSAGE) frames"
    using ms(1) by (induction rule: list_all2_induct) (auto simp: encode_short)
  ultimately show ?thesis using ms(2) i by simp
qed

theorem press_is_read_as_made_witness:
  "length (decode_all (concat [[255, 5, 0, 0, 10, 1, 1, 0, 2, 0, 0, 0], [255, 5, 0, 0, 10, 1, 1, 0, 0, 0, 0, 0]])) = 2"
proof -
  have "encode (int8 MEDIA_TRANSPORT_MODE [TRANSPORT_RECORD]) = Inr [255, 5, 0, 0, 10, 1, 1, 0, 2, 0, 0, 0]"
    "encode (int8 MEDIA_TRANSPORT_MODE [TRANSPORT_PREVIEW]) = Inr [255, 5, 0, 0, 10, 1, 1, 0, 0, 0, 0, 0]"
    by code_simp+
  then have "encode_commands exact_ops [RecordStart, RecordStop] no_reading
    = Inr [[255, 5, 0, 0, 10, 1, 1, 0, 2, 0, 0, 0], [255, 5, 0, 0, 10, 1, 1, 0, 0, 0, 0, 0]]"
    by (simp add: then_do_def)
  from press_is_read_as_made [OF this] show ?thesis by simp
qed

text \<open>
  A camera that reports a size outside the list has reported its recording format; a press of the
  frame rate is still refused as if it had not.
\<close>

theorem unlisted_size_reads_as_unreported:
  "resolution_word \<lparr>file_frame_rate = 25, sensor_frame_rate = 25, width = 2880, height = 2160, flags = 0\<rparr> \<notin> set (map (snd \<circ> snd) SIZES)
   \<and> set_message ops FrameRate (Text ''24'')
       (no_reading\<lparr>resolution := Some (resolution_word \<lparr>file_frame_rate = 25, sensor_frame_rate = 25, width = 2880,
          height = 2160, flags = 0\<rparr>), frame_rate := Some ''25''\<rparr>)
     = Inl ''CAM 1 has not reported its recording format yet, so a frame rate cannot be sent with it.''"
proof -
  let ?w = "resolution_word \<lparr>file_frame_rate = 25, sensor_frame_rate = 25, width = 2880, height = 2160, flags = 0\<rparr>"
  have "CHR 0xC3 \<in> set ?w" by (simp add: resolution_word_def SIZES_def TIMES_def)
  moreover have "list_all (\<lambda>(_, _, name). CHR 0xC3 \<notin> set name) SIZES" by (simp add: SIZES_def)
  ultimately have "list_all (\<lambda>(_, _, name). name \<noteq> ?w) SIZES" by (auto simp: list_all_iff)
  then have w: "?w \<notin> set (map (snd \<circ> snd) SIZES)" and "find (\<lambda>(_, _, name). name = ?w) SIZES = None"
    by (auto simp: list_all_iff find_None_iff)
  then have "with_resolution no_format ?w = None" by (simp add: with_resolution_def)
  with w show ?thesis by (simp add: current_format_def then_do_def ok_or_def not_yet_def)
qed

end
