(* ===== verification/Camera_Model.thy ===== *)
theory Camera_Model
  imports Camera_Press
begin

text \<open>
  The three cameras as the hardware link knows them (\<open>cameras/model.rs\<close>, with the types of
  \<open>cameras/snapshot.rs\<close>): what each reports and allows, the words the operator reads, where a step
  of a dial lands, and the form of an address. \<open>f64\<close> is \<open>Camera_Words.f64\<close>, its rounding a
  parameter; the scales' own numbers are whole and held exactly.
\<close>

section \<open>Settings\<close>

definition CAMERA_NUMBERS :: "nat list" where "CAMERA_NUMBERS = [1, 2, 3]"
definition VMIX_INPUT_MIN :: nat where "VMIX_INPUT_MIN = 1"
definition VMIX_INPUT_MAX :: nat where "VMIX_INPUT_MAX = 1000"

definition PRESS_SETTINGS :: "setting list" where
  "PRESS_SETTINGS = [Iso, Shutter, Iris, Nd, WhiteBalance, Tint, Focus]"

fun setting_key :: "setting \<Rightarrow> string" where
  "setting_key Iso = ''iso''"
| "setting_key Shutter = ''shutter''"
| "setting_key Iris = ''iris''"
| "setting_key Nd = ''nd''"
| "setting_key WhiteBalance = ''whiteBalance''"
| "setting_key Tint = ''tint''"
| "setting_key Focus = ''focus''"
| "setting_key Resolution = ''resolution''"
| "setting_key FrameRate = ''frameRate''"
| "setting_key DynamicRange = ''dynamicRange''"
| "setting_key DisplayLut = ''displayLut''"
| "setting_key DisplayLutOn = ''displayLutOn''"

definition pressed_setting :: "string \<Rightarrow> setting option" where
  "pressed_setting key = find (\<lambda>s. setting_key s = key) PRESS_SETTINGS"

definition is_level :: "setting \<Rightarrow> bool" where
  "is_level s \<longleftrightarrow> s = WhiteBalance \<or> s = Tint \<or> s = Focus"

datatype dial_bank = ExposureBank | ColourBank | FocusBank

fun bank_key :: "dial_bank \<Rightarrow> string" where
  "bank_key ExposureBank = ''exposure''"
| "bank_key ColourBank = ''colour''"
| "bank_key FocusBank = ''focus''"

definition bank_of_key :: "string \<Rightarrow> dial_bank option" where
  "bank_of_key key = find (\<lambda>b. bank_key b = key) [ExposureBank, ColourBank, FocusBank]"

fun next_bank :: "dial_bank \<Rightarrow> dial_bank" where
  "next_bank ExposureBank = ColourBank"
| "next_bank ColourBank = FocusBank"
| "next_bank FocusBank = ExposureBank"

fun bank_dials :: "dial_bank \<Rightarrow> setting option list" where
  "bank_dials ExposureBank = [Some Iso, Some Shutter, Some Iris, Some Nd]"
| "bank_dials ColourBank = [Some WhiteBalance, Some Tint, None, None]"
| "bank_dials FocusBank = [Some Focus, None, None, None]"

definition auto_of_key :: "string \<Rightarrow> auto_kind option" where
  "auto_of_key key =
     (if key = ''focus'' then Some AutoFocus
      else if key = ''whiteBalance'' then Some AutoWhiteBalance
      else if key = ''iris'' then Some AutoIris
      else None)"

fun auto_setting :: "auto_kind \<Rightarrow> setting" where
  "auto_setting AutoFocus = Focus"
| "auto_setting AutoWhiteBalance = WhiteBalance"
| "auto_setting AutoIris = Iris"

fun auto_words :: "auto_kind \<Rightarrow> string" where
  "auto_words AutoFocus = ''autofocus''"
| "auto_words AutoWhiteBalance = ''auto white balance''"
| "auto_words AutoIris = ''auto iris''"

section \<open>A level's scale\<close>

record level_scale =
  scale_min :: rat
  scale_max :: rat
  scale_step :: rat
  scale_unit :: string

definition is_finite :: "f64 \<Rightarrow> bool" where
  "is_finite x \<longleftrightarrow> (case x of Fin _ \<Rightarrow> True | _ \<Rightarrow> False)"

definition f64_round :: "f64 \<Rightarrow> f64" where
  "f64_round x = (case x of Fin r \<Rightarrow> Fin (of_int (round_away r)) | _ \<Rightarrow> x)"

text \<open>A sum, as a difference from the negated number.\<close>

definition f64_plus :: "f64_ops \<Rightarrow> f64 \<Rightarrow> f64 \<Rightarrow> f64" where
  "f64_plus ops x y = f64_minus ops x (case y of Fin b \<Rightarrow> Fin (- b) | Inf \<Rightarrow> NegInf | NegInf \<Rightarrow> Inf | NaN \<Rightarrow> NaN)"

text \<open>\<open>(value - min) / step\<close>, the step above zero.\<close>

definition steps_above :: "f64_ops \<Rightarrow> level_scale \<Rightarrow> f64 \<Rightarrow> f64" where
  "steps_above ops s value = f64_times ops (f64_minus ops value (Fin (scale_min s))) (1 / scale_step s)"

definition scale_allows :: "f64_ops \<Rightarrow> level_scale \<Rightarrow> f64 \<Rightarrow> bool" where
  "scale_allows ops s value =
     (if \<not> is_finite value
        \<or> f64_less value (f64_minus ops (Fin (scale_min s)) (fl ops (1 / 1000000000)))
        \<or> f64_less (f64_plus ops (Fin (scale_max s)) (fl ops (1 / 1000000000))) value
      then False
      else let steps = steps_above ops s value
           in f64_less (f64_abs (f64_minus ops steps (f64_round steps))) (fl ops (1 / 1000000)))"

fun decimals_from :: "f64_ops \<Rightarrow> nat \<Rightarrow> f64 \<Rightarrow> nat" where
  "decimals_from ops 0 scaled = 0"
| "decimals_from ops (Suc left) scaled =
     (if f64_less (fl ops (1 / 1000000000)) (f64_abs (f64_minus ops scaled (f64_round scaled)))
      then Suc (decimals_from ops left (f64_times ops scaled 10)) else 0)"

definition step_decimals :: "f64_ops \<Rightarrow> rat \<Rightarrow> nat" where
  "step_decimals ops step = decimals_from ops 6 (Fin step)"

text \<open>\<open>x as i64\<close>: truncated, and held within the type; \<open>NaN\<close> is 0.\<close>

definition as_i64 :: "f64 \<Rightarrow> int" where
  "as_i64 x =
     (case x of
        Fin r \<Rightarrow> clamp (- 9223372036854775808) 9223372036854775807 (if 0 \<le> r then \<lfloor>r\<rfloor> else \<lceil>r\<rceil>)
      | Inf \<Rightarrow> 9223372036854775807 | NegInf \<Rightarrow> - 9223372036854775808 | NaN \<Rightarrow> 0)"

definition scale_at :: "f64_ops \<Rightarrow> level_scale \<Rightarrow> int \<Rightarrow> f64" where
  "scale_at ops s steps =
     (let factor = 10 ^ step_decimals ops (scale_step s);
          value = f64_plus ops (Fin (scale_min s)) (f64_times ops (fl ops (of_int steps)) (scale_step s))
      in f64_times ops (f64_round (f64_times ops value factor)) (1 / factor))"

definition steps_of :: "f64_ops \<Rightarrow> level_scale \<Rightarrow> f64 \<Rightarrow> int" where
  "steps_of ops s value = as_i64 (f64_round (steps_above ops s value))"

definition last_step :: "f64_ops \<Rightarrow> level_scale \<Rightarrow> int" where
  "last_step ops s = steps_of ops s (Fin (scale_max s))"

section \<open>A step\<close>

datatype step_from = NotRead | NoNumber string

text \<open>
  The number in a choice's value. Digits and dots make no negative number; no character outside
  ASCII has a lower-case form with one of the characters looked for, so the ASCII letters alone
  are lowered.
\<close>

definition number_char :: "char \<Rightarrow> bool" where
  "number_char c \<longleftrightarrow> is_ascii_digit c \<or> c = CHR ''.''"

definition f64_ratio :: "f64_ops \<Rightarrow> f64 \<Rightarrow> f64 \<Rightarrow> f64" where
  "f64_ratio ops x y =
     (case (x, y) of
        (Fin a, Fin b) \<Rightarrow> fl ops (a / b) | (Inf, Fin _) \<Rightarrow> Inf | (Fin _, Inf) \<Rightarrow> Fin 0 | _ \<Rightarrow> NaN)"

definition option_number :: "f64_ops \<Rightarrow> string \<Rightarrow> f64 option" where
  "option_number ops value =
     (let text = map to_ascii_lower (trim value) in
      if text = ''clear'' then Some (Fin 0)
      else
        let rest = dropWhile (\<lambda>c. \<not> is_ascii_digit c) (if starts_with text ''f/'' then drop 2 text else text)
        in if rest = [] then None
           else case parse_f64 ops (takeWhile number_char rest) of
                  None \<Rightarrow> None
                | Some n \<Rightarrow>
                    (case dropWhile number_char rest of
                       CHR ''/'' # denominator \<Rightarrow>
                         (case parse_f64 ops (takeWhile number_char denominator) of
                            None \<Rightarrow> None
                          | Some d \<Rightarrow> if d = Fin 0 then None else Some (f64_ratio ops n d))
                     | _ \<Rightarrow> Some n))"

fun position :: "('a \<Rightarrow> bool) \<Rightarrow> 'a list \<Rightarrow> nat option" where
  "position p [] = None"
| "position p (x # xs) = (if p x then Some 0 else map_option Suc (position p xs))"

fun all_some :: "'a option list \<Rightarrow> 'a list option" where
  "all_some [] = Some []"
| "all_some (None # xs) = None"
| "all_some (Some x # xs) = map_option ((#) x) (all_some xs)"

definition f64_le :: "f64 \<Rightarrow> f64 \<Rightarrow> bool" where
  "f64_le x y \<longleftrightarrow> x \<noteq> NaN \<and> y \<noteq> NaN \<and> \<not> f64_less y x"

text \<open>The list's direction, and a listed number past the value in it.\<close>

definition list_rises :: "f64 list \<Rightarrow> bool" where
  "list_rises numbers \<longleftrightarrow> numbers = [] \<or> f64_le (hd numbers) (List.last numbers)"

definition past_value :: "bool \<Rightarrow> f64 \<Rightarrow> f64 \<Rightarrow> bool" where
  "past_value rising value n = (if rising then f64_less value n else f64_less n value)"

definition step_place :: "nat \<Rightarrow> int \<Rightarrow> nat" where
  "step_place options index = nat (clamp 0 (int (options - 1)) index)"

definition step_choice :: "f64_ops \<Rightarrow> string list \<Rightarrow> string option \<Rightarrow> int \<Rightarrow> step_from + nat" where
  "step_choice ops options current step =
     (case current of
        None \<Rightarrow> Inl NotRead
      | Some current \<Rightarrow>
          (case position (\<lambda>v. v = current) options of
             Some index \<Rightarrow> Inr (step_place (length options) (int index + step))
           | None \<Rightarrow>
               (case (option_number ops current, all_some (map (option_number ops) options)) of
                  (Some value, Some numbers) \<Rightarrow>
                    (case position (\<lambda>n. f64_less (f64_abs (f64_minus ops n value)) (fl ops (1 / 1000000000))) numbers of
                       Some index \<Rightarrow> Inr (step_place (length options) (int index + step))
                     | None \<Rightarrow>
                         let later = int (case position (past_value (list_rises numbers) value) numbers of
                                            Some k \<Rightarrow> k | None \<Rightarrow> length options)
                         in Inr (step_place (length options) (if 0 < step then later + step - 1 else later + step)))
                | _ \<Rightarrow> Inl (NoNumber current))))"

definition f64_ceil :: "f64 \<Rightarrow> f64" where
  "f64_ceil x = (case x of Fin r \<Rightarrow> Fin (of_int \<lceil>r\<rceil>) | _ \<Rightarrow> x)"

definition f64_floor :: "f64 \<Rightarrow> f64" where
  "f64_floor x = (case x of Fin r \<Rightarrow> Fin (of_int \<lfloor>r\<rfloor>) | _ \<Rightarrow> x)"

definition step_level :: "f64_ops \<Rightarrow> level_scale \<Rightarrow> f64 option \<Rightarrow> int \<Rightarrow> step_from + f64" where
  "step_level ops s current step =
     (case current of
        Some (Fin value) \<Rightarrow>
          let exact = steps_above ops s (Fin value);
              rounded = f64_round exact;
              from = (if f64_less (f64_abs (f64_minus ops exact rounded)) (fl ops (1 / 1000000)) then as_i64 rounded + step
                      else if 0 < step then as_i64 (f64_ceil exact) + step - 1
                      else as_i64 (f64_floor exact) + step + 1)
          in Inr (scale_at ops s (clamp 0 (last_step ops s) from))
      | _ \<Rightarrow> Inl NotRead)"

section \<open>The cameras\<close>

definition CAM1_ISO :: "string list" where
  "CAM1_ISO =
     [''100'', ''125'', ''160'', ''200'', ''250'', ''320'', ''400'', ''500'', ''640'', ''800'',
      ''1000'', ''1250'', ''1600'', ''2000'', ''2500'', ''3200'', ''4000'', ''5000'', ''6400'', ''8000'',
      ''10000'', ''12800'', ''16000'', ''20000'', ''25600'']"

definition CAM1_SHUTTER :: "string list" where
  "CAM1_SHUTTER =
     [''45'' @ DEGREE, ''90'' @ DEGREE, ''120'' @ DEGREE, ''144'' @ DEGREE, ''172.8'' @ DEGREE,
      ''180'' @ DEGREE, ''216'' @ DEGREE, ''270'' @ DEGREE, ''360'' @ DEGREE]"

definition CAM1_IRIS :: "string list" where
  "CAM1_IRIS =
     [''f/2.8'', ''f/3.2'', ''f/3.5'', ''f/4.0'', ''f/4.5'', ''f/5.0'', ''f/5.6'', ''f/6.3'', ''f/7.1'', ''f/8.0'',
      ''f/9.0'', ''f/10'', ''f/11'', ''f/13'', ''f/14'', ''f/16'']"

definition CAM1_ND :: "string list" where
  "CAM1_ND =
     [''Clear'', ''2 stops'', ''4 stops'', ''6 stops'']"

definition CAM1_RESOLUTION :: "string list" where
  "CAM1_RESOLUTION =
     [''HD'', ''UHD'', ''4K DCI'', ''6K'']"

definition CAM1_FRAME_RATE :: "string list" where
  "CAM1_FRAME_RATE =
     [''24'', ''25'', ''30'', ''50'', ''60'']"

definition CAM1_DYNAMIC_RANGE :: "string list" where
  "CAM1_DYNAMIC_RANGE =
     [''Film'', ''Extended video'', ''Video'']"

definition CAM1_DISPLAY_LUT :: "string list" where
  "CAM1_DISPLAY_LUT =
     [''None'', ''Custom'', ''Film '' @ ARROW @ '' Video'', ''Film '' @ ARROW @ '' Ext. video'']"

definition BGH1_ISO :: "string list" where
  "BGH1_ISO =
     [''100'', ''125'', ''160'', ''200'', ''250'', ''320'', ''400'', ''500'', ''640'', ''800'',
      ''1000'', ''1250'', ''1600'', ''2000'', ''2500'', ''3200'', ''4000'', ''5000'', ''6400'', ''8000'',
      ''10000'', ''12800'', ''16000'', ''20000'', ''25600'', ''32000'', ''40000'', ''51200'']"

definition BGH1_SHUTTER :: "string list" where
  "BGH1_SHUTTER =
     [''1/25'', ''1/30'', ''1/40'', ''1/50'', ''1/60'', ''1/80'', ''1/100'', ''1/120'', ''1/125'', ''1/160'',
      ''1/200'', ''1/250'', ''1/320'', ''1/400'', ''1/500'', ''1/640'', ''1/800'', ''1/1000'']"

definition CAM2_IRIS :: "string list" where
  "CAM2_IRIS =
     [''f/4.0'', ''f/4.5'', ''f/5.0'', ''f/5.6'', ''f/6.3'', ''f/7.1'', ''f/8.0'', ''f/9.0'', ''f/10'', ''f/11'',
      ''f/13'', ''f/14'', ''f/16'', ''f/18'', ''f/20'', ''f/22'']"

definition CAM3_IRIS :: "string list" where "CAM3_IRIS = CAM1_IRIS"

definition BGH1_RESOLUTION :: "string list" where
  "BGH1_RESOLUTION =
     [''FHD'', ''UHD'', ''C4K'']"

definition BGH1_FRAME_RATE :: "string list" where
  "BGH1_FRAME_RATE =
     [''25'', ''50'']"

datatype camera_link = BluetoothLink | NetworkLink

record camera_model =
  model_camera :: nat
  tag :: string
  model_name :: string
  model_link :: camera_link
  app :: "string option"
  bgh1 :: bool
  iris_options :: "string list"

definition MODELS :: "camera_model list" where
  "MODELS =
     [\<lparr>model_camera = 1, tag = ''CAM 1'', model_name = ''Blackmagic Pocket Cinema Camera 6K Pro'',
       model_link = BluetoothLink, app = None, bgh1 = False, iris_options = CAM1_IRIS\<rparr>,
      \<lparr>model_camera = 2, tag = ''CAM 2'', model_name = ''Panasonic LUMIX BGH1'',
       model_link = NetworkLink, app = Some ''LUMIX Tether'', bgh1 = True, iris_options = CAM2_IRIS\<rparr>,
      \<lparr>model_camera = 3, tag = ''CAM 3'', model_name = ''Panasonic LUMIX BGH1'',
       model_link = NetworkLink, app = Some ''LUMIX Tether'', bgh1 = True, iris_options = CAM3_IRIS\<rparr>]"

text \<open>\<open>usize::from(camera.clamp(1, 3)) - 1\<close>: the place of a camera among the three.\<close>

definition camera_slot :: "nat \<Rightarrow> nat" where
  "camera_slot camera = min 3 (max 1 camera) - 1"

definition camera_model_of :: "nat \<Rightarrow> camera_model" where
  "camera_model_of camera = MODELS ! camera_slot camera"

definition options_of :: "camera_model \<Rightarrow> setting \<Rightarrow> string + string list" where
  "options_of m s =
     (case s of
        Iso \<Rightarrow> Inr (if bgh1 m then BGH1_ISO else CAM1_ISO)
      | Shutter \<Rightarrow> Inr (if bgh1 m then BGH1_SHUTTER else CAM1_SHUTTER)
      | Iris \<Rightarrow> Inr (iris_options m)
      | Nd \<Rightarrow> if bgh1 m then Inl ''The BGH1 has no ND filter.'' else Inr CAM1_ND
      | Resolution \<Rightarrow> Inr (if bgh1 m then BGH1_RESOLUTION else CAM1_RESOLUTION)
      | FrameRate \<Rightarrow> Inr (if bgh1 m then BGH1_FRAME_RATE else CAM1_FRAME_RATE)
      | DynamicRange \<Rightarrow> if bgh1 m then Inl (tag m @ '' does not report its dynamic range.'') else Inr CAM1_DYNAMIC_RANGE
      | DisplayLut \<Rightarrow> if bgh1 m then Inl (tag m @ '' does not report a display LUT.'') else Inr CAM1_DISPLAY_LUT
      | DisplayLutOn \<Rightarrow> if bgh1 m then Inl (tag m @ '' does not report a display LUT.'') else Inr []
      | _ \<Rightarrow> Inr [])"

definition scale_of :: "camera_model \<Rightarrow> setting \<Rightarrow> string + level_scale" where
  "scale_of m s =
     (case s of
        WhiteBalance \<Rightarrow>
          Inr \<lparr>scale_min = 2500, scale_max = 10000, scale_step = (if bgh1 m then 100 else 50), scale_unit = ''K''\<rparr>
      | Tint \<Rightarrow>
          if bgh1 m then Inl (tag m @ '' does not report tint.'')
          else Inr \<lparr>scale_min = - 50, scale_max = 50, scale_step = 1, scale_unit = []\<rparr>
      | Focus \<Rightarrow>
          if bgh1 m then Inl (tag m @ '' does not report a focus position.'')
          else Inl (tag m @ '''s EF lens reports no focus position and takes none: it moves focus by offsets. Autofocus once works.'')
      | _ \<Rightarrow> Inl (tag m @ '' does not report '' @ setting_label s @ '' as a level.''))"

definition err_of :: "'e + 'a \<Rightarrow> 'e option" where
  "err_of r = (case r of Inl e \<Rightarrow> Some e | Inr _ \<Rightarrow> None)"

definition not_reported :: "camera_model \<Rightarrow> setting \<Rightarrow> string option" where
  "not_reported m s = (if is_level s then err_of (scale_of m s) else err_of (options_of m s))"

definition unavailable_frame_rates :: "camera_model \<Rightarrow> string \<Rightarrow> (string \<times> string) list" where
  "unavailable_frame_rates m r = (if \<not> bgh1 m \<and> r = ''6K'' then [(''60'', ''not at 6K'')] else [])"

fun offers :: "camera_model \<Rightarrow> auto_kind \<Rightarrow> bool" where
  "offers m AutoFocus = True"
| "offers m AutoWhiteBalance = (\<not> bgh1 m)"
| "offers m AutoIris = (\<not> bgh1 m)"

definition focus_steps :: "camera_model \<Rightarrow> bool" where "focus_steps m = bgh1 m"
definition records :: "camera_model \<Rightarrow> bool" where "records m \<longleftrightarrow> \<not> bgh1 m"
definition timecode_reported :: "camera_model \<Rightarrow> bool" where "timecode_reported m \<longleftrightarrow> \<not> bgh1 m"

definition read_only :: "camera_model \<Rightarrow> setting \<Rightarrow> string option" where
  "read_only m s =
     (if \<not> bgh1 m \<and> (s = DisplayLut \<or> s = DisplayLutOn)
      then Some (tag m @ '''s display LUT is the camera's own menu's: it reports it and takes no change over Bluetooth.'')
      else None)"

definition no_record_time_sentence :: "camera_model \<Rightarrow> string" where
  "no_record_time_sentence m = tag m @ '' reports no record time left.''"

section \<open>The words\<close>

datatype camera_state = Held | Released | NotSetUp | Unreachable

text \<open>The order of \<open>CameraState\<close>.\<close>

fun state_rank :: "camera_state \<Rightarrow> nat" where
  "state_rank Held = 0"
| "state_rank Released = 1"
| "state_rank NotSetUp = 2"
| "state_rank Unreachable = 3"

datatype camera_tone = ToneOk | ToneAttention | ToneError

fun state_word :: "camera_state \<Rightarrow> string" where
  "state_word Held = ''HELD''"
| "state_word Released = ''RELEASED''"
| "state_word NotSetUp = ''NOT SET UP''"
| "state_word Unreachable = ''UNREACHABLE''"

fun state_tone :: "camera_state \<Rightarrow> camera_tone" where
  "state_tone Held = ToneOk"
| "state_tone Released = ToneAttention"
| "state_tone NotSetUp = ToneAttention"
| "state_tone Unreachable = ToneError"

fun state_key :: "camera_state \<Rightarrow> string" where
  "state_key Held = ''held''"
| "state_key Released = ''released''"
| "state_key NotSetUp = ''not-set-up''"
| "state_key Unreachable = ''unreachable''"

definition unreachable_sentence :: "camera_model \<Rightarrow> string option \<Rightarrow> string" where
  "unreachable_sentence m address =
     (if bgh1 m
      then tag m @ '' does not answer at '' @ (case address of Some a \<Rightarrow> a | None \<Rightarrow> ''its address'')
             @ ''. Check that it is on and on the network.''
      else tag m @ '' does not answer over Bluetooth. Check it is on and within reach.'')"

definition no_link_sentence :: "camera_model \<Rightarrow> string" where
  "no_link_sentence m = ''Studio Control has no link to '' @ tag m @ '' yet: it comes with a later version.''"

definition state_sentence :: "camera_model \<Rightarrow> camera_state \<Rightarrow> bool \<Rightarrow> string \<Rightarrow> string" where
  "state_sentence m s has_link unreachable =
     (case s of
        Held \<Rightarrow> tag m @ '' is held: Studio Control reads it and sends only what you press.''
      | Released \<Rightarrow>
          (case app m of
             Some a \<Rightarrow> tag m @ '' is released to '' @ a @ ''. Connect it to control it here.''
           | None \<Rightarrow> tag m @ '' is released: Studio Control reads it no more and sends it nothing. Connect it to control it here.'')
      | NotSetUp \<Rightarrow>
          if \<not> has_link then no_link_sentence m
          else if bgh1 m then tag m @ '' has no address. Enter it in Setup.''
          else tag m @ '' is not paired. Pair it in Setup, with the camera beside you.''
      | Unreachable \<Rightarrow> unreachable)"

definition last_read_sentence :: "camera_model \<Rightarrow> string" where
  "last_read_sentence m =
     tag m @ '' is held and has reported nothing since it connected: its values are the last read, until it does.''"

definition NO_LINK_TO_PAIR :: string where
  "NO_LINK_TO_PAIR = ''Studio Control cannot pair CAM 1 yet: its Bluetooth link comes with a later version.''"

definition no_link_refusal :: "camera_model \<Rightarrow> string" where
  "no_link_refusal m =
     (if bgh1 m
      then ''Studio Control cannot take '' @ tag m @ '''s address yet: its network link comes with a later version.''
      else NO_LINK_TO_PAIR)"

definition released_refusal :: "camera_model \<Rightarrow> string" where
  "released_refusal m = tag m @ '' is released. Connect it to set it from here.''"

definition already_held_refusal :: "camera_model \<Rightarrow> string" where
  "already_held_refusal m = tag m @ '' is already held.''"

definition auto_refusal :: "camera_model \<Rightarrow> auto_kind \<Rightarrow> string" where
  "auto_refusal m a = tag m @ '' does not offer '' @ auto_words a @ '' once.''"

definition value_refusal :: "camera_model \<Rightarrow> setting \<Rightarrow> string \<Rightarrow> string" where
  "value_refusal m s v = tag m @ '' does not allow '' @ setting_label s @ '' '' @ v @ ''.''"

definition step_refusal :: "camera_model \<Rightarrow> setting \<Rightarrow> step_from \<Rightarrow> string" where
  "step_refusal m s f =
     (case f of
        NotRead \<Rightarrow> tag m @ '' has not reported its '' @ setting_label s @ '' yet, so a step has nothing to start from.''
      | NoNumber v \<Rightarrow> tag m @ '' reports '' @ setting_label s @ '' '' @ v @ '', which Studio Control cannot step from.'')"

definition format_refusal :: "camera_model \<Rightarrow> string \<Rightarrow> string \<Rightarrow> string" where
  "format_refusal m rate r = tag m @ '' does not allow '' @ rate @ ''p at '' @ r @ ''.''"

definition released_sentence :: "camera_model \<Rightarrow> string" where
  "released_sentence m =
     (case app m of Some a \<Rightarrow> tag m @ '' released to '' @ a @ ''.'' | None \<Rightarrow> tag m @ '' released.'')"

definition held_again_sentence :: "camera_model \<Rightarrow> string" where
  "held_again_sentence m = tag m @ '' held again.''"

definition NOT_CONFIRMED :: string where "NOT_CONFIRMED = ''This change needs a second press to confirm.''"
definition ALREADY_RECORDING :: string where "ALREADY_RECORDING = ''CAM 1 is already recording.''"
definition NOT_RECORDING :: string where "NOT_RECORDING = ''CAM 1 is not recording.''"
definition STARTED_RECORDING :: string where "STARTED_RECORDING = ''CAM 1 started recording.''"
definition STOPPED_RECORDING :: string where "STOPPED_RECORDING = ''CAM 1 stopped recording.''"

definition addresses_not_restored :: "nat list \<Rightarrow> string option" where
  "addresses_not_restored cameras =
     (if cameras = [] then None
      else
        let whose = map (\<lambda>c. tag (camera_model_of c) @ '''s'') cameras;
            one = (length whose = 1)
        in Some (join '' and '' whose @ '' '' @ (if one then ''address was'' else ''addresses were'')
                 @ '' not restored: Studio Control has no link to '' @ (if one then ''it'' else ''them'') @ '' yet.''))"

definition address_refusal :: "string \<Rightarrow> string" where
  "address_refusal v =
     v @ '' is not the address of one machine. Enter the camera's IPv4 address: four numbers from 0 to 255, such as 172.16.16.85.''"

section \<open>An address\<close>

definition parse_octet :: "string \<Rightarrow> nat option" where
  "parse_octet part =
     (if part = [] \<or> 3 < length part \<or> \<not> list_all is_ascii_digit part then None
      else if digits_value 0 part \<le> 255 then Some (digits_value 0 part) else None)"

definition ipv4_text :: "nat list \<Rightarrow> string" where
  "ipv4_text octets = join ''.'' (map show_nat octets)"

definition one_machine :: "nat list \<Rightarrow> bool" where
  "one_machine octets \<longleftrightarrow>
     octets \<noteq> [0, 0, 0, 0] \<and> octets \<noteq> [255, 255, 255, 255] \<and> \<not> (224 \<le> hd octets \<and> hd octets \<le> 239)"

definition parse_camera_address :: "string \<Rightarrow> string option" where
  "parse_camera_address v =
     (let parts = split_on (CHR ''.'') (trim v)
      in if length parts \<noteq> 4 then None
         else case all_some (map parse_octet parts) of
                None \<Rightarrow> None
              | Some octets \<Rightarrow> if one_machine octets then Some (ipv4_text octets) else None)"

section \<open>Where a step lands\<close>


lemma position_Some: "position p xs = Some k \<Longrightarrow> k < length xs \<and> p (xs ! k) \<and> list_all (\<lambda>x. \<not> p x) (take k xs)"
  by (induction xs arbitrary: k) (auto split: if_splits)

lemma position_None: "position p xs = None \<longleftrightarrow> list_all (\<lambda>x. \<not> p x) xs"
  by (induction xs) auto

lemma all_some_length: "all_some xs = Some ys \<Longrightarrow> length ys = length xs"
  by (induction xs arbitrary: ys rule: all_some.induct) auto

lemma all_some_map: "all_some (map f xs) = Some ys \<Longrightarrow> list_all2 (\<lambda>x y. f x = Some y) xs ys"
proof (induction xs arbitrary: ys)
  case (Cons x xs)
  then show ?case by (cases "f x") (auto simp: list_all2_Cons1)
qed simp

lemma all_some_mapI: "list_all2 (\<lambda>x y. f x = Some y) xs ys \<Longrightarrow> all_some (map f xs) = Some ys"
  by (induction rule: list_all2_induct) auto

lemma f64_less_trans: "f64_less x y \<Longrightarrow> f64_less y z \<Longrightarrow> f64_less x z"
  by (cases x; cases y; cases z) auto

definition list_order :: "f64 list \<Rightarrow> f64 \<Rightarrow> f64 \<Rightarrow> bool" where
  "list_order ns a b = (if list_rises ns then f64_less a b else f64_less b a)"

lemma past_step: "past_value (list_rises ns) v a \<Longrightarrow> list_order ns a b \<Longrightarrow> past_value (list_rises ns) v b"
  by (auto simp: past_value_def list_order_def split: if_splits intro: f64_less_trans)

text \<open>Where the list is in the order of its numbers, it falls in two at the value.\<close>

lemma list_falls_in_two:
  assumes "sorted_wrt (list_order ns) ns"
  obtains k where "k \<le> length ns"
    "(case position (past_value (list_rises ns) v) ns of Some k \<Rightarrow> k | None \<Rightarrow> length ns) = k"
    "list_all (\<lambda>n. \<not> past_value (list_rises ns) v n) (take k ns)" "list_all (past_value (list_rises ns) v) (drop k ns)"
proof (cases "position (past_value (list_rises ns) v) ns")
  case None
  then have "list_all (\<lambda>n. \<not> past_value (list_rises ns) v n) ns" by (simp only: position_None)
  with None show ?thesis using that [OF le_refl] by simp
next
  case (Some k)
  note k = position_Some [OF this]
  have "past_value (list_rises ns) v (ns ! j)" if "k \<le> j" "j < length ns" for j
    using that k past_step [of ns v "ns ! k" "ns ! j"] sorted_wrt_nth_less [OF assms, of k j] by (cases "j = k") auto
  then have "list_all (past_value (list_rises ns) v) (drop k ns)" by (auto simp: list_all_length)
  with k Some show ?thesis using that [of k] by simp
qed

lemma filter_two:
  assumes "list_all (\<lambda>n. \<not> p n) (take k ns)" "list_all p (drop k ns)" "k \<le> length ns"
  shows "i \<le> length ns \<Longrightarrow> length (filter p (take i ns)) = i - k"
    and "length (filter (\<lambda>n. \<not> p n) (drop i ns)) = k - i"
    and "i < length ns \<Longrightarrow> p (ns ! i) \<longleftrightarrow> k \<le> i"
proof -
  define a b where "a = take k ns" and "b = drop k ns"
  have ns: "ns = a @ b" "length a = k" using assms(3) by (simp_all add: a_def b_def)
  have none: "filter p (take i a) = []" "filter (\<lambda>n. \<not> p n) (drop i a) = drop i a" for i
    using assms(1) unfolding a_def [symmetric] by (auto simp: filter_empty_conv filter_id_conv list_all_iff dest: in_set_takeD in_set_dropD)
  have every: "filter p (take i b) = take i b" "filter (\<lambda>n. \<not> p n) (drop i b) = []" for i
    using assms(2) unfolding b_def [symmetric] by (auto simp: filter_empty_conv filter_id_conv list_all_iff dest: in_set_takeD in_set_dropD)
  show "length (filter p (take i ns)) = i - k" if "i \<le> length ns"
    using that unfolding ns(1) by (simp add: none every ns(2))
  show "length (filter (\<lambda>n. \<not> p n) (drop i ns)) = k - i"
    unfolding ns(1) by (simp add: none every ns(2))
  show "p (ns ! i) \<longleftrightarrow> k \<le> i" if "i < length ns"
  proof (cases "i < k")
    case True
    then show ?thesis using assms(1) ns(2) unfolding a_def [symmetric] ns(1) by (auto simp: nth_append list_all_length)
  next
    case False
    then show ?thesis using assms(2) that ns(2) unfolding b_def [symmetric] ns(1) by (auto simp: nth_append list_all_length)
  qed
qed

text \<open>
  A step of a dial from a value that is not on the list, the list being in the order of its
  numbers: it lands on the listed value that many places past it in the step's direction, or at the
  list's end.
\<close>

theorem step_moves_past_as_many_as_asked:
  assumes "option_number ops current = Some v" "all_some (map (option_number ops) options) = Some ns"
    and "sorted_wrt (list_order ns) ns" "options \<noteq> []" "current \<notin> set options"
    and "list_all (\<lambda>n. \<not> f64_less (f64_abs (f64_minus ops n v)) (fl ops (1 / 1000000000))) ns"
    and "step \<noteq> 0" "step_choice ops options (Some current) step = Inr i"
  shows "i < length options \<and>
    (if 0 < step
     then i = length options - 1 \<or> (past_value (list_rises ns) v (ns ! i)
            \<and> length (filter (past_value (list_rises ns) v) (take i ns)) = nat (step - 1))
     else i = 0 \<or> (\<not> past_value (list_rises ns) v (ns ! i)
            \<and> length (filter (\<lambda>n. \<not> past_value (list_rises ns) v n) (drop (Suc i) ns)) = nat (- step - 1)))"
proof -
  have len: "length ns = length options" using all_some_length [OF assms(2)] by simp
  have "position (\<lambda>x. x = current) options = None" using assms(5) by (auto simp: position_None list_all_iff)
  moreover have "position (\<lambda>n. f64_less (f64_abs (f64_minus ops n v)) (fl ops (1 / 1000000000))) ns = None"
    using assms(6) by (simp add: position_None)
  moreover obtain k where k: "k \<le> length ns"
    "(case position (past_value (list_rises ns) v) ns of Some k \<Rightarrow> k | None \<Rightarrow> length ns) = k"
    "list_all (\<lambda>n. \<not> past_value (list_rises ns) v n) (take k ns)" "list_all (past_value (list_rises ns) v) (drop k ns)"
    by (rule list_falls_in_two [OF assms(3)])
  ultimately have i: "i = step_place (length options) (if 0 < step then int k + step - 1 else int k + step)"
    using assms(8) k(2) [unfolded len] by (simp add: step_choice_def assms(1,2) Let_def split del: if_split)
  have pos: "0 < length options" using assms(4) by simp
  have "i < length options" using assms(4) unfolding i step_place_def clamp_def by (cases options) auto
  moreover note two = filter_two [OF k(3,4,1)]
  ultimately show ?thesis
    using two(1) [of i] two(2) [of "Suc i"] two(3) [of i] k(1) assms(7) pos unfolding len
    by (auto simp: i step_place_def clamp_def max_def min_def split: if_splits)
qed


definition digit_ops :: f64_ops where
  "digit_ops = exact_ops\<lparr>parse_f64 := \<lambda>s. Some (Fin (of_nat (digits_value 0 s)))\<rparr>"

theorem step_moves_past_as_many_as_asked_witness:
  "step_choice digit_ops [''f/4'', ''f/8'', ''f/9'', ''f/10''] (Some ''f/5'') 2 = Inr 2
   \<and> past_value True (Fin 5) (Fin 9) \<and> length (filter (past_value True (Fin 5)) (take 2 [Fin 4, Fin 8, Fin 9])) = nat (2 - 1)"
proof -
  let ?ns = "[Fin 4, Fin 8, Fin 9, Fin 10]" and ?os = "[''f/4'', ''f/8'', ''f/9'', ''f/10'']"
  have n: "option_number digit_ops (''f/'' @ s) = Some (Fin (of_nat (digits_value 0 s)))"
    if "list_all is_ascii_digit s" "s \<noteq> []" for s
  proof -
    have "list_all visible (''f/'' @ s)" using digits_visible [OF that(1)] by (simp add: visible_def)
    then have t: "trim (''f/'' @ s) = ''f/'' @ s" by (intro trim_no_ws visible_no_ws)
    have l: "map to_ascii_lower s = s" using that(1) by (induction s) (auto simp: to_ascii_lower_def is_ascii_digit_def)
    have d: "dropWhile (\<lambda>c. \<not> is_ascii_digit c) s = s" using that by (cases s) auto
    have w: "takeWhile number_char s = s" "dropWhile number_char s = []"
      using that(1) by (auto simp: list_all_iff number_char_def)
    show ?thesis unfolding option_number_def t
      using that(2) by (simp add: l d w to_ascii_lower_def digit_ops_def)
  qed
  have "option_number digit_ops ''f/4'' = Some (Fin 4)" "option_number digit_ops ''f/8'' = Some (Fin 8)"
    "option_number digit_ops ''f/9'' = Some (Fin 9)" "option_number digit_ops ''f/10'' = Some (Fin 10)"
    "option_number digit_ops ''f/5'' = Some (Fin 5)"
    using n [of "''4''"] n [of "''8''"] n [of "''9''"] n [of "''10''"] n [of "''5''"]
    by (simp_all add: is_ascii_digit_def digit_value_def)
  then have o: "option_number digit_ops ''f/5'' = Some (Fin 5)" "all_some (map (option_number digit_ops) ?os) = Some ?ns"
    by simp_all
  have r: "list_rises ?ns" by (simp add: list_rises_def f64_le_def)
  then have s: "sorted_wrt (list_order ?ns) ?ns" by (simp add: list_order_def)
  have far: "list_all (\<lambda>n. \<not> f64_less (f64_abs (f64_minus digit_ops n (Fin 5))) (fl digit_ops (1 / 1000000000))) ?ns"
    by (simp add: f64_minus_def f64_abs_def digit_ops_def exact_ops_def)
  have p: "position (\<lambda>v. v = ''f/5'') ?os = None" by (simp add: position_None)
  have q: "position (past_value True (Fin 5)) ?ns = Some 1" by (simp add: past_value_def)
  have pl: "step_place (length ?os) (int 1 + 2 - 1) = 2" by (simp add: step_place_def clamp_def)
  have c: "step_choice digit_ops ?os (Some ''f/5'') 2 = Inr 2"
    unfolding step_choice_def option.case p o prod.case far [folded position_None] Let_def
    using r pl q by simp
  show ?thesis
    using step_moves_past_as_many_as_asked [OF o s _ _ far _ c] r c by simp
qed

section \<open>An address as it is saved\<close>

lemma digit_not_dot: "list_all is_ascii_digit s \<Longrightarrow> CHR ''.'' \<notin> set s"
  by (auto simp: list_all_iff is_ascii_digit_def)

lemma show_nat_octet: "n \<le> 255 \<Longrightarrow> parse_octet (show_nat n) = Some n"
  using show_nat_digits [of n] show_nat_short [of n 2] by (auto simp: parse_octet_def show_nat.simps [of n])

lemma parse_octet_255: "parse_octet p = Some n \<Longrightarrow> n \<le> 255"
  by (auto simp: parse_octet_def split: if_splits)

lemma parse_octets: "all_some (map parse_octet ps) = Some ns \<Longrightarrow> list_all (\<lambda>n. n \<le> 255) ns \<and> length ns = length ps"
  using all_some_map [of parse_octet ps ns] by (auto simp: list_all2_conv_all_nth list_all_length dest: parse_octet_255)

lemma ipv4_text_parts:
  assumes "octets \<noteq> []"
  shows "split_on (CHR ''.'') (trim (ipv4_text octets)) = map show_nat octets"
proof -
  have "list_all visible (show_nat n)" for n using digits_visible show_nat_digits by blast
  then have "list_all visible (ipv4_text octets)" unfolding ipv4_text_def
    by (intro join_visible) (simp_all add: list.pred_map comp_def list.pred_True visible_def)
  then have "trim (ipv4_text octets) = ipv4_text octets" by (intro trim_no_ws visible_no_ws)
  moreover have "list_all (\<lambda>p. CHR ''.'' \<notin> set p) (map show_nat octets)"
    using digit_not_dot [OF conjunct1 [OF show_nat_digits]] by (simp add: list.pred_map comp_def list.pred_True)
  ultimately show ?thesis using assms by (simp add: ipv4_text_def split_on_join)
qed

text \<open>
  The address Setup saves is in one form: what is read from what the operator typed is read
  from itself as itself.
\<close>

theorem address_is_settled:
  assumes "parse_camera_address v = Some a"
  shows "parse_camera_address a = Some a"
proof -
  obtain ns where ns: "all_some (map parse_octet (split_on (CHR ''.'') (trim v))) = Some ns"
    "one_machine ns" "a = ipv4_text ns" "length (split_on (CHR ''.'') (trim v)) = 4"
    using assms by (auto simp: parse_camera_address_def Let_def split: if_splits option.splits)
  from parse_octets [OF ns(1)] ns(4) have small: "list_all (\<lambda>n. n \<le> 255) ns" "length ns = 4" by simp_all
  then have "all_some (map parse_octet (map show_nat ns)) = Some ns"
    by (simp only: map_map, intro all_some_mapI) (auto simp: list_all2_conv_all_nth list_all_length show_nat_octet)
  moreover have "split_on (CHR ''.'') (trim a) = map show_nat ns" unfolding ns(3) using small(2) by (intro ipv4_text_parts) auto
  ultimately show ?thesis using ns(2,3) small(2) by (simp add: parse_camera_address_def)
qed

theorem address_is_settled_witness:
  "parse_camera_address ''010.0.0.1'' = Some ''10.0.0.1'' \<and> parse_camera_address ''10.0.0.1'' = Some ''10.0.0.1''"
proof -
  have v: "trim ''010.0.0.1'' = ''010.0.0.1''"
    by (intro trim_no_ws visible_no_ws) (simp add: visible_def)
  have "parse_camera_address ''010.0.0.1'' = Some ''10.0.0.1''"
    by (simp add: parse_camera_address_def v parse_octet_def is_ascii_digit_def digit_value_def one_machine_def
        ipv4_text_def show_nat.simps digit_char_def)
  with address_is_settled [OF this] show ?thesis by simp
qed

end
