(* ===== verification/Camera_Link.thy ===== *)
theory Camera_Link
  imports Camera_Model
begin

text \<open>
  CAM 1's link (\<open>cameras/pocket/state.rs\<close>, \<open>cameras/pocket/link.rs\<close>, and the pass of the link's
  thread in \<open>cameras/pocket/winrt.rs\<close>): what the link keeps, what each event from Windows does to it,
  what the runtime reads from it, and when the runtime is told to look. Windows' own calls (a
  subscription, its renewal, a write) are inputs of a pass. Lines of the log are returned in their
  order.
\<close>

section \<open>Failures and their sentences\<close>

datatype link_failure = NoAnswer | NoLinkYet | Refused string | Bluetooth string | NotPaired string | NotCarried string

definition failure_text :: "link_failure \<Rightarrow> nat \<Rightarrow> string option \<Rightarrow> string" where
  "failure_text f camera address =
     (case f of
        NoAnswer \<Rightarrow> unreachable_sentence (camera_model_of camera) address
      | NoLinkYet \<Rightarrow> no_link_sentence (camera_model_of camera)
      | Refused reason \<Rightarrow> reason | Bluetooth reason \<Rightarrow> reason | NotPaired reason \<Rightarrow> reason | NotCarried reason \<Rightarrow> reason)"

section \<open>What the link keeps\<close>

datatype connection = Starting | Connected | Lost | Stopped

datatype noticed = Nothing | Changed

record link_state =
  connection :: connection
  reading :: camera_reading
  reported_since_connection :: bool
  status :: "8 word option"
  failure :: "link_failure option"
  unread :: "string list"
  noted_unread :: "(8 word \<times> 8 word \<times> 8 word) set"
  traced_control :: nat
  traced_timecode :: nat

definition TRACE_CONTROL :: nat where "TRACE_CONTROL = 400"
definition TRACE_TIMECODE_FIRST :: nat where "TRACE_TIMECODE_FIRST = 3"
definition TRACE_TIMECODE_EVERY :: nat where "TRACE_TIMECODE_EVERY = 150"

definition hex_upper :: "8 word \<Rightarrow> string" where
  "hex_upper b = [''0123456789ABCDEF'' ! (unat b div 16), ''0123456789ABCDEF'' ! (unat b mod 16)]"

definition hex :: "8 word list \<Rightarrow> string" where
  "hex bytes = join '' '' (map hex_upper bytes)"

definition STATUS_NAMES :: "(8 word \<times> string) list" where
  "STATUS_NAMES = [(0x01, ''power on''), (0x02, ''connected''), (0x04, ''paired''), (0x08, ''versions verified''),
     (0x10, ''initial payload sent''), (0x20, ''camera ready'')]"

definition status_words :: "8 word \<Rightarrow> string" where
  "status_words word =
     (let words = map snd (filter (\<lambda>(bit, _). and word bit \<noteq> 0) STATUS_NAMES);
          unknown = and word (not (foldl (\<lambda>all (bit, _). or all bit) 0 STATUS_NAMES));
          words = (if unknown \<noteq> 0 then words @ [''0x'' @ hex_upper unknown] else words)
      in if words = [] then ''none'' else join '', '' words)"

text \<open>\<open>10.1 (type 1, operation 2, data 02 00 01)\<close>, in the trace and in the log.\<close>

definition message_words :: "message \<Rightarrow> string" where
  "message_words m =
     show_nat (unat (category (parameter m))) @ ''.'' @ show_nat (unat (param_number (parameter m)))
     @ '' (type '' @ show_nat (unat (data_type m)) @ '', operation '' @ show_nat (unat (operation m))
     @ '', data '' @ (if data m = [] then ''none'' else hex (data m)) @ '')''"

definition describe :: "8 word list \<Rightarrow> string" where
  "describe bytes =
     (let messages = decode_all bytes
      in if messages = [] then ''raw '' @ hex bytes else join ''; '' (map message_words messages))"

definition link_new :: link_state where
  "link_new = \<lparr>connection = Starting, reading = no_reading, reported_since_connection = False, status = None,
     failure = None, unread = [], noted_unread = {}, traced_control = 0, traced_timecode = 0\<rparr>"

definition with_last :: "camera_reading \<Rightarrow> link_state" where
  "with_last r = link_new\<lparr>reading := r\<rparr>"

definition take_unread :: "link_state \<Rightarrow> string list \<times> link_state" where
  "take_unread st = (unread st, st\<lparr>unread := []\<rparr>)"

definition on_connected :: "link_state \<Rightarrow> link_state \<times> noticed" where
  "on_connected st =
     (st\<lparr>connection := Connected, reported_since_connection := False, noted_unread := {}, traced_control := 0,
         traced_timecode := 0, status := None\<rparr>, Changed)"

definition on_lost :: "link_state \<Rightarrow> link_state \<times> noticed" where
  "on_lost st = (if connection st = Lost then (st, Nothing) else (st\<lparr>connection := Lost\<rparr>, Changed))"

definition on_failed :: "link_failure \<Rightarrow> link_state \<Rightarrow> link_state \<times> noticed" where
  "on_failed f st =
     (if connection st = Stopped \<and> failure st = Some f then (st, Nothing)
      else (st\<lparr>connection := Stopped, failure := Some f\<rparr>, Changed))"

definition let_go :: "link_state \<Rightarrow> link_state" where
  "let_go st = st\<lparr>connection := Stopped, failure := None\<rparr>"

definition control_message :: "f64_ops \<Rightarrow> message \<Rightarrow> link_state \<Rightarrow> link_state" where
  "control_message ops m st =
     (let (r, applied) = apply_message ops (reading st) m;
          st1 = st\<lparr>reading := r\<rparr>;
          key = (category (parameter m), param_number (parameter m), data_type m)
      in if applied
         then (if category (parameter m) \<noteq> STATUS_CATEGORY then st1\<lparr>reported_since_connection := True\<rparr> else st1)
         else if key \<in> noted_unread st1 then st1
         else st1\<lparr>noted_unread := insert key (noted_unread st1), unread := unread st1 @ [message_words m]\<rparr>)"

definition control :: "f64_ops \<Rightarrow> 8 word list \<Rightarrow> link_state \<Rightarrow> link_state \<times> noticed" where
  "control ops bytes st =
     (let st' = fold (control_message ops) (decode_all bytes) st
      in (st', if same_values (reading st) (reading st') then Nothing else Changed))"

definition on_timecode :: "8 word list \<Rightarrow> link_state \<Rightarrow> link_state \<times> noticed" where
  "on_timecode bytes st =
     ((case timecode_text bytes of
         Some t \<Rightarrow> st\<lparr>reading := (reading st)\<lparr>timecode := Some t\<rparr>\<rparr>
       | None \<Rightarrow> st), Nothing)"

definition status_flags :: "8 word list \<Rightarrow> link_state \<Rightarrow> link_state \<times> 8 word option" where
  "status_flags bytes st =
     (case bytes of
        [] \<Rightarrow> (st, None)
      | word # _ \<Rightarrow> if status st = Some word then (st, None) else (st\<lparr>status := Some word\<rparr>, Some word))"

definition last_read :: "link_state \<Rightarrow> bool" where
  "last_read st \<longleftrightarrow> connection st = Connected \<and> \<not> reported_since_connection st"

definition link_read :: "link_state \<Rightarrow> link_failure + camera_reading" where
  "link_read st =
     (case connection st of
        Connected \<Rightarrow> Inr (reading st)
      | Starting \<Rightarrow> Inl NoAnswer | Lost \<Rightarrow> Inl NoAnswer
      | Stopped \<Rightarrow> Inl (case failure st of Some f \<Rightarrow> f | None \<Rightarrow> NoAnswer))"

section \<open>What an event does\<close>

datatype event = ConnectionEvent bool | ControlEvent "8 word list" | TimecodeEvent "8 word list" | StatusEvent "8 word list"

datatype log_level = LogInfo | LogWarn

type_synonym log = "(log_level \<times> string) list"

definition take_control :: "f64_ops \<Rightarrow> bool \<Rightarrow> 8 word list \<Rightarrow> link_state \<Rightarrow> link_state \<times> noticed \<times> string list" where
  "take_control ops trace bytes st =
     (let traced = (trace \<and> traced_control st < TRACE_CONTROL);
          st1 = (if traced then st\<lparr>traced_control := traced_control st + 1\<rparr> else st);
          lines = (if traced then [''Trace: CAM 1 indicates '' @ describe bytes @ '' ('' @ show_nat (length bytes) @ '' bytes).'']
                   else []);
          (st2, noticed) = control ops bytes st1;
          (reports, st3) = take_unread st2
      in (st3, noticed,
          lines @ (if trace then map (\<lambda>r. ''CAM 1 reports '' @ r @ '', which the link does not read.'') reports else [])))"

definition take_timecode :: "bool \<Rightarrow> 8 word list \<Rightarrow> link_state \<Rightarrow> link_state \<times> noticed \<times> string list" where
  "take_timecode trace bytes st =
     (let was_none = (timecode (reading st) = None);
          (st1, noticed) = on_timecode bytes st;
          count = traced_timecode st1 + 1;
          st2 = st1\<lparr>traced_timecode := count\<rparr>;
          lines = (if trace \<and> (count \<le> TRACE_TIMECODE_FIRST \<or> count mod TRACE_TIMECODE_EVERY = 0)
                   then [''Trace: CAM 1's timecode notification '' @ show_nat count @ '': '' @ hex bytes @ '' (''
                           @ show_nat (length bytes) @ '' bytes) reads ''
                           @ (case timecode_text bytes of Some t \<Rightarrow> t | None \<Rightarrow> ''nothing'') @ ''.'']
                   else [])
      in (st2, noticed,
          lines @ (case timecode (reading st2) of
                     Some t \<Rightarrow> if was_none then [''CAM 1's first timecode since it connected: '' @ t @ ''.''] else []
                   | None \<Rightarrow> [])))"

definition take_status :: "bool \<Rightarrow> 8 word list \<Rightarrow> link_state \<Rightarrow> link_state \<times> log" where
  "take_status trace bytes st =
     (let lines = (if trace then [(LogInfo, ''Trace: CAM 1's status notifies '' @ hex bytes @ ''.'')] else [])
      in case status_flags bytes st of
           (st1, Some word) \<Rightarrow> (st1, lines @ [(LogInfo, ''CAM 1's status reads: '' @ status_words word @ ''.'')])
         | (st1, None) \<Rightarrow> (st1, lines))"

definition connection_lines :: "event \<Rightarrow> noticed \<Rightarrow> log" where
  "connection_lines e noticed =
     (if noticed = Nothing then []
      else (case e of
              ConnectionEvent True \<Rightarrow> [(LogInfo, ''CAM 1 is connected over Bluetooth and listens for its settings.'')]
            | ConnectionEvent False \<Rightarrow>
                [(LogWarn, ''CAM 1's Bluetooth connection went. Windows connects again when the camera is free.'')]
            | _ \<Rightarrow> []))"

definition take_event :: "f64_ops \<Rightarrow> bool \<Rightarrow> event \<Rightarrow> link_state \<Rightarrow> link_state \<times> noticed \<times> log" where
  "take_event ops trace e st =
     (case e of
        StatusEvent bytes \<Rightarrow> (case take_status trace bytes st of (st1, lines) \<Rightarrow> (st1, Nothing, lines))
      | _ \<Rightarrow>
          (let (st1, noticed, lines) =
                 (case e of
                    ConnectionEvent True \<Rightarrow> (case on_connected st of (st1, n) \<Rightarrow> (st1, n, []))
                  | ConnectionEvent False \<Rightarrow> (case on_lost st of (st1, n) \<Rightarrow> (st1, n, []))
                  | ControlEvent bytes \<Rightarrow> take_control ops trace bytes st
                  | TimecodeEvent bytes \<Rightarrow> take_timecode trace bytes st
                  | StatusEvent _ \<Rightarrow> (st, Nothing, []))
           in (st1, noticed, map (\<lambda>l. (LogInfo, l)) lines @ connection_lines e noticed)))"

definition link_fail :: "link_failure \<Rightarrow> link_state \<Rightarrow> link_state \<times> noticed \<times> log" where
  "link_fail f st =
     (case on_failed f st of
        (st1, Changed) \<Rightarrow> (st1, Changed, [(LogWarn, ''CAM 1's Bluetooth link stopped: '' @ failure_text f 1 None)])
      | (st1, Nothing) \<Rightarrow> (st1, Nothing, []))"

definition failure_sentence :: "link_state \<Rightarrow> string" where
  "failure_sentence st =
     (case failure st of None \<Rightarrow> ''CAM 1 is not connected over Bluetooth.'' | Some f \<Rightarrow> failure_text f 1 None)"

section \<open>A press on its way\<close>

definition SEND_TIMEOUT :: duration where "SEND_TIMEOUT = 2 * 1000000000"

text \<open>\<open>alive\<close>: the link's thread still takes orders. The order and the ticket carry one deadline.\<close>

definition link_begin_send ::
  "f64_ops \<Rightarrow> bool \<Rightarrow> link_state \<Rightarrow> camera_command list \<Rightarrow> camera_reading \<Rightarrow> instant
     \<Rightarrow> link_failure + (8 word list list \<times> instant)" where
  "link_begin_send ops alive st commands current now =
     (case encode_commands ops commands current of
        Inl sentence \<Rightarrow> Inl (NotCarried sentence)
      | Inr messages \<Rightarrow>
          if alive then Inr (messages, now + SEND_TIMEOUT)
          else Inl (case link_read st of Inl f \<Rightarrow> f | Inr _ \<Rightarrow> NoAnswer))"

text \<open>What a ticket's receiver gets within the time left: the thread's answer, or none.\<close>

definition ticket_wait :: "(string + unit) option \<Rightarrow> link_failure + unit" where
  "ticket_wait answer =
     (case answer of
        Some (Inr _) \<Rightarrow> Inr ()
      | Some (Inl sentence) \<Rightarrow> Inl (Bluetooth sentence)
      | None \<Rightarrow> Inl NoAnswer)"

datatype sending = Done "link_failure + unit" | Waiting "(string + unit) option"

definition sending_done :: "bool \<Rightarrow> sending" where
  "sending_done taken = Done (if taken then Inr () else Inl NoAnswer)"

fun sending_wait :: "sending \<Rightarrow> link_failure + unit" where
  "sending_wait (Done outcome) = outcome"
| "sending_wait (Waiting answer) = ticket_wait answer"

section \<open>The link's thread, pass by pass\<close>

datatype order = Send "8 word list list" instant | LetGo | EventOrder event

text \<open>
  What Windows and the inbox give one pass: the outcome of a subscription (asked for only while
  there is none), the order that came (\<open>None\<close> when every sender is gone, \<open>Some None\<close> when \<open>RETRY\<close>
  passed without one), and what the order asks of Windows.
\<close>

record pass_input =
  subscription :: "string + unit"
  order :: "order option option"
  clock :: instant
  still_connected :: bool
  renewed :: bool
  written :: "8 word list list \<Rightarrow> string + unit"
  abandoned :: bool

record serving =
  subscribed :: bool
  refused :: "string option"
  link :: link_state

datatype pass_effect = Log log_level string | Tell | Reply "string + unit" | Write "8 word list list"

definition shared_take :: "f64_ops \<Rightarrow> bool \<Rightarrow> event \<Rightarrow> link_state \<Rightarrow> link_state \<times> pass_effect list" where
  "shared_take ops trace e st =
     (case take_event ops trace e st of
        (st1, noticed, lines) \<Rightarrow> (st1, map (\<lambda>(l, t). Log l t) lines @ (if noticed = Changed then [Tell] else [])))"

definition RETRY :: duration where "RETRY = 5 * 1000000000"

definition pass_subscribe :: "f64_ops \<Rightarrow> bool \<Rightarrow> pass_input \<Rightarrow> serving \<Rightarrow> serving \<times> pass_effect list" where
  "pass_subscribe ops trace i s =
     (if subscribed s then (s, [])
      else (case subscription i of
              Inr _ \<Rightarrow>
                (case shared_take ops trace (ConnectionEvent True) (link s) of
                   (l, fx) \<Rightarrow> (s\<lparr>subscribed := True, refused := None, link := l\<rparr>, fx))
            | Inl sentence \<Rightarrow>
                if refused s \<noteq> Some sentence
                then (s\<lparr>refused := Some sentence\<rparr>,
                      [Log LogInfo (''CAM 1 is not connected yet: '' @ sentence @ '' Tried again every ''
                         @ show_nat (as_secs RETRY) @ '' s.'')])
                else (s, [])))"

text \<open>The order of one pass: \<open>True\<close> when the loop is left.\<close>

definition pass_order :: "f64_ops \<Rightarrow> bool \<Rightarrow> pass_input \<Rightarrow> serving \<Rightarrow> bool \<times> serving \<times> pass_effect list" where
  "pass_order ops trace i s =
     (case order i of
        None \<Rightarrow> (True, s, [])
      | Some None \<Rightarrow> (False, s, [])
      | Some (Some LetGo) \<Rightarrow> (True, s, [])
      | Some (Some (Send messages deadline)) \<Rightarrow>
          (False, s,
           if deadline < clock i
           then [Reply (Inl ''The press waited too long for CAM 1 and was not sent.'')]
           else if subscribed s then [Write messages, Reply (written i messages)]
           else [Reply (Inl ''CAM 1 is not connected over Bluetooth.'')])
      | Some (Some (EventOrder (ConnectionEvent False))) \<Rightarrow>
          (if still_connected i \<and> subscribed s \<and> renewed i then (False, s, [])
           else (case shared_take ops trace (ConnectionEvent False) (link s) of
                   (l, fx) \<Rightarrow> (False, s\<lparr>subscribed := False, link := l\<rparr>, fx)))
      | Some (Some (EventOrder (ConnectionEvent True))) \<Rightarrow> (False, s, [])
      | Some (Some (EventOrder e)) \<Rightarrow>
          (case shared_take ops trace e (link s) of (l, fx) \<Rightarrow> (False, s\<lparr>link := l\<rparr>, fx)))"

definition serve_pass :: "f64_ops \<Rightarrow> bool \<Rightarrow> pass_input \<Rightarrow> serving \<Rightarrow> bool \<times> serving \<times> pass_effect list" where
  "serve_pass ops trace i s =
     (case pass_subscribe ops trace i s of
        (s1, fx1) \<Rightarrow>
          (case pass_order ops trace i s1 of
             (left, s2, fx2) \<Rightarrow> (left \<or> abandoned i, s2, fx1 @ fx2)))"

definition serve_start :: "link_state \<Rightarrow> serving" where
  "serve_start st = \<lparr>subscribed = False, refused = None, link = st\<rparr>"

fun serve_passes :: "f64_ops \<Rightarrow> bool \<Rightarrow> pass_input list \<Rightarrow> serving \<Rightarrow> serving \<times> pass_effect list" where
  "serve_passes ops trace [] s = (s, [])"
| "serve_passes ops trace (i # is) s =
     (case serve_pass ops trace i s of
        (left, s1, fx) \<Rightarrow>
          if left then (s1, fx)
          else (case serve_passes ops trace is s1 of (s2, fx2) \<Rightarrow> (s2, fx @ fx2)))"

section \<open>The notices\<close>

definition NOTICE_INTERVAL :: duration where "NOTICE_INTERVAL = 250 * 1000000"

text \<open>
  \<open>run_notifier\<close> over the moments its notices were queued: it waits for the first, sleeps until the
  interval since its last call has passed (\<open>over k\<close> is by how much that sleep runs late), takes what
  has queued up meanwhile, and calls; the call takes \<open>takes k\<close>. The moments of the calls.
\<close>

function notifier :: "(nat \<Rightarrow> duration) \<Rightarrow> (nat \<Rightarrow> duration) \<Rightarrow> nat \<Rightarrow> instant option \<Rightarrow> instant \<Rightarrow> instant list
    \<Rightarrow> instant list" where
  "notifier over takes k last_end now [] = []"
| "notifier over takes k last_end now (a # as) =
     (let woken = max now a;
          called = (case last_end of
                      None \<Rightarrow> woken
                    | Some l \<Rightarrow> if since l woken < NOTICE_INTERVAL
                                then woken + (NOTICE_INTERVAL - since l woken) + over k else woken);
          ended = called + takes k
      in called # notifier over takes (Suc k) (Some ended) ended (dropWhile (\<lambda>b. b \<le> called) as))"
  by pat_completeness auto
termination
  by (relation "measure (\<lambda>(over, takes, k, l, now, as). length as)")
    (auto intro: le_imp_less_Suc simp: length_dropWhile_le)

section \<open>Until the camera reports\<close>

text \<open>A message that is one of the camera's settings, by its parameter, type and operation alone.\<close>

definition readable :: "message \<Rightarrow> bool" where
  "readable m \<longleftrightarrow> operation m \<noteq> OPERATION_OFFSET \<and>
     (parameter m, data_type m) \<in>
       {(LENS_FOCUS, TYPE_FIXED16), (LENS_APERTURE_VALUE, TYPE_FIXED16), (VIDEO_WHITE_BALANCE, TYPE_INT16),
        (VIDEO_DYNAMIC_RANGE, TYPE_INT8), (VIDEO_RECORDING_FORMAT, TYPE_INT16), (VIDEO_SHUTTER_ANGLE, TYPE_INT32),
        (VIDEO_SHUTTER_SPEED, TYPE_INT32), (VIDEO_ISO, TYPE_INT32), (VIDEO_DISPLAY_LUT, TYPE_INT8),
        (VIDEO_ND_FILTER, TYPE_FIXED16), (MEDIA_TRANSPORT_MODE, TYPE_INT8), (STATUS_BATTERY, TYPE_INT16),
        (STATUS_RECORD_TIME, TYPE_INT16), (STATUS_RECORD_TIME, TYPE_INT32)}"

definition is_setting :: "message \<Rightarrow> bool" where
  "is_setting m \<longleftrightarrow> readable m \<and> category (parameter m) \<noteq> STATUS_CATEGORY"

lemma applied_iff_readable: "snd (apply_message ops r m) = readable m"
  unfolding apply_message_def readable_def Let_def by (simp split: if_split)

text \<open>What the events say: the last change of the connection, and the messages since it was made.\<close>

fun connected_by :: "event list \<Rightarrow> bool" where
  "connected_by [] = False"
| "connected_by (ConnectionEvent b # es) = b"
| "connected_by (e # es) = connected_by es"

fun reported_by :: "event list \<Rightarrow> bool" where
  "reported_by [] = False"
| "reported_by (ConnectionEvent True # es) = False"
| "reported_by (ControlEvent bytes # es) = (list_ex is_setting (decode_all bytes) \<or> reported_by es)"
| "reported_by (e # es) = reported_by es"

definition link_run :: "f64_ops \<Rightarrow> bool \<Rightarrow> link_state \<Rightarrow> event list \<Rightarrow> link_state" where
  "link_run ops trace st es = foldl (\<lambda>st e. fst (take_event ops trace e st)) st es"

lemma control_fold:
  "reported_since_connection (fold (control_message ops) ms st)
     = (list_ex is_setting ms \<or> reported_since_connection st)
   \<and> connection (fold (control_message ops) ms st) = connection st
   \<and> reading (fold (control_message ops) ms st) = heard ops (reading st) ms"
proof (induction ms arbitrary: st)
  case (Cons m ms)
  have "reported_since_connection (control_message ops m st) = (is_setting m \<or> reported_since_connection st)"
    "connection (control_message ops m st) = connection st"
    "reading (control_message ops m st) = fst (apply_message ops (reading st) m)"
    using applied_iff_readable [of ops "reading st" m]
    by (auto simp: control_message_def is_setting_def Let_def split: prod.split)
  with Cons show ?case by (auto simp: heard_def)
qed (simp add: heard_def)

lemma take_control_facts:
  "reported_since_connection (fst (take_control ops trace bytes st))
     = (list_ex is_setting (decode_all bytes) \<or> reported_since_connection st)
   \<and> connection (fst (take_control ops trace bytes st)) = connection st
   \<and> reading (fst (take_control ops trace bytes st)) = heard ops (reading st) (decode_all bytes)
   \<and> fst (snd (take_control ops trace bytes st))
       = (if same_values (reading st) (heard ops (reading st) (decode_all bytes)) then Nothing else Changed)"
  by (simp add: take_control_def control_def take_unread_def Let_def control_fold)

lemma take_timecode_facts:
  "reported_since_connection (fst (take_timecode trace bytes st)) = reported_since_connection st
   \<and> connection (fst (take_timecode trace bytes st)) = connection st
   \<and> same_values (reading st) (reading (fst (take_timecode trace bytes st)))
   \<and> fst (snd (take_timecode trace bytes st)) = Nothing"
  by (simp add: take_timecode_def on_timecode_def Let_def same_values_def split: option.split)

lemma take_status_facts:
  "reported_since_connection (fst (take_status trace bytes st)) = reported_since_connection st
   \<and> connection (fst (take_status trace bytes st)) = connection st
   \<and> reading (fst (take_status trace bytes st)) = reading st
   \<and> failure (fst (take_status trace bytes st)) = failure st"
  by (cases bytes) (simp_all add: take_status_def status_flags_def Let_def)

lemma take_event_flags:
  "reported_since_connection (fst (take_event ops trace e st)) =
     (case e of ConnectionEvent True \<Rightarrow> False
      | ControlEvent bytes \<Rightarrow> list_ex is_setting (decode_all bytes) \<or> reported_since_connection st
      | _ \<Rightarrow> reported_since_connection st)
   \<and> connection (fst (take_event ops trace e st)) =
     (case e of ConnectionEvent True \<Rightarrow> Connected | ConnectionEvent False \<Rightarrow> Lost | _ \<Rightarrow> connection st)"
proof (cases e)
  case (ConnectionEvent b)
  then show ?thesis by (cases b) (simp_all add: take_event_def on_connected_def on_lost_def)
next
  case (ControlEvent bytes)
  with take_control_facts [of ops trace bytes st] show ?thesis
    by (cases "take_control ops trace bytes st") (auto simp: take_event_def)
next
  case (TimecodeEvent bytes)
  with take_timecode_facts [of trace bytes st] show ?thesis
    by (cases "take_timecode trace bytes st") (auto simp: take_event_def)
next
  case (StatusEvent bytes)
  with take_status_facts [of trace bytes st] show ?thesis
    by (cases "take_status trace bytes st") (auto simp: take_event_def)
qed

lemma link_run_flags:
  "reported_since_connection (link_run ops trace (with_last r) es) = reported_by (rev es)
   \<and> (connection (link_run ops trace (with_last r) es) = Connected) = connected_by (rev es)"
proof (induction es rule: rev_induct)
  case Nil
  then show ?case by (simp add: link_run_def with_last_def link_new_def)
next
  case (snoc e es)
  then show ?case
    using take_event_flags [of ops trace e "link_run ops trace (with_last r) es"]
    by (cases e) (auto simp: link_run_def split: bool.splits)
qed

text \<open>
  The values are shown as the last read exactly while the camera is connected and has
  reported none of its settings since: whatever Windows hands over, its own status and its
  timecode do not end the last read, and a connection made again begins one.
\<close>

theorem last_read_until_a_setting_comes:
  "last_read (link_run ops trace (with_last r) es) \<longleftrightarrow> connected_by (rev es) \<and> \<not> reported_by (rev es)"
  using link_run_flags [of ops trace r es] by (simp add: last_read_def)

section \<open>What the runtime is not told\<close>

definition same_view :: "link_failure + camera_reading \<Rightarrow> link_failure + camera_reading \<Rightarrow> bool" where
  "same_view a b \<longleftrightarrow>
     (case (a, b) of (Inl f, Inl g) \<Rightarrow> f = g | (Inr r, Inr q) \<Rightarrow> same_values r q | _ \<Rightarrow> False)"

lemma same_view_refl: "same_view v v"
  by (cases v) (simp_all add: same_view_def same_values_def)

lemma link_read_same:
  "connection a = connection b \<Longrightarrow> reading a = reading b \<Longrightarrow> failure a = failure b \<Longrightarrow> link_read a = link_read b"
  unfolding link_read_def by (simp only:)

theorem quiet_events_change_nothing_shown:
  assumes "fst (snd (take_event ops trace e st)) = Nothing"
  shows "same_view (link_read st) (link_read (fst (take_event ops trace e st)))"
proof (cases e)
  case (ConnectionEvent b)
  with assms show ?thesis
    by (cases b) (auto simp: take_event_def on_connected_def on_lost_def same_view_refl split: if_splits)
next
  case (ControlEvent bytes)
  have "failure (fold (control_message ops) ms st) = failure st" for ms st
    by (induction ms arbitrary: st) (auto simp: control_message_def Let_def split: prod.split)
  then have "failure (fst (take_control ops trace bytes st)) = failure st"
    by (simp add: take_control_def control_def take_unread_def Let_def)
  with take_control_facts [of ops trace bytes st] assms ControlEvent show ?thesis
    by (auto simp: take_event_def link_read_def same_view_def split: prod.splits connection.split if_splits)
next
  case (TimecodeEvent bytes)
  have "failure (fst (take_timecode trace bytes st)) = failure st"
    by (simp add: take_timecode_def on_timecode_def Let_def split: option.split)
  with take_timecode_facts [of trace bytes st] TimecodeEvent show ?thesis
    by (auto simp: take_event_def link_read_def same_view_def split: prod.splits connection.split)
next
  case (StatusEvent bytes)
  with take_status_facts [of trace bytes st] have "link_read (fst (take_event ops trace e st)) = link_read st"
    by (cases "take_status trace bytes st") (auto simp: take_event_def intro!: link_read_same)
  then show ?thesis by (simp add: same_view_refl)
qed

theorem quiet_events_change_nothing_shown_witness:
  "same_view (link_read (with_last no_reading))
     (link_read (fst (take_event exact_ops False (TimecodeEvent [0, 0, 0, 0]) (with_last no_reading))))"
  by (rule quiet_events_change_nothing_shown)
    (simp add: take_event_def take_timecode_def on_timecode_def Let_def split: option.split)

section \<open>The thread's passes\<close>

lemma shared_take_connection:
  "connection (fst (shared_take ops trace e st)) =
     (case e of ConnectionEvent True \<Rightarrow> Connected | ConnectionEvent False \<Rightarrow> Lost | _ \<Rightarrow> connection st)"
  using take_event_flags [of ops trace e st] by (cases "take_event ops trace e st") (simp add: shared_take_def)

definition in_step :: "serving \<Rightarrow> bool" where
  "in_step s \<longleftrightarrow> (connection (link s) = Connected) = subscribed s"

lemma shared_take_in_step:
  "in_step s \<Longrightarrow> e = ControlEvent b \<or> e = TimecodeEvent b \<or> e = StatusEvent b \<Longrightarrow>
     in_step (s\<lparr>link := fst (shared_take ops trace e (link s))\<rparr>)"
  using shared_take_connection [of ops trace e "link s"] by (auto simp: in_step_def)

lemma pass_subscribe_in_step: "in_step s \<Longrightarrow> in_step (fst (pass_subscribe ops trace i s))"
  using shared_take_connection [of ops trace "ConnectionEvent True" "link s"]
  by (cases "shared_take ops trace (ConnectionEvent True) (link s)"; cases "subscription i")
    (auto simp: pass_subscribe_def in_step_def)

lemma pass_order_in_step:
  assumes "in_step s"
  shows "in_step (fst (snd (pass_order ops trace i s)))"
proof -
  have lost: "in_step (s\<lparr>subscribed := False, link := fst (shared_take ops trace (ConnectionEvent False) (link s))\<rparr>)"
    using shared_take_connection [of ops trace "ConnectionEvent False" "link s"] by (simp add: in_step_def)
  show ?thesis
  proof (cases "order i")
    case (Some o')
    show ?thesis
    proof (cases o')
      case ord: (Some ord)
      show ?thesis
      proof (cases ord)
        case (EventOrder e)
        show ?thesis
        proof (cases e)
          case (ConnectionEvent b)
          with assms lost Some ord EventOrder show ?thesis
            by (cases b; cases "shared_take ops trace (ConnectionEvent False) (link s)") (auto simp: pass_order_def)
        qed (use assms Some ord EventOrder shared_take_in_step [OF assms] in
          \<open>auto simp: pass_order_def split: prod.split dest: fstI\<close>)
      qed (use assms Some ord in \<open>auto simp: pass_order_def\<close>)
    qed (use assms Some in \<open>auto simp: pass_order_def\<close>)
  qed (use assms in \<open>auto simp: pass_order_def\<close>)
qed

lemma serve_pass_in_step: "in_step s \<Longrightarrow> in_step (fst (snd (serve_pass ops trace i s)))"
proof -
  assume "in_step s"
  then have "in_step (fst (snd (pass_order ops trace i (fst (pass_subscribe ops trace i s)))))"
    by (intro pass_order_in_step pass_subscribe_in_step)
  moreover have "fst (snd (serve_pass ops trace i s)) = fst (snd (pass_order ops trace i (fst (pass_subscribe ops trace i s))))"
    by (simp add: serve_pass_def split: prod.split)
  ultimately show ?thesis by simp
qed

lemma serve_passes_in_step: "in_step s \<Longrightarrow> in_step (fst (serve_passes ops trace is s))"
proof (induction "is" arbitrary: s)
  case (Cons i "is")
  obtain left s1 fx where sp: "serve_pass ops trace i s = (left, s1, fx)" by (cases "serve_pass ops trace i s")
  with serve_pass_in_step [OF Cons.prems, of ops trace i] have "in_step s1" by simp
  with Cons.IH [of s1] sp show ?case by (cases "serve_passes ops trace is s1") auto
qed simp



lemma no_write_subscribe: "Write ms \<notin> set (snd (pass_subscribe ops trace i s))"
  by (cases "take_event ops trace (ConnectionEvent True) (link s)"; cases "subscription i")
    (auto simp: pass_subscribe_def shared_take_def)

lemma shared_take_no_write: "Write ms \<notin> set (snd (shared_take ops trace e st))"
  by (cases "take_event ops trace e st") (auto simp: shared_take_def)

lemma pass_order_write:
  "Write ms \<in> set (snd (snd (pass_order ops trace i s))) \<Longrightarrow>
     \<exists>deadline. order i = Some (Some (Send ms deadline)) \<and> clock i \<le> deadline \<and> subscribed s"
  using shared_take_no_write [of ms ops trace _ "link s"]
  by (auto simp: pass_order_def split: option.splits order.splits event.splits bool.splits if_splits prod.splits)
    (metis snd_conv)+



section \<open>The notices are apart, and none is lost\<close>

fun apart :: "duration \<Rightarrow> instant list \<Rightarrow> bool" where
  "apart d (a # b # ts) = (a + d \<le> b \<and> apart d (b # ts))"
| "apart d _ = True"

lemma notifier_first:
  assumes "notifier over takes k (Some e) e as = c # cs"
  shows "e + NOTICE_INTERVAL \<le> c"
  using assms by (cases as) (auto simp: Let_def since_def NOTICE_INTERVAL_def split: if_splits)

lemma notifier_apart: "apart NOTICE_INTERVAL (notifier over takes k l now as)"
proof (induction over takes k l now as rule: notifier.induct)
  case (2 over takes k l now a as)
  define called where "called = (case l of None \<Rightarrow> max now a
      | Some l \<Rightarrow> if since l (max now a) < NOTICE_INTERVAL then max now a + (NOTICE_INTERVAL - since l (max now a)) + over k
                 else max now a)"
  let ?e = "called + takes k"
  have step: "notifier over takes k l now (a # as)
      = called # notifier over takes (Suc k) (Some ?e) ?e (dropWhile (\<lambda>b. b \<le> called) as)"
    by (simp add: called_def Let_def)
  have ih: "apart NOTICE_INTERVAL (notifier over takes (Suc k) (Some ?e) ?e (dropWhile (\<lambda>b. b \<le> called) as))"
    using 2 by (simp add: called_def Let_def)
  show ?case
  proof (cases "notifier over takes (Suc k) (Some ?e) ?e (dropWhile (\<lambda>b. b \<le> called) as)")
    case (Cons c cs)
    with notifier_first [OF this] ih step show ?thesis by simp
  qed (use step in simp)
qed simp

lemma notifier_serves: "a \<in> set as \<Longrightarrow> \<exists>c \<in> set (notifier over takes k l now as). a \<le> c"
proof (induction over takes k l now as rule: notifier.induct)
  case (2 over takes k l now b as)
  define called where "called = (case l of None \<Rightarrow> max now b
      | Some l \<Rightarrow> if since l (max now b) < NOTICE_INTERVAL then max now b + (NOTICE_INTERVAL - since l (max now b)) + over k
                 else max now b)"
  let ?e = "called + takes k"
  have step: "notifier over takes k l now (b # as)
      = called # notifier over takes (Suc k) (Some ?e) ?e (dropWhile (\<lambda>b. b \<le> called) as)"
    by (simp add: called_def Let_def)
  have "b \<le> called" by (auto simp: called_def split: option.split)
  moreover have "\<exists>c \<in> set (notifier over takes (Suc k) (Some ?e) ?e (dropWhile (\<lambda>b. b \<le> called) as)). a \<le> c"
    if "a \<in> set (dropWhile (\<lambda>b. b \<le> called) as)"
    using 2 that by (simp add: called_def Let_def)
  moreover have "a \<le> called \<or> a \<in> set (dropWhile (\<lambda>b. b \<le> called) as)" if "a \<in> set as"
    using that by (metis (mono_tags, lifting) Un_iff set_append set_takeWhileD takeWhile_dropWhile_id)
  ultimately show ?case using 2(2) unfolding step by auto
qed simp

text \<open>
  The runtime is told to look at most every 250 ms however many changes come, and after
  every change once more at least.
\<close>

theorem notices_are_apart_and_none_is_lost:
  "apart NOTICE_INTERVAL (notifier over takes 0 None now as)
   \<and> list_all (\<lambda>a. list_ex (\<lambda>c. a \<le> c) (notifier over takes 0 None now as)) as"
  using notifier_apart [of over takes 0 None now "as"] notifier_serves [of _ "as" over takes 0 None now]
  by (auto simp: list_all_iff list_ex_iff)

end
