(* ===== verification/Camera_Pairing.thy ===== *)
theory Camera_Pairing
  imports Camera_Link Btree_Map
begin

text \<open>
  CAM 1's Bluetooth address, its pairing and the seam the runtime talks to
  (\<open>cameras/real_link.rs\<close>, \<open>cameras/pocket/pairing.rs\<close>, \<open>cameras/pocket/characteristics.rs\<close>, and the
  guard of \<open>cameras/pocket/link.rs\<close>): the address as text and back, the PIN's form, what Windows'
  answers mean, the steps of a pairing, what a listen kept for the log, and which link is held for
  which row. Windows' own calls and threads are outside.
\<close>

section \<open>The guard\<close>

definition TEST_REFUSAL :: string where
  "TEST_REFUSAL = ''A test run does not open Bluetooth: CAM 1 is reached by the studio's build alone (rule 2).''"

definition DEVELOPMENT_REFUSAL :: string where
  "DEVELOPMENT_REFUSAL =
     ''A development run does not open Bluetooth unless it was started with npm run app -- --bluetooth, a hardware test the owner attends (rule 2).''"

definition guard_bluetooth_for :: "bool \<Rightarrow> bool \<Rightarrow> bool \<Rightarrow> string + unit" where
  "guard_bluetooth_for test_build development switch =
     (if test_build then Inl TEST_REFUSAL
      else if development \<and> \<not> switch then Inl DEVELOPMENT_REFUSAL
      else Inr ())"

definition THIS_PC :: "string list" where "THIS_PC = [''127.0.0.1'', ''::1'', ''localhost'']"

text \<open>\<open>test\<close> stands for \<open>cfg!(test)\<close>, \<open>windows\<close> for \<open>cfg!(windows)\<close>.\<close>

definition guard_camera_address :: "bool \<Rightarrow> string \<Rightarrow> string + unit" where
  "guard_camera_address test address =
     (if test \<and> trim address \<notin> set THIS_PC
      then Inl (''A test run does not reach '' @ trim address @ '': only 127.0.0.1, ::1 and localhost.'')
      else Inr ())"

definition RECORDING_CAMERA :: nat where "RECORDING_CAMERA = 1"

definition BUILT :: "nat list" where "BUILT = [RECORDING_CAMERA]"

definition has_link :: "bool \<Rightarrow> nat \<Rightarrow> bool \<Rightarrow> bool" where
  "has_link windows camera simulated \<longleftrightarrow> simulated \<or> (windows \<and> camera \<in> set BUILT)"

section \<open>The address\<close>

record bluetooth_address =
  address :: "64 word"
  random :: bool

definition address_text :: "bluetooth_address \<Rightarrow> string" where
  "address_text a =
     (let joined = join '':'' (map (\<lambda>k. hex_upper (ucast (drop_bit (8 * k) (address a)))) [5, 4, 3, 2, 1, 0])
      in if random a then joined @ '' random'' else joined)"

text \<open>\<open>split\<close> on any of some characters.\<close>

fun split_any :: "char list \<Rightarrow> string \<Rightarrow> string list" where
  "split_any ds [] = [[]]"
| "split_any ds (c # s) =
     (if c \<in> set ds then [] # split_any ds s
      else (case split_any ds s of [] \<Rightarrow> [[c]] | p # ps \<Rightarrow> (c # p) # ps))"

text \<open>\<open>u8::from_str_radix(_, 16)\<close> of two bytes: it takes a plus sign before the digits.\<close>

definition pair_value :: "string \<Rightarrow> nat option" where
  "pair_value part =
     (case part of
        [a, b] \<Rightarrow>
          (case (hex_value a, hex_value b) of
             (Some x, Some y) \<Rightarrow> Some (16 * x + y)
           | (None, Some y) \<Rightarrow> if a = CHR ''+'' then Some y else None
           | _ \<Rightarrow> None)
      | _ \<Rightarrow> None)"

fun address_of_parts :: "string list \<Rightarrow> 64 word \<Rightarrow> 64 word option" where
  "address_of_parts [] acc = Some acc"
| "address_of_parts (part # parts) acc =
     (case pair_value part of
        None \<Rightarrow> None
      | Some b \<Rightarrow> address_of_parts parts (or (push_bit 8 acc) (of_nat b)))"

definition parse_bluetooth_address :: "string \<Rightarrow> bluetooth_address option" where
  "parse_bluetooth_address text =
     (case split_whitespace text of
        [] \<Rightarrow> None
      | digits # rest \<Rightarrow>
          (case (case rest of [] \<Rightarrow> Some (False, []) | w # others \<Rightarrow> if w = ''random'' then Some (True, others) else None) of
             None \<Rightarrow> None
           | Some (rnd, others) \<Rightarrow>
               if others \<noteq> [] then None
               else if length (split_any '':-'' digits) \<noteq> 6 then None
               else map_option (\<lambda>a. \<lparr>address = a, random = rnd\<rparr>) (address_of_parts (split_any '':-'' digits) 0)))"

section \<open>The pairing\<close>

definition STOPPED_TEXT :: string where "STOPPED_TEXT = ''CAM 1's pairing stopped. Press Pair CAM 1 to try again.''"
definition PIN_REFUSED :: string where "PIN_REFUSED = ''CAM 1 did not accept the PIN. Press Pair CAM 1 to try again.''"
definition OTHER_KIND :: string where
  "OTHER_KIND = ''CAM 1 asked for a kind of pairing Studio Control does not offer. Press Pair CAM 1 to try again.''"
definition FINDING_TEXT :: string where
  "FINDING_TEXT = ''Looking for CAM 1. Switch its Bluetooth on, with no other controller connected to it.''"
definition PIN_WANTED :: string where
  "PIN_WANTED = ''CAM 1 shows a 6-digit PIN. Enter it here within 30 seconds.''"
definition PAIRING_TEXT :: string where
  "PAIRING_TEXT = ''Pairing with CAM 1'' @ [CHR 0xE2, CHR 0x80, CHR 0xA6]"

datatype pairing_step = Finding | Pin | Pairing | PairingFailed string | Paired bluetooth_address

fun step_running :: "pairing_step \<Rightarrow> bool" where
  "step_running Finding = True"
| "step_running Pin = True"
| "step_running Pairing = True"
| "step_running _ = False"

datatype shown_pairing = ShownFinding | ShownPin | ShownPairing | ShownFailed

fun step_shown :: "pairing_step \<Rightarrow> (shown_pairing \<times> string) option" where
  "step_shown Finding = Some (ShownFinding, FINDING_TEXT)"
| "step_shown Pin = Some (ShownPin, PIN_WANTED)"
| "step_shown Pairing = Some (ShownPairing, PAIRING_TEXT)"
| "step_shown (PairingFailed sentence) = Some (ShownFailed, sentence)"
| "step_shown (Paired _) = None"

definition parse_pin :: "string \<Rightarrow> string option" where
  "parse_pin text =
     (let pin = trim text in if length pin = 6 \<and> list_all is_ascii_digit pin then Some pin else None)"

definition SERVICE :: nat where "SERVICE = 0x291D567A6D7511E68B7786F30CA893D3"

definition is_pocket :: "nat list \<Rightarrow> bool" where
  "is_pocket services \<longleftrightarrow> SERVICE \<in> set services"

text \<open>\<open>{:0NX}\<close>: the number's hexadecimal digits, at least \<open>N\<close>; the numbers here never have more.\<close>

fun hex_of :: "nat \<Rightarrow> nat \<Rightarrow> string" where
  "hex_of 0 v = []"
| "hex_of (Suc n) v = hex_of n (v div 16) @ [''0123456789ABCDEF'' ! (v mod 16)]"

definition service_text :: "nat \<Rightarrow> string" where
  "service_text uuid =
     (let h = hex_of 32 uuid
      in join ''-'' (map (\<lambda>(a, b). take (b - a) (drop a h)) [(0, 8), (8, 12), (12, 16), (16, 20), (20, 32)]))"

definition heard_entry :: "bluetooth_address \<Rightarrow> string \<Rightarrow> nat list \<Rightarrow> 16 word list \<Rightarrow> 8 word list \<Rightarrow> string" where
  "heard_entry a name services makers sections =
     address_text a
     @ (if trim name \<noteq> [] then '' '' @ [CHR 34] @ trim name @ [CHR 34] else [])
     @ (if services \<noteq> [] then '' ['' @ join '', '' (map service_text services) @ '']'' else [])
     @ (if makers \<noteq> [] then '' maker '' @ join '', '' (map (\<lambda>m. hex_of 4 (unat m)) makers) else [])
     @ (if sections \<noteq> [] then '' sections '' @ join '' '' (map hex_upper sections) else [])"

definition HEARD_KEPT :: nat where "HEARD_KEPT = 32"

record seen =
  strongest_dbm :: int
  seen_count :: nat

record heard_devices =
  entries :: "(string, seen) btree"
  and_more :: bool

definition heard_nothing :: heard_devices where "heard_nothing = \<lparr>entries = [], and_more = False\<rparr>"

definition heard_note :: "string \<Rightarrow> int \<Rightarrow> heard_devices \<Rightarrow> heard_devices" where
  "heard_note e dbm h =
     (case bt_get (entries h) e of
        Some s \<Rightarrow> h\<lparr>entries := bt_insert e (s\<lparr>seen_count := seen_count s + 1, strongest_dbm := max (strongest_dbm s) dbm\<rparr>)
                                 (entries h)\<rparr>
      | None \<Rightarrow> if length (entries h) < HEARD_KEPT
                then h\<lparr>entries := bt_insert e \<lparr>strongest_dbm = dbm, seen_count = 1\<rparr> (entries h)\<rparr>
                else h\<lparr>and_more := True\<rparr>)"

definition heard_log_line :: "heard_devices \<Rightarrow> nat \<Rightarrow> string" where
  "heard_log_line h advertisements =
     ''CAM 1 was not heard: '' @ show_nat advertisements @ '' advertisements in all, none the Pocket's.''
     @ (if entries h \<noteq> []
        then '' Heard: '' @ join ''; '' (map (\<lambda>(e, s). e @ '' ('' @ show_int (strongest_dbm s) @ '' dBm, ''
               @ show_nat (seen_count s) @ TIMES @ '')'') (entries h))
             @ (if and_more h then ''; and more.'' else ''.'')
        else [])"

definition found_line :: "bluetooth_address \<Rightarrow> int \<Rightarrow> bool \<Rightarrow> string" where
  "found_line a dbm scan_reply =
     ''CAM 1 was heard at '' @ address_text a @ '' ('' @ show_int dbm @ '' dBm, in its ''
     @ (if scan_reply then ''scan reply'' else ''advertisement'') @ '').''"

datatype asked_kind = AskedPin | AskedConfirm | AskedOther

definition asked :: "nat \<Rightarrow> asked_kind" where
  "asked kind = (if kind = 4 then AskedPin else if kind = 1 then AskedConfirm else AskedOther)"

definition try_again :: "string \<Rightarrow> string + unit" where
  "try_again why = Inl (why @ '' Press Pair CAM 1 to try again.'')"

definition pairing_result :: "int \<Rightarrow> string + unit" where
  "pairing_result code_of_windows =
     (if code_of_windows = 0 \<or> code_of_windows = 3 then Inr ()
      else if code_of_windows = 1 then try_again ''CAM 1 was not ready to pair.''
      else if code_of_windows = 4 then try_again ''CAM 1 refused the connection.''
      else if code_of_windows = 5 then try_again ''CAM 1 holds too many connections: disconnect its other controller.''
      else if code_of_windows = 7 then try_again ''CAM 1 took too long to answer.''
      else if code_of_windows = 9 then Inl PIN_REFUSED
      else if code_of_windows = 11 then try_again ''CAM 1 does not offer a pairing with a PIN.''
      else if code_of_windows = 14 then try_again ''The pairing was cancelled.''
      else if code_of_windows = 15 then try_again ''Windows is still busy with an earlier pairing of CAM 1: wait a moment.''
      else if code_of_windows = 17 then Inl OTHER_KIND
      else try_again (''Windows could not pair CAM 1 (Windows' code '' @ show_int code_of_windows @ '').''))"

text \<open>
  The end of a pairing is a line in the log. \<open>pairing_start\<close> is the step a pairing begins with:
  \<open>guard\<close> is the guard's answer, \<open>thread\<close> whether its thread started.
\<close>

definition pairing_line :: "pairing_step \<Rightarrow> log" where
  "pairing_line s =
     (case s of
        Paired a \<Rightarrow> [(LogInfo, ''CAM 1 is paired with Windows at '' @ address_text a @ ''.'')]
      | PairingFailed sentence \<Rightarrow> [(LogWarn, ''CAM 1 did not pair: '' @ sentence)]
      | _ \<Rightarrow> [])"

definition pairing_start :: "string + unit \<Rightarrow> string + unit \<Rightarrow> pairing_step \<times> log" where
  "pairing_start guard thread =
     (case guard of
        Inl sentence \<Rightarrow> (PairingFailed sentence, pairing_line (PairingFailed sentence))
      | Inr _ \<Rightarrow>
          let begins = [(LogInfo, ''CAM 1's pairing begins: Studio Control listens for the camera.'')]
          in case thread of
               Inl error \<Rightarrow>
                 let f = PairingFailed (''CAM 1's pairing could not start its thread: '' @ error)
                 in (f, begins @ pairing_line f)
             | Inr _ \<Rightarrow> (Finding, begins))"

text \<open>\<open>PocketPairing::pin\<close>: \<open>alive\<close> is whether the pairing's thread still takes orders.\<close>

definition hand_pin :: "bool \<Rightarrow> pairing_step \<Rightarrow> bool \<times> pairing_step" where
  "hand_pin alive s =
     (if s = Pin then (True, if alive then Pairing else PairingFailed STOPPED_TEXT) else (False, s))"

text \<open>What the runtime's notice finds, and what a pairing begun, moved on or stopped leaves.\<close>

record real_links =
  pocket :: "(bluetooth_address \<times> link_state) option"
  pairing :: "pairing_step option"

definition NO_BLUETOOTH_ADDRESS :: string where
  "NO_BLUETOOTH_ADDRESS = ''CAM 1's pairing holds no Bluetooth address. Pair it again in Setup.''"

record stored_setup =
  camera :: nat
  setup_address :: "string option"
  paired :: bool
  vmix_input :: nat

definition set_up :: "stored_setup \<Rightarrow> bool" where
  "set_up s \<longleftrightarrow> (if camera s = 1 then paired s else setup_address s \<noteq> None)"

definition let_go_pocket :: "real_links \<Rightarrow> real_links" where
  "let_go_pocket l = l\<lparr>pocket := None\<rparr>"

text \<open>
  The state \<open>PocketLink::start\<close> leaves: \<open>guard\<close> is the guard's answer, \<open>threads\<close> whether the two
  threads started (the error's text otherwise).
\<close>

definition pocket_start :: "string + unit \<Rightarrow> string + unit \<Rightarrow> camera_reading \<Rightarrow> link_state" where
  "pocket_start guard threads r =
     (case guard of
        Inl sentence \<Rightarrow> fst (on_failed (Bluetooth sentence) (with_last r))
      | Inr _ \<Rightarrow>
          (case threads of
             Inl error \<Rightarrow> fst (on_failed (Bluetooth (''CAM 1's link could not start its thread: '' @ error)) (with_last r))
           | Inr _ \<Rightarrow> with_last r))"

definition links_hold :: "string + unit \<Rightarrow> string + unit \<Rightarrow> stored_setup \<Rightarrow> camera_reading option \<Rightarrow> real_links \<Rightarrow> real_links" where
  "links_hold guard threads setup r l =
     (if camera setup \<noteq> RECORDING_CAMERA then l
      else (case (case setup_address setup of None \<Rightarrow> None | Some t \<Rightarrow> parse_bluetooth_address t) of
              None \<Rightarrow> let_go_pocket l
            | Some a \<Rightarrow>
                (case pocket l of
                   Some (held, st) \<Rightarrow>
                     if held = a \<and> connection st \<noteq> Stopped then l
                     else (let_go_pocket l)\<lparr>pocket := Some (a, pocket_start guard threads (case r of Some x \<Rightarrow> x | None \<Rightarrow> no_reading))\<rparr>
                 | None \<Rightarrow>
                     (let_go_pocket l)\<lparr>pocket := Some (a, pocket_start guard threads (case r of Some x \<Rightarrow> x | None \<Rightarrow> no_reading))\<rparr>)))"

definition links_let_go :: "nat \<Rightarrow> real_links \<Rightarrow> real_links" where
  "links_let_go cam l = (if cam = RECORDING_CAMERA then let_go_pocket l else l)"

definition no_link_yet :: "bool \<Rightarrow> bool \<Rightarrow> stored_setup \<Rightarrow> link_failure" where
  "no_link_yet windows test setup =
     (if camera setup = RECORDING_CAMERA \<and> has_link windows RECORDING_CAMERA False
      then NotPaired NO_BLUETOOTH_ADDRESS
      else (case (if camera setup \<noteq> RECORDING_CAMERA then setup_address setup else None) of
              None \<Rightarrow> NoLinkYet
            | Some a \<Rightarrow> (case guard_camera_address test a of Inl reason \<Rightarrow> Refused reason | Inr _ \<Rightarrow> NoLinkYet)))"

record link_reading =
  link_values :: camera_reading
  is_last_read :: bool

definition links_read :: "bool \<Rightarrow> bool \<Rightarrow> stored_setup \<Rightarrow> real_links \<Rightarrow> link_failure + link_reading" where
  "links_read windows test setup l =
     (case (pocket l, camera setup = RECORDING_CAMERA) of
        (Some (_, st), True) \<Rightarrow>
          (case link_read st of
             Inl f \<Rightarrow> Inl f
           | Inr r \<Rightarrow> Inr \<lparr>link_values = r, is_last_read = last_read st\<rparr>)
      | _ \<Rightarrow> Inl (no_link_yet windows test setup))"

definition links_begin_send ::
  "f64_ops \<Rightarrow> bool \<Rightarrow> bool \<Rightarrow> bool \<Rightarrow> stored_setup \<Rightarrow> real_links \<Rightarrow> camera_command list \<Rightarrow> camera_reading \<Rightarrow> instant
     \<Rightarrow> link_failure + (8 word list list \<times> instant)" where
  "links_begin_send ops windows test alive setup l commands current now =
     (case (pocket l, camera setup = RECORDING_CAMERA) of
        (Some (_, st), True) \<Rightarrow> link_begin_send ops alive st commands current now
      | _ \<Rightarrow> Inl (no_link_yet windows test setup))"

section \<open>The address is read back\<close>

lemma hex_digit_facts:
  assumes "d < 16"
  shows "hex_value (''0123456789ABCDEF'' ! d) = Some d" "visible (''0123456789ABCDEF'' ! d)"
    "''0123456789ABCDEF'' ! d \<notin> set '':-''"
proof -
  have "list_all (\<lambda>d. hex_value (''0123456789ABCDEF'' ! d) = Some d \<and> visible (''0123456789ABCDEF'' ! d)
      \<and> ''0123456789ABCDEF'' ! d \<notin> set '':-'') [0..<16]"
    by (simp add: upt_rec hex_value_def visible_def)
  moreover have "d \<in> set [0..<16]" using assms by simp
  ultimately show "hex_value (''0123456789ABCDEF'' ! d) = Some d" "visible (''0123456789ABCDEF'' ! d)"
    "''0123456789ABCDEF'' ! d \<notin> set '':-''"
    unfolding list_all_iff by blast+
qed

lemma byte_less: "unat (b :: 8 word) < 256"
  using unsigned_less [of b] by simp

lemma nibbles: "unat (b :: 8 word) div 16 < 16" "unat b mod 16 < 16"
  using byte_less [of b] by auto

lemma pair_value_hex: "pair_value (hex_upper b) = Some (unat b)"
  using nibbles [of b] by (simp add: pair_value_def hex_upper_def hex_digit_facts)

lemma hex_upper_visible: "list_all visible (hex_upper b)"
  using nibbles [of b] by (simp add: hex_upper_def hex_digit_facts)

lemma hex_upper_no_separator: "set (hex_upper b) \<inter> set '':-'' = {}"
  using hex_digit_facts(3) [OF nibbles(1) [of b]] hex_digit_facts(3) [OF nibbles(2) [of b]] by (auto simp: hex_upper_def)

lemma split_any_piece:
  "set p \<inter> set ds = {} \<Longrightarrow> d \<in> set ds \<Longrightarrow> split_any ds (p @ d # s) = p # split_any ds s"
  "set p \<inter> set ds = {} \<Longrightarrow> split_any ds p = [p]"
  by (induction p) auto

lemma split_any_join:
  "ps \<noteq> [] \<Longrightarrow> list_all (\<lambda>p. set p \<inter> set ds = {}) ps \<Longrightarrow> d \<in> set ds \<Longrightarrow> split_any ds (join [d] ps) = ps"
  by (induction "[d]" ps rule: join.induct) (auto simp: split_any_piece)

lemma address_of_hex:
  "address_of_parts (map hex_upper bs) acc = Some (foldl (\<lambda>acc b. or (push_bit 8 acc) (ucast b)) acc bs)"
  by (induction bs arbitrary: acc) (auto simp: pair_value_hex)

lemma byte_step:
  "or (push_bit 8 (drop_bit (m + 8) w)) (ucast (ucast (drop_bit m w) :: 8 word)) = drop_bit m (w :: 64 word)"
proof (rule bit_word_eqI)
  fix n assume n: "n < LENGTH(64)"
  show "bit (or (push_bit 8 (drop_bit (m + 8) w)) (ucast (ucast (drop_bit m w) :: 8 word))) n = bit (drop_bit m w) n"
  proof (cases "n < 8")
    case True
    with n show ?thesis by (simp add: bit_simps)
  next
    case False
    then have "m + 8 + (n - 8) = m + n" by simp
    with False n show ?thesis by (simp add: bit_simps)
  qed
qed

lemma six_bytes:
  fixes w :: "64 word"
  assumes "drop_bit 48 w = 0"
  shows "foldl (\<lambda>acc (b :: 8 word). or (push_bit 8 acc) (ucast b)) 0 (map (\<lambda>k. ucast (drop_bit (8 * k) w)) [5, 4, 3, 2, 1, 0]) = w"
  using byte_step [of 40 w] byte_step [of 32 w] byte_step [of 24 w] byte_step [of 16 w] byte_step [of 8 w] byte_step [of 0 w] assms
  by simp

text \<open>
  CAM 1's row holds the address the pairing wrote: every address of six bytes, public or
  random, reads back as itself.
\<close>

theorem address_is_read_back:
  assumes "drop_bit 48 (address a) = 0"
  shows "parse_bluetooth_address (address_text a) = Some a"
proof -
  define parts where "parts = map (\<lambda>k. hex_upper (ucast (drop_bit (8 * k) (address a)))) [5, 4, 3, 2, 1, 0]"
  have parts: "parts = map hex_upper (map (\<lambda>k. ucast (drop_bit (8 * k) (address a))) [5, 4, 3, 2, 1, 0])" "length parts = 6" "parts \<noteq> []"
    by (simp_all add: parts_def)
  have vis: "list_all visible (join '':'' parts)"
    by (rule join_visible) (simp_all add: parts_def hex_upper_visible visible_def)
  have "list_all (\<lambda>p. set p \<inter> set '':-'' = {}) parts"
    using hex_upper_no_separator by (auto simp: parts_def)
  then have split: "split_any '':-'' (join '':'' parts) = parts" by (intro split_any_join) (simp_all add: parts_def)
  have ne: "join '':'' parts \<noteq> []" by (simp add: parts_def hex_upper_def)
  have w: "address_of_parts parts 0 = Some (address a)"
    unfolding parts(1) address_of_hex six_bytes [OF assms] by (rule refl)
  have r: "list_all visible ''random''" "''random'' \<noteq> []" by (simp_all add: visible_def)
  have as_text: "address_text a = (if random a then join '':'' parts @ '' random'' else join '':'' parts)"
    unfolding address_text_def Let_def parts_def by (rule refl)
  have "\<lparr>address = address a, random = random a\<rparr> = a" by (cases a) simp
  then show ?thesis
    using split_visible [OF vis ne] split_two [OF vis ne r] split w parts(2)
    by (cases "random a") (simp_all add: as_text parse_bluetooth_address_def)
qed

theorem address_is_read_back_witness:
  "parse_bluetooth_address (address_text \<lparr>address = 0xD43A2C112233, random = True\<rparr>)
     = Some \<lparr>address = 0xD43A2C112233, random = True\<rparr>"
proof (rule address_is_read_back)
  show "drop_bit 48 (address \<lparr>address = 0xD43A2C112233, random = True\<rparr>) = 0" by simp
qed

text \<open>An address whose pairs carry a sign is taken too, though it is no six pairs of digits.\<close>

theorem signed_pairs_are_taken:
  "parse_bluetooth_address ''+1:+2:+3:+4:+5:+6'' = Some \<lparr>address = 0x010203040506, random = False\<rparr>"
proof -
  have "split_whitespace ''+1:+2:+3:+4:+5:+6'' = [''+1:+2:+3:+4:+5:+6'']"
    by (rule split_visible) (simp_all add: visible_def)
  then show ?thesis by (simp add: parse_bluetooth_address_def pair_value_def hex_value_def)
qed

section \<open>What the log keeps of a listen\<close>

text \<open>
  However many devices are heard, at most \<open>HEARD_KEPT\<close> are kept, the first ones, each with how
  often it was heard; \<open>and more\<close> is said exactly when one was not kept.
\<close>

definition listen_to :: "(string \<times> int) list \<Rightarrow> heard_devices" where
  "listen_to es = fold (\<lambda>(e, dbm). heard_note e dbm) es heard_nothing"

lemma heard_note_inv:
  assumes "bt_inv (entries h)" "length (entries h) \<le> HEARD_KEPT"
  shows "bt_inv (entries (heard_note e dbm h)) \<and> length (entries (heard_note e dbm h)) \<le> HEARD_KEPT"
proof -
  have len: "length m = card (set (map fst m))" if "bt_inv m" for m :: "(string, seen) btree"
    using bt_inv_distinct [OF that] by (metis distinct_card length_map)
  have keys: "set (map fst (bt_insert e v (entries h))) = insert e (set (map fst (entries h)))" for v
    by (rule bt_insert_keys)
  have l: "length (bt_insert e v (entries h)) \<le> Suc (length (entries h))" for v
    using len [of "bt_insert e v (entries h)"] len [OF assms(1)] assms(1) keys [of v] card_insert_le_m1
    by (simp add: card_insert_if)
  show ?thesis
  proof (cases "bt_get (entries h) e")
    case (Some s)
    then have "e \<in> set (map fst (entries h))" using bt_get_in by (force simp: image_iff)
    with len [of "bt_insert e v (entries h)" for v] len [OF assms(1)] assms keys
    have "length (bt_insert e v (entries h)) = length (entries h)" for v
      by (simp add: insert_absorb)
    with Some assms show ?thesis by (simp add: heard_note_def)
  next
    case None
    have "length (bt_insert e v (entries h)) \<le> HEARD_KEPT" if "length (entries h) < HEARD_KEPT" for v
      using l [of v] that by linarith
    with None assms show ?thesis by (auto simp: heard_note_def)
  qed
qed

lemma listen_keeps_few: "length (entries (listen_to es)) \<le> HEARD_KEPT"
proof -
  have "bt_inv (entries h) \<and> length (entries h) \<le> HEARD_KEPT \<Longrightarrow>
      bt_inv (entries (fold (\<lambda>(e, dbm). heard_note e dbm) es h)) \<and> length (entries (fold (\<lambda>(e, dbm). heard_note e dbm) es h)) \<le> HEARD_KEPT" for h
    by (induction es arbitrary: h) (use heard_note_inv in force)+
  then show ?thesis by (simp add: listen_to_def heard_nothing_def)
qed

end
