(* ===== verification/Camera_Runtime.thy ===== *)
theory Camera_Runtime
  imports Camera_Pairing Civil_Time
begin

text \<open>
  The cameras while Studio Control runs (\<open>cameras/runtime.rs\<close>, and of \<open>cameras/store.rs\<close> and
  \<open>cameras/report.rs\<close> what it rests on): who holds each camera, what each last reported and when,
  what is saved of it, CAM 1's pairing, and the two spells of a press. The saved settings are a
  part of the state; what the world answers (the simulated cameras, SQLite's writes, the guard of
  Bluetooth, the threads, the clock, the pictures' words) is \<open>env\<close>.
\<close>

section \<open>Setup's rows\<close>

definition stored_new :: "nat \<Rightarrow> stored_setup" where
  "stored_new n = \<lparr>camera = n, setup_address = None, paired = False, vmix_input = n\<rparr>"

text \<open>\<open>read_setup\<close>: SQLite's rows, in their order, over three rows of new saved data.\<close>

definition stored_row :: "int \<times> string option \<times> int \<times> int \<Rightarrow> stored_setup option" where
  "stored_row row =
     (case row of (n, held, pair, input) \<Rightarrow>
        if 0 \<le> n \<and> n \<le> 255 \<and> nat n \<in> set CAMERA_NUMBERS
        then Some
          \<lparr>camera = nat n,
           setup_address = (case held of Some a \<Rightarrow> if trim a = [] then None else Some a | None \<Rightarrow> None),
           paired = (pair = 1),
           vmix_input = (if int VMIX_INPUT_MIN \<le> input \<and> input \<le> int VMIX_INPUT_MAX then nat input else nat n)\<rparr>
        else None)"

definition read_setup :: "(int \<times> string option \<times> int \<times> int) list \<Rightarrow> stored_setup list" where
  "read_setup rows =
     foldl (\<lambda>held row. case stored_row row of None \<Rightarrow> held | Some s \<Rightarrow> held[camera s - 1 := s])
       (map stored_new CAMERA_NUMBERS) rows"

section \<open>One camera\<close>

record camera_runtime =
  cam_setup :: stored_setup
  cam_has_link :: bool
  released :: bool
  cam_reading :: "camera_reading option"
  read_at :: "string option"
  values_last_read :: bool
  last_saved_at :: "system_time option"
  save_failing :: bool
  cam_failure :: "link_failure option"
  started_at :: "system_time option"
  cam_pairing :: "pairing_step option"

definition runtime_new :: "bool \<Rightarrow> stored_setup \<Rightarrow> bool \<Rightarrow> camera_runtime" where
  "runtime_new win setup sim =
     \<lparr>cam_setup = setup, cam_has_link = has_link win (camera setup) sim, released = False,
      cam_reading = None, read_at = None, values_last_read = False, last_saved_at = None, save_failing = False,
      cam_failure = None, started_at = None, cam_pairing = None\<rparr>"

definition pairing_lost :: "camera_runtime \<Rightarrow> bool" where
  "pairing_lost c \<longleftrightarrow> (case cam_failure c of Some (NotPaired _) \<Rightarrow> True | _ \<Rightarrow> False)"

definition state_of :: "camera_runtime \<Rightarrow> camera_state" where
  "state_of c =
     (if \<not> set_up (cam_setup c) \<or> pairing_lost c then NotSetUp
      else if released c then Released
      else if cam_failure c \<noteq> None then Unreachable
      else Held)"

definition cam_unreachable_sentence :: "camera_runtime \<Rightarrow> string" where
  "cam_unreachable_sentence c =
     failure_text (case cam_failure c of Some f \<Rightarrow> f | None \<Rightarrow> NoAnswer) (camera (cam_setup c)) (setup_address (cam_setup c))"

definition sentence_of :: "camera_runtime \<Rightarrow> string" where
  "sentence_of c =
     (let m = camera_model_of (camera (cam_setup c)) in
      if pairing_lost c then cam_unreachable_sentence c
      else if state_of c = Held \<and> values_last_read c \<and> cam_reading c \<noteq> None then last_read_sentence m
      else state_sentence m (state_of c) (cam_has_link c) (cam_unreachable_sentence c))"

record setup_summary =
  summary_set_up :: bool
  summary_address :: "string option"
  summary_paired :: bool
  summary_input :: nat
  summary_output :: nat
  summary_no_link :: "string option"
  summary_pairing :: "(shown_pairing \<times> string) option"

text \<open>\<open>vmix_output\<close> of the protocol: CAM 1 Output 2, CAM 2 Output 3, CAM 3 Output 4.\<close>

definition vmix_output :: "nat \<Rightarrow> nat option" where
  "vmix_output n = (if n = 1 then Some 2 else if n = 2 then Some 3 else if n = 3 then Some 4 else None)"

definition stored_summary :: "stored_setup \<Rightarrow> setup_summary" where
  "stored_summary s =
     \<lparr>summary_set_up = set_up s, summary_address = (if camera s \<noteq> 1 then setup_address s else None),
      summary_paired = (camera s = 1 \<and> paired s), summary_input = vmix_input s,
      summary_output = (case vmix_output (camera s) of Some n \<Rightarrow> n | None \<Rightarrow> 0),
      summary_no_link = None, summary_pairing = None\<rparr>"

definition setup_summary_of :: "camera_runtime \<Rightarrow> setup_summary" where
  "setup_summary_of c =
     (let kept = stored_summary (cam_setup c); lost = pairing_lost c
      in kept\<lparr>summary_set_up := summary_set_up kept \<and> \<not> lost,
              summary_paired := summary_paired kept \<and> \<not> lost,
              summary_no_link := (if cam_has_link c then None else Some (no_link_refusal (camera_model_of (camera (cam_setup c))))),
              summary_pairing := (case cam_pairing c of Some s \<Rightarrow> step_shown s | None \<Rightarrow> None)\<rparr>)"

definition forget_reading :: "camera_runtime \<Rightarrow> camera_runtime" where
  "forget_reading c =
     c\<lparr>cam_reading := None, read_at := None, values_last_read := False, cam_failure := None, started_at := None\<rparr>"

definition opt_or :: "'a option \<Rightarrow> 'a option \<Rightarrow> 'a option" where
  "opt_or a b = (case a of Some x \<Rightarrow> Some x | None \<Rightarrow> b)"

definition reported_recording :: "camera_reading option \<Rightarrow> bool option" where
  "reported_recording r = (case r of Some x \<Rightarrow> recording x | None \<Rightarrow> None)"

text \<open>What a link that has brought no setting leaves of the last reading, and what it follows.\<close>

definition kept_reading :: "camera_reading option \<Rightarrow> link_reading \<Rightarrow> camera_reading" where
  "kept_reading held l =
     (case held of
        Some r \<Rightarrow>
          if is_last_read l
          then r\<lparr>timecode := opt_or (timecode (link_values l)) (timecode r),
                 battery := opt_or (battery (link_values l)) (battery r),
                 record_time_left_minutes := opt_or (record_time_left_minutes (link_values l)) (record_time_left_minutes r)\<rparr>
          else link_values l
      | None \<Rightarrow> link_values l)"

definition take_reading :: "link_reading \<Rightarrow> system_time \<Rightarrow> camera_runtime \<Rightarrow> camera_runtime" where
  "take_reading l now c =
     (let r = kept_reading (cam_reading c) l;
          answered_before = (cam_reading c \<noteq> None \<and> cam_failure c = None);
          was = reported_recording (cam_reading c);
          kept = (is_last_read l \<and> cam_reading c \<noteq> None)
      in c\<lparr>started_at := (if recording r = Some True \<and> answered_before \<and> was = Some True then started_at c
                          else if recording r = Some True \<and> answered_before \<and> was = Some False then Some now
                          else None),
           values_last_read := kept,
           read_at := (if kept then read_at c else Some (utc_text now)),
           cam_reading := Some r,
           cam_failure := None\<rparr>)"

section \<open>The three cameras\<close>

record stop_arm =
  arm_at :: instant
  arm_take :: "64 word"

text \<open>The settings under the two prefixes: \<open>cameras.released.<n>\<close> and \<open>cameras.lastReading.<n>\<close>
  (its JSON, \<open>None\<close> when it is absent or cannot be read).\<close>

record saved_settings =
  stored_release :: "nat \<Rightarrow> string option"
  stored_reading :: "nat \<Rightarrow> (string \<times> camera_reading) option"

record cameras =
  simulated :: bool
  links :: real_links
  selected :: nat
  bank :: dial_bank
  stop_arm :: "stop_arm option"
  deck_rec_at :: "instant option"
  take_changes :: "64 word"
  recent_unread :: bool
  three :: "camera_runtime list"
  stored :: saved_settings

datatype setting_write = SaveRelease nat | DropRelease nat | SaveReading nat | DropReading nat

datatype picture_state = PicturesShowing | PictureMissing | NoPictures

record pictures_said =
  pictures_state :: picture_state
  pictures_word :: "string option"
  pictures_tone :: camera_tone
  pictures_sentence :: "string option"

text \<open>\<open>write_error\<close> is SQLite's error for a write, if it fails; \<open>pictures\<close> what the pictures say
  before (\<open>False\<close>) and after (\<open>True\<close>) an operation, which the helper's own thread may change.\<close>

record cameras_env =
  windows :: bool
  test_build :: bool
  bluetooth_guard :: "string + unit"
  link_threads :: "string + unit"
  pairing_thread :: "string + unit"
  pairing_alive :: bool
  link_alive :: bool
  bodies :: "nat \<Rightarrow> link_reading option"
  write_error :: "setting_write \<Rightarrow> string option"
  row_error :: "string option"
  clock :: system_time
  pictures :: "bool \<Rightarrow> pictures_said"

datatype camera_effect = CameraLog log_level string | CamerasChanged string "nat option" | HealthChanged

definition camera_at :: "cameras \<Rightarrow> nat \<Rightarrow> camera_runtime" where
  "camera_at cs n = three cs ! camera_slot n"

definition change_camera :: "nat \<Rightarrow> (camera_runtime \<Rightarrow> camera_runtime) \<Rightarrow> cameras \<Rightarrow> cameras" where
  "change_camera n f cs = cs\<lparr>three := (three cs)[camera_slot n := f (three cs ! camera_slot n)]\<rparr>"

definition camera_tag :: "nat \<Rightarrow> string" where "camera_tag n = tag (camera_model_of n)"

subsection \<open>What is saved\<close>

definition save_release :: "cameras_env \<Rightarrow> nat \<Rightarrow> bool \<Rightarrow> cameras \<Rightarrow> cameras \<times> camera_effect list" where
  "save_release env n yes cs =
     (case write_error env (if yes then SaveRelease n else DropRelease n) of
        None \<Rightarrow>
          (cs\<lparr>stored := (stored cs)\<lparr>stored_release :=
              (stored_release (stored cs))(n := if yes then Some ''1'' else None)\<rparr>\<rparr>, [])
      | Some error \<Rightarrow>
          (cs, [CameraLog LogWarn
             (camera_tag n @ '''s release could not be saved; the next start holds it again: '' @ error)]))"

definition save_reading :: "cameras_env \<Rightarrow> nat \<Rightarrow> cameras \<Rightarrow> cameras \<times> camera_effect list" where
  "save_reading env n cs =
     (case (cam_reading (camera_at cs n), read_at (camera_at cs n)) of
        (Some r, Some moment) \<Rightarrow>
          let failing = save_failing (camera_at cs n);
              at_now = change_camera n (\<lambda>c. c\<lparr>last_saved_at := Some (clock env)\<rparr>) cs
          in (case write_error env (SaveReading n) of
                None \<Rightarrow>
                  (change_camera n (\<lambda>c. c\<lparr>save_failing := False\<rparr>) at_now
                     \<lparr>stored := (stored cs)\<lparr>stored_reading := (stored_reading (stored cs))(n := Some (moment, r))\<rparr>\<rparr>,
                   if failing then [CameraLog LogInfo (camera_tag n @ '''s reading is saved again.'')] else [])
              | Some error \<Rightarrow>
                  (change_camera n (\<lambda>c. c\<lparr>save_failing := True\<rparr>) at_now,
                   if failing then []
                   else [CameraLog LogWarn
                     (camera_tag n @ '''s reading could not be saved, and is tried again at its next change or in a minute; a start meanwhile shows what was saved before, or nothing read: '' @ error)]))
      | _ \<Rightarrow> (cs, []))"

definition drop_saved_reading :: "cameras_env \<Rightarrow> nat \<Rightarrow> cameras \<Rightarrow> cameras \<times> camera_effect list" where
  "drop_saved_reading env n cs =
     (case write_error env (DropReading n) of
        None \<Rightarrow> (cs\<lparr>stored := (stored cs)\<lparr>stored_reading := (stored_reading (stored cs))(n := None)\<rparr>\<rparr>, [])
      | Some error \<Rightarrow> (cs, [CameraLog LogWarn (camera_tag n @ '''s saved reading could not be taken away: '' @ error)]))"

definition SAVE_READING_EVERY :: duration where "SAVE_READING_EVERY = 60 * 1000000000"

subsection \<open>The links and a read\<close>

definition tell_links :: "cameras_env \<Rightarrow> nat \<Rightarrow> cameras \<Rightarrow> cameras" where
  "tell_links env n cs =
     (if simulated cs then cs
      else
        let c = camera_at cs n in
        if set_up (cam_setup c) \<and> \<not> released c
        then cs\<lparr>links := links_hold (bluetooth_guard env) (link_threads env) (cam_setup c) (cam_reading c) (links cs)\<rparr>
        else cs\<lparr>links := links_let_go n (links cs)\<rparr>)"

definition link_read_of :: "cameras_env \<Rightarrow> nat \<Rightarrow> cameras \<Rightarrow> link_failure + link_reading" where
  "link_read_of env n cs =
     (if simulated cs then (case bodies env n of Some l \<Rightarrow> Inr l | None \<Rightarrow> Inl NoAnswer)
      else links_read (windows env) (test_build env) (cam_setup (camera_at cs n)) (links cs))"

datatype transition = Reported | TurnedUnreachable | Reachable

fun transition_reason :: "transition \<Rightarrow> string" where
  "transition_reason Reported = ''reported''"
| "transition_reason TurnedUnreachable = ''unreachable''"
| "transition_reason Reachable = ''reachable''"

text \<open>\<open>now.duration_since(saved)\<close> is an error when the clock was set back, and then it saves.\<close>

definition saved_a_minute_ago :: "system_time \<Rightarrow> system_time option \<Rightarrow> bool" where
  "saved_a_minute_ago now moment =
     (case moment of None \<Rightarrow> True | Some t \<Rightarrow> if now < t then True else SAVE_READING_EVERY \<le> nat (now - t))"

definition read_camera ::
  "cameras_env \<Rightarrow> nat \<Rightarrow> cameras \<Rightarrow> cameras \<times> transition option \<times> camera_effect list" where
  "read_camera env n cs =
     (let c = camera_at cs n in
      if \<not> set_up (cam_setup c) \<or> released c then (cs, None, [])
      else
        let was_unreachable = (cam_failure c \<noteq> None); held = cam_reading c
        in (case link_read_of env n cs of
              Inr l \<Rightarrow>
                let cs1 = change_camera n (take_reading l (clock env)) cs;
                    r = cam_reading (camera_at cs1 n);
                    changed = (case (held, r) of (Some a, Some b) \<Rightarrow> \<not> same_values a b | _ \<Rightarrow> False);
                    cs2 = (if n = RECORDING_CAMERA \<and> (was_unreachable \<or> reported_recording held \<noteq> reported_recording r)
                           then cs1\<lparr>take_changes := take_changes cs1 + 1\<rparr> else cs1);
                    save = (\<not> is_last_read l
                            \<and> (changed \<or> held = None \<or> saved_a_minute_ago (clock env) (last_saved_at (camera_at cs2 n))));
                    (cs3, fx) = (if save then save_reading env n cs2 else (cs2, []))
                in (cs3, if was_unreachable then Some Reachable else if changed then Some Reported else None, fx)
            | Inl f \<Rightarrow>
                (change_camera n (\<lambda>c. c\<lparr>cam_failure := Some f\<rparr>) cs,
                 if was_unreachable then None else Some TurnedUnreachable, [])))"

fun refresh ::
  "cameras_env \<Rightarrow> nat list \<Rightarrow> cameras \<Rightarrow> cameras \<times> (nat \<times> transition) list \<times> camera_effect list" where
  "refresh env [] cs = (cs, [], [])"
| "refresh env (n # ns) cs =
     (case read_camera env n cs of
        (cs1, t, fx) \<Rightarrow>
          (case refresh env ns cs1 of
             (cs2, ts, fx2) \<Rightarrow> (cs2, (case t of Some x \<Rightarrow> [(n, x)] | None \<Rightarrow> []) @ ts, fx @ fx2)))"

section \<open>The health check\<close>

record health_camera =
  entry_camera :: nat
  entry_tag :: string
  entry_state :: camera_state
  entry_word :: string
  entry_tone :: camera_tone
  entry_sentence :: string

record cameras_health =
  check_ok :: bool
  check_status :: camera_tone
  check_word :: string
  check_summary :: string
  check_recording :: bool
  check_cameras :: "health_camera list"

definition shows_values :: "camera_runtime \<Rightarrow> bool" where
  "shows_values c \<longleftrightarrow> state_of c = Held \<or> state_of c = Unreachable"

text \<open>\<open>records_now\<close>, through \<open>camera_snapshot\<close>'s recording: a camera not shown shows none.\<close>

definition records_now :: "cameras \<Rightarrow> bool" where
  "records_now cs \<longleftrightarrow>
     (let c = camera_at cs RECORDING_CAMERA
      in shows_values c \<and> records (camera_model_of RECORDING_CAMERA)
           \<and> reported_recording (cam_reading c) = Some True)"

definition health_entry :: "camera_runtime \<Rightarrow> health_camera" where
  "health_entry c =
     \<lparr>entry_camera = camera (cam_setup c), entry_tag = camera_tag (camera (cam_setup c)), entry_state = state_of c,
      entry_word = state_word (state_of c), entry_tone = state_tone (state_of c), entry_sentence = sentence_of c\<rparr>"

fun worst_entry :: "health_camera \<Rightarrow> health_camera list \<Rightarrow> health_camera" where
  "worst_entry worst [] = worst"
| "worst_entry worst (e # es) =
     worst_entry (if state_rank (entry_state e) \<le> state_rank (entry_state worst) then worst else e) es"

definition health_check :: "pictures_said \<Rightarrow> cameras \<Rightarrow> cameras_health" where
  "health_check p cs =
     (let entries = map health_entry (three cs);
          worst = worst_entry (hd entries) (tl entries);
          (status, word, summary) =
            (case (entry_tone worst, pictures_word p, pictures_sentence p) of
               (ToneOk, Some w, Some s) \<Rightarrow>
                 if pictures_state p \<noteq> PicturesShowing then (pictures_tone p, w, s)
                 else (entry_tone worst, entry_word worst, entry_sentence worst)
             | _ \<Rightarrow> (entry_tone worst, entry_word worst, entry_sentence worst))
      in \<lparr>check_ok = (status = ToneOk), check_status = status, check_word = word, check_summary = summary,
          check_recording = records_now cs, check_cameras = entries\<rparr>)"

definition counted :: "cameras_health \<Rightarrow> health_camera option" where
  "counted h = find (\<lambda>e. entry_state e = Unreachable) (check_cameras h)"

definition raises_whole_status :: "cameras_health \<Rightarrow> bool" where
  "raises_whole_status h \<longleftrightarrow> counted h \<noteq> None"

definition whole_status_sentence :: "cameras_health \<Rightarrow> string option" where
  "whole_status_sentence h = map_option entry_sentence (counted h)"

text \<open>The announcement of a health check that changed.\<close>

definition health_moves :: "cameras_env \<Rightarrow> cameras \<Rightarrow> cameras \<Rightarrow> camera_effect list" where
  "health_moves env before after =
     (if health_check (pictures env True) after \<noteq> health_check (pictures env False) before then [HealthChanged] else [])"

section \<open>Setup, holding and letting go\<close>

definition take_setup :: "cameras_env \<Rightarrow> stored_setup \<Rightarrow> bool \<Rightarrow> cameras \<Rightarrow> cameras \<times> camera_effect list" where
  "take_setup env setup hold cs =
     (let n = camera setup;
          c = camera_at cs n;
          same_camera = (setup_address (cam_setup c) = setup_address setup \<and> paired (cam_setup c) = paired setup);
          cs1 = change_camera n (\<lambda>c. c\<lparr>cam_setup := setup\<rparr>) cs
      in if hold \<or> \<not> same_camera
         then
           let was_released = released c;
               cs2 = change_camera n (\<lambda>c. forget_reading (c\<lparr>released := False\<rparr>)) cs1;
               (cs3, fx3) = (if was_released then save_release env n False cs2 else (cs2, []));
               (cs4, fx4) = drop_saved_reading env n cs3;
               (cs5, _, fx5) = read_camera env n (tell_links env n cs4)
           in (cs5, fx3 @ fx4 @ fx5)
         else (cs1, []))"

definition release :: "cameras_env \<Rightarrow> nat \<Rightarrow> cameras \<Rightarrow> cameras \<times> camera_effect list" where
  "release env n cs =
     (let cs1 = change_camera n (\<lambda>c. c\<lparr>released := True, values_last_read := cam_reading c \<noteq> None,
                                        cam_failure := None, started_at := None\<rparr>) cs;
          cs2 = (if n = RECORDING_CAMERA then cs1\<lparr>take_changes := take_changes cs1 + 1\<rparr> else cs1);
          (cs3, fx) = save_release env n True cs2
      in (tell_links env n cs3, fx))"

definition connect :: "cameras_env \<Rightarrow> nat \<Rightarrow> cameras \<Rightarrow> cameras \<times> camera_effect list" where
  "connect env n cs =
     (let was_released = released (camera_at cs n);
          cs1 = change_camera n (\<lambda>c. c\<lparr>released := False, values_last_read := cam_reading c \<noteq> None\<rparr>) cs;
          (cs2, fx2) = (if was_released then save_release env n False cs1 else (cs1, []));
          (cs3, _, fx3) = read_camera env n (tell_links env n cs2)
      in (cs3, fx2 @ fx3))"

section \<open>CAM 1's pairing\<close>

datatype camera_error = CameraInvalid string | CameraRefused string string | CameraStorage string

definition set_pairing :: "pairing_step option \<Rightarrow> cameras \<Rightarrow> cameras" where
  "set_pairing s cs = change_camera RECORDING_CAMERA (\<lambda>c. c\<lparr>cam_pairing := s\<rparr>) cs"

definition end_pairing :: "cameras \<Rightarrow> cameras" where
  "end_pairing cs = cs\<lparr>links := (links cs)\<lparr>pairing := None\<rparr>\<rparr>"

definition begin_pairing :: "cameras_env \<Rightarrow> cameras \<Rightarrow> cameras \<times> camera_effect list" where
  "begin_pairing env cs =
     (let (s, lines) = (if simulated cs then (Pin, []) else pairing_start (bluetooth_guard env) (pairing_thread env));
          cs1 = (if simulated cs then cs else cs\<lparr>links := (links cs)\<lparr>pairing := Some s\<rparr>\<rparr>);
          cs2 = (if \<not> step_running s then end_pairing cs1 else cs1)
      in (set_pairing (Some s) cs2, map (\<lambda>(l, t). CameraLog l t) lines))"

text \<open>\<open>row_error\<close> is SQLite's error for CAM 1's row, if it cannot be written.\<close>

definition finish_pairing ::
  "cameras_env \<Rightarrow> bluetooth_address option \<Rightarrow> cameras \<Rightarrow> cameras \<times> (camera_error + unit) \<times> camera_effect list" where
  "finish_pairing env given cs =
     (let kept = cam_setup (camera_at cs RECORDING_CAMERA);
          setup = (case given of
                     Some a \<Rightarrow> kept\<lparr>paired := True, setup_address := Some (address_text a)\<rparr>
                   | None \<Rightarrow> kept\<lparr>paired := True\<rparr>)
      in (case row_error env of
            Some error \<Rightarrow> (cs, Inl (CameraStorage error), [])
          | None \<Rightarrow>
              (case take_setup env setup True (set_pairing None cs) of (cs1, fx) \<Rightarrow> (cs1, Inr (), fx))))"

definition SIMULATED_PIN :: string where "SIMULATED_PIN = ''123456''"

text \<open>\<open>RealLinks::give_pin\<close>: whether a pairing waited for the PIN, and the links after it.\<close>

definition links_give_pin :: "bool \<Rightarrow> real_links \<Rightarrow> bool \<times> real_links" where
  "links_give_pin alive l =
     (case pairing l of
        None \<Rightarrow> (False, l)
      | Some s \<Rightarrow> (case hand_pin alive s of (wanted, s1) \<Rightarrow> (wanted, l\<lparr>pairing := Some s1\<rparr>)))"

definition give_pin ::
  "cameras_env \<Rightarrow> string \<Rightarrow> cameras \<Rightarrow> cameras \<times> (camera_error + string option) \<times> camera_effect list" where
  "give_pin env pin cs =
     (if cam_pairing (camera_at cs RECORDING_CAMERA) \<noteq> Some Pin then (cs, Inr None, [])
      else if simulated cs
      then if pin = SIMULATED_PIN
           then (case finish_pairing env None cs of
                   (cs1, Inl e, fx) \<Rightarrow> (cs1, Inl e, fx)
                 | (cs1, Inr _, fx) \<Rightarrow> (cs1, Inr (Some ''setup''), fx))
           else (set_pairing (Some (PairingFailed PIN_REFUSED)) cs, Inr (Some ''pairing''), [])
      else
        let (wanted, l) = links_give_pin (pairing_alive env) (links cs); cs1 = cs\<lparr>links := l\<rparr>
        in if \<not> wanted then (cs1, Inr None, [])
           else
             let (cs2, s) = (case pairing l of
                               Some (PairingFailed why) \<Rightarrow> (end_pairing cs1, PairingFailed why)
                             | None \<Rightarrow> (cs1, PairingFailed STOPPED_TEXT)
                             | Some _ \<Rightarrow> (cs1, Pairing))
             in (set_pairing (Some s) cs2, Inr (Some ''pairing''), []))"

definition cancel_pairing :: "cameras \<Rightarrow> cameras" where
  "cancel_pairing cs = set_pairing None (if simulated cs then cs else end_pairing cs)"

definition error_text :: "camera_error \<Rightarrow> string" where
  "error_text e = (case e of CameraInvalid t \<Rightarrow> t | CameraRefused _ t \<Rightarrow> t | CameraStorage t \<Rightarrow> t)"

definition follow_pairing :: "cameras_env \<Rightarrow> cameras \<Rightarrow> cameras \<times> string option \<times> camera_effect list" where
  "follow_pairing env cs =
     (if simulated cs then (cs, None, [])
      else
        case cam_pairing (camera_at cs RECORDING_CAMERA) of
          None \<Rightarrow> (cs, None, [])
        | Some followed \<Rightarrow>
            if \<not> step_running followed then (cs, None, [])
            else
              let s = (case pairing (links cs) of Some s \<Rightarrow> s | None \<Rightarrow> PairingFailed STOPPED_TEXT)
              in if s = followed then (cs, None, [])
                 else
                   let cs1 = (if \<not> step_running s then end_pairing cs else cs)
                   in (case s of
                         Paired a \<Rightarrow>
                           (case finish_pairing env (Some a) cs1 of
                              (cs2, Inr _, fx) \<Rightarrow> (cs2, Some ''setup'', fx)
                            | (cs2, Inl e, fx) \<Rightarrow>
                                (set_pairing (Some (PairingFailed
                                   (''CAM 1 paired, but Studio Control could not save the pairing: '' @ error_text e
                                      @ ''. Press Pair CAM 1 to try again.''))) cs2,
                                 Some ''pairing'',
                                 fx @ [CameraLog LogWarn (''CAM 1's pairing could not be saved: '' @ error_text e)]))
                       | _ \<Rightarrow> (set_pairing (Some s) cs1, Some ''pairing'', [])))"

section \<open>Settling\<close>

definition settle :: "cameras_env \<Rightarrow> cameras \<Rightarrow> cameras \<times> camera_effect list" where
  "settle env cs =
     (case follow_pairing env cs of
        (cs1, followed, fx1) \<Rightarrow>
          (case refresh env CAMERA_NUMBERS cs1 of
             (cs2, ts, fx2) \<Rightarrow>
               (cs2,
                fx1 @ fx2
                @ (if followed = None \<and> ts = [] then []
                   else (case followed of Some reason \<Rightarrow> [CamerasChanged reason (Some RECORDING_CAMERA)] | None \<Rightarrow> [])
                        @ map (\<lambda>(n, t). CamerasChanged (transition_reason t) (Some n)) ts
                        @ health_moves env cs cs2))))"

section \<open>A start\<close>

text \<open>A saved release counts for a camera that is set up; so does a saved reading.\<close>

definition loaded_camera :: "bool \<Rightarrow> bool \<Rightarrow> saved_settings \<Rightarrow> stored_setup \<Rightarrow> camera_runtime" where
  "loaded_camera win sim saved setup =
     (let c = runtime_new win setup sim;
          n = camera setup;
          c1 = c\<lparr>released := set_up setup
                   \<and> (case stored_release saved n of Some v \<Rightarrow> trim v = ''1'' | None \<Rightarrow> False)\<rparr>
      in if set_up setup
         then (case stored_reading saved n of
                 Some (moment, r) \<Rightarrow> c1\<lparr>cam_reading := Some r, read_at := Some moment, values_last_read := True\<rparr>
               | None \<Rightarrow> c1)
         else c1)"

fun load_cameras :: "cameras_env \<Rightarrow> nat list \<Rightarrow> cameras \<Rightarrow> cameras \<times> camera_effect list" where
  "load_cameras env [] cs = (cs, [])"
| "load_cameras env (n # ns) cs =
     (case read_camera env n (tell_links env n cs) of
        (cs1, _, fx) \<Rightarrow> (case load_cameras env ns cs1 of (cs2, fx2) \<Rightarrow> (cs2, fx @ fx2)))"

definition load :: "cameras_env \<Rightarrow> bool \<Rightarrow> saved_settings \<Rightarrow> stored_setup list \<Rightarrow> cameras \<times> camera_effect list" where
  "load env sim saved rows =
     load_cameras env CAMERA_NUMBERS
       \<lparr>simulated = sim, links = \<lparr>pocket = None, pairing = None\<rparr>, selected = RECORDING_CAMERA, bank = ExposureBank,
        stop_arm = None, deck_rec_at = None, take_changes = 0, recent_unread = False,
        three = map (loaded_camera (windows env) sim saved) rows, stored = saved\<rparr>"

section \<open>A press, under the lock\<close>

definition half_parameter :: "setting \<Rightarrow> (string \<times> string) option" where
  "half_parameter s =
     (case s of
        WhiteBalance \<Rightarrow> Some (''its tint'', ''a white balance'')
      | Tint \<Rightarrow> Some (''its white balance'', ''a tint'')
      | Resolution \<Rightarrow> Some (''its recording format'', ''a resolution'')
      | FrameRate \<Rightarrow> Some (''its recording format'', ''a frame rate'')
      | DisplayLut \<Rightarrow> Some (''whether its display LUT is on'', ''a display LUT'')
      | DisplayLutOn \<Rightarrow> Some (''its display LUT'', ''the switch'')
      | _ \<Rightarrow> None)"

fun first_half :: "camera_command list \<Rightarrow> (string \<times> string) option" where
  "first_half [] = None"
| "first_half (Set s _ # cs) = (case half_parameter s of Some h \<Rightarrow> Some h | None \<Rightarrow> first_half cs)"
| "first_half (_ # cs) = first_half cs"

text \<open>What a press begun comes to: handed to the simulated cameras, or written by CAM 1's link
  before its deadline, or a failure already known.\<close>

datatype begun_press = PressSimulated "camera_command list" | PressWaiting "8 word list list" instant | PressFailed link_failure

definition begin_send ::
  "f64_ops \<Rightarrow> cameras_env \<Rightarrow> instant \<Rightarrow> nat \<Rightarrow> camera_command list \<Rightarrow> cameras \<Rightarrow> camera_error + begun_press" where
  "begin_send ops env now n commands cs =
     (case (if n = RECORDING_CAMERA \<and> values_last_read (camera_at cs n) then first_half commands else None) of
        Some (what, press) \<Rightarrow>
          Inl (CameraRefused ''CAMERA_VALUE_NOT_ALLOWED''
            (camera_tag n @ '' has not reported '' @ what @ '' since it connected, so '' @ press @ '' cannot be sent with it.''))
      | None \<Rightarrow>
          if simulated cs then Inr (PressSimulated commands)
          else
            (case links_begin_send ops (windows env) (test_build env) (link_alive env) (cam_setup (camera_at cs n)) (links cs)
                    commands (case cam_reading (camera_at cs n) of Some r \<Rightarrow> r | None \<Rightarrow> no_reading) now of
               Inr (messages, deadline) \<Rightarrow> Inr (PressWaiting messages deadline)
             | Inl (NotCarried sentence) \<Rightarrow> Inl (CameraRefused ''CAMERA_VALUE_NOT_ALLOWED'' sentence)
             | Inl f \<Rightarrow> Inr (PressFailed f)))"

definition finish_send ::
  "cameras_env \<Rightarrow> nat \<Rightarrow> link_failure + unit \<Rightarrow> cameras \<Rightarrow> cameras \<times> (camera_error + unit) \<times> camera_effect list" where
  "finish_send env n outcome cs =
     (case outcome of
        Inr _ \<Rightarrow> (cs, Inr (), [])
      | Inl f \<Rightarrow>
          let cs1 = change_camera n (\<lambda>c. c\<lparr>cam_failure := Some f\<rparr>) cs
          in (cs1, Inl (CameraRefused ''CAMERA_UNREACHABLE'' (cam_unreachable_sentence (camera_at cs1 n))),
              CamerasChanged (transition_reason TurnedUnreachable) (Some n) # health_moves env cs cs1))"

definition read_back :: "cameras_env \<Rightarrow> nat \<Rightarrow> cameras \<Rightarrow> cameras \<times> camera_effect list" where
  "read_back env n cs =
     (case read_camera env n cs of
        (cs1, t, fx) \<Rightarrow>
          (cs1, fx @ (if t = Some TurnedUnreachable
                      then CamerasChanged (transition_reason TurnedUnreachable) (Some n) # health_moves env cs cs1
                      else [])))"


section \<open>Nothing kept is sent\<close>

lemma whole_parameter: "half_parameter s = None \<Longrightarrow> set_message ops s v r = set_message ops s v r'"
  by (cases s; cases v) (simp_all add: half_parameter_def)

lemma whole_message: "first_half (c # cs) = None \<Longrightarrow> message_for ops c r = message_for ops c r' \<and> first_half cs = None"
proof (cases c)
  case (Set s v)
  assume "first_half (c # cs) = None"
  with Set show ?thesis by (auto split: option.splits intro: whole_parameter)
next
  case (Auto a)
  assume "first_half (c # cs) = None"
  with Auto show ?thesis by (cases a) auto
qed auto

lemma whole_press: "first_half cs = None \<Longrightarrow> encode_commands ops cs r = encode_commands ops cs r'"
proof (induction cs arbitrary: r r')
  case (Cons c cs)
  have "encode_commands ops cs x = encode_commands ops cs y" for x y
    using Cons whole_message [of c cs] by blast
  then have "encode_commands ops cs (fst (apply_message ops r m)) = encode_commands ops cs (fst (apply_message ops r' m))" for m
    by blast
  moreover have "message_for ops c r = message_for ops c r'" using whole_message [OF Cons.prems] by blast
  ultimately show ?case by (simp only: encode_commands.simps)
qed simp

text \<open>
  While CAM 1's values are the last read, what a press sends it is the same whatever those values
  are: nothing kept from an earlier connection goes back to the camera.
\<close>

theorem nothing_kept_is_sent:
  assumes "values_last_read (camera_at cs RECORDING_CAMERA)"
    and "begin_send ops env now RECORDING_CAMERA commands cs = Inr (PressWaiting messages deadline)"
  shows "encode_commands ops commands any_reading = Inr messages"
proof -
  have "first_half commands = None" using assms by (auto simp: begin_send_def split: option.splits)
  moreover from this assms obtain r where "encode_commands ops commands r = Inr messages"
    by (auto simp: begin_send_def links_begin_send_def link_begin_send_def
        split: sum.splits option.splits prod.splits if_splits link_failure.splits bool.splits)
  ultimately show ?thesis using whole_press [of commands ops any_reading r] by simp
qed

section \<open>What every operation keeps\<close>

text \<open>
  A camera's kept values and times fit together; CAM 1's link stands for the address of its row
  exactly while the row is set up and not released.
\<close>

definition camera_ok :: "camera_runtime \<Rightarrow> bool" where
  "camera_ok c \<longleftrightarrow>
     (values_last_read c \<longrightarrow> cam_reading c \<noteq> None)
     \<and> (cam_reading c = None \<longleftrightarrow> read_at c = None)
     \<and> (started_at c \<noteq> None \<longrightarrow> reported_recording (cam_reading c) = Some True \<and> \<not> released c)"

definition numbered :: "cameras \<Rightarrow> bool" where
  "numbered cs \<longleftrightarrow> map (\<lambda>c. camera (cam_setup c)) (three cs) = CAMERA_NUMBERS"

definition held_address :: "camera_runtime \<Rightarrow> bluetooth_address option" where
  "held_address c =
     (if set_up (cam_setup c) \<and> \<not> released c
      then (case setup_address (cam_setup c) of None \<Rightarrow> None | Some t \<Rightarrow> parse_bluetooth_address t) else None)"

definition link_follows :: "cameras \<Rightarrow> bool" where
  "link_follows cs \<longleftrightarrow>
     simulated cs \<or> map_option fst (pocket (links cs)) = held_address (camera_at cs RECORDING_CAMERA)"

definition cameras_ok :: "cameras \<Rightarrow> bool" where
  "cameras_ok cs \<longleftrightarrow> numbered cs \<and> list_all camera_ok (three cs) \<and> link_follows cs"

lemma slot_less [simp]: "camera_slot n < 3"
  by (simp add: camera_slot_def)

lemma slots: "camera_slot (Suc 0) = 0" "camera_slot 1 = 0" "camera_slot 2 = 1" "camera_slot 3 = 2" "camera_slot RECORDING_CAMERA = 0"
  by (simp_all add: camera_slot_def RECORDING_CAMERA_def)

lemma slot_recording: "n \<in> set CAMERA_NUMBERS \<Longrightarrow> camera_slot n = 0 \<longleftrightarrow> n = RECORDING_CAMERA"
  by (auto simp: CAMERA_NUMBERS_def camera_slot_def RECORDING_CAMERA_def)

lemma recording_listed [simp]: "RECORDING_CAMERA \<in> set CAMERA_NUMBERS"
  by (simp add: RECORDING_CAMERA_def CAMERA_NUMBERS_def)

lemma numbered_length: "numbered cs \<Longrightarrow> length (three cs) = 3"
  unfolding numbered_def by (metis CAMERA_NUMBERS_def length_map list.size(3,4) One_nat_def numeral_3_eq_3 plus_1_eq_Suc add.commute)

lemma numbered_at: "numbered cs \<Longrightarrow> n \<in> set CAMERA_NUMBERS \<Longrightarrow> camera (cam_setup (camera_at cs n)) = n"
proof -
  assume "numbered cs" and n: "n \<in> set CAMERA_NUMBERS"
  then have "map (\<lambda>c. camera (cam_setup c)) (three cs) ! camera_slot n = CAMERA_NUMBERS ! camera_slot n" "length (three cs) = 3"
    by (simp_all add: numbered_def numbered_length)
  then show ?thesis using n by (auto simp: camera_at_def CAMERA_NUMBERS_def slots)
qed

lemma camera_at_change:
  "length (three cs) = 3 \<Longrightarrow>
     camera_at (change_camera n f cs) m = (if camera_slot m = camera_slot n then f (camera_at cs n) else camera_at cs m)"
  by (simp add: camera_at_def change_camera_def)

lemma change_camera_frame [simp]:
  "simulated (change_camera n f cs) = simulated cs" "links (change_camera n f cs) = links cs"
  "take_changes (change_camera n f cs) = take_changes cs" "stop_arm (change_camera n f cs) = stop_arm cs"
  "deck_rec_at (change_camera n f cs) = deck_rec_at cs" "stored (change_camera n f cs) = stored cs"
  "selected (change_camera n f cs) = selected cs" "bank (change_camera n f cs) = bank cs"
  "length (three (change_camera n f cs)) = length (three cs)"
  by (simp_all add: change_camera_def)

lemma camera_at_frame [simp]:
  "camera_at (cs\<lparr>stored := x\<rparr>) n = camera_at cs n" "camera_at (cs\<lparr>links := l\<rparr>) n = camera_at cs n"
  "camera_at (cs\<lparr>take_changes := t\<rparr>) n = camera_at cs n" "camera_at (cs\<lparr>stop_arm := a\<rparr>) n = camera_at cs n"
  "camera_at (cs\<lparr>deck_rec_at := d\<rparr>) n = camera_at cs n" "camera_at (cs\<lparr>selected := k\<rparr>) n = camera_at cs n"
  "camera_at (cs\<lparr>bank := b\<rparr>) n = camera_at cs n"
  by (simp_all add: camera_at_def)

text \<open>A change of one camera that keeps its number, its fit, and what CAM 1's link stands for.\<close>

lemma change_keeps:
  assumes "numbered cs" "n \<in> set CAMERA_NUMBERS"
    "camera (cam_setup (f (camera_at cs n))) = n"
  shows "numbered (change_camera n f cs)"
proof -
  have "length (three cs) = 3" by (rule numbered_length [OF assms(1)])
  with assms show ?thesis
    by (auto simp: numbered_def change_camera_def camera_at_def CAMERA_NUMBERS_def slots map_update)
qed

lemma change_fits:
  "list_all camera_ok (three cs) \<Longrightarrow> camera_ok (f (camera_at cs n)) \<Longrightarrow> list_all camera_ok (three (change_camera n f cs))"
  unfolding change_camera_def camera_at_def list_all_iff by (auto dest!: set_update_subset_insert [THEN subsetD])

lemma change_follows:
  assumes "numbered cs" "link_follows cs" "held_address (f (camera_at cs n)) = held_address (camera_at cs n)"
  shows "link_follows (change_camera n f cs)"
  using assms camera_at_change [OF numbered_length [OF assms(1)], of n f RECORDING_CAMERA]
  unfolding link_follows_def camera_at_def by auto

lemma fits_at: "numbered cs \<Longrightarrow> list_all camera_ok (three cs) \<Longrightarrow> camera_ok (camera_at cs n)"
  using numbered_length [of cs] by (auto simp: list_all_length camera_at_def)

lemma change_ok:
  assumes "cameras_ok cs" "n \<in> set CAMERA_NUMBERS" "camera (cam_setup (f (camera_at cs n))) = n"
    "camera_ok (f (camera_at cs n))" "held_address (f (camera_at cs n)) = held_address (camera_at cs n)"
  shows "cameras_ok (change_camera n f cs)"
  using assms change_keeps change_fits change_follows unfolding cameras_ok_def by blast

lemma frame_ok [simp]:
  "cameras_ok (cs\<lparr>stored := x\<rparr>) = cameras_ok cs" "cameras_ok (cs\<lparr>take_changes := t\<rparr>) = cameras_ok cs"
  "cameras_ok (cs\<lparr>stop_arm := a\<rparr>) = cameras_ok cs" "cameras_ok (cs\<lparr>deck_rec_at := d\<rparr>) = cameras_ok cs"
  "cameras_ok (cs\<lparr>selected := k\<rparr>) = cameras_ok cs" "cameras_ok (cs\<lparr>bank := b\<rparr>) = cameras_ok cs"
  by (simp_all add: cameras_ok_def numbered_def link_follows_def)

lemma take_reading_ok: "camera_ok c \<Longrightarrow> \<not> released c \<Longrightarrow> camera_ok (take_reading l now c)"
  by (auto simp: camera_ok_def take_reading_def Let_def reported_recording_def)

lemma take_reading_keeps [simp]:
  "cam_setup (take_reading l now c) = cam_setup c" "released (take_reading l now c) = released c"
  "held_address (take_reading l now c) = held_address c" "cam_pairing (take_reading l now c) = cam_pairing c"
  by (simp_all add: take_reading_def Let_def held_address_def)

text \<open>The saved settings and their lines leave the cameras but for when and whether it saved.\<close>

lemma save_release_ok:
  "save_release env n yes cs = (cs', fx) \<Longrightarrow>
     \<exists>s. cs' = cs\<lparr>stored := s\<rparr>"
  by (auto simp: save_release_def split: option.splits intro: exI [of _ "stored cs"])

lemma drop_saved_reading_ok: "drop_saved_reading env n cs = (cs', fx) \<Longrightarrow> \<exists>s. cs' = cs\<lparr>stored := s\<rparr>"
  by (auto simp: drop_saved_reading_def split: option.splits intro: exI [of _ "stored cs"])

lemma camera_ok_marks [simp]:
  "camera_ok (c\<lparr>last_saved_at := m\<rparr>) = camera_ok c" "camera_ok (c\<lparr>save_failing := b\<rparr>) = camera_ok c"
  "camera_ok (c\<lparr>cam_pairing := p\<rparr>) = camera_ok c" "camera_ok (c\<lparr>cam_failure := f\<rparr>) = camera_ok c"
  "camera_ok (c\<lparr>cam_setup := s\<rparr>) = camera_ok c"
  by (simp_all add: camera_ok_def)

lemma save_marks_ok:
  assumes "cameras_ok cs" "n \<in> set CAMERA_NUMBERS"
  shows "cameras_ok (change_camera n (\<lambda>c. c\<lparr>last_saved_at := m\<rparr>) cs)"
    "cameras_ok (change_camera n (\<lambda>c. c\<lparr>save_failing := b\<rparr>) cs)"
    "cameras_ok (change_camera n (\<lambda>c. c\<lparr>cam_pairing := p\<rparr>) cs)"
    "cameras_ok (change_camera n (\<lambda>c. c\<lparr>cam_failure := f\<rparr>) cs)"
proof -
  have at: "camera (cam_setup (camera_at cs n)) = n" "camera_ok (camera_at cs n)"
    using assms by (simp_all add: cameras_ok_def numbered_at fits_at)
  show "cameras_ok (change_camera n (\<lambda>c. c\<lparr>last_saved_at := m\<rparr>) cs)"
    "cameras_ok (change_camera n (\<lambda>c. c\<lparr>save_failing := b\<rparr>) cs)"
    "cameras_ok (change_camera n (\<lambda>c. c\<lparr>cam_pairing := p\<rparr>) cs)"
    "cameras_ok (change_camera n (\<lambda>c. c\<lparr>cam_failure := f\<rparr>) cs)"
    by (rule change_ok [OF assms]; insert at; simp add: held_address_def)+
qed

lemma save_reading_ok:
  assumes "cameras_ok cs" "n \<in> set CAMERA_NUMBERS"
  shows "cameras_ok (fst (save_reading env n cs))"
proof -
  have "cameras_ok (change_camera n (\<lambda>c. c\<lparr>save_failing := b\<rparr>) (change_camera n (\<lambda>c. c\<lparr>last_saved_at := m\<rparr>) cs))" for b m
    by (intro save_marks_ok assms)
  then show ?thesis using assms(1) by (auto simp: save_reading_def Let_def split: option.splits)
qed

lemma read_camera_ok:
  assumes "cameras_ok cs" "n \<in> set CAMERA_NUMBERS"
  shows "cameras_ok (fst (read_camera env n cs))"
proof (cases "\<not> set_up (cam_setup (camera_at cs n)) \<or> released (camera_at cs n)")
  case True
  then show ?thesis using assms(1) by (simp add: read_camera_def)
next
  case False
  have taken: "cameras_ok (change_camera n (take_reading l (clock env)) cs)" for l
    using assms numbered_at [of cs n] fits_at [of cs n] False
    by (intro change_ok take_reading_ok) (auto simp: cameras_ok_def)
  show ?thesis
  proof (cases "link_read_of env n cs")
    case (Inl f)
    with False show ?thesis using save_marks_ok(4) [OF assms] by (simp add: read_camera_def)
  next
    case (Inr l)
    with False show ?thesis using taken [of l]
      by (auto simp: read_camera_def Let_def save_reading_ok assms(2) split: prod.splits dest!: arg_cong [of "save_reading _ _ _" _ fst])
  qed
qed

lemma hold_follows:
  "camera setup = RECORDING_CAMERA \<Longrightarrow>
     map_option fst (pocket (links_hold g th setup r l))
       = (case setup_address setup of None \<Rightarrow> None | Some t \<Rightarrow> parse_bluetooth_address t)"
  by (simp add: links_hold_def let_go_pocket_def split: option.splits)

lemma tell_links_follows:
  assumes "numbered cs" "n = RECORDING_CAMERA \<or> link_follows cs" "n \<in> set CAMERA_NUMBERS"
  shows "link_follows (tell_links env n cs)"
proof (cases "simulated cs")
  case True
  then show ?thesis by (simp add: tell_links_def link_follows_def)
next
  case False
  have n: "camera (cam_setup (camera_at cs n)) = n" by (rule numbered_at [OF assms(1,3)])
  show ?thesis
  proof (cases "n = RECORDING_CAMERA")
    case True
    with False n show ?thesis
      by (auto simp: tell_links_def link_follows_def Let_def hold_follows links_let_go_def let_go_pocket_def held_address_def)
  next
    case other: False
    with n have "links (tell_links env n cs) = links cs"
      by (simp add: tell_links_def Let_def links_hold_def links_let_go_def)
    moreover have "camera_at (tell_links env n cs) RECORDING_CAMERA = camera_at cs RECORDING_CAMERA" "simulated (tell_links env n cs) = simulated cs"
      by (simp_all add: tell_links_def Let_def camera_at_def)
    ultimately show ?thesis using other assms(2) by (simp add: link_follows_def)
  qed
qed

lemma tell_links_frame [simp]:
  "three (tell_links env n cs) = three cs" "simulated (tell_links env n cs) = simulated cs"
  "take_changes (tell_links env n cs) = take_changes cs" "stop_arm (tell_links env n cs) = stop_arm cs"
  "deck_rec_at (tell_links env n cs) = deck_rec_at cs" "stored (tell_links env n cs) = stored cs"
  "camera_at (tell_links env n cs) m = camera_at cs m"
  "selected (tell_links env n cs) = selected cs"
  by (simp_all add: tell_links_def Let_def camera_at_def)

lemma refresh_ok:
  "cameras_ok cs \<Longrightarrow> set ns \<subseteq> set CAMERA_NUMBERS \<Longrightarrow> cameras_ok (fst (refresh env ns cs))"
proof (induction ns arbitrary: cs)
  case (Cons n ns)
  then have "cameras_ok (fst (read_camera env n cs))" by (intro read_camera_ok) auto
  with Cons show ?case by (auto split: prod.splits dest!: arg_cong [of "refresh _ _ _" _ fst] arg_cong [of "read_camera _ _ _" _ fst])
qed simp


lemma set_up_same:
  "camera a = camera b \<Longrightarrow> setup_address a = setup_address b \<Longrightarrow> paired a = paired b \<Longrightarrow> set_up a = set_up b"
  by (simp add: set_up_def)

lemma take_setup_ok:
  assumes "cameras_ok cs" "camera setup \<in> set CAMERA_NUMBERS"
  shows "cameras_ok (fst (take_setup env setup hold cs))"
proof -
  let ?n = "camera setup" and ?c = "camera_at cs (camera setup)"
  let ?same = "setup_address (cam_setup ?c) = setup_address setup \<and> paired (cam_setup ?c) = paired setup"
  let ?cs1 = "change_camera ?n (\<lambda>c. c\<lparr>cam_setup := setup\<rparr>) cs"
  let ?cs2 = "change_camera ?n (\<lambda>c. forget_reading (c\<lparr>released := False\<rparr>)) ?cs1"
  from assms(1) have cs: "numbered cs" "list_all camera_ok (three cs)" "link_follows cs" by (simp_all add: cameras_ok_def)
  have n: "camera (cam_setup ?c) = ?n" by (rule numbered_at [OF cs(1) assms(2)])
  have at1: "camera_at ?cs1 ?n = ?c\<lparr>cam_setup := setup\<rparr>"
    by (simp add: camera_at_change numbered_length [OF cs(1)])
  have one: "numbered ?cs1" by (rule change_keeps [OF cs(1) assms(2)]) simp
  have fits: "list_all camera_ok (three ?cs1)" by (rule change_fits [OF cs(2)]) (simp add: fits_at cs)
  have two: "numbered ?cs2" by (rule change_keeps [OF one assms(2)]) (simp add: at1 forget_reading_def)
  have fits2: "list_all camera_ok (three ?cs2)" by (rule change_fits [OF fits]) (simp add: camera_ok_def forget_reading_def)
  show ?thesis
  proof (cases "hold \<or> \<not> ?same")
    case False
    then have "held_address (?c\<lparr>cam_setup := setup\<rparr>) = held_address ?c"
      using n set_up_same [of "setup" "cam_setup ?c"] by (simp add: held_address_def)
    then have "cameras_ok ?cs1"
      by (intro change_ok assms) (simp_all add: fits_at cs)
    with False show ?thesis by (simp add: take_setup_def Let_def)
  next
    case True
    have "cameras_ok (tell_links env ?n cs4)" if "\<exists>s. cs4 = ?cs2\<lparr>stored := s\<rparr>" for cs4
    proof -
      from that have c4: "numbered cs4" "list_all camera_ok (three cs4)" using two fits2 by (auto simp: numbered_def)
      have "link_follows cs" by (rule cs(3))
      have "?n = RECORDING_CAMERA \<or> link_follows cs4"
        using that cs(3) slot_recording [OF assms(2)]
        by (auto simp: link_follows_def camera_at_change numbered_length [OF cs(1)] numbered_length [OF one] slots)
      then have "link_follows (tell_links env ?n cs4)" by (intro tell_links_follows c4 assms)
      with c4 show ?thesis by (simp add: cameras_ok_def numbered_def)
    qed
    then have read: "cameras_ok (fst (read_camera env ?n (tell_links env ?n cs4)))" if "\<exists>s. cs4 = ?cs2\<lparr>stored := s\<rparr>" for cs4
      using that by (intro read_camera_ok assms) blast
    obtain cs3 fx3 cs4 fx4 where w: "(if released ?c then save_release env ?n False ?cs2 else (?cs2, [])) = (cs3, fx3)"
      "drop_saved_reading env ?n cs3 = (cs4, fx4)" by fastforce
    then have "\<exists>s. cs3 = ?cs2\<lparr>stored := s\<rparr>"
      using save_release_ok [of env ?n False ?cs2 cs3 fx3] by (auto split: if_splits intro: exI [of _ "stored ?cs2"])
    then have "\<exists>s. cs4 = ?cs2\<lparr>stored := s\<rparr>" using drop_saved_reading_ok [OF w(2)] by auto
    moreover have "fst (take_setup env setup hold cs) = fst (read_camera env ?n (tell_links env ?n cs4))"
      using True w by (simp add: take_setup_def Let_def split: prod.splits)
    ultimately show ?thesis using read by simp
  qed
qed


lemma tell_ok:
  assumes "numbered cs" "list_all camera_ok (three cs)" "n \<in> set CAMERA_NUMBERS" "n \<noteq> RECORDING_CAMERA \<Longrightarrow> link_follows cs"
  shows "cameras_ok (tell_links env n cs)"
proof -
  have "link_follows (tell_links env n cs)" using assms by (intro tell_links_follows) auto
  with assms(1,2) show ?thesis by (simp add: cameras_ok_def numbered_def)
qed

text \<open>One camera changed but for its number, then told to the links.\<close>

lemma change_and_tell:
  assumes "cameras_ok cs" "n \<in> set CAMERA_NUMBERS"
    "cam_setup (f (camera_at cs n)) = cam_setup (camera_at cs n)" "camera_ok (f (camera_at cs n))"
    "three x = three (change_camera n f cs)" "links x = links cs" "simulated x = simulated cs"
  shows "cameras_ok (tell_links env n x)"
proof (rule tell_ok)
  from assms(1) have cs: "numbered cs" "list_all camera_ok (three cs)" "link_follows cs" by (simp_all add: cameras_ok_def)
  have "numbered (change_camera n f cs)"
    by (rule change_keeps [OF cs(1) assms(2)]) (simp add: assms(3) numbered_at cs(1) assms(2))
  then show "numbered x" by (simp add: numbered_def assms(5))
  show "list_all camera_ok (three x)" unfolding assms(5) by (rule change_fits [where f = f, OF cs(2) assms(4)])
  show "link_follows x" if "n \<noteq> RECORDING_CAMERA"
  proof -
    have "camera_slot n \<noteq> 0" using slot_recording [OF assms(2)] that by simp
    then have "camera_at x RECORDING_CAMERA = camera_at cs RECORDING_CAMERA"
      using camera_at_change [OF numbered_length [OF cs(1)], of n f RECORDING_CAMERA] by (simp add: camera_at_def assms(5) slots)
    with cs(3) show ?thesis by (simp add: link_follows_def assms(6,7))
  qed
qed (rule assms(2))

lemma release_ok:
  assumes "cameras_ok cs" "n \<in> set CAMERA_NUMBERS"
  shows "cameras_ok (fst (release env n cs))"
proof -
  let ?f = "\<lambda>c. c\<lparr>released := True, values_last_read := cam_reading c \<noteq> None, cam_failure := None, started_at := None\<rparr>"
  let ?cs1 = "change_camera n ?f cs"
  let ?cs2 = "if n = RECORDING_CAMERA then ?cs1\<lparr>take_changes := take_changes ?cs1 + 1\<rparr> else ?cs1"
  have ok: "camera_ok (camera_at cs n)" using assms(1) by (simp add: fits_at cameras_ok_def)
  obtain cs3 fx where w: "save_release env n True ?cs2 = (cs3, fx)" by fastforce
  then obtain s where "cs3 = ?cs2\<lparr>stored := s\<rparr>" using save_release_ok by blast
  then have "cameras_ok (tell_links env n cs3)"
    using ok by (intro change_and_tell [OF assms, of ?f]) (simp_all add: camera_ok_def)
  moreover have "fst (release env n cs) = tell_links env n cs3" unfolding release_def Let_def w by simp
  ultimately show ?thesis by simp
qed

lemma connect_ok:
  assumes "cameras_ok cs" "n \<in> set CAMERA_NUMBERS"
  shows "cameras_ok (fst (connect env n cs))"
proof -
  let ?f = "\<lambda>c. c\<lparr>released := False, values_last_read := cam_reading c \<noteq> None\<rparr>"
  have ok: "camera_ok (camera_at cs n)" using assms(1) by (simp add: fits_at cameras_ok_def)
  obtain cs2 fx where w: "(if released (camera_at cs n) then save_release env n False (change_camera n ?f cs)
      else (change_camera n ?f cs, [])) = (cs2, fx)" by fastforce
  then have "\<exists>s. cs2 = (change_camera n ?f cs)\<lparr>stored := s\<rparr>"
    using save_release_ok [of env n False "change_camera n ?f cs" cs2 fx]
    by (auto split: if_splits intro: exI [of _ "stored (change_camera n ?f cs)"])
  then have "cameras_ok (tell_links env n cs2)"
    using ok by (intro change_and_tell [OF assms, of ?f]) (auto simp: camera_ok_def)
  moreover have "fst (connect env n cs) = fst (read_camera env n (tell_links env n cs2))"
    unfolding connect_def Let_def w by (simp split: prod.splits)
  ultimately show ?thesis using read_camera_ok assms(2) by auto
qed

lemma pairing_frame [simp]:
  "cameras_ok (cs\<lparr>links := (links cs)\<lparr>pairing := p\<rparr>\<rparr>) = cameras_ok cs"
  by (simp add: cameras_ok_def numbered_def link_follows_def)

lemma set_pairing_ok: "cameras_ok cs \<Longrightarrow> cameras_ok (set_pairing p cs)"
  unfolding set_pairing_def by (rule save_marks_ok) simp_all

lemma end_pairing_ok [simp]: "cameras_ok (end_pairing cs) = cameras_ok cs"
  by (simp add: end_pairing_def)

lemma cancel_pairing_ok: "cameras_ok cs \<Longrightarrow> cameras_ok (cancel_pairing cs)"
  by (simp add: cancel_pairing_def set_pairing_ok)

lemma begin_pairing_ok: "cameras_ok cs \<Longrightarrow> cameras_ok (fst (begin_pairing env cs))"
  by (auto simp: begin_pairing_def Let_def split: prod.splits intro!: set_pairing_ok)

lemma finish_pairing_ok: "cameras_ok cs \<Longrightarrow> cameras_ok (fst (finish_pairing env a cs))"
proof -
  assume cs: "cameras_ok cs"
  have "camera (cam_setup (camera_at cs RECORDING_CAMERA)) = RECORDING_CAMERA"
    using cs by (simp add: cameras_ok_def numbered_at)
  then have "cameras_ok (fst (take_setup env (cam_setup (camera_at cs RECORDING_CAMERA)\<lparr>paired := True\<rparr>) True (set_pairing None cs)))"
    "cameras_ok (fst (take_setup env (cam_setup (camera_at cs RECORDING_CAMERA)\<lparr>paired := True, setup_address := t\<rparr>) True (set_pairing None cs)))" for t
    by (simp_all add: take_setup_ok set_pairing_ok cs)
  with cs show ?thesis
    by (auto simp: finish_pairing_def Let_def split: option.splits prod.splits dest!: arg_cong [of "take_setup _ _ _ _" _ fst])
qed

lemma links_give_pin_pocket: "links_give_pin alive l = (w, l') \<Longrightarrow> l' = l\<lparr>pairing := pairing l'\<rparr>"
  by (auto simp: links_give_pin_def split: option.splits prod.splits)

lemma give_pin_ok: "cameras_ok cs \<Longrightarrow> cameras_ok (fst (give_pin env pin cs))"
proof -
  assume cs: "cameras_ok cs"
  obtain w l where l: "links_give_pin (pairing_alive env) (links cs) = (w, l)" by fastforce
  have "cameras_ok (cs\<lparr>links := l\<rparr>)" using links_give_pin_pocket [OF l] cs by (metis pairing_frame)
  then show ?thesis using cs finish_pairing_ok [OF cs, of env None] l
    by (auto simp: give_pin_def Let_def set_pairing_ok split: prod.splits sum.splits option.splits pairing_step.splits)
qed

lemma follow_pairing_ok: "cameras_ok cs \<Longrightarrow> cameras_ok (fst (follow_pairing env cs))"
proof -
  assume cs: "cameras_ok cs"
  have "cameras_ok (fst (finish_pairing env a cs))" "cameras_ok (fst (finish_pairing env a (end_pairing cs)))" for a
    using cs by (simp_all add: finish_pairing_ok)
  then show ?thesis using cs
    by (auto simp: follow_pairing_def Let_def set_pairing_ok split: option.splits prod.splits sum.splits pairing_step.splits
        dest!: arg_cong [of "finish_pairing _ _ _" _ fst])
qed

lemma settle_ok: "cameras_ok cs \<Longrightarrow> cameras_ok (fst (settle env cs))"
  using follow_pairing_ok [of cs env] refresh_ok [of _ CAMERA_NUMBERS env]
  by (auto simp: settle_def split: prod.splits dest!: arg_cong [of "refresh _ _ _" _ fst])

lemma finish_send_ok: "cameras_ok cs \<Longrightarrow> n \<in> set CAMERA_NUMBERS \<Longrightarrow> cameras_ok (fst (finish_send env n outcome cs))"
  by (auto simp: finish_send_def Let_def save_marks_ok split: sum.splits)

lemma read_back_ok: "cameras_ok cs \<Longrightarrow> n \<in> set CAMERA_NUMBERS \<Longrightarrow> cameras_ok (fst (read_back env n cs))"
  using read_camera_ok [of cs n env] by (auto simp: read_back_def split: prod.splits)


lemma stored_row_number: "stored_row row = Some s \<Longrightarrow> camera s \<in> set CAMERA_NUMBERS"
  by (auto simp: stored_row_def split: prod.splits if_splits)

lemma read_setup_numbered: "map camera (read_setup rows) = CAMERA_NUMBERS"
proof -
  have "map camera held = CAMERA_NUMBERS \<Longrightarrow>
      map camera (foldl (\<lambda>held row. case stored_row row of None \<Rightarrow> held | Some s \<Rightarrow> held[camera s - 1 := s]) held rows) = CAMERA_NUMBERS" for held
  proof (induction rows arbitrary: held)
    case (Cons row rows)
    have "map camera (held[camera s - 1 := s]) = CAMERA_NUMBERS" if "stored_row row = Some s" for s
      using Cons.prems stored_row_number [OF that] by (auto simp: map_update CAMERA_NUMBERS_def)
    with Cons show ?case by (cases "stored_row row") auto
  qed simp
  then show ?thesis by (simp add: read_setup_def stored_new_def comp_def)
qed

lemma loaded_camera_ok: "camera_ok (loaded_camera win sim saved setup)" "cam_setup (loaded_camera win sim saved setup) = setup"
  by (auto simp: loaded_camera_def runtime_new_def camera_ok_def Let_def split: option.splits)

lemma load_cameras_ok:
  "cameras_ok cs \<Longrightarrow> set ns \<subseteq> set CAMERA_NUMBERS \<Longrightarrow> cameras_ok (fst (load_cameras env ns cs))"
proof (induction ns arbitrary: cs)
  case (Cons n ns)
  then have "cameras_ok (tell_links env n cs)" by (intro tell_ok) (auto simp: cameras_ok_def)
  then have "cameras_ok (fst (read_camera env n (tell_links env n cs)))" using Cons.prems by (intro read_camera_ok) auto
  with Cons show ?case
    by (auto split: prod.splits dest!: arg_cong [of "load_cameras _ _ _" _ fst])
qed simp

lemma load_ok:
  assumes "map camera rows = CAMERA_NUMBERS"
  shows "cameras_ok (fst (load env sim saved rows))"
proof -
  define cs where "cs = \<lparr>simulated = sim, links = \<lparr>pocket = None, pairing = None\<rparr>, selected = RECORDING_CAMERA, bank = ExposureBank,
        stop_arm = None, deck_rec_at = None, take_changes = 0, recent_unread = False,
        three = map (loaded_camera (windows env) sim saved) rows, stored = saved\<rparr>"
  have n: "numbered cs" using assms by (simp add: numbered_def cs_def comp_def loaded_camera_ok)
  have f: "list_all camera_ok (three cs)" by (simp add: cs_def list_all_iff loaded_camera_ok)
  have "cameras_ok (tell_links env RECORDING_CAMERA cs)" using n f by (intro tell_ok) simp_all
  then have "cameras_ok (fst (read_camera env RECORDING_CAMERA (tell_links env RECORDING_CAMERA cs)))"
    by (intro read_camera_ok) simp_all
  then have "cameras_ok (fst (load_cameras env [2, 3] (fst (read_camera env RECORDING_CAMERA (tell_links env RECORDING_CAMERA cs)))))"
    by (intro load_cameras_ok) (simp_all add: CAMERA_NUMBERS_def)
  moreover have "load env sim saved rows = load_cameras env (RECORDING_CAMERA # [2, 3]) cs"
    unfolding load_def cs_def by (simp add: CAMERA_NUMBERS_def RECORDING_CAMERA_def)
  then have "fst (load env sim saved rows)
      = fst (load_cameras env [2, 3] (fst (read_camera env RECORDING_CAMERA (tell_links env RECORDING_CAMERA cs))))"
    by (simp only: load_cameras.simps(2) [of env RECORDING_CAMERA "[2, 3]"]) (simp del: load_cameras.simps split: prod.splits)
  ultimately show ?thesis by simp
qed

section \<open>An example\<close>

text \<open>CAM 1 held again on its kept reading, its link connected.\<close>

definition kept_camera :: camera_runtime where
  "kept_camera =
     (runtime_new True \<lparr>camera = 1, setup_address = Some ''D4:3A:2C:11:22:33'', paired = True, vmix_input = 1\<rparr> False)
       \<lparr>cam_reading := Some (no_reading\<lparr>tint := Some (Fin 3)\<rparr>), read_at := Some [], values_last_read := True\<rparr>"

definition kept_cameras :: cameras where
  "kept_cameras =
     \<lparr>simulated = False,
      links = \<lparr>pocket = Some (\<lparr>address = 0xD43A2C112233, random = False\<rparr>, link_new\<lparr>connection := Connected\<rparr>), pairing = None\<rparr>,
      selected = 1, bank = ExposureBank, stop_arm = None, deck_rec_at = None, take_changes = 0, recent_unread = False,
      three = [kept_camera, runtime_new True (stored_new 2) False, runtime_new True (stored_new 3) False],
      stored = \<lparr>stored_release = \<lambda>_. None, stored_reading = \<lambda>_. None\<rparr>\<rparr>"

definition quiet_env :: cameras_env where
  "quiet_env =
     \<lparr>windows = True, test_build = False, bluetooth_guard = Inr (), link_threads = Inr (), pairing_thread = Inr (),
      pairing_alive = True, link_alive = True, bodies = \<lambda>_. None, write_error = \<lambda>_. None, row_error = None, clock = 0,
      pictures = \<lambda>_. \<lparr>pictures_state = PicturesShowing, pictures_word = None, pictures_tone = ToneOk, pictures_sentence = None\<rparr>\<rparr>"

lemma record_start_bytes: "encode_commands ops [RecordStart] r = Inr [[255, 5, 0, 0, 10, 1, 1, 0, 2, 0, 0, 0]]"
proof -
  have "encode (int8 MEDIA_TRANSPORT_MODE [TRANSPORT_RECORD]) = Inr (pad_to_four [255, 5, 0, 0, 10, 1, 1, 0, 2])"
    by (simp add: encode_def int8_def assign_def COMMAND_HEAD_def MAX_MESSAGE_def HEADER_def BROADCAST_def COMMAND_CHANGE_def
        MEDIA_TRANSPORT_MODE_def TYPE_INT8_def OPERATION_ASSIGN_def TRANSPORT_RECORD_def)
  moreover have "pad_to_four [255, 5, 0, 0, 10, 1, 1, 0, 2] = [255, 5, 0, 0, 10, 1, 1, 0, 2, 0, 0, 0]"
    by (simp add: pad_to_four.simps)
  ultimately show ?thesis by (simp add: then_do_def)
qed

theorem nothing_kept_is_sent_witness:
  "encode_commands exact_ops [RecordStart] (no_reading\<lparr>tint := Some (Fin 7)\<rparr>) = Inr [[255, 5, 0, 0, 10, 1, 1, 0, 2, 0, 0, 0]]"
proof (rule nothing_kept_is_sent)
  show "values_last_read (camera_at kept_cameras RECORDING_CAMERA)"
    by (simp add: camera_at_def kept_cameras_def kept_camera_def slots)
  show "begin_send exact_ops quiet_env 0 RECORDING_CAMERA [RecordStart] kept_cameras
      = Inr (PressWaiting [[255, 5, 0, 0, 10, 1, 1, 0, 2, 0, 0, 0]] (0 + SEND_TIMEOUT))"
    by (simp add: begin_send_def links_begin_send_def link_begin_send_def camera_at_def kept_cameras_def kept_camera_def slots
        runtime_new_def quiet_env_def RECORDING_CAMERA_def record_start_bytes del: encode_commands.simps)
qed
end
