(* ===== verification/Camera_Commands.thy ===== *)
theory Camera_Commands
  imports Camera_Runtime
begin

text \<open>
  The \<open>cameras.*\<close> requests (\<open>cameras/commands.rs\<close>): their parameters, the checks in their order, the
  plan of a press and its answer, the selection, release and connect, and Setup. A JSON value is
  \<open>serde_json\<close>'s, an object the list of its entries.
\<close>

section \<open>JSON\<close>

datatype json_number = PosInt nat | NegInt int | Float f64

datatype json_value = JNull | JBool bool | JNumber json_number | JString string | JArray "json_value list"
  | JObject "(string \<times> json_value) list"

definition json_get :: "json_value \<Rightarrow> string \<Rightarrow> json_value option" where
  "json_get v key = (case v of JObject es \<Rightarrow> map_of es key | _ \<Rightarrow> None)"

definition as_u64 :: "json_value \<Rightarrow> nat option" where
  "as_u64 v = (case v of JNumber (PosInt n) \<Rightarrow> Some n | _ \<Rightarrow> None)"

definition json_i64 :: "json_value \<Rightarrow> int option" where
  "json_i64 v =
     (case v of
        JNumber (PosInt n) \<Rightarrow> if n \<le> 9223372036854775807 then Some (int n) else None
      | JNumber (NegInt i) \<Rightarrow> Some i
      | _ \<Rightarrow> None)"

definition json_f64 :: "f64_ops \<Rightarrow> json_value \<Rightarrow> f64 option" where
  "json_f64 ops v =
     (case v of
        JNumber (PosInt n) \<Rightarrow> Some (fl ops (of_nat n))
      | JNumber (NegInt i) \<Rightarrow> Some (fl ops (of_int i))
      | JNumber (Float x) \<Rightarrow> Some x
      | _ \<Rightarrow> None)"

definition as_str :: "json_value \<Rightarrow> string option" where
  "as_str v = (case v of JString s \<Rightarrow> Some s | _ \<Rightarrow> None)"

definition json_nat :: "nat \<Rightarrow> json_value" where "json_nat n = JNumber (PosInt n)"

definition json_text :: "string option \<Rightarrow> json_value" where
  "json_text t = (case t of Some s \<Rightarrow> JString s | None \<Rightarrow> JNull)"

definition json_float :: "f64 option \<Rightarrow> json_value" where
  "json_float x = (case x of Some (Fin r) \<Rightarrow> JNumber (Float (Fin r)) | _ \<Rightarrow> JNull)"

definition bind_opt :: "'a option \<Rightarrow> ('a \<Rightarrow> 'b option) \<Rightarrow> 'b option" where
  "bind_opt x f = (case x of Some v \<Rightarrow> f v | None \<Rightarrow> None)"

section \<open>Parameters\<close>

definition camera_param :: "json_value \<Rightarrow> camera_error + nat" where
  "camera_param params =
     ok_or (bind_opt (bind_opt (json_get params ''camera'') as_u64) (\<lambda>n. if n \<in> set CAMERA_NUMBERS then Some n else None))
       (CameraInvalid ''camera must be 1, 2 or 3.'')"

definition confirm_param :: "json_value \<Rightarrow> camera_error + bool" where
  "confirm_param params =
     (case json_get params ''confirm'' of
        None \<Rightarrow> Inr False
      | Some JNull \<Rightarrow> Inr False
      | Some (JBool b) \<Rightarrow> Inr b
      | Some _ \<Rightarrow> Inl (CameraInvalid ''confirm must be true or false.''))"

definition optional_text :: "json_value \<Rightarrow> string \<Rightarrow> camera_error + string option" where
  "optional_text params key =
     (case json_get params key of
        None \<Rightarrow> Inr None
      | Some JNull \<Rightarrow> Inr None
      | Some (JString t) \<Rightarrow> Inr (Some t)
      | Some _ \<Rightarrow> Inl (CameraInvalid (key @ '' must be one of the camera's values, as text.'')))"

definition setting_param :: "json_value \<Rightarrow> camera_error + setting" where
  "setting_param params =
     ok_or (bind_opt (bind_opt (json_get params ''setting'') as_str) pressed_setting)
       (CameraInvalid ''setting must be iso, shutter, iris, nd, whiteBalance, tint or focus.'')"

definition step_param :: "json_value \<Rightarrow> camera_error + int" where
  "step_param params =
     ok_or (bind_opt (bind_opt (json_get params ''step'') json_i64) (\<lambda>s. if s \<noteq> 0 \<and> - 1000 \<le> s \<and> s \<le> 1000 then Some s else None))
       (CameraInvalid ''step must be a whole number of steps, not 0.'')"

definition not_confirmed :: camera_error where
  "not_confirmed = CameraRefused ''CAMERA_CHANGE_NOT_CONFIRMED'' NOT_CONFIRMED"

definition unsupported :: "string \<Rightarrow> camera_error" where
  "unsupported t = CameraRefused ''CAMERA_SETTING_UNSUPPORTED'' t"

definition not_allowed :: "string \<Rightarrow> camera_error" where
  "not_allowed t = CameraRefused ''CAMERA_VALUE_NOT_ALLOWED'' t"

definition map_err :: "('e \<Rightarrow> 'f) \<Rightarrow> 'e + 'a \<Rightarrow> 'f + 'a" where
  "map_err f r = (case r of Inl e \<Rightarrow> Inl (f e) | Inr a \<Rightarrow> Inr a)"

section \<open>The checks\<close>

definition held :: "cameras \<Rightarrow> nat \<Rightarrow> camera_error + unit" where
  "held cs n =
     (let c = camera_at cs n
      in case state_of c of
           Held \<Rightarrow> Inr ()
         | NotSetUp \<Rightarrow> Inl (CameraRefused ''CAMERA_NOT_SET_UP'' (sentence_of c))
         | Released \<Rightarrow> Inl (CameraRefused ''CAMERA_RELEASED'' (released_refusal (camera_model_of n)))
         | Unreachable \<Rightarrow> Inl (CameraRefused ''CAMERA_UNREACHABLE'' (cam_unreachable_sentence c)))"

definition reading_of :: "cameras \<Rightarrow> nat \<Rightarrow> camera_reading" where
  "reading_of cs n = (case cam_reading (camera_at cs n) of Some r \<Rightarrow> r | None \<Rightarrow> no_reading)"

definition allowed_choice :: "nat \<Rightarrow> setting \<Rightarrow> string \<Rightarrow> camera_error + unit" where
  "allowed_choice n s value =
     then_do (map_err unsupported (options_of (camera_model_of n) s)) (\<lambda>options.
       if value \<in> set options then Inr () else Inl (not_allowed (value_refusal (camera_model_of n) s value)))"

fun reading_text :: "camera_reading \<Rightarrow> setting \<Rightarrow> string option" where
  "reading_text r Iso = iso r"
| "reading_text r Shutter = shutter r"
| "reading_text r Iris = iris r"
| "reading_text r Nd = nd r"
| "reading_text r Resolution = resolution r"
| "reading_text r FrameRate = frame_rate r"
| "reading_text r DynamicRange = dynamic_range r"
| "reading_text r DisplayLut = display_lut r"
| "reading_text r _ = None"

fun reading_number :: "camera_reading \<Rightarrow> setting \<Rightarrow> f64 option" where
  "reading_number r WhiteBalance = white_balance r"
| "reading_number r Tint = tint r"
| "reading_number r Focus = focus r"
| "reading_number r _ = None"

definition reported_json :: "camera_reading \<Rightarrow> setting \<Rightarrow> json_value" where
  "reported_json r s = (if is_level s then json_float (reading_number r s) else json_text (reading_text r s))"

section \<open>A press\<close>

datatype answer_kind =
    AnswerSetting setting
  | AnswerFormat "string option" "string option" string string
  | AnswerLook bool bool bool camera_reading
  | AnswerRecord bool

record plan =
  plan_camera :: nat
  plan_commands :: "camera_command list"
  plan_answer :: answer_kind

type_synonym camera_event = "(string \<times> nat option) option"

definition or_empty :: "string option \<Rightarrow> string" where
  "or_empty t = (case t of Some s \<Rightarrow> s | None \<Rightarrow> [])"

definition TO :: string where "TO = '' '' @ ARROW @ '' ''"

definition format_change :: "string option \<Rightarrow> string option \<Rightarrow> string \<Rightarrow> string \<Rightarrow> camera_reading \<Rightarrow> string" where
  "format_change res rate old_res old_rate after =
     (let now_res = or_empty (resolution after); now_rate = or_empty (frame_rate after)
      in if res \<noteq> None \<and> rate \<noteq> None then old_res @ '' '' @ old_rate @ ''p'' @ TO @ now_res @ '' '' @ now_rate @ ''p''
         else if res \<noteq> None then old_res @ TO @ now_res
         else old_rate @ ''p'' @ TO @ now_rate @ ''p'')"

definition look_parts :: "bool \<Rightarrow> bool \<Rightarrow> bool \<Rightarrow> camera_reading \<Rightarrow> camera_reading \<Rightarrow> string list" where
  "look_parts dynamic lut lut_on before after =
     (if dynamic then [''dynamic range '' @ or_empty (dynamic_range before) @ TO @ or_empty (dynamic_range after)] else [])
     @ (if lut then [''display LUT '' @ or_empty (display_lut before) @ TO @ or_empty (display_lut after)] else [])
     @ (if lut_on then [''display LUT '' @ (if display_lut_on after = Some True then ''on'' else ''off'')] else [])"

definition answer_press :: "plan \<Rightarrow> cameras \<Rightarrow> camera_reading \<Rightarrow> cameras \<times> json_value \<times> camera_event" where
  "answer_press p cs after =
     (let n = plan_camera p; t = camera_tag n
      in case plan_answer p of
           AnswerSetting s \<Rightarrow>
             (cs, JObject [(''camera'', json_nat n), (''setting'', JString (setting_key s)), (''value'', reported_json after s)],
              Some (''setting'', Some n))
         | AnswerFormat res rate old_res old_rate \<Rightarrow>
             (cs, JObject [(''camera'', json_nat n),
                (''sentence'', JString (t @ '': '' @ format_change res rate old_res old_rate after @ ''.''))],
              Some (''format'', Some n))
         | AnswerLook dynamic lut lut_on before \<Rightarrow>
             (cs, JObject [(''camera'', json_nat n),
                (''sentence'', JString (t @ '': '' @ join ''; '' (look_parts dynamic lut lut_on before after) @ ''.''))],
              Some (''look'', Some n))
         | AnswerRecord start \<Rightarrow>
             (if start then cs\<lparr>stop_arm := None\<rparr> else cs,
              JObject [(''camera'', json_nat n), (''recording'', JBool (recording after = Some True)),
                (''sentence'', JString (if start then STARTED_RECORDING else STOPPED_RECORDING))],
              Some (''record'', Some n)))"

definition set_value :: "f64_ops \<Rightarrow> setting \<Rightarrow> json_value \<Rightarrow> camera_error + camera_value" where
  "set_value ops s raw =
     (if is_level s
      then then_do (ok_or (json_f64 ops raw) (CameraInvalid (''value must be a number for '' @ setting_key s @ ''.'')))
             (\<lambda>x. Inr (Number x))
      else then_do (ok_or (as_str raw)
               (CameraInvalid (''value must be one of the camera's values, as text, for '' @ setting_key s @ ''.'')))
             (\<lambda>t. Inr (Text t)))"

definition set_plan :: "f64_ops \<Rightarrow> cameras \<Rightarrow> json_value \<Rightarrow> camera_error + plan" where
  "set_plan ops cs params =
     then_do (camera_param params) (\<lambda>n.
     then_do (setting_param params) (\<lambda>s.
     then_do (set_value ops s (case json_get params ''value'' of Some v \<Rightarrow> v | None \<Rightarrow> JNull)) (\<lambda>value.
     then_do (held cs n) (\<lambda>_.
     let m = camera_model_of n in
     then_do
       (case value of
          Number x \<Rightarrow>
            then_do (map_err unsupported (scale_of m s)) (\<lambda>scale.
              if \<not> scale_allows ops scale x then Inl (not_allowed (value_refusal m s (show_f64 ops x)))
              else Inr (Number (scale_at ops scale (steps_of ops scale x))))
        | Text t \<Rightarrow> then_do (allowed_choice n s t) (\<lambda>_. Inr (Text t))
        | Switch b \<Rightarrow> Inr (Switch b)) (\<lambda>value.
       Inr \<lparr>plan_camera = n, plan_commands = [Set s value], plan_answer = AnswerSetting s\<rparr>)))))"

definition step_plan :: "f64_ops \<Rightarrow> cameras \<Rightarrow> json_value \<Rightarrow> camera_error + plan" where
  "step_plan ops cs params =
     then_do (camera_param params) (\<lambda>n.
     then_do (setting_param params) (\<lambda>s.
     then_do (step_param params) (\<lambda>step.
     then_do (held cs n) (\<lambda>_.
     let m = camera_model_of n in
     then_do
       (if s = Focus \<and> focus_steps m then Inr (FocusSteps step)
        else if is_level s
        then then_do (map_err unsupported (scale_of m s)) (\<lambda>scale.
             then_do (map_err (\<lambda>f. not_allowed (step_refusal m s f)) (step_level ops scale (reading_number (reading_of cs n) s) step))
               (\<lambda>x. Inr (Set s (Number x))))
        else then_do (map_err unsupported (options_of m s)) (\<lambda>options.
             then_do (map_err (\<lambda>f. not_allowed (step_refusal m s f)) (step_choice ops options (reading_text (reading_of cs n) s) step))
               (\<lambda>i. Inr (Set s (Text (options ! i)))))) (\<lambda>command.
       Inr \<lparr>plan_camera = n, plan_commands = [command], plan_answer = AnswerSetting s\<rparr>)))))"

definition auto_plan :: "cameras \<Rightarrow> json_value \<Rightarrow> camera_error + plan" where
  "auto_plan cs params =
     then_do (camera_param params) (\<lambda>n.
     then_do (ok_or (bind_opt (bind_opt (json_get params ''what'') as_str) auto_of_key)
         (CameraInvalid ''what must be focus, whiteBalance or iris.'')) (\<lambda>a.
     then_do (held cs n) (\<lambda>_.
       if \<not> offers (camera_model_of n) a then Inl (unsupported (auto_refusal (camera_model_of n) a))
       else Inr \<lparr>plan_camera = n, plan_commands = [Auto a], plan_answer = AnswerSetting (auto_setting a)\<rparr>)))"

definition option_check :: "nat \<Rightarrow> setting \<Rightarrow> string option \<Rightarrow> camera_error + unit" where
  "option_check n s v = (case v of Some t \<Rightarrow> allowed_choice n s t | None \<Rightarrow> Inr ())"

definition set_text :: "setting \<Rightarrow> string option \<Rightarrow> camera_command list" where
  "set_text s v = (case v of Some t \<Rightarrow> [Set s (Text t)] | None \<Rightarrow> [])"

definition format_plan :: "cameras \<Rightarrow> json_value \<Rightarrow> camera_error + plan" where
  "format_plan cs params =
     then_do (camera_param params) (\<lambda>n.
     then_do (optional_text params ''resolution'') (\<lambda>res.
     then_do (optional_text params ''frameRate'') (\<lambda>rate.
     then_do (confirm_param params) (\<lambda>confirm.
       if res = None \<and> rate = None then Inl (CameraInvalid ''Send resolution, frameRate or both.'')
       else
         then_do (held cs n) (\<lambda>_.
         then_do (option_check n Resolution res) (\<lambda>_.
         then_do (option_check n FrameRate rate) (\<lambda>_.
           let m = camera_model_of n;
               before = reading_of cs n;
               old_res = or_empty (resolution before); old_rate = or_empty (frame_rate before);
               new_res = (case res of Some r \<Rightarrow> r | None \<Rightarrow> old_res);
               new_rate = (case rate of Some r \<Rightarrow> r | None \<Rightarrow> old_rate)
           in if list_ex (\<lambda>(v, _). v = new_rate) (unavailable_frame_rates m new_res)
              then Inl (CameraRefused ''CAMERA_FORMAT_NOT_ALLOWED'' (format_refusal m new_rate new_res))
              else if \<not> confirm then Inl not_confirmed
              else Inr \<lparr>plan_camera = n, plan_commands = set_text Resolution res @ set_text FrameRate rate,
                        plan_answer = AnswerFormat res rate old_res old_rate\<rparr>)))))))"

fun look_checks :: "camera_model \<Rightarrow> (setting \<times> bool) list \<Rightarrow> camera_error + unit" where
  "look_checks m [] = Inr ()"
| "look_checks m ((s, given) # rest) =
     (case (if given then not_reported m s else None) of
        Some t \<Rightarrow> Inl (unsupported t)
      | None \<Rightarrow>
          (case (if given then read_only m s else None) of
             Some t \<Rightarrow> Inl (not_allowed t)
           | None \<Rightarrow> look_checks m rest))"

definition nothing_given :: "string option \<Rightarrow> string option \<Rightarrow> bool option \<Rightarrow> bool" where
  "nothing_given dynamic lut lut_on \<longleftrightarrow> dynamic = None \<and> lut = None \<and> lut_on = None"

definition look_plan :: "cameras \<Rightarrow> json_value \<Rightarrow> camera_error + plan" where
  "look_plan cs params =
     then_do (camera_param params) (\<lambda>n.
     then_do (optional_text params ''dynamicRange'') (\<lambda>dynamic.
     then_do (optional_text params ''displayLut'') (\<lambda>lut.
     then_do (case json_get params ''displayLutOn'' of
                None \<Rightarrow> Inr None
              | Some JNull \<Rightarrow> Inr None
              | Some (JBool b) \<Rightarrow> Inr (Some b)
              | Some _ \<Rightarrow> Inl (CameraInvalid ''displayLutOn must be true or false.'')) (\<lambda>lut_on.
     then_do (confirm_param params) (\<lambda>confirm.
       if nothing_given dynamic lut lut_on
       then Inl (CameraInvalid ''Send dynamicRange, displayLut, displayLutOn or several.'')
       else
         then_do (held cs n) (\<lambda>_.
         then_do (look_checks (camera_model_of n)
             [(DynamicRange, dynamic \<noteq> None), (DisplayLut, lut \<noteq> None), (DisplayLutOn, lut_on \<noteq> None)]) (\<lambda>_.
         then_do (option_check n DynamicRange dynamic) (\<lambda>_.
         then_do (option_check n DisplayLut lut) (\<lambda>_.
           if \<not> confirm then Inl not_confirmed
           else Inr \<lparr>plan_camera = n,
             plan_commands = set_text DynamicRange dynamic @ set_text DisplayLut lut
               @ (case lut_on of Some b \<Rightarrow> [Set DisplayLutOn (Switch b)] | None \<Rightarrow> []),
             plan_answer = AnswerLook (dynamic \<noteq> None) (lut \<noteq> None) (lut_on \<noteq> None) (reading_of cs n)\<rparr>)))))))))"

definition record_plan :: "cameras \<Rightarrow> json_value \<Rightarrow> bool \<Rightarrow> camera_error + plan" where
  "record_plan cs params start =
     then_do (if start then Inr True else confirm_param params) (\<lambda>confirm.
     then_do (held cs RECORDING_CAMERA) (\<lambda>_.
       let running = (recording (reading_of cs RECORDING_CAMERA) = Some True)
       in if start \<and> running then Inl (CameraRefused ''CAMERA_ALREADY_RECORDING'' ALREADY_RECORDING)
          else if \<not> start \<and> \<not> running then Inl (CameraRefused ''CAMERA_NOT_RECORDING'' NOT_RECORDING)
          else if \<not> confirm then Inl not_confirmed
          else Inr \<lparr>plan_camera = RECORDING_CAMERA, plan_commands = [if start then RecordStart else RecordStop],
                    plan_answer = AnswerRecord start\<rparr>))"

definition PRESS_METHODS :: "string list" where
  "PRESS_METHODS =
     [''cameras.set'', ''cameras.step'', ''cameras.auto'', ''cameras.format.set'', ''cameras.look.set'',
      ''cameras.record.start'', ''cameras.record.stop'']"

definition is_press_method :: "string \<Rightarrow> bool" where
  "is_press_method name \<longleftrightarrow> name \<in> set PRESS_METHODS"

definition press_plan :: "f64_ops \<Rightarrow> cameras \<Rightarrow> string \<Rightarrow> json_value \<Rightarrow> camera_error + plan" where
  "press_plan ops cs name params =
     (if name = ''cameras.set'' then set_plan ops cs params
      else if name = ''cameras.step'' then step_plan ops cs params
      else if name = ''cameras.auto'' then auto_plan cs params
      else if name = ''cameras.format.set'' then format_plan cs params
      else if name = ''cameras.look.set'' then look_plan cs params
      else if name = ''cameras.record.start'' then record_plan cs params True
      else if name = ''cameras.record.stop'' then record_plan cs params False
      else Inl (CameraInvalid (''Unsupported method: '' @ name)))"

text \<open>The first spell, after the cameras were settled: the plan, and the press begun.\<close>

definition press_begin ::
  "f64_ops \<Rightarrow> cameras_env \<Rightarrow> instant \<Rightarrow> string \<Rightarrow> json_value \<Rightarrow> cameras \<Rightarrow> camera_error + (plan \<times> begun_press)" where
  "press_begin ops env now name params cs =
     then_do (press_plan ops cs name params) (\<lambda>p.
     then_do (begin_send ops env now (plan_camera p) (plan_commands p) cs) (\<lambda>b. Inr (p, b)))"

text \<open>The second: the camera's answer or its silence, the camera read back, the request's answer.\<close>

definition settle_press ::
  "cameras_env \<Rightarrow> plan \<Rightarrow> link_failure + unit \<Rightarrow> cameras
     \<Rightarrow> cameras \<times> (camera_error + json_value \<times> camera_event) \<times> camera_effect list" where
  "settle_press env p outcome cs =
     (case finish_send env (plan_camera p) outcome cs of
        (cs1, Inl e, fx) \<Rightarrow> (cs1, Inl e, fx)
      | (cs1, Inr _, fx) \<Rightarrow>
          (case read_back env (plan_camera p) cs1 of
             (cs2, fx2) \<Rightarrow>
               (case held cs2 (plan_camera p) of
                  Inl e \<Rightarrow> (cs2, Inl e, fx @ fx2)
                | Inr _ \<Rightarrow>
                    (case answer_press p cs2 (reading_of cs2 (plan_camera p)) of
                       (cs3, answer, event) \<Rightarrow> (cs3, Inr (answer, event), fx @ fx2)))))"

section \<open>The selection and the dials\<close>

type_synonym handled = "camera_error + json_value \<times> camera_event"

definition select_request :: "cameras \<Rightarrow> json_value \<Rightarrow> cameras \<times> handled" where
  "select_request cs params =
     (case camera_param params of
        Inl e \<Rightarrow> (cs, Inl e)
      | Inr n \<Rightarrow> (cs\<lparr>selected := n\<rparr>, Inr (JObject [(''selected'', json_nat n)], Some (''select'', Some n))))"

definition dials_json :: "dial_bank \<Rightarrow> json_value" where
  "dials_json b = JObject [(''bank'', JString (bank_key b)), (''sets'', JArray (map (\<lambda>s. json_text (map_option setting_key s)) (bank_dials b)))]"

definition set_bank :: "cameras \<Rightarrow> dial_bank \<Rightarrow> cameras \<times> json_value \<times> camera_event" where
  "set_bank cs b =
     (cs\<lparr>bank := b\<rparr>, JObject [(''bank'', JString (bank_key b)), (''dials'', dials_json b)], Some (''bank'', None))"

definition bank_request :: "cameras \<Rightarrow> json_value \<Rightarrow> cameras \<times> handled" where
  "bank_request cs params =
     (case bind_opt (bind_opt (json_get params ''bank'') as_str) bank_of_key of
        None \<Rightarrow> (cs, Inl (CameraInvalid ''bank must be exposure, colour or focus.''))
      | Some b \<Rightarrow> (case set_bank cs b of (cs1, answer, event) \<Rightarrow> (cs1, Inr (answer, event))))"

section \<open>Release and Connect\<close>

definition release_check :: "cameras \<Rightarrow> json_value \<Rightarrow> camera_error + nat" where
  "release_check cs params =
     then_do (camera_param params) (\<lambda>n.
     then_do (confirm_param params) (\<lambda>confirm.
       let c = camera_at cs n in
       case state_of c of
         NotSetUp \<Rightarrow> Inl (CameraRefused ''CAMERA_NOT_SET_UP'' (sentence_of c))
       | Released \<Rightarrow> Inl (CameraRefused ''CAMERA_RELEASED'' (released_refusal (camera_model_of n)))
       | _ \<Rightarrow> if confirm then Inr n else Inl not_confirmed))"

definition release_request :: "cameras_env \<Rightarrow> cameras \<Rightarrow> json_value \<Rightarrow> cameras \<times> handled \<times> camera_effect list" where
  "release_request env cs params =
     (case release_check cs params of
        Inl e \<Rightarrow> (cs, Inl e, [])
      | Inr n \<Rightarrow>
          (case release env n cs of
             (cs1, fx) \<Rightarrow>
               (cs1,
                Inr (JObject [(''camera'', json_nat n), (''state'', JString (state_key (state_of (camera_at cs1 n)))),
                       (''sentence'', JString (released_sentence (camera_model_of n)))],
                     Some (''release'', Some n)), fx)))"

definition connect_check :: "cameras \<Rightarrow> json_value \<Rightarrow> camera_error + nat" where
  "connect_check cs params =
     then_do (camera_param params) (\<lambda>n.
       let c = camera_at cs n in
       case state_of c of
         NotSetUp \<Rightarrow> Inl (CameraRefused ''CAMERA_NOT_SET_UP'' (sentence_of c))
       | Held \<Rightarrow> Inl (CameraRefused ''CAMERA_ALREADY_HELD'' (already_held_refusal (camera_model_of n)))
       | _ \<Rightarrow> Inr n)"

definition connect_request :: "cameras_env \<Rightarrow> cameras \<Rightarrow> json_value \<Rightarrow> cameras \<times> handled \<times> camera_effect list" where
  "connect_request env cs params =
     (case connect_check cs params of
        Inl e \<Rightarrow> (cs, Inl e, [])
      | Inr n \<Rightarrow>
          (case connect env n cs of
             (cs1, fx) \<Rightarrow>
               let c = camera_at cs1 n
               in (cs1,
                   Inr (JObject [(''camera'', json_nat n), (''state'', JString (state_key (state_of c))),
                          (''sentence'', JString (if state_of c = Held then held_again_sentence (camera_model_of n) else sentence_of c))],
                        Some (''connect'', Some n)), fx)))"

section \<open>Setup\<close>

definition summary_json :: "setup_summary \<Rightarrow> json_value" where
  "summary_json s =
     JObject [(''setUp'', JBool (summary_set_up s)), (''address'', json_text (summary_address s)),
       (''paired'', JBool (summary_paired s)), (''vmixInput'', json_nat (summary_input s)),
       (''vmixOutput'', json_nat (summary_output s)), (''noLink'', json_text (summary_no_link s)),
       (''pairing'',
        case summary_pairing s of
          None \<Rightarrow> JNull
        | Some (shown, t) \<Rightarrow>
            JObject [(''state'', JString (case shown of ShownFinding \<Rightarrow> ''finding'' | ShownPin \<Rightarrow> ''pin''
                                          | ShownPairing \<Rightarrow> ''pairing'' | ShownFailed \<Rightarrow> ''failed'')),
                     (''sentence'', JString t)])]"

definition setup_answer :: "cameras \<Rightarrow> nat \<Rightarrow> json_value" where
  "setup_answer cs n = JObject [(''camera'', json_nat n), (''setup'', summary_json (setup_summary_of (camera_at cs n)))]"

definition save_setup ::
  "cameras_env \<Rightarrow> cameras \<Rightarrow> stored_setup \<Rightarrow> bool \<Rightarrow> cameras \<times> handled \<times> camera_effect list" where
  "save_setup env cs row hold =
     (case row_error env of
        Some error \<Rightarrow> (cs, Inl (CameraStorage error), [])
      | None \<Rightarrow>
          (case take_setup env row hold cs of
             (cs1, fx) \<Rightarrow> (cs1, Inr (setup_answer cs1 (camera row), Some (''setup'', Some (camera row))), fx)))"

text \<open>The address of \<open>cameras.setup.update\<close>: not given, taken away, or a text; then its form.\<close>

definition address_param :: "nat \<Rightarrow> json_value \<Rightarrow> camera_error + string option option" where
  "address_param n params =
     (case json_get params ''address'' of
        None \<Rightarrow> Inr None
      | Some v \<Rightarrow>
          if n = 1 then Inl (CameraInvalid ''CAM 1 has no address: it is paired over Bluetooth.'')
          else (case v of
                  JNull \<Rightarrow> Inr (Some None)
                | JString t \<Rightarrow>
                    if trim t \<noteq> [] then Inr (Some (Some (trim t)))
                    else Inl (CameraInvalid ''address must be the camera's IPv4 address, or null to take it away.'')
                | _ \<Rightarrow> Inl (CameraInvalid ''address must be the camera's IPv4 address, or null to take it away.'')))"

definition input_param :: "json_value \<Rightarrow> camera_error + nat option" where
  "input_param params =
     (case json_get params ''vmixInput'' of
        None \<Rightarrow> Inr None
      | Some v \<Rightarrow>
          (case as_u64 v of
             Some k \<Rightarrow> if VMIX_INPUT_MIN \<le> k \<and> k \<le> VMIX_INPUT_MAX then Inr (Some k)
                        else Inl (CameraInvalid ''vmixInput must be a whole number from 1 to 1000.'')
           | None \<Rightarrow> Inl (CameraInvalid ''vmixInput must be a whole number from 1 to 1000.'')))"

definition parsed_address :: "string option option \<Rightarrow> camera_error + string option option" where
  "parsed_address a =
     (case a of
        Some (Some t) \<Rightarrow>
          (case parse_camera_address t of
             Some p \<Rightarrow> Inr (Some (Some p))
           | None \<Rightarrow> Inl (CameraRefused ''CAMERA_ADDRESS_INVALID'' (address_refusal t)))
      | _ \<Rightarrow> Inr a)"

definition update_check :: "cameras \<Rightarrow> json_value \<Rightarrow> camera_error + (nat \<times> string option option \<times> nat option)" where
  "update_check cs params =
     then_do (camera_param params) (\<lambda>n.
     then_do (address_param n params) (\<lambda>a.
     then_do (input_param params) (\<lambda>input.
       if a = None \<and> input = None then Inl (CameraInvalid ''Send address, vmixInput or both.'')
       else then_do (parsed_address a) (\<lambda>a.
         if (case a of Some (Some _) \<Rightarrow> True | _ \<Rightarrow> False) \<and> \<not> cam_has_link (camera_at cs n)
         then Inl (CameraRefused ''CAMERA_NO_LINK'' (no_link_refusal (camera_model_of n)))
         else Inr (n, a, input)))))"

definition setup_update ::
  "cameras_env \<Rightarrow> cameras \<Rightarrow> json_value \<Rightarrow> cameras \<times> handled \<times> camera_effect list" where
  "setup_update env cs params =
     (case update_check cs params of
        Inl e \<Rightarrow> (cs, Inl e, [])
      | Inr (n, a, input) \<Rightarrow>
          let row = cam_setup (camera_at cs n);
              row1 = (case input of Some k \<Rightarrow> row\<lparr>vmix_input := k\<rparr> | None \<Rightarrow> row);
              row2 = (case a of Some t \<Rightarrow> row1\<lparr>setup_address := t\<rparr> | None \<Rightarrow> row1)
          in save_setup env cs row2 (a \<noteq> None))"

definition NOT_WANTED :: string where
  "NOT_WANTED = ''CAM 1's pairing does not wait for a PIN now. Press Pair CAM 1 first.''"

definition pin_param :: "json_value \<Rightarrow> camera_error + string option" where
  "pin_param params =
     (let refused = Inl (CameraInvalid ''pin must be the 6 digits CAM 1 shows.'')
      in case json_get params ''pin'' of
           None \<Rightarrow> Inr None
         | Some JNull \<Rightarrow> Inr None
         | Some (JString t) \<Rightarrow> (case parse_pin t of Some p \<Rightarrow> Inr (Some p) | None \<Rightarrow> refused)
         | Some _ \<Rightarrow> refused)"

definition setup_pair ::
  "cameras_env \<Rightarrow> cameras \<Rightarrow> json_value \<Rightarrow> cameras \<times> handled \<times> camera_effect list" where
  "setup_pair env cs params =
     (case then_do (camera_param params) (\<lambda>n.
             if n \<noteq> RECORDING_CAMERA then Inl (CameraInvalid ''Only CAM 1 is paired; CAM 2 and CAM 3 take an address.'')
             else then_do (pin_param params) (\<lambda>pin.
               if \<not> cam_has_link (camera_at cs n)
               then Inl (CameraRefused ''CAMERA_NO_LINK'' (no_link_refusal (camera_model_of n)))
               else Inr (n, pin))) of
        Inl e \<Rightarrow> (cs, Inl e, [])
      | Inr (n, None) \<Rightarrow>
          (case begin_pairing env cs of
             (cs1, fx) \<Rightarrow> (cs1, Inr (setup_answer cs1 n, Some (''pairing'', Some n)), fx))
      | Inr (n, Some pin) \<Rightarrow>
          (case give_pin env pin cs of
             (cs1, Inl e, fx) \<Rightarrow> (cs1, Inl e, fx)
           | (cs1, Inr None, fx) \<Rightarrow> (cs1, Inl (CameraRefused ''CAMERA_PAIRING_NOT_WANTED'' NOT_WANTED), fx)
           | (cs1, Inr (Some reason), fx) \<Rightarrow> (cs1, Inr (setup_answer cs1 n, Some (reason, Some n)), fx)))"

definition setup_forget ::
  "cameras_env \<Rightarrow> cameras \<Rightarrow> json_value \<Rightarrow> cameras \<times> handled \<times> camera_effect list" where
  "setup_forget env cs params =
     (case camera_param params of
        Inl e \<Rightarrow> (cs, Inl e, [])
      | Inr n \<Rightarrow>
          let cs1 = (if n = RECORDING_CAMERA then cancel_pairing cs else cs)
          in save_setup env cs1 ((cam_setup (camera_at cs1 n))\<lparr>setup_address := None, paired := False\<rparr>) True)"

section \<open>A request\<close>

text \<open>The requests that send nothing, after the cameras were settled, but for the two reads
  (\<open>cameras.snapshot\<close> and \<open>cameras.pictures.showing\<close>, which change nothing a camera holds).\<close>

definition plain_request ::
  "cameras_env \<Rightarrow> string \<Rightarrow> json_value \<Rightarrow> cameras \<Rightarrow> cameras \<times> handled \<times> camera_effect list" where
  "plain_request env name params cs =
     (if name = ''cameras.select'' then (case select_request cs params of (cs1, r) \<Rightarrow> (cs1, r, []))
      else if name = ''cameras.bank.set'' then (case bank_request cs params of (cs1, r) \<Rightarrow> (cs1, r, []))
      else if name = ''cameras.release'' then release_request env cs params
      else if name = ''cameras.connect'' then connect_request env cs params
      else if name = ''cameras.setup.update'' then setup_update env cs params
      else if name = ''cameras.setup.pair'' then setup_pair env cs params
      else if name = ''cameras.setup.forget'' then setup_forget env cs params
      else (cs, Inl (CameraInvalid (''Unsupported method: '' @ name)), []))"

text \<open>\<open>after_archive_restore\<close>: the rows as the saved data now holds them, each camera in turn.\<close>

fun restore_rows :: "cameras_env \<Rightarrow> stored_setup list \<Rightarrow> cameras \<Rightarrow> cameras \<times> camera_effect list" where
  "restore_rows env [] cs = (cs, [])"
| "restore_rows env (row # rows) cs =
     (case take_setup env row False cs of
        (cs1, fx) \<Rightarrow> (case restore_rows env rows cs1 of (cs2, fx2) \<Rightarrow> (cs2, fx @ fx2)))"

definition after_archive_restore ::
  "cameras_env \<Rightarrow> (int \<times> string option \<times> int \<times> int) list \<Rightarrow> cameras \<Rightarrow> cameras \<times> bool \<times> camera_effect list" where
  "after_archive_restore env rows cs =
     (case restore_rows env (read_setup rows) cs of
        (cs1, fx) \<Rightarrow> (cs1, health_check (pictures env True) cs1 \<noteq> health_check (pictures env False) cs, fx))"

section \<open>What a press may be\<close>

lemma map_err_Inr: "map_err f r = Inr a \<longleftrightarrow> r = Inr a"
  by (cases r) (auto simp: map_err_def)

lemmas checked = then_do_Inr map_err_Inr ok_or_Inr

definition needs_confirm :: "setting \<Rightarrow> bool" where
  "needs_confirm s \<longleftrightarrow> s \<notin> set PRESS_SETTINGS"

definition command_allowed :: "f64_ops \<Rightarrow> cameras \<Rightarrow> nat \<Rightarrow> json_value \<Rightarrow> camera_command \<Rightarrow> bool" where
  "command_allowed ops cs n params c \<longleftrightarrow>
     (let m = camera_model_of n in
      case c of
        Set s v \<Rightarrow>
          read_only m s = None
          \<and> (needs_confirm s \<longrightarrow> confirm_param params = Inr True)
          \<and> (case v of
               Text t \<Rightarrow> \<exists>options. options_of m s = Inr options \<and> t \<in> set options
             | Number x \<Rightarrow> \<exists>scale k. scale_of m s = Inr scale \<and> x = scale_at ops scale k
             | Switch _ \<Rightarrow> s = DisplayLutOn \<and> not_reported m s = None)
      | FocusSteps k \<Rightarrow> focus_steps m \<and> k \<noteq> 0 \<and> \<bar>k\<bar> \<le> 1000
      | Auto a \<Rightarrow> offers m a
      | RecordStart \<Rightarrow> n = RECORDING_CAMERA \<and> recording (reading_of cs n) \<noteq> Some True
      | RecordStop \<Rightarrow> n = RECORDING_CAMERA \<and> recording (reading_of cs n) = Some True \<and> confirm_param params = Inr True)"

definition plan_ok :: "f64_ops \<Rightarrow> cameras \<Rightarrow> json_value \<Rightarrow> plan \<Rightarrow> bool" where
  "plan_ok ops cs params p \<longleftrightarrow>
     plan_camera p \<in> set CAMERA_NUMBERS \<and> held cs (plan_camera p) = Inr () \<and> plan_commands p \<noteq> []
     \<and> list_all (command_allowed ops cs (plan_camera p) params) (plan_commands p)"

lemma camera_param_listed: "camera_param params = Inr n \<Longrightarrow> n \<in> set CAMERA_NUMBERS"
  by (auto simp: camera_param_def checked bind_opt_def split: option.splits if_splits)

lemma setting_param_pressed: "setting_param params = Inr s \<Longrightarrow> s \<in> set PRESS_SETTINGS"
  by (auto simp: setting_param_def checked bind_opt_def pressed_setting_def find_Some_iff split: option.splits)

lemma step_param_range: "step_param params = Inr k \<Longrightarrow> k \<noteq> 0 \<and> \<bar>k\<bar> \<le> 1000"
  by (auto simp: step_param_def checked bind_opt_def split: option.splits if_splits)

lemma pressed_settings:
  "s \<in> set PRESS_SETTINGS \<Longrightarrow> read_only m s = None"
  "s \<in> set PRESS_SETTINGS \<Longrightarrow> \<not> needs_confirm s"
  by (auto simp: PRESS_SETTINGS_def read_only_def needs_confirm_def)

lemma allowed_choice_in: "allowed_choice n s v = Inr u \<Longrightarrow> \<exists>options. options_of (camera_model_of n) s = Inr options \<and> v \<in> set options"
  by (auto simp: allowed_choice_def checked split: if_splits)

lemma step_choice_bound:
  "step_choice ops options current step = Inr i \<Longrightarrow> options \<noteq> [] \<Longrightarrow> i < length options"
  by (cases options) (auto simp: step_choice_def step_place_def clamp_def Let_def split: option.splits)

lemma camera_slot_cases: "camera_slot n = 0 \<or> camera_slot n = 1 \<or> camera_slot n = 2"
  using slot_less [of n] by linarith

lemma iris_listed: "iris_options (camera_model_of n) \<noteq> []"
  using camera_slot_cases [of n]
  by (auto simp: camera_model_of_def MODELS_def CAM1_IRIS_def CAM2_IRIS_def CAM3_IRIS_def)

lemma pressed_options:
  "s \<in> set PRESS_SETTINGS \<Longrightarrow> \<not> is_level s \<Longrightarrow> options_of (camera_model_of n) s = Inr options \<Longrightarrow> options \<noteq> []"
  using iris_listed [of n]
  by (auto simp: PRESS_SETTINGS_def is_level_def options_of_def CAM1_ISO_def CAM1_SHUTTER_def CAM1_ND_def BGH1_ISO_def
      BGH1_SHUTTER_def split: if_splits)

lemma step_level_at: "step_level ops scale x k = Inr y \<Longrightarrow> \<exists>j. y = scale_at ops scale j"
  by (auto simp: step_level_def Let_def split: option.splits f64.splits)

lemma step_choice_in:
  "s \<in> set PRESS_SETTINGS \<Longrightarrow> \<not> is_level s \<Longrightarrow> options_of (camera_model_of n) s = Inr options
     \<Longrightarrow> step_choice ops options current k = Inr i \<Longrightarrow> options ! i \<in> set options"
  using pressed_options [of s n options] step_choice_bound [of ops options current k i] by simp

lemma set_plan_ok:
  assumes "set_plan ops cs params = Inr p"
  shows "plan_ok ops cs params p"
proof -
  obtain n s given sent where r: "camera_param params = Inr n" "setting_param params = Inr s" "held cs n = Inr ()"
    "set_value ops s (case json_get params ''value'' of Some v \<Rightarrow> v | None \<Rightarrow> JNull) = Inr given"
    "(case given of
          Number x \<Rightarrow>
            then_do (map_err unsupported (scale_of (camera_model_of n) s)) (\<lambda>scale.
              if \<not> scale_allows ops scale x then Inl (not_allowed (value_refusal (camera_model_of n) s (show_f64 ops x)))
              else Inr (Number (scale_at ops scale (steps_of ops scale x))))
        | Text t \<Rightarrow> then_do (allowed_choice n s t) (\<lambda>_. Inr (Text t))
        | Switch b \<Rightarrow> Inr (Switch b)) = Inr sent"
    "p = \<lparr>plan_camera = n, plan_commands = [Set s sent], plan_answer = AnswerSetting s\<rparr>"
    using assms by (auto simp: set_plan_def then_do_Inr Let_def)
  have "given \<noteq> Switch b" for b using r(4) by (auto simp: set_value_def checked split: if_splits)
  then have "command_allowed ops cs n params (Set s sent)"
    using r(5) setting_param_pressed [OF r(2)]
    by (cases given) (auto simp: command_allowed_def Let_def pressed_settings checked dest: allowed_choice_in split: if_splits)
  with r(3,6) camera_param_listed [OF r(1)] show ?thesis by (simp add: plan_ok_def)
qed

lemma step_plan_ok: "step_plan ops cs params = Inr p \<Longrightarrow> plan_ok ops cs params p"
  by (auto simp: step_plan_def checked Let_def plan_ok_def command_allowed_def pressed_settings dest!: camera_param_listed setting_param_pressed step_param_range
      dest: step_level_at intro: step_choice_in split: if_splits)

lemma auto_plan_ok: "auto_plan cs params = Inr p \<Longrightarrow> plan_ok ops cs params p"
  by (auto simp: auto_plan_def checked plan_ok_def command_allowed_def dest!: camera_param_listed split: if_splits)

lemma set_text_ok:
  "option_check n s v = Inr u \<Longrightarrow> read_only (camera_model_of n) s = None \<or> v = None \<Longrightarrow> confirm_param params = Inr True \<Longrightarrow>
     list_all (command_allowed ops cs n params) (set_text s v)"
  by (cases v) (auto simp: option_check_def set_text_def command_allowed_def Let_def dest: allowed_choice_in)

lemma free_settings: "s \<noteq> DisplayLut \<Longrightarrow> s \<noteq> DisplayLutOn \<Longrightarrow> read_only m s = None"
  by (simp add: read_only_def)

lemma set_text_none: "set_text s v = [] \<longleftrightarrow> v = None"
  by (cases v) (auto simp: set_text_def)

lemma format_plan_ok:
  assumes "format_plan cs params = Inr p"
  shows "plan_ok ops cs params p"
proof -
  obtain n res rate where r: "camera_param params = Inr n" "confirm_param params = Inr True" "held cs n = Inr ()"
    "option_check n Resolution res = Inr ()" "option_check n FrameRate rate = Inr ()" "\<not> (res = None \<and> rate = None)"
    "plan_camera p = n" "plan_commands p = set_text Resolution res @ set_text FrameRate rate"
    using assms by (auto simp: format_plan_def then_do_Inr Let_def split: if_splits)
  have "list_all (command_allowed ops cs n params) (set_text Resolution res @ set_text FrameRate rate)"
    using set_text_ok [OF r(4) _ r(2)] set_text_ok [OF r(5) _ r(2)] by (simp add: free_settings)
  with r camera_param_listed [OF r(1)] show ?thesis by (auto simp: plan_ok_def set_text_none)
qed

lemma look_checks_ok:
  "look_checks m given = Inr u \<Longrightarrow> (s, True) \<in> set given \<Longrightarrow> not_reported m s = None \<and> read_only m s = None"
  by (induction m given rule: look_checks.induct) (auto split: option.splits if_splits)

lemma look_plan_ok:
  assumes "look_plan cs params = Inr p"
  shows "plan_ok ops cs params p"
proof -
  obtain n dynamic lut on where r: "camera_param params = Inr n" "confirm_param params = Inr True" "held cs n = Inr ()"
    "look_checks (camera_model_of n) [(DynamicRange, dynamic \<noteq> None), (DisplayLut, lut \<noteq> None), (DisplayLutOn, on \<noteq> None)] = Inr ()"
    "option_check n DynamicRange dynamic = Inr ()" "option_check n DisplayLut lut = Inr ()" "\<not> nothing_given dynamic lut on"
    "plan_camera p = n" "plan_commands p = set_text DynamicRange dynamic @ set_text DisplayLut lut
               @ (case on of Some b \<Rightarrow> [Set DisplayLutOn (Switch b)] | None \<Rightarrow> [])"
    using assms by (auto simp: look_plan_def then_do_Inr Let_def simp del: look_checks.simps split: if_splits)
  note check = look_checks_ok [OF r(4)]
  have "list_all (command_allowed ops cs n params) (set_text DynamicRange dynamic)"
    using set_text_ok [OF r(5) _ r(2)] by (simp add: free_settings)
  moreover have "list_all (command_allowed ops cs n params) (set_text DisplayLut lut)"
    using set_text_ok [OF r(6) _ r(2)] check [of DisplayLut] by (cases lut) (simp_all add: set_text_def)
  moreover have "list_all (command_allowed ops cs n params) (case on of Some b \<Rightarrow> [Set DisplayLutOn (Switch b)] | None \<Rightarrow> [])"
    using check [of DisplayLutOn] r(2) by (cases on) (simp_all add: command_allowed_def)
  ultimately show ?thesis using r camera_param_listed [OF r(1)]
    by (auto simp: plan_ok_def set_text_none nothing_given_def split: option.splits)
qed

lemma record_plan_ok: "record_plan cs params start = Inr p \<Longrightarrow> plan_ok ops cs params p"
  by (auto simp: record_plan_def then_do_Inr Let_def plan_ok_def command_allowed_def split: if_splits)


definition start_press :: plan where
  "start_press = \<lparr>plan_camera = RECORDING_CAMERA, plan_commands = [RecordStart], plan_answer = AnswerRecord True\<rparr>"


section \<open>Requests keep the cameras' fit\<close>

lemma select_ok: "cameras_ok cs \<Longrightarrow> cameras_ok (fst (select_request cs params))"
  by (simp add: select_request_def split: sum.splits)

lemma bank_ok: "cameras_ok cs \<Longrightarrow> cameras_ok (fst (bank_request cs params))"
  by (simp add: bank_request_def set_bank_def split: option.splits)

lemma release_checked: "release_check cs params = Inr n \<Longrightarrow> n \<in> set CAMERA_NUMBERS"
  by (auto simp: release_check_def then_do_Inr Let_def)
    (rename_tac m b, case_tac "state_of (camera_at cs m)"; auto dest: camera_param_listed split: if_splits)

lemma connect_checked: "connect_check cs params = Inr n \<Longrightarrow> n \<in> set CAMERA_NUMBERS"
  by (auto simp: connect_check_def then_do_Inr Let_def)
    (rename_tac m, case_tac "state_of (camera_at cs m)"; auto dest: camera_param_listed)

lemma update_checked: "update_check cs params = Inr (n, a, input) \<Longrightarrow> n \<in> set CAMERA_NUMBERS"
  by (auto simp: update_check_def then_do_Inr dest: camera_param_listed split: if_splits)

lemmas checks_listed = release_checked connect_checked update_checked

lemma release_request_ok: "cameras_ok cs \<Longrightarrow> cameras_ok (fst (release_request env cs params))"
  using release_ok [OF _ checks_listed(1), of cs cs params _ env]
  by (auto simp: release_request_def split: sum.splits prod.splits dest!: arg_cong [of "release _ _ _" _ fst])

lemma connect_request_ok: "cameras_ok cs \<Longrightarrow> cameras_ok (fst (connect_request env cs params))"
  using connect_ok [OF _ checks_listed(2), of cs cs params _ env]
  by (auto simp: connect_request_def Let_def split: sum.splits prod.splits dest!: arg_cong [of "connect _ _ _" _ fst])

lemma save_setup_ok:
  "cameras_ok cs \<Longrightarrow> camera row \<in> set CAMERA_NUMBERS \<Longrightarrow> cameras_ok (fst (save_setup env cs row hold))"
  using take_setup_ok [of cs row env hold] by (auto simp: save_setup_def split: option.splits prod.splits)

lemma listed_row: "cameras_ok cs \<Longrightarrow> n \<in> set CAMERA_NUMBERS \<Longrightarrow> camera (cam_setup (camera_at cs n)) \<in> set CAMERA_NUMBERS"
  using numbered_at [of cs n] by (simp add: cameras_ok_def)

lemma setup_update_ok: "cameras_ok cs \<Longrightarrow> cameras_ok (fst (setup_update env cs params))"
  by (auto simp: setup_update_def Let_def listed_row checks_listed split: sum.splits option.splits intro!: save_setup_ok)

lemma setup_pair_ok: "cameras_ok cs \<Longrightarrow> cameras_ok (fst (setup_pair env cs params))"
  using begin_pairing_ok [of cs env] give_pin_ok [of cs env]
  by (auto simp: setup_pair_def split: sum.splits prod.splits option.splits dest!: arg_cong [of "give_pin _ _ _" _ fst])

lemma setup_forget_ok: "cameras_ok cs \<Longrightarrow> cameras_ok (fst (setup_forget env cs params))"
  using cancel_pairing_ok [of cs]
  by (auto simp: setup_forget_def Let_def listed_row camera_param_listed split: sum.splits intro!: save_setup_ok)

lemma if_keeps: "cameras_ok (fst x) \<Longrightarrow> cameras_ok (fst y) \<Longrightarrow> cameras_ok (fst (if b then x else y))"
  by simp

lemma plain_request_ok:
  assumes "cameras_ok cs"
  shows "cameras_ok (fst (plain_request env name params cs))"
proof -
  have two: "fst (case x of (a, r) \<Rightarrow> (a, r, [])) = fst x" for x :: "cameras \<times> handled"
    by (cases x) simp
  show ?thesis
    unfolding plain_request_def
    by (intro if_keeps)
      (simp_all only: two fst_conv assms select_ok bank_ok release_request_ok connect_request_ok setup_update_ok setup_pair_ok setup_forget_ok)
qed

lemma restore_rows_ok:
  "cameras_ok cs \<Longrightarrow> list_all (\<lambda>r. camera r \<in> set CAMERA_NUMBERS) rows \<Longrightarrow> cameras_ok (fst (restore_rows env rows cs))"
proof (induction rows arbitrary: cs)
  case (Cons row rows)
  then have "cameras_ok (fst (take_setup env row False cs))" by (intro take_setup_ok) auto
  with Cons show ?case by (auto split: prod.splits dest!: arg_cong [of "restore_rows _ _ _" _ fst])
qed simp

lemma after_archive_restore_ok: "cameras_ok cs \<Longrightarrow> cameras_ok (fst (after_archive_restore env rows cs))"
proof -
  assume "cameras_ok cs"
  moreover have "list_all (\<lambda>r. camera r \<in> set CAMERA_NUMBERS) (read_setup rows)"
    using read_setup_numbered [of rows] by (metis (mono_tags, lifting) list_all_iff imageI list.set_map)
  ultimately show ?thesis using restore_rows_ok [of cs "read_setup rows" env]
    by (auto simp: after_archive_restore_def split: prod.splits)
qed

lemma answer_press_ok: "cameras_ok cs \<Longrightarrow> cameras_ok (fst (answer_press p cs r))"
  by (simp add: answer_press_def Let_def split: answer_kind.splits)

lemma settle_press_ok:
  "cameras_ok cs \<Longrightarrow> plan_camera p \<in> set CAMERA_NUMBERS \<Longrightarrow> cameras_ok (fst (settle_press env p outcome cs))"
proof -
  assume cs: "cameras_ok cs" "plan_camera p \<in> set CAMERA_NUMBERS"
  have "cameras_ok (fst (finish_send env (plan_camera p) outcome cs))" by (rule finish_send_ok [OF cs])
  moreover have "cameras_ok x \<Longrightarrow> cameras_ok (fst (read_back env (plan_camera p) x))" for x by (rule read_back_ok [OF _ cs(2)])
  moreover have "cameras_ok x \<Longrightarrow> cameras_ok (fst (answer_press p x r))" for x r by (rule answer_press_ok)
  ultimately show ?thesis
    by (fastforce simp: settle_press_def split: sum.splits prod.splits
        dest!: arg_cong [of "finish_send _ _ _ _" _ fst] arg_cong [of "read_back _ _ _" _ fst] arg_cong [of "answer_press _ _ _" _ fst])
qed

end
