(* ===== verification/Camera_Deck.thy ===== *)
theory Camera_Deck
  imports Camera_Commands
begin

text \<open>
  The Stream Deck's CAMERAS page (\<open>cameras/deck.rs\<close>): what its keys and dials do and what its
  displays say.
\<close>

section \<open>Keys\<close>

definition STOP_ARM_WINDOW :: duration where "STOP_ARM_WINDOW = 3 * 1000000000"
definition STOP_ARM_DWELL :: duration where "STOP_ARM_DWELL = 350 * 1000000"
definition STOP_SHOWN_FOR :: duration where "STOP_SHOWN_FOR = 4250 * 1000000"
definition DIAL_UNUSED :: string where "DIAL_UNUSED = ''CAMERA_DIAL_UNUSED''"

definition dial_number :: "string \<Rightarrow> camera_error + nat" where
  "dial_number t =
     (if t = ''1'' then Inr 1 else if t = ''2'' then Inr 2 else if t = ''3'' then Inr 3 else if t = ''4'' then Inr 4
      else Inl (CameraInvalid ''A dial is 1, 2, 3 or 4.''))"

definition dial_setting :: "cameras \<Rightarrow> nat \<Rightarrow> camera_error + setting" where
  "dial_setting cs dial =
     ok_or (bank_dials (bank cs) ! (dial - 1))
       (CameraRefused DIAL_UNUSED (''Dial '' @ show_nat dial @ '' sets nothing while the dials set the '' @ bank_key (bank cs) @ ''.''))"

text \<open>What a key does once its press was taken; \<open>AfterRec\<close> says what \<open>REC\<close> did.\<close>

datatype after = AfterNothing | AfterRec string

datatype deck_step = Answered json_value camera_event | DeckPress plan after

definition json_step :: "int \<Rightarrow> json_value" where
  "json_step k = JNumber (if 0 \<le> k then PosInt (nat k) else NegInt k)"

definition rec_answer :: "bool \<Rightarrow> string \<Rightarrow> deck_step" where
  "rec_answer running did =
     Answered (JObject [(''camera'', json_nat RECORDING_CAMERA), (''recording'', JBool running), (''did'', JString did)]) None"

text \<open>\<open>at.saturating_duration_since(then)\<close> is the difference of natural numbers.\<close>

definition stop_armed :: "cameras \<Rightarrow> instant \<Rightarrow> bool" where
  "stop_armed cs moment \<longleftrightarrow>
     (case stop_arm cs of
        None \<Rightarrow> False
      | Some a \<Rightarrow> moment - arm_at a \<le> STOP_ARM_WINDOW \<and> arm_take a = take_changes cs)"

definition rec_key :: "cameras \<Rightarrow> instant \<Rightarrow> cameras \<times> (camera_error + deck_step)" where
  "rec_key cs moment =
     (case held cs RECORDING_CAMERA of
        Inl e \<Rightarrow> (cs, Inl e)
      | Inr _ \<Rightarrow>
          let running = (recording (reading_of cs RECORDING_CAMERA) = Some True);
              confirmed = JObject [(''confirm'', JBool True)];
              fresh =
                (if \<not> running
                 then (cs, then_do (record_plan cs (JObject []) True) (\<lambda>p. Inr (DeckPress p (AfterRec ''started''))))
                 else (cs\<lparr>stop_arm := Some \<lparr>arm_at = moment, arm_take = take_changes cs\<rparr>\<rparr>, Inr (rec_answer True ''armed'')))
          in if (case deck_rec_at cs of Some acted \<Rightarrow> moment - acted < STOP_ARM_DWELL | None \<Rightarrow> False)
             then (cs, Inr (rec_answer running ''kept''))
             else (case stop_arm cs of
                     None \<Rightarrow> fresh
                   | Some a \<Rightarrow>
                       let since = moment - arm_at a
                       in if since \<le> STOP_ARM_WINDOW
                          then if \<not> (running \<and> arm_take a = take_changes cs)
                               then (cs\<lparr>stop_arm := None\<rparr>, Inr (rec_answer running ''kept''))
                               else if since < STOP_ARM_DWELL then (cs, Inr (rec_answer True ''kept''))
                               else (cs, then_do (record_plan cs confirmed False) (\<lambda>p. Inr (DeckPress p (AfterRec ''stopped''))))
                          else if since \<le> STOP_SHOWN_FOR \<and> \<not> running
                          then (cs\<lparr>stop_arm := None\<rparr>, Inr (rec_answer False ''kept''))
                          else fresh))"

definition after_apply :: "after \<Rightarrow> instant \<Rightarrow> cameras \<Rightarrow> json_value \<Rightarrow> cameras \<times> json_value" where
  "after_apply a moment cs answer =
     (case a of
        AfterNothing \<Rightarrow> (cs, answer)
      | AfterRec did \<Rightarrow>
          ((if did = ''stopped'' then cs\<lparr>stop_arm := None\<rparr> else cs)\<lparr>deck_rec_at := Some moment\<rparr>,
           case answer of JObject es \<Rightarrow> JObject (es @ [(''did'', JString did)]) | _ \<Rightarrow> answer))"

text \<open>\<open>value.parse::<u8>()\<close>; the request it makes is checked as any.\<close>

definition parse_u8 :: "string \<Rightarrow> nat option" where
  "parse_u8 t = bind_opt (parse_usize t) (\<lambda>n. if n \<le> 255 then Some n else None)"

definition dial_turn :: "f64_ops \<Rightarrow> cameras \<Rightarrow> string option \<Rightarrow> camera_error + deck_step" where
  "dial_turn ops cs given =
     then_do (ok_or (bind_opt given (split_once (CHR '':''))) (CameraInvalid ''dial needs the dial and the way: 2:up or 2:down.''))
       (\<lambda>(dial, way).
     then_do (dial_number dial) (\<lambda>dial.
     then_do (if way = ''up'' then Inr 1 else if way = ''down'' then Inr (- 1)
              else Inl (CameraInvalid ''A dial turns up or down.'')) (\<lambda>k.
     then_do (dial_setting cs dial) (\<lambda>s.
     then_do (step_plan ops cs (JObject [(''camera'', json_nat (selected cs)), (''setting'', JString (setting_key s)), (''step'', json_step k)]))
       (\<lambda>p. Inr (DeckPress p AfterNothing))))))"

definition dial_push :: "cameras \<Rightarrow> string option \<Rightarrow> camera_error + deck_step" where
  "dial_push cs given =
     then_do (ok_or given (CameraInvalid ''dialPush needs the dial: 1 to 4.'')) (\<lambda>t.
     then_do (dial_number t) (\<lambda>dial.
       if dial_setting cs dial \<noteq> Inr Focus
       then Inl (CameraRefused DIAL_UNUSED
         (''A push of dial '' @ show_nat dial @ '' does nothing while the dials set the '' @ bank_key (bank cs) @ ''.''))
       else then_do (auto_plan cs (JObject [(''camera'', json_nat (selected cs)), (''what'', JString ''focus'')]))
         (\<lambda>p. Inr (DeckPress p AfterNothing))))"

definition deck_key :: "f64_ops \<Rightarrow> cameras \<Rightarrow> string \<Rightarrow> string option \<Rightarrow> instant \<Rightarrow> cameras \<times> (camera_error + deck_step)" where
  "deck_key ops cs action given moment =
     (if action = ''select''
      then (case bind_opt given parse_u8 of
              None \<Rightarrow> (cs, Inl (CameraInvalid ''select needs the camera: 1, 2 or 3.''))
            | Some n \<Rightarrow>
                (case select_request cs (JObject [(''camera'', json_nat n)]) of
                   (cs1, Inl e) \<Rightarrow> (cs1, Inl e)
                 | (cs1, Inr (answer, event)) \<Rightarrow> (cs1, Inr (Answered answer event))))
      else if action = ''bank''
      then (case set_bank cs (next_bank (bank cs)) of (cs1, answer, event) \<Rightarrow> (cs1, Inr (Answered answer event)))
      else if action = ''dial'' then (cs, dial_turn ops cs given)
      else if action = ''dialPush'' then (cs, dial_push cs given)
      else if action = ''rec'' then rec_key cs moment
      else (cs, Inl (CameraInvalid (''Unsupported CAMERAS key: '' @ action))))"

section \<open>Displays\<close>

definition take_length_text :: "nat \<Rightarrow> string" where
  "take_length_text seconds =
     (let hours = seconds div 3600; minutes = (seconds mod 3600) div 60; rest = seconds mod 60
      in if 0 < hours then show_nat hours @ '':'' @ pad 2 minutes @ '':'' @ pad 2 rest
         else show_nat minutes @ '':'' @ pad 2 rest)"

text \<open>A line feed on a key is the two characters \<open>\n\<close>.\<close>

definition LINE :: string where "LINE = [CHR 0x5C, CHR ''n'']"

definition rec_text :: "string \<Rightarrow> string option \<Rightarrow> string" where
  "rec_text s length_shown =
     (let t = (case length_shown of Some t \<Rightarrow> t | None \<Rightarrow> ''--'')
      in if s = ''armed'' then ''STOP?'' @ LINE @ t
         else if s = ''recording'' then ''REC'' @ LINE @ t
         else if s = ''last-known'' then ''REC'' @ LINE @ ''LAST KNOWN''
         else ''REC'')"

definition rec_state :: "cameras \<Rightarrow> instant \<Rightarrow> string" where
  "rec_state cs moment =
     (let c = camera_at cs RECORDING_CAMERA; running = (reported_recording (cam_reading c) = Some True)
      in case state_of c of
           Held \<Rightarrow>
             if running \<and> stop_armed cs moment then ''armed''
             else if running \<and> values_last_read c then ''last-known''
             else if running then ''recording''
             else ''ready''
         | Unreachable \<Rightarrow> if running then ''last-known'' else ''locked''
         | _ \<Rightarrow> ''locked'')"

definition take_shown :: "cameras \<Rightarrow> system_time \<Rightarrow> string option" where
  "take_shown cs now =
     (let c = camera_at cs RECORDING_CAMERA
      in if reported_recording (cam_reading c) = Some True
         then (case started_at c of
                 Some t \<Rightarrow> if t \<le> now then Some (take_length_text (as_secs (nat (now - t)))) else None
               | None \<Rightarrow> None)
         else None)"

fun strip_label :: "setting \<Rightarrow> string" where
  "strip_label Iso = ''ISO''"
| "strip_label Shutter = ''SHUTTER''"
| "strip_label Iris = ''IRIS''"
| "strip_label Nd = ''ND''"
| "strip_label WhiteBalance = ''WB''"
| "strip_label Tint = ''TINT''"
| "strip_label _ = ''FOCUS''"

definition f64_fract :: "f64 \<Rightarrow> f64" where
  "f64_fract x = (case x of Fin r \<Rightarrow> Fin (r - of_int (if 0 \<le> r then \<lfloor>r\<rfloor> else \<lceil>r\<rceil>)) | _ \<Rightarrow> NaN)"

definition plain_number :: "f64_ops \<Rightarrow> f64 \<Rightarrow> string" where
  "plain_number ops x =
     (if f64_less (f64_abs (f64_fract x)) (fl ops (1 / 1000000000)) then show_int (as_i64 (f64_round x)) else show_f64 ops x)"

definition NEAR_FAR :: string where "NEAR_FAR = ''NEAR '' @ [CHR 0xC2, CHR 0xB7] @ '' FAR''"

definition strip_text :: "f64_ops \<Rightarrow> nat \<Rightarrow> setting \<Rightarrow> camera_reading \<Rightarrow> bool \<Rightarrow> string" where
  "strip_text ops n s r shown =
     (let m = camera_model_of n;
          shown_value =
            (if \<not> shown then None
             else if s = Focus \<and> focus_steps m then Some NEAR_FAR
             else if is_level s
             then (case (scale_of m s, reading_number r s) of
                     (Inr scale, Some x) \<Rightarrow>
                       let number = (if s = Tint \<and> f64_less (Fin 0) x then ''+'' @ plain_number ops x else plain_number ops x)
                       in Some (if scale_unit scale = [] then number else number @ '' '' @ scale_unit scale)
                   | _ \<Rightarrow> None)
             else (case options_of m s of Inr _ \<Rightarrow> reading_text r s | Inl _ \<Rightarrow> None))
      in strip_label s @ LINE @ (case shown_value of Some t \<Rightarrow> t | None \<Rightarrow> ''--''))"

fun bank_word :: "dial_bank \<Rightarrow> string" where
  "bank_word ExposureBank = ''EXPOSURE''"
| "bank_word ColourBank = ''COLOUR''"
| "bank_word FocusBank = ''FOCUS''"

definition dials_state :: "cameras \<Rightarrow> string" where
  "dials_state cs =
     (let c = camera_at cs (selected cs)
      in case state_of c of
           Held \<Rightarrow> if values_last_read c then ''doubt'' else ''live''
         | Unreachable \<Rightarrow> ''doubt''
         | _ \<Rightarrow> ''locked'')"

definition deck_texts :: "f64_ops \<Rightarrow> cameras \<Rightarrow> instant \<Rightarrow> system_time \<Rightarrow> (string \<times> string) list" where
  "deck_texts ops cs moment now =
     (let c = camera_at cs (selected cs);
          r = (case cam_reading c of Some x \<Rightarrow> if shows_values c then x else no_reading | None \<Rightarrow> no_reading)
      in map (\<lambda>(key, n). (key, camera_tag n @ LINE @ state_word (state_of (camera_at cs n))))
           [(''camera_key_1'', 1), (''camera_key_2'', 2), (''camera_key_3'', 3)]
         @ [(''camera_key_bank'', ''BANK'' @ LINE @ bank_word (bank cs)),
            (''camera_key_rec'', rec_text (rec_state cs moment) (take_shown cs now))]
         @ map (\<lambda>(key, s). (key, case s of None \<Rightarrow> [] | Some s \<Rightarrow> strip_text ops (selected cs) s r (shows_values c)))
             (zip [''camera_strip_1'', ''camera_strip_2'', ''camera_strip_3'', ''camera_strip_4''] (bank_dials (bank cs)))
         @ [(''camera_state_selected'', show_nat (selected cs)), (''camera_state_rec'', rec_state cs moment),
            (''camera_state_dials'', dials_state cs)])"

end
