(* ===== verification/Camera_Studio.thy ===== *)
theory Camera_Studio
  imports Camera_Deck
begin

text \<open>
  The cameras as a whole, as a step relation: the once-a-second look, requests of the page, keys of
  the deck, the camera's answers, restores and what the links hear come in any order, with one press
  on its way at a time (the press gate, \<open>cameras/runtime.rs\<close>). What holds in every state they come to,
  and what a \<open>REC\<close> of the deck (\<open>cameras/deck.rs\<close>) knows of its own past.
\<close>

section \<open>What nothing but the deck touches\<close>

locale untouched =
  fixes P :: "cameras \<Rightarrow> bool"
  assumes three: "P (cs\<lparr>three := t\<rparr>) = P cs"
    and stored: "P (cs\<lparr>stored := s\<rparr>) = P cs"
    and links: "P (cs\<lparr>links := l\<rparr>) = P cs"
    and take_changes: "P (cs\<lparr>take_changes := k\<rparr>) = P cs"
    and selected: "P (cs\<lparr>selected := n\<rparr>) = P cs"
    and bank: "P (cs\<lparr>bank := b\<rparr>) = P cs"
begin

lemmas parts = three stored links take_changes selected bank

lemma change_camera: "P (change_camera n f cs) = P cs"
  by (simp add: change_camera_def three)

lemma tell_links: "P (tell_links env n cs) = P cs"
  by (simp add: tell_links_def Let_def links)

lemma save_release: "P (fst (save_release env n yes cs)) = P cs"
  by (simp add: save_release_def stored split: option.splits)

lemma save_reading: "P (fst (save_reading env n cs)) = P cs"
  by (simp add: save_reading_def Let_def stored change_camera split: option.splits)

lemma drop_saved_reading: "P (fst (drop_saved_reading env n cs)) = P cs"
  by (simp add: drop_saved_reading_def stored split: option.splits)

lemma read_camera: "P (fst (read_camera env n cs)) = P cs"
  by (simp add: read_camera_def Let_def case_prod_beta save_reading change_camera take_changes split: sum.splits)

lemma refresh: "P (fst (refresh env ns cs)) = P cs"
  by (induction ns arbitrary: cs) (simp_all add: case_prod_beta read_camera)

lemma take_setup: "P (fst (take_setup env row hold cs)) = P cs"
  by (simp add: take_setup_def Let_def case_prod_beta read_camera tell_links drop_saved_reading save_release change_camera)

lemma release: "P (fst (release env n cs)) = P cs"
  by (simp add: release_def Let_def case_prod_beta tell_links save_release change_camera take_changes)

lemma connect: "P (fst (connect env n cs)) = P cs"
  by (simp add: connect_def Let_def case_prod_beta tell_links read_camera save_release change_camera)

lemma pairing: "P (set_pairing p cs) = P cs" "P (end_pairing cs) = P cs" "P (cancel_pairing cs) = P cs"
  by (simp_all add: set_pairing_def end_pairing_def cancel_pairing_def change_camera links)

lemma begin_pairing: "P (fst (begin_pairing env cs)) = P cs"
  by (simp add: begin_pairing_def Let_def case_prod_beta pairing links)

lemma finish_pairing: "P (fst (finish_pairing env a cs)) = P cs"
  by (simp add: finish_pairing_def Let_def case_prod_beta take_setup pairing split: option.splits)

lemma give_pin: "P (fst (give_pin env pin cs)) = P cs"
  by (simp add: give_pin_def Let_def case_prod_beta finish_pairing pairing links split: sum.splits option.splits pairing_step.splits)

lemma follow_pairing: "P (fst (follow_pairing env cs)) = P cs"
  by (simp add: follow_pairing_def Let_def case_prod_beta finish_pairing pairing split: sum.splits option.splits pairing_step.splits)

lemma settle: "P (fst (settle env cs)) = P cs"
  by (simp add: settle_def case_prod_beta refresh follow_pairing)

lemma finish_send: "P (fst (finish_send env n outcome cs)) = P cs"
  by (simp add: finish_send_def Let_def change_camera split: sum.splits)

lemma read_back: "P (fst (read_back env n cs)) = P cs"
  by (simp add: read_back_def case_prod_beta read_camera)

lemma select_request: "P (fst (select_request cs params)) = P cs"
  by (simp add: select_request_def selected split: sum.splits)

lemma set_bank: "P (fst (set_bank cs b)) = P cs"
  by (simp add: set_bank_def bank)

lemma bank_request: "P (fst (bank_request cs params)) = P cs"
  by (simp add: bank_request_def case_prod_beta set_bank split: option.splits)

lemma release_request: "P (fst (release_request env cs params)) = P cs"
  by (simp add: release_request_def case_prod_beta release split: sum.splits)

lemma connect_request: "P (fst (connect_request env cs params)) = P cs"
  by (simp add: connect_request_def case_prod_beta Let_def connect split: sum.splits)

lemma save_setup: "P (fst (save_setup env cs row hold)) = P cs"
  by (simp add: save_setup_def case_prod_beta take_setup split: option.splits)

lemma setup_update: "P (fst (setup_update env cs params)) = P cs"
  by (simp add: setup_update_def case_prod_beta Let_def save_setup split: sum.splits)

lemma setup_pair: "P (fst (setup_pair env cs params)) = P cs"
  by (simp add: setup_pair_def case_prod_beta begin_pairing give_pin split: sum.splits option.splits)

lemma setup_forget: "P (fst (setup_forget env cs params)) = P cs"
  by (simp add: setup_forget_def Let_def save_setup pairing split: sum.splits)

lemma plain_request: "P (fst (plain_request env name params cs)) = P cs"
proof -
  have keep: "P (fst x) = P cs \<Longrightarrow> P (fst y) = P cs \<Longrightarrow> P (fst (if b then x else y)) = P cs"
    for b and x y :: "cameras \<times> handled \<times> camera_effect list" by simp
  have two: "fst (case x of (a, r) \<Rightarrow> (a, r, [])) = fst x" for x :: "cameras \<times> handled"
    by (cases x) simp
  show ?thesis unfolding plain_request_def
    by (intro keep)
      (simp_all only: two fst_conv select_request bank_request release_request connect_request setup_update setup_pair setup_forget)
qed

lemma restore_rows: "P (fst (restore_rows env rows cs)) = P cs"
  by (induction rows arbitrary: cs) (simp_all add: case_prod_beta take_setup)

lemma after_archive_restore: "P (fst (after_archive_restore env rows cs)) = P cs"
  by (simp add: after_archive_restore_def case_prod_beta restore_rows)

end

interpretation arm: untouched "\<lambda>cs. stop_arm cs = a" for a
  by unfold_locales simp_all

interpretation acted: untouched "\<lambda>cs. deck_rec_at cs = d" for d
  by unfold_locales simp_all

interpretation bodies_or_links: untouched "\<lambda>cs. simulated cs = b" for b
  by unfold_locales simp_all


lemma settle_press_acted: "deck_rec_at (fst (settle_press env p outcome cs)) = deck_rec_at cs"
  by (simp add: settle_press_def answer_press_def Let_def case_prod_beta acted.finish_send acted.read_back
      split: sum.splits answer_kind.splits)

lemma settle_press_arm: "stop_arm (fst (settle_press env p outcome cs)) \<in> {stop_arm cs, None}"
  by (simp add: settle_press_def answer_press_def Let_def case_prod_beta arm.finish_send arm.read_back
      split: sum.splits answer_kind.splits)

lemma started_disarms:
  "settle_press env p outcome cs = (cs', Inr said, fx) \<Longrightarrow> plan_answer p = AnswerRecord True \<Longrightarrow> stop_arm cs' = None"
  by (auto simp: settle_press_def answer_press_def Let_def split: sum.splits prod.splits)

section \<open>The cameras as a whole\<close>

text \<open>
  What happened, newest first: \<open>REC\<close> armed its stop, \<open>REC\<close> started or stopped a take (its press was
  taken), the cameras' own count of takes moved.
\<close>

datatype deck_event = RecArmed instant | RecDid string instant | TakeMoved

definition moved :: "cameras \<Rightarrow> cameras \<Rightarrow> deck_event list" where
  "moved a b = replicate (unat (take_changes b - take_changes a)) TakeMoved"

definition armed_by :: "deck_step \<Rightarrow> instant \<Rightarrow> deck_event list" where
  "armed_by s moment =
     (case s of
        Answered a _ \<Rightarrow> if json_get a ''did'' = Some (JString ''armed'') then [RecArmed moment] else []
      | _ \<Rightarrow> [])"

definition did_by :: "after \<Rightarrow> instant \<Rightarrow> deck_event list" where
  "did_by a moment = (case a of AfterRec did \<Rightarrow> [RecDid did moment] | AfterNothing \<Rightarrow> [])"

type_synonym studio = "cameras \<times> (plan \<times> after \<times> instant) option \<times> deck_event list"

text \<open>
  One spell under the cameras' lock. A press is on its way between two spells, and the press gate
  lets no other begin meanwhile; \<open>REC\<close> takes the gate for a press that sends nothing as well.
\<close>

inductive studio_step :: "f64_ops \<Rightarrow> studio \<Rightarrow> studio \<Rightarrow> bool" for ops where
  look: "settle env cs = (cs', fx) \<Longrightarrow> studio_step ops (cs, w, h) (cs', w, moved cs cs' @ h)"
| request: "plain_request env name params cs = (cs', r, fx) \<Longrightarrow> studio_step ops (cs, w, h) (cs', w, moved cs cs' @ h)"
| restore: "after_archive_restore env rows cs = (cs', c, fx) \<Longrightarrow> studio_step ops (cs, w, h) (cs', w, moved cs cs' @ h)"
| heard: "map_option fst (pocket l) = map_option fst (pocket (links cs)) \<Longrightarrow> studio_step ops (cs, w, h) (cs\<lparr>links := l\<rparr>, w, h)"
| page_press:
    "press_begin ops env now name params cs = Inr (p, b) \<Longrightarrow>
       studio_step ops (cs, None, h) (cs, Some (p, AfterNothing, now), h)"
| key:
    "deck_key ops cs action given moment = (cs', Inr (Answered a e)) \<Longrightarrow> action = ''rec'' \<longrightarrow> w = None \<Longrightarrow>
       studio_step ops (cs, w, h) (cs', w, (if action = ''rec'' then armed_by (Answered a e) moment else []) @ h)"
| key_press:
    "deck_key ops cs action given moment = (cs', Inr (DeckPress p aft)) \<Longrightarrow>
     begin_send ops env now (plan_camera p) (plan_commands p) cs' = Inr b \<Longrightarrow>
       studio_step ops (cs, None, h) (cs', Some (p, aft, moment), h)"
| taken:
    "settle_press env p outcome cs = (cs1, Inr (answer, event), fx) \<Longrightarrow> after_apply aft moment cs1 answer = (cs2, said) \<Longrightarrow>
       studio_step ops (cs, Some (p, aft, moment), h) (cs2, None, did_by aft moment @ moved cs cs1 @ h)"
| not_taken:
    "settle_press env p outcome cs = (cs1, Inl e, fx) \<Longrightarrow>
       studio_step ops (cs, Some (p, aft, moment), h) (cs1, None, moved cs cs1 @ h)"

inductive studio_reachable :: "f64_ops \<Rightarrow> studio \<Rightarrow> bool" for ops where
  start: "load env sim saved (read_setup rows) = (cs, fx) \<Longrightarrow> studio_reachable ops (cs, None, [])"
| further: "studio_reachable ops s \<Longrightarrow> studio_step ops s s' \<Longrightarrow> studio_reachable ops s'"

subsection \<open>What always fits\<close>

lemma dial_turn_plan: "dial_turn ops cs given = Inr s \<Longrightarrow> \<exists>p params. s = DeckPress p AfterNothing \<and> step_plan ops cs params = Inr p"
  by (auto simp: dial_turn_def then_do_Inr split: prod.splits)

lemma dial_push_plan: "dial_push cs given = Inr s \<Longrightarrow> \<exists>p params. s = DeckPress p AfterNothing \<and> auto_plan cs params = Inr p"
  by (auto simp: dial_push_def then_do_Inr split: if_splits)

lemma rec_key_cases:
  assumes "rec_key cs moment = (cs', Inr s)"
  shows "(\<exists>running. s = rec_answer running ''kept'' \<and> (cs' = cs \<or> cs' = cs\<lparr>stop_arm := None\<rparr>))
    \<or> (s = rec_answer True ''armed'' \<and> cs' = cs\<lparr>stop_arm := Some \<lparr>arm_at = moment, arm_take = take_changes cs\<rparr>\<rparr>
        \<and> recording (reading_of cs RECORDING_CAMERA) = Some True)
    \<or> (\<exists>p. s = DeckPress p (AfterRec ''started'') \<and> cs' = cs \<and> record_plan cs (JObject []) True = Inr p
        \<and> (case deck_rec_at cs of Some acted \<Rightarrow> STOP_ARM_DWELL \<le> moment - acted | None \<Rightarrow> True))
    \<or> (\<exists>p a. s = DeckPress p (AfterRec ''stopped'') \<and> cs' = cs \<and> record_plan cs (JObject [(''confirm'', JBool True)]) False = Inr p
        \<and> stop_arm cs = Some a \<and> arm_take a = take_changes cs
        \<and> STOP_ARM_DWELL \<le> moment - arm_at a \<and> moment - arm_at a \<le> STOP_ARM_WINDOW
        \<and> (case deck_rec_at cs of Some acted \<Rightarrow> STOP_ARM_DWELL \<le> moment - acted | None \<Rightarrow> True))"
  using assms unfolding rec_key_def Let_def then_do_def
  by (auto split: sum.splits option.splits if_splits)


lemma deck_key_press:
  assumes "deck_key ops cs action given moment = (cs', Inr (DeckPress p aft))"
  shows "cs' = cs" "plan_camera p \<in> set CAMERA_NUMBERS"
    "aft = AfterNothing \<or>
     (\<exists>did. aft = AfterRec did \<and> rec_key cs moment = (cs, Inr (DeckPress p aft))
        \<and> (case deck_rec_at cs of Some acted \<Rightarrow> STOP_ARM_DWELL \<le> moment - acted | None \<Rightarrow> True))"
proof -
  have "cs' = cs \<and> plan_camera p \<in> set CAMERA_NUMBERS
     \<and> (aft = AfterNothing \<or>
     (\<exists>did. aft = AfterRec did \<and> rec_key cs moment = (cs, Inr (DeckPress p aft))
        \<and> (case deck_rec_at cs of Some acted \<Rightarrow> STOP_ARM_DWELL \<le> moment - acted | None \<Rightarrow> True)))"
  proof (cases "action = ''rec''")
    case True
    then have r: "rec_key cs moment = (cs', Inr (DeckPress p aft))" using assms by (simp add: deck_key_def)
    from rec_key_cases [OF r] r show ?thesis
      using record_plan_ok [of cs _ _ p] by (auto simp: rec_answer_def plan_ok_def)
  next
    case False
    then show ?thesis
      using assms step_plan_ok [of ops cs _ p] auto_plan_ok [of cs _ p ops]
      by (auto simp: deck_key_def plan_ok_def dest!: dial_turn_plan dial_push_plan split: if_splits option.splits sum.splits prod.splits)
  qed
  then show "cs' = cs" "plan_camera p \<in> set CAMERA_NUMBERS" 
    "aft = AfterNothing \<or>
     (\<exists>did. aft = AfterRec did \<and> rec_key cs moment = (cs, Inr (DeckPress p aft))
        \<and> (case deck_rec_at cs of Some acted \<Rightarrow> STOP_ARM_DWELL \<le> moment - acted | None \<Rightarrow> True))"
    by simp_all
qed


subsection \<open>What the deck knows of its past\<close>

fun did_times :: "deck_event list \<Rightarrow> instant list" where
  "did_times [] = []"
| "did_times (RecDid _ t # h) = t # did_times h"
| "did_times (_ # h) = did_times h"

definition apart :: "instant list \<Rightarrow> bool" where
  "apart ts \<longleftrightarrow> sorted_wrt (\<lambda>later earlier. earlier + STOP_ARM_DWELL \<le> later) ts"

definition arm_remembered :: "cameras \<Rightarrow> deck_event list \<Rightarrow> bool" where
  "arm_remembered cs h \<longleftrightarrow>
     (\<forall>a. stop_arm cs = Some a \<longrightarrow>
        (\<exists>k h2. h = replicate k TakeMoved @ RecArmed (arm_at a) # h2 \<and> take_changes cs - arm_take a = of_nat k))"

definition act_remembered :: "cameras \<Rightarrow> deck_event list \<Rightarrow> bool" where
  "act_remembered cs h \<longleftrightarrow>
     deck_rec_at cs = (case did_times h of [] \<Rightarrow> None | t # _ \<Rightarrow> Some t) \<and> apart (did_times h)"

definition press_fits :: "cameras \<Rightarrow> (plan \<times> after \<times> instant) option \<Rightarrow> bool" where
  "press_fits cs w \<longleftrightarrow>
     (\<forall>p aft moment. w = Some (p, aft, moment) \<longrightarrow> plan_camera p \<in> set CAMERA_NUMBERS
        \<and> (\<forall>did. aft = AfterRec did \<longrightarrow>
             plan_answer p = AnswerRecord (did = ''started'') \<and> (did = ''started'' \<or> did = ''stopped'')
             \<and> (case deck_rec_at cs of Some acted \<Rightarrow> acted + STOP_ARM_DWELL \<le> moment | None \<Rightarrow> True)))"

fun studio_ok :: "studio \<Rightarrow> bool" where
  "studio_ok (cs, w, h) \<longleftrightarrow> cameras_ok cs \<and> arm_remembered cs h \<and> act_remembered cs h \<and> press_fits cs w"

lemma did_times_moved: "did_times (replicate k TakeMoved @ h) = did_times h"
  by (induction k) simp_all

lemma moved_replicate: "moved cs cs' = replicate (unat (take_changes cs' - take_changes cs)) TakeMoved"
  by (simp add: moved_def)

lemma arm_kept:
  assumes "arm_remembered cs h" "stop_arm cs' \<in> {stop_arm cs, None}"
  shows "arm_remembered cs' (moved cs cs' @ h)"
  unfolding arm_remembered_def
proof (intro allI impI)
  fix a assume "stop_arm cs' = Some a"
  then have "stop_arm cs = Some a" using assms(2) by auto
  with assms(1) obtain k h2 where k: "h = replicate k TakeMoved @ RecArmed (arm_at a) # h2" "take_changes cs - arm_take a = of_nat k"
    by (auto simp: arm_remembered_def)
  let ?m = "unat (take_changes cs' - take_changes cs)"
  have "moved cs cs' @ h = replicate (?m + k) TakeMoved @ RecArmed (arm_at a) # h2"
    by (simp add: moved_replicate replicate_add k(1))
  moreover have "take_changes cs' - arm_take a = of_nat (?m + k)" using k(2) by (simp add: algebra_simps)
  ultimately show "\<exists>k h2. moved cs cs' @ h = replicate k TakeMoved @ RecArmed (arm_at a) # h2 \<and> take_changes cs' - arm_take a = of_nat k"
    by blast
qed

lemma moved_same: "take_changes cs' = take_changes cs \<Longrightarrow> moved cs cs' = []"
  by (simp add: moved_def)

lemma act_kept: "act_remembered cs h \<Longrightarrow> deck_rec_at cs' = deck_rec_at cs \<Longrightarrow> act_remembered cs' (moved cs cs' @ h)"
  by (simp add: act_remembered_def moved_replicate did_times_moved)

lemma press_kept: "press_fits cs w \<Longrightarrow> deck_rec_at cs' = deck_rec_at cs \<Longrightarrow> press_fits cs' w"
  by (simp add: press_fits_def)

lemma spell_ok:
  assumes "studio_ok (cs, w, h)" "cameras_ok cs'" "stop_arm cs' = stop_arm cs" "deck_rec_at cs' = deck_rec_at cs"
  shows "studio_ok (cs', w, moved cs cs' @ h)"
  using assms arm_kept [of cs h cs'] act_kept [of cs h cs'] press_kept [of cs w cs'] by simp


lemma fst_of: "f = (a, b) \<Longrightarrow> a = fst f"
  by simp

lemma rec_plan_answer: "record_plan cs params start = Inr p \<Longrightarrow> plan_answer p = AnswerRecord start"
  by (auto simp: record_plan_def then_do_Inr Let_def split: if_splits)

lemma rec_press_fits:
  assumes "rec_key cs moment = (cs', Inr (DeckPress p (AfterRec did)))"
  shows "plan_answer p = AnswerRecord (did = ''started'') \<and> (did = ''started'' \<or> did = ''stopped'')"
  using rec_key_cases [OF assms] by (auto simp: rec_answer_def dest: rec_plan_answer)

lemma key_press_fits:
  assumes "deck_key ops cs action given moment = (cs', Inr (DeckPress p aft))"
  shows "press_fits cs (Some (p, aft, moment))"
proof -
  note k = deck_key_press [OF assms]
  have "STOP_ARM_DWELL \<le> moment - acted \<Longrightarrow> acted + STOP_ARM_DWELL \<le> moment" for acted
    by (simp add: STOP_ARM_DWELL_def)
  with k show ?thesis using rec_press_fits [of cs moment cs p] by (auto simp: press_fits_def split: option.splits)
qed

lemma other_key_keeps:
  assumes "deck_key ops cs action given moment = (cs', r)" "action \<noteq> ''rec''" "cameras_ok cs"
  shows "cameras_ok cs'" "stop_arm cs' = stop_arm cs" "deck_rec_at cs' = deck_rec_at cs" "moved cs cs' = []"
  using assms
  by (auto simp: deck_key_def set_bank_def select_request_def moved_def split: if_splits option.splits sum.splits)

lemma rec_key_ok:
  assumes "rec_key cs moment = (cs', Inr (Answered a e))" "studio_ok (cs, None, h)"
  shows "studio_ok (cs', None, armed_by (Answered a e) moment @ h)"
proof -
  have none: "arm_remembered (cs\<lparr>stop_arm := None\<rparr>) h'" "act_remembered (cs\<lparr>stop_arm := x\<rparr>) h' = act_remembered cs h'"
    "cameras_ok (cs\<lparr>stop_arm := x\<rparr>) = cameras_ok cs" "press_fits cs' None" for x h'
    by (simp_all add: arm_remembered_def act_remembered_def press_fits_def cameras_ok_def numbered_def link_follows_def camera_at_def)
  have armed: "arm_remembered (cs\<lparr>stop_arm := Some \<lparr>arm_at = moment, arm_take = take_changes cs\<rparr>\<rparr>) (RecArmed moment # h)"
    by (auto simp: arm_remembered_def intro!: exI [of _ 0])
  have pushed: "act_remembered cs (RecArmed moment # h) = act_remembered cs h"
    by (simp add: act_remembered_def)
  show ?thesis using rec_key_cases [OF assms(1)] assms(2) none armed pushed
    by (auto simp: rec_answer_def armed_by_def json_get_def json_nat_def)
qed


lemma after_apply_parts:
  "after_apply aft moment cs answer = (cs', said) \<Longrightarrow> cameras_ok cs' = cameras_ok cs \<and> take_changes cs' = take_changes cs
     \<and> stop_arm cs' = (if aft = AfterRec ''stopped'' then None else stop_arm cs)
     \<and> deck_rec_at cs' = (case aft of AfterRec _ \<Rightarrow> Some moment | AfterNothing \<Rightarrow> deck_rec_at cs)"
  by (auto simp: after_apply_def cameras_ok_def numbered_def link_follows_def camera_at_def split: after.splits)

lemma taken_ok:
  assumes ok: "studio_ok (cs, Some (p, aft, moment), h)"
    and settled: "settle_press env p outcome cs = (cs1, Inr (answer, event), fx)" and said: "after_apply aft moment cs1 answer = (cs2, shown)"
  shows "studio_ok (cs2, None, did_by aft moment @ moved cs cs1 @ h)"
proof -
  have fits: "plan_camera p \<in> set CAMERA_NUMBERS" using ok by (simp add: press_fits_def)
  then have one: "cameras_ok cs1" "deck_rec_at cs1 = deck_rec_at cs" "stop_arm cs1 \<in> {stop_arm cs, None}"
    using settle_press_ok [of cs p env outcome] settle_press_acted [of env p outcome cs] settle_press_arm [of env p outcome cs] ok
    by (simp_all add: settled)
  note two = after_apply_parts [OF said]
  have h: "arm_remembered cs1 (moved cs cs1 @ h)" "act_remembered cs1 (moved cs cs1 @ h)"
    using ok one arm_kept [of cs h cs1] act_kept [of cs h cs1] by simp_all
  have none: "press_fits cs2 None" by (simp add: press_fits_def)
  show ?thesis
  proof (cases aft)
    case AfterNothing
    then show ?thesis using h one(1) two none by (simp add: did_by_def arm_remembered_def act_remembered_def)
  next
    case (AfterRec did)
    with ok have did: "plan_answer p = AnswerRecord (did = ''started'')" "did = ''started'' \<or> did = ''stopped''"
      and last: "case deck_rec_at cs of Some acted \<Rightarrow> acted + STOP_ARM_DWELL \<le> moment | None \<Rightarrow> True"
      by (simp_all add: press_fits_def)
    have "stop_arm cs2 = None" using did(2) two started_disarms [OF settled] did(1) AfterRec by auto
    then have "arm_remembered cs2 h'" for h' by (simp add: arm_remembered_def)
    moreover have "act_remembered cs2 (RecDid did moment # moved cs cs1 @ h)"
      using h(2) two last one(2) AfterRec
      by (auto simp: act_remembered_def apart_def split: list.splits) 
    ultimately show ?thesis using one(1) two none AfterRec by (simp add: did_by_def)
  qed
qed

lemma studio_step_ok: "studio_step ops s s' \<Longrightarrow> studio_ok s \<Longrightarrow> studio_ok s'"
proof (induction rule: studio_step.induct)
  case (look env cs cs' fx w h)
  then show ?case using spell_ok [of cs w h cs'] settle_ok [of cs env] arm.settle [of env cs] acted.settle [of env cs] by simp
next
  case (request env name params cs cs' r fx w h)
  then show ?case using spell_ok [of cs w h cs'] plain_request_ok [of cs env name params]
      arm.plain_request [of env name params cs] acted.plain_request [of env name params cs] by simp
next
  case (restore env rows cs cs' c fx w h)
  then show ?case using spell_ok [of cs w h cs'] after_archive_restore_ok [of cs env rows]
      arm.after_archive_restore [of env rows cs] acted.after_archive_restore [of env rows cs] by simp
next
  case (heard l cs w h)
  then have "cameras_ok (cs\<lparr>links := l\<rparr>)" by (simp add: cameras_ok_def numbered_def link_follows_def camera_at_def)
  then show ?case using spell_ok [OF heard(2), of "cs\<lparr>links := l\<rparr>"] by (simp add: moved_def)
next
  case (page_press env now name params cs p b h)
  then have "plan_ok ops cs params p" by (auto simp: press_begin_def then_do_Inr press_plan_def set_plan_ok step_plan_ok auto_plan_ok format_plan_ok look_plan_ok record_plan_ok split: if_splits)
  then show ?case using page_press by (simp add: press_fits_def plan_ok_def)
next
  case (key cs action given moment cs' a e w h)
  show ?case
  proof (cases "action = ''rec''")
    case True
    then show ?thesis using key rec_key_ok [of cs moment cs' a e h] by (simp add: deck_key_def)
  next
    case False
    then show ?thesis using other_key_keeps [OF key(1)] key spell_ok [of cs w h cs'] by simp
  qed
next
  case (key_press cs action given moment cs' p aft env now b h)
  then show ?case using deck_key_press(1) [OF key_press(1)] key_press_fits [OF key_press(1)] by simp
next
  case (taken env p outcome cs cs1 answer event fx aft moment cs2 said h)
  then show ?case using taken_ok by blast
next
  case (not_taken env p outcome cs cs1 e fx aft moment h)
  then have "plan_camera p \<in> set CAMERA_NUMBERS" by (simp add: press_fits_def)
  then have "cameras_ok cs1" "deck_rec_at cs1 = deck_rec_at cs" "stop_arm cs1 \<in> {stop_arm cs, None}"
    using settle_press_ok [of cs p env outcome] settle_press_acted [of env p outcome cs] settle_press_arm [of env p outcome cs] not_taken
    by simp_all
  then show ?case using not_taken arm_kept [of cs h cs1] act_kept [of cs h cs1] by (simp add: press_fits_def)
qed

lemma load_quiet: "stop_arm (fst (load env sim saved rows)) = None" "deck_rec_at (fst (load env sim saved rows)) = None"
proof -
  have "stop_arm (fst (load_cameras env ns cs)) = stop_arm cs" "deck_rec_at (fst (load_cameras env ns cs)) = deck_rec_at cs" for ns cs
    by (induction ns arbitrary: cs) (simp_all add: case_prod_beta arm.tell_links acted.tell_links arm.read_camera acted.read_camera)
  then show "stop_arm (fst (load env sim saved rows)) = None" "deck_rec_at (fst (load env sim saved rows)) = None"
    by (simp_all add: load_def)
qed

lemma studio_reachable_ok: "studio_reachable ops s \<Longrightarrow> studio_ok s"
proof (induction rule: studio_reachable.induct)
  case (start env sim saved rows cs fx)
  then have "cs = fst (load env sim saved (read_setup rows))" by simp
  then show ?case using load_ok [OF read_setup_numbered, where env = env and sim = sim and saved = saved, of rows] load_quiet [of env sim saved "read_setup rows"]
    by (simp add: arm_remembered_def act_remembered_def press_fits_def apart_def)
next
  case (further s s')
  then show ?case by (blast intro: studio_step_ok)
qed


section \<open>What holds of every run\<close>

text \<open>
  C29. In every state the cameras can come to, the values that are last read have a reading behind
  them, a take's start is known only while CAM 1 records and is not released, and the link is held
  exactly for the address the row says, as long as the camera is set up and not released.
\<close>

theorem cameras_fit_always:
  assumes "studio_reachable ops (cs, w, h)"
  shows "cameras_ok cs"
  using studio_reachable_ok [OF assms] by simp


text \<open>
  Whatever else happens between them, two takes that \<open>REC\<close> started or stopped are the dwell
  apart: the second of a double press never acts on what the first did.
\<close>

theorem rec_acts_apart:
  assumes "studio_reachable ops (cs, w, h)"
  shows "apart (did_times h)"
  using studio_reachable_ok [OF assms] by (simp add: act_remembered_def)

lemma held_state: "held cs n = Inr () \<longleftrightarrow> state_of (camera_at cs n) = Held"
  by (cases "state_of (camera_at cs n)") (simp_all add: held_def Let_def)

lemma reading_recording: "recording (reading_of cs n) = Some True \<longleftrightarrow> reported_recording (cam_reading (camera_at cs n)) = Some True"
  by (simp add: reading_of_def reported_recording_def no_reading_def bind_opt_def split: option.splits)

text \<open>
  C27. \<open>REC\<close> stops the take exactly while the key reads \<open>STOP?\<close>, once the dwells are over: what the
  operator reads on the key is what the press does.
\<close>

theorem rec_stops_what_it_reads:
  "(\<exists>p. rec_key cs moment = (cs, Inr (DeckPress p (AfterRec ''stopped'')))) \<longleftrightarrow>
     rec_state cs moment = ''armed''
     \<and> (case stop_arm cs of Some a \<Rightarrow> arm_at a + STOP_ARM_DWELL \<le> moment | None \<Rightarrow> False)
     \<and> (case deck_rec_at cs of Some acted \<Rightarrow> acted + STOP_ARM_DWELL \<le> moment | None \<Rightarrow> True)"
proof -
  have stop: "record_plan cs (JObject [(''confirm'', JBool True)]) False
      = Inr \<lparr>plan_camera = RECORDING_CAMERA, plan_commands = [RecordStop], plan_answer = AnswerRecord False\<rparr>"
    if "held cs RECORDING_CAMERA = Inr ()" "recording (reading_of cs RECORDING_CAMERA) = Some True"
    using that by (simp add: record_plan_def confirm_param_def json_get_def then_do_def)
  have dwell: "STOP_ARM_DWELL \<le> moment - t \<longleftrightarrow> t + STOP_ARM_DWELL \<le> moment" for t :: instant
    by (auto simp: STOP_ARM_DWELL_def)
  have armed: "rec_state cs moment = ''armed'' \<longleftrightarrow> held cs RECORDING_CAMERA = Inr ()
      \<and> recording (reading_of cs RECORDING_CAMERA) = Some True \<and> stop_armed cs moment"
    by (cases "state_of (camera_at cs RECORDING_CAMERA)") (simp_all add: rec_state_def Let_def held_state reading_recording)
  show ?thesis (is "?stops \<longleftrightarrow> ?reads")
  proof
    assume ?stops
    then obtain p where p: "rec_key cs moment = (cs, Inr (DeckPress p (AfterRec ''stopped'')))" by blast
    from rec_key_cases [OF p] obtain a where "record_plan cs (JObject [(''confirm'', JBool True)]) False = Inr p"
      "stop_arm cs = Some a" "arm_take a = take_changes cs" "STOP_ARM_DWELL \<le> moment - arm_at a" "moment - arm_at a \<le> STOP_ARM_WINDOW"
      "case deck_rec_at cs of Some acted \<Rightarrow> STOP_ARM_DWELL \<le> moment - acted | None \<Rightarrow> True"
      by (auto simp: rec_answer_def)
    then show ?reads
      by (auto simp: armed stop_armed_def dwell record_plan_def then_do_Inr Let_def split: if_splits option.splits)
  next
    assume ?reads
    then show ?stops
      by (auto simp: armed stop_armed_def dwell [symmetric] rec_key_def Let_def stop then_do_def linorder_not_less [symmetric] split: option.splits)
  qed
qed

section \<open>Example runs\<close>

definition recording_env :: cameras_env where
  "recording_env = quiet_env\<lparr>bodies := \<lambda>n. if n = 1 then Some \<lparr>link_values = no_reading\<lparr>recording := Some True\<rparr>, is_last_read = False\<rparr> else None\<rparr>"

definition recording_studio :: cameras where
  "recording_studio =
     fst (load recording_env True \<lparr>stored_release = \<lambda>_. None, stored_reading = \<lambda>_. None\<rparr> (read_setup [(1, None, 1, 1)]))"

lemma recording_setup: "read_setup [(1, None, 1, 1)] =
    [\<lparr>camera = 1, setup_address = None, paired = True, vmix_input = 1\<rparr>, stored_new 2, stored_new 3]"
  by (simp add: read_setup_def stored_row_def CAMERA_NUMBERS_def VMIX_INPUT_MIN_def VMIX_INPUT_MAX_def)

lemma recording_camera:
  "camera_at recording_studio 1 =
     (runtime_new True \<lparr>camera = 1, setup_address = None, paired = True, vmix_input = 1\<rparr> True)
        \<lparr>cam_reading := Some (no_reading\<lparr>recording := Some True\<rparr>), read_at := Some (utc_text 0), last_saved_at := Some 0\<rparr>"
  by (simp add: recording_studio_def recording_setup load_def CAMERA_NUMBERS_def tell_links_def read_camera_def Let_def
      camera_at_def change_camera_def slots loaded_camera_def runtime_new_def set_up_def stored_new_def link_read_of_def
      recording_env_def quiet_env_def take_reading_def kept_reading_def reported_recording_def save_reading_def 
      RECORDING_CAMERA_def case_prod_beta)

lemma load_sim: "simulated (fst (load env sim saved rows)) = sim"
proof -
  have "simulated (fst (load_cameras env ns cs)) = simulated cs" for ns cs
    by (induction ns arbitrary: cs) (simp_all add: case_prod_beta bodies_or_links.tell_links bodies_or_links.read_camera)
  then show ?thesis by (simp add: load_def)
qed

text \<open>A body that always answers that CAM 1 records.\<close>

definition recorder :: "cameras \<Rightarrow> bool" where
  "recorder cs \<longleftrightarrow>
     simulated cs \<and> length (three cs) = 3
     \<and> (let c = camera_at cs RECORDING_CAMERA
        in set_up (cam_setup c) \<and> \<not> released c \<and> cam_failure c = None \<and> reported_recording (cam_reading c) = Some True)"

definition stop_press :: plan where
  "stop_press = \<lparr>plan_camera = RECORDING_CAMERA, plan_commands = [RecordStop], plan_answer = AnswerRecord False\<rparr>"

lemma recorder_held: "recorder cs \<Longrightarrow> held cs RECORDING_CAMERA = Inr ()"
  "recorder cs \<Longrightarrow> recording (reading_of cs RECORDING_CAMERA) = Some True"
  by (simp_all add: recorder_def Let_def held_state reading_recording state_of_def pairing_lost_def)

lemma recording_studio_recorder: "recorder recording_studio"
proof -
  have "simulated recording_studio" by (simp add: recording_studio_def load_sim)
  moreover have "cameras_ok recording_studio" unfolding recording_studio_def by (rule load_ok [OF read_setup_numbered])
  then have "length (three recording_studio) = 3"
    by (auto simp: cameras_ok_def numbered_def CAMERA_NUMBERS_def dest!: arg_cong [of _ _ length])
  moreover have "camera_at recording_studio RECORDING_CAMERA = camera_at recording_studio 1" by (simp add: RECORDING_CAMERA_def)
  ultimately show ?thesis
    by (simp add: recorder_def Let_def recording_camera [unfolded One_nat_def] runtime_new_def set_up_def reported_recording_def)
qed

definition says_recording :: link_reading where
  "says_recording = \<lparr>link_values = no_reading\<lparr>recording := Some True\<rparr>, is_last_read = False\<rparr>"

lemma recorder_changed:
  assumes "recorder cs" "\<And>c. set_up (cam_setup (f c)) = set_up (cam_setup c)" "\<And>c. released (f c) = released c"
    "cam_failure (f (camera_at cs RECORDING_CAMERA)) = None"
    "reported_recording (cam_reading (f (camera_at cs RECORDING_CAMERA))) = Some True"
  shows "recorder (change_camera RECORDING_CAMERA f cs)"
  using assms by (simp add: recorder_def Let_def change_camera_def camera_at_def slots)

lemma recorder_untouched: "recorder (cs\<lparr>take_changes := k\<rparr>) = recorder cs" "recorder (cs\<lparr>stored := st\<rparr>) = recorder cs"
  by (simp_all add: recorder_def camera_at_def Let_def)

lemma recorder_saved: "recorder cs \<Longrightarrow> recorder (fst (save_reading env RECORDING_CAMERA cs))"
  by (auto simp: save_reading_def Let_def recorder_untouched recorder_def camera_at_def change_camera_def slots split: option.splits)

lemma recorder_took: "recorder cs \<Longrightarrow> recorder (change_camera RECORDING_CAMERA (take_reading says_recording now) cs)"
  by (rule recorder_changed) (simp_all add: take_reading_def Let_def says_recording_def kept_reading_def reported_recording_def split: option.splits)

lemma recorder_read: "recorder cs \<Longrightarrow> recorder (fst (read_camera recording_env RECORDING_CAMERA cs))"
proof -
  assume cs: "recorder cs"
  then have l: "link_read_of recording_env RECORDING_CAMERA cs = Inr says_recording"
    by (simp add: recorder_def link_read_of_def recording_env_def says_recording_def RECORDING_CAMERA_def)
  show ?thesis unfolding read_camera_def Let_def l
    using recorder_took [OF cs] cs by (simp add: recorder_untouched recorder_saved case_prod_beta)
qed

lemma recorder_settles:
  assumes "recorder cs"
  shows "\<exists>cs1 said fx. settle_press recording_env stop_press (Inr ()) cs = (cs1, Inr said, fx) \<and> recorder cs1
    \<and> deck_rec_at cs1 = deck_rec_at cs"
proof -
  have "recorder (fst (read_camera recording_env RECORDING_CAMERA cs))" by (rule recorder_read [OF assms])
  then have k: "recorder (fst (read_back recording_env RECORDING_CAMERA cs))" by (simp add: read_back_def case_prod_beta)
  obtain cs1 fx where b: "read_back recording_env RECORDING_CAMERA cs = (cs1, fx)" by (cases "read_back recording_env RECORDING_CAMERA cs")
  with k have r: "recorder cs1" by simp
  then have "settle_press recording_env stop_press (Inr ()) cs
      = (cs1, Inr (snd (answer_press stop_press cs1 (reading_of cs1 RECORDING_CAMERA))), fx)"
    using b by (simp add: settle_press_def stop_press_def finish_send_def recorder_held answer_press_def Let_def)
  moreover have "deck_rec_at cs1 = deck_rec_at cs" using acted.read_back [of recording_env RECORDING_CAMERA cs] b by simp
  ultimately show ?thesis using r by blast
qed

lemma recorder_parts [simp]: "recorder (cs\<lparr>stop_arm := a\<rparr>) = recorder cs" "recorder (cs\<lparr>deck_rec_at := d\<rparr>) = recorder cs"
  by (simp_all add: recorder_def camera_at_def Let_def)

lemma recorder_arms:
  assumes "recorder cs" "stop_arm cs = None" "case deck_rec_at cs of Some acted \<Rightarrow> acted + STOP_ARM_DWELL \<le> moment | None \<Rightarrow> True"
  shows "rec_key cs moment = (cs\<lparr>stop_arm := Some \<lparr>arm_at = moment, arm_take = take_changes cs\<rparr>\<rparr>, Inr (rec_answer True ''armed''))"
  using assms by (auto simp: rec_key_def recorder_held Let_def split: option.splits)

lemma recorder_stops:
  assumes "recorder cs" "stop_arm cs = Some \<lparr>arm_at = t, arm_take = take_changes cs\<rparr>" "t + STOP_ARM_DWELL \<le> moment" "moment \<le> t + STOP_ARM_WINDOW"
    "case deck_rec_at cs of Some acted \<Rightarrow> acted + STOP_ARM_DWELL \<le> moment | None \<Rightarrow> True"
  shows "rec_key cs moment = (cs, Inr (DeckPress stop_press (AfterRec ''stopped'')))"
  using assms
  by (auto simp: rec_key_def recorder_held Let_def record_plan_def confirm_param_def json_get_def then_do_def stop_press_def split: option.splits)

lemma recorder_run:
  assumes "studio_reachable exact_ops (cs, None, h)" "recorder cs" "stop_arm cs = None"
    "case deck_rec_at cs of Some acted \<Rightarrow> acted + STOP_ARM_DWELL \<le> t | None \<Rightarrow> True"
  shows "\<exists>cs2 k. studio_reachable exact_ops
        (cs2, None, RecDid ''stopped'' (t + STOP_ARM_DWELL) # replicate k TakeMoved @ RecArmed t # h)
      \<and> recorder cs2 \<and> stop_arm cs2 = None \<and> deck_rec_at cs2 = Some (t + STOP_ARM_DWELL)"
proof -
  define cs1 where "cs1 = cs\<lparr>stop_arm := Some \<lparr>arm_at = t, arm_take = take_changes cs\<rparr>\<rparr>"
  have "deck_key exact_ops cs ''rec'' None t = (cs1, Inr (rec_answer True ''armed''))"
    by (simp add: deck_key_def recorder_arms [OF assms(2-4)] cs1_def)
  then have "studio_step exact_ops (cs, None, h) (cs1, None, RecArmed t # h)"
    using studio_step.key [of exact_ops cs "''rec''" None t cs1 _ _ None h] by (simp add: rec_answer_def armed_by_def json_get_def json_nat_def)
  with assms(1) have armed: "studio_reachable exact_ops (cs1, None, RecArmed t # h)" by (rule studio_reachable.further)
  let ?u = "t + STOP_ARM_DWELL"
  have r: "recorder cs1" using assms(2) by (simp add: cs1_def)
  have "rec_key cs1 ?u = (cs1, Inr (DeckPress stop_press (AfterRec ''stopped'')))"
    using assms(2,4) by (intro recorder_stops) (auto simp: cs1_def STOP_ARM_WINDOW_def STOP_ARM_DWELL_def split: option.splits)
  then have k: "deck_key exact_ops cs1 ''rec'' None ?u = (cs1, Inr (DeckPress stop_press (AfterRec ''stopped'')))"
    by (simp add: deck_key_def)
  have b: "begin_send exact_ops recording_env 0 (plan_camera stop_press) (plan_commands stop_press) cs1 = Inr (PressSimulated [RecordStop])"
    using r by (simp add: begin_send_def recorder_def stop_press_def split: option.splits)
  have sent: "studio_reachable exact_ops (cs1, Some (stop_press, AfterRec ''stopped'', ?u), RecArmed t # h)"
    by (rule studio_reachable.further [OF armed studio_step.key_press [OF k b]])
  obtain cs2 answer event fx where s: "settle_press recording_env stop_press (Inr ()) cs1 = (cs2, Inr (answer, event), fx)" "recorder cs2"
    using recorder_settles [OF r] by auto
  obtain cs3 said where a: "after_apply (AfterRec ''stopped'') ?u cs2 answer = (cs3, said)"
    by (cases "after_apply (AfterRec ''stopped'') ?u cs2 answer")
  from studio_reachable.further [OF sent studio_step.taken [OF s(1) a]]
  have "studio_reachable exact_ops (cs3, None, RecDid ''stopped'' ?u # moved cs1 cs2 @ RecArmed t # h)" by (simp add: did_by_def)
  moreover have "recorder cs3" using a s(2) by (auto simp: after_apply_def)
  ultimately show ?thesis using after_apply_parts [OF a] by (auto simp: moved_replicate)
qed

lemma recording_start: "studio_reachable exact_ops (recording_studio, None, [])"
proof (rule studio_reachable.start)
  show "load recording_env True \<lparr>stored_release = \<lambda>_. None, stored_reading = \<lambda>_. None\<rparr> (read_setup [(1, None, 1, 1)])
      = (recording_studio, snd (load recording_env True \<lparr>stored_release = \<lambda>_. None, stored_reading = \<lambda>_. None\<rparr> (read_setup [(1, None, 1, 1)])))"
    by (simp add: recording_studio_def)
qed

lemma recording_quiet: "stop_arm recording_studio = None" "deck_rec_at recording_studio = None"
  by (simp_all add: recording_studio_def load_quiet)

theorem cameras_fit_always_witness: "cameras_ok recording_studio"
  by (rule cameras_fit_always [OF recording_start])

theorem rec_acts_apart_witness: "apart [3 * STOP_ARM_DWELL + STOP_ARM_DWELL, STOP_ARM_DWELL]"
proof -
  obtain cs k where one: "studio_reachable exact_ops (cs, None, RecDid ''stopped'' (0 + STOP_ARM_DWELL) # replicate k TakeMoved @ RecArmed 0 # [])"
    "recorder cs" "stop_arm cs = None" "deck_rec_at cs = Some (0 + STOP_ARM_DWELL)"
    using recorder_run [OF recording_start recording_studio_recorder recording_quiet(1), of 0] recording_quiet(2) by auto
  obtain cs' k' where two: "studio_reachable exact_ops (cs', None, RecDid ''stopped'' (3 * STOP_ARM_DWELL + STOP_ARM_DWELL)
      # replicate k' TakeMoved @ RecArmed (3 * STOP_ARM_DWELL) # RecDid ''stopped'' (0 + STOP_ARM_DWELL) # replicate k TakeMoved @ RecArmed 0 # [])"
    using recorder_run [OF one(1,2,3), of "3 * STOP_ARM_DWELL"] one(4) by auto
  show ?thesis using rec_acts_apart [OF two] by (simp add: did_times_moved)
qed


end
