(* ===== verification/Prompter_Saver.thy ===== *)
theory Prompter_Saver
  imports Text_Std
begin

text \<open>
  The prompter's saver (\<open>prompter/saver.rs\<close>, with the two statements of \<open>prompter/store.rs\<close> it runs):
  the newest place and pace of the glass's script and the newest look wait in a slot each, a thread
  writes them, and what failed is tried again. The lock's spells are functions of the state; the
  thread, the hand-offs and the transactions that move the glass on come in any order. The clock's readings within one spell under the lock are one
  instant, a write apart: it begins at one and ends at another. The look's
  own fields are a type parameter: the saver only compares and writes them.
\<close>

section \<open>What is saved\<close>

definition COALESCE_FOR :: duration where "COALESCE_FOR = from_secs 1"
definition DIAL_SETTLES_IN :: duration where "DIAL_SETTLES_IN = from_millis 250"
definition RETRY_AFTER :: duration where "RETRY_AFTER = from_secs 1"
definition RETRY_AT_MOST :: duration where "RETRY_AT_MOST = from_secs 5"
definition WARN_EVERY :: duration where "WARN_EVERY = from_secs 60"
definition IDLE_WAIT :: duration where "IDLE_WAIT = from_secs 60"

datatype urgency = Coalesced | Shortly | Now

record prompter_place =
  place_paragraph :: nat
  place_word :: nat

record glass_save =
  script_id :: string
  glass_revision :: int
  save_place :: prompter_place
  speed_wpm :: nat

record 'l look_save =
  save_look :: 'l
  size_px :: nat
  look_revision :: int

text \<open>What the saver did since it was last asked (\<open>u64\<close> counts and the longest write).\<close>

record saver_counts =
  saved :: nat
  refused :: nat
  failed :: nat
  longest :: duration

definition no_counts :: saver_counts where
  "no_counts = \<lparr>saved = 0, refused = 0, failed = 0, longest = 0\<rparr>"

section \<open>Slots\<close>

record 'a slot =
  pending :: "('a \<times> instant) option"
  taken :: bool
  written :: "'a option"

definition empty_slot :: "'a slot" where
  "empty_slot = \<lparr>pending = None, taken = False, written = None\<rparr>"

definition hand_over :: "'a \<Rightarrow> instant \<Rightarrow> 'a slot \<Rightarrow> 'a slot" where
  "hand_over v due s =
     s\<lparr>pending := Some (v, case pending s of Some (_, earlier) \<Rightarrow> if taken s then due else min due earlier | None \<Rightarrow> due),
       taken := False\<rparr>"

record 'l saver =
  glass :: "glass_save slot"
  look :: "'l look_save slot"
  threaded :: bool
  writing :: bool
  stopping :: bool
  stopped :: bool
  last_write_at :: "instant option"
  retry_at :: "instant option"
  failures :: nat
  warned_at :: "instant option"
  counts :: saver_counts

definition saver_new :: "'l saver" where
  "saver_new =
     \<lparr>glass = empty_slot, look = empty_slot, threaded = False, writing = False, stopping = False, stopped = False,
      last_write_at = None, retry_at = None, failures = 0, warned_at = None, counts = no_counts\<rparr>"

record 'l batch =
  batch_glass :: "glass_save option"
  batch_look :: "'l look_save option"

definition due_at :: "'l saver \<Rightarrow> urgency \<Rightarrow> instant \<Rightarrow> instant" where
  "due_at s u now =
     (case u of
        Now \<Rightarrow> now
      | Shortly \<Rightarrow> now + DIAL_SETTLES_IN
      | Coalesced \<Rightarrow> (case last_write_at s of Some t \<Rightarrow> max (t + COALESCE_FOR) now | None \<Rightarrow> now))"

definition due_now :: "instant \<Rightarrow> 'a slot \<Rightarrow> 'a slot" where
  "due_now now s = s\<lparr>pending := map_option (\<lambda>(v, _). (v, now)) (pending s)\<rparr>"

definition make_due_now :: "instant \<Rightarrow> 'l saver \<Rightarrow> 'l saver" where
  "make_due_now now s = s\<lparr>glass := due_now now (glass s), look := due_now now (look s), retry_at := None\<rparr>"

text \<open>How long the thread sleeps.\<close>

definition slot_due :: "'a slot \<Rightarrow> instant list" where
  "slot_due s = (case pending s of Some (_, t) \<Rightarrow> [t] | None \<Rightarrow> [])"

definition next_wake :: "'l saver \<Rightarrow> instant \<Rightarrow> duration" where
  "next_wake s now =
     (let dues = slot_due (glass s) @ slot_due (look s);
          due = (if dues = [] then None else Some (Min (set dues)))
      in case (case (due, retry_at s) of (Some d, Some r) \<Rightarrow> Some (max d r) | _ \<Rightarrow> due) of
           None \<Rightarrow> IDLE_WAIT
         | Some t \<Rightarrow> max (t - now) (from_millis 1))"

definition drop_written :: "'a slot \<Rightarrow> 'a slot" where
  "drop_written s =
     (case pending s of Some (v, _) \<Rightarrow> if written s = Some v then s\<lparr>pending := None\<rparr> else s | None \<Rightarrow> s)"

definition due_value :: "instant option \<Rightarrow> 'a slot \<Rightarrow> 'a option" where
  "due_value limit s =
     (case pending s of
        Some (v, due) \<Rightarrow> if (case limit of None \<Rightarrow> True | Some now \<Rightarrow> due \<le> now) then Some v else None
      | None \<Rightarrow> None)"

text \<open>\<open>moment\<close> is the clock when the batch is taken.\<close>

definition take_batch :: "instant option \<Rightarrow> instant \<Rightarrow> 'l saver \<Rightarrow> 'l saver \<times> 'l batch option" where
  "take_batch limit moment s =
     (let s1 = s\<lparr>glass := drop_written (glass s), look := drop_written (look s)\<rparr>;
          g = due_value limit (glass s1);
          l = due_value limit (look s1)
      in if g = None \<and> l = None then (s1, None)
         else (s1\<lparr>glass := (glass s1)\<lparr>taken := (g \<noteq> None)\<rparr>, look := (look s1)\<lparr>taken := (l \<noteq> None)\<rparr>,
                  last_write_at := Some moment\<rparr>,
               Some \<lparr>batch_glass = g, batch_look = l\<rparr>))"

section \<open>The write\<close>

text \<open>What the saver and the glass's own transactions touch of the saved data.\<close>

record 'l saved_prompter =
  script_values :: "string \<Rightarrow> (prompter_place \<times> nat) option"
  glass_script :: "string option"
  stored_revision :: int
  stored_look :: "'l look_save"

definition write_glass_save :: "glass_save \<Rightarrow> 'l saved_prompter \<Rightarrow> 'l saved_prompter \<times> bool" where
  "write_glass_save save d =
     (if glass_script d = Some (script_id save) \<and> stored_revision d = glass_revision save
         \<and> script_values d (script_id save) \<noteq> None
      then (d\<lparr>script_values := (script_values d)(script_id save \<mapsto> (save_place save, speed_wpm save))\<rparr>, True)
      else (d, False))"

definition write_look_save :: "'l look_save \<Rightarrow> 'l saved_prompter \<Rightarrow> 'l saved_prompter" where
  "write_look_save save d = d\<lparr>stored_look := save\<rparr>"

text \<open>
  One transaction: \<open>fault\<close> is the connection's, the statements' or the commit's error, or a panic, and
  then nothing of it is on the disk.
\<close>

definition write_batch :: "string option \<Rightarrow> 'l batch \<Rightarrow> 'l saved_prompter \<Rightarrow> 'l saved_prompter \<times> (string + bool)" where
  "write_batch fault b d =
     (case fault of
        Some error \<Rightarrow> (d, Inl error)
      | None \<Rightarrow>
          (let (d1, landed) = (case batch_glass b of Some save \<Rightarrow> write_glass_save save d | None \<Rightarrow> (d, True));
               d2 = (case batch_look b of Some save \<Rightarrow> write_look_save save d1 | None \<Rightarrow> d1)
           in (d2, Inr landed)))"

definition forget_value :: "'a \<Rightarrow> 'a slot \<Rightarrow> 'a slot" where
  "forget_value v s = (case pending s of Some (p, _) \<Rightarrow> if p = v then s\<lparr>pending := None\<rparr> else s | None \<Rightarrow> s)"

definition retry_wait :: "nat \<Rightarrow> duration" where
  "retry_wait fails = min (RETRY_AFTER * 2 ^ (min (fails - 1) 8)) RETRY_AT_MOST"

definition finish_batch ::
  "'l batch \<Rightarrow> string + bool \<Rightarrow> instant \<Rightarrow> instant \<Rightarrow> 'l saver \<Rightarrow> 'l saver \<times> string option" where
  "finish_batch b outcome started now s0 =
     (let s = s0\<lparr>counts := (counts s0)\<lparr>longest := max (longest (counts s0)) (now - started)\<rparr>,
                 glass := (glass s0)\<lparr>taken := False\<rparr>, look := (look s0)\<lparr>taken := False\<rparr>\<rparr>
      in case outcome of
           Inr landed \<Rightarrow>
             let c1 = (if landed \<or> batch_look b \<noteq> None then (counts s)\<lparr>saved := saved (counts s) + 1\<rparr> else counts s);
                 c2 = (if batch_glass b \<noteq> None \<and> \<not> landed then c1\<lparr>refused := refused c1 + 1\<rparr> else c1);
                 g = (case batch_glass b of
                        Some v \<Rightarrow> (forget_value v (glass s))\<lparr>written := (if landed then Some v else None)\<rparr>
                      | None \<Rightarrow> glass s);
                 l = (case batch_look b of Some v \<Rightarrow> (forget_value v (look s))\<lparr>written := Some v\<rparr> | None \<Rightarrow> look s)
             in (s\<lparr>counts := c2, glass := g, look := l, failures := 0, retry_at := None\<rparr>, None)
         | Inl error \<Rightarrow>
             let fails = min (failures s + 1) u32_max;
                 s1 = s\<lparr>counts := (counts s)\<lparr>failed := failed (counts s) + 1\<rparr>, failures := fails,
                        retry_at := Some (now + retry_wait fails)\<rparr>
             in if stopping s
                then (s1\<lparr>glass := (glass s)\<lparr>pending := None\<rparr>, look := (look s)\<lparr>pending := None\<rparr>\<rparr>,
                      Some (''Prompter: the last place, pace or size could not be saved at the stop: '' @ error))
                else if (case warned_at s of None \<Rightarrow> True | Some t \<Rightarrow> WARN_EVERY \<le> now - t)
                then (s1\<lparr>warned_at := Some now\<rparr>,
                      Some (''Prompter: the place, pace or size could not be saved ('' @ show_nat fails
                        @ '' tries so far); trying again: '' @ error))
                else (s1, None))"

section \<open>What the prompter asks of it\<close>

text \<open>Without the thread: everything that waits is written at once, under the lock.\<close>

definition write_here ::
  "string option \<Rightarrow> instant \<Rightarrow> instant \<Rightarrow> 'l saver \<times> 'l saved_prompter \<Rightarrow> ('l saver \<times> 'l saved_prompter) \<times> string option" where
  "write_here fault now ended sd =
     (case take_batch None now (fst sd) of
        (s, None) \<Rightarrow> ((s, snd sd), None)
      | (s, Some b) \<Rightarrow>
          (case write_batch fault b (snd sd) of
             (d, outcome) \<Rightarrow> (case finish_batch b outcome now ended s of (s1, warning) \<Rightarrow> ((s1, d), warning))))"

definition handed_over ::
  "string option \<Rightarrow> instant \<Rightarrow> instant \<Rightarrow> 'l saver \<times> 'l saved_prompter \<Rightarrow> ('l saver \<times> 'l saved_prompter) \<times> string option" where
  "handed_over fault now ended sd = (if threaded (fst sd) then (sd, None) else write_here fault now ended sd)"

definition keep_glass ::
  "string option \<Rightarrow> instant \<Rightarrow> instant \<Rightarrow> glass_save \<Rightarrow> urgency \<Rightarrow> 'l saver \<times> 'l saved_prompter
     \<Rightarrow> ('l saver \<times> 'l saved_prompter) \<times> string option" where
  "keep_glass fault now ended save u sd =
     (let s = fst sd in
      if stopping s \<or> stopped s then (sd, None)
      else handed_over fault now ended (s\<lparr>glass := hand_over save (due_at s u now) (glass s)\<rparr>, snd sd))"

definition keep_look ::
  "string option \<Rightarrow> instant \<Rightarrow> instant \<Rightarrow> 'l look_save \<Rightarrow> urgency \<Rightarrow> 'l saver \<times> 'l saved_prompter
     \<Rightarrow> ('l saver \<times> 'l saved_prompter) \<times> string option" where
  "keep_look fault now ended save u sd =
     (let s = fst sd in
      if stopping s \<or> stopped s then (sd, None)
      else handed_over fault now ended (s\<lparr>look := hand_over save (due_at s u now) (look s)\<rparr>, snd sd))"

definition let_go_of_glass :: "'l saver \<Rightarrow> 'l saver" where
  "let_go_of_glass s = s\<lparr>glass := (glass s)\<lparr>pending := None, written := None\<rparr>\<rparr>"

definition newest_glass :: "'l saver \<Rightarrow> glass_save option" where
  "newest_glass s = (case pending (glass s) of Some (v, _) \<Rightarrow> Some v | None \<Rightarrow> written (glass s))"

definition take_counts :: "'l saver \<Rightarrow> 'l saver \<times> saver_counts" where
  "take_counts s = (s\<lparr>counts := no_counts\<rparr>, counts s)"

definition nothing_pending :: "'l saver \<Rightarrow> bool" where
  "nothing_pending s \<longleftrightarrow> pending (glass s) = None \<and> pending (look s) = None"

text \<open>The first spell of \<open>flush\<close> and of \<open>finish\<close>; with the thread they then wait for it.\<close>

definition flush_asked ::
  "string option \<Rightarrow> instant \<Rightarrow> instant \<Rightarrow> 'l saver \<times> 'l saved_prompter \<Rightarrow> ('l saver \<times> 'l saved_prompter) \<times> string option" where
  "flush_asked fault now ended sd = (if threaded (fst sd) then ((make_due_now now (fst sd), snd sd), None) else write_here fault now ended sd)"

text \<open>What a waiting \<open>flush\<close> looks for.\<close>

definition flushed :: "'l saver \<Rightarrow> bool" where
  "flushed s \<longleftrightarrow> \<not> (pending (glass s) \<noteq> None \<or> pending (look s) \<noteq> None \<or> writing s)"

definition finish_asked ::
  "string option \<Rightarrow> instant \<Rightarrow> instant \<Rightarrow> 'l saver \<times> 'l saved_prompter \<Rightarrow> ('l saver \<times> 'l saved_prompter) \<times> string option" where
  "finish_asked fault now ended sd =
     (if threaded (fst sd) then ((make_due_now now ((fst sd)\<lparr>stopping := True\<rparr>), snd sd), None)
      else (case write_here fault now ended sd of ((s, d), warning) \<Rightarrow> ((s\<lparr>stopped := True\<rparr>, d), warning)))"

definition start_thread :: "bool \<Rightarrow> 'l saver \<Rightarrow> 'l saver \<times> bool" where
  "start_thread spawned s =
     (if threaded s \<or> stopped s then (s, threaded s)
      else if spawned then (s\<lparr>threaded := True\<rparr>, True) else (s, False))"

section \<open>The thread\<close>

datatype 'l thread_turn = Sleeps duration | Writes "'l batch" | Ends

text \<open>One look of the thread under the lock, \<open>now\<close> on its clock and \<open>moment\<close> just after.\<close>

definition thread_look :: "instant \<Rightarrow> instant \<Rightarrow> 'l saver \<Rightarrow> 'l saver \<times> 'l thread_turn" where
  "thread_look now moment s =
     (case (if stopping s then take_batch None moment s
            else if (case retry_at s of Some t \<Rightarrow> now < t | None \<Rightarrow> False) then (s, None)
            else take_batch (Some now) moment s) of
        (s1, Some b) \<Rightarrow> (s1\<lparr>writing := True\<rparr>, Writes b)
      | (s1, None) \<Rightarrow> if stopping s then (s1, Ends) else (s1, Sleeps (next_wake s1 now)))"

text \<open>Its last spell, once its connection is closed.\<close>

definition thread_end :: "'l saver \<Rightarrow> 'l saver" where
  "thread_end s = s\<lparr>stopped := True, threaded := False\<rparr>"

definition write_done :: "'l batch \<Rightarrow> string + bool \<Rightarrow> instant \<Rightarrow> instant \<Rightarrow> 'l saver \<Rightarrow> 'l saver \<times> string option" where
  "write_done b outcome started now s = finish_batch b outcome started now (s\<lparr>writing := False\<rparr>)"

section \<open>The saver among the others\<close>

text \<open>
  A write on its way: its batch, when it began, and its outcome once it is on the disk. \<open>wanted_glass\<close>
  and \<open>wanted_look\<close> are the newest values handed over (the glass's until it was let go), \<open>begun\<close> when the
  thread's writes began, newest first; \<open>calm\<close> says that the thread ran and every hand-off was a coalesced
  one so far.
\<close>

record 'l saving =
  sv :: "'l saver"
  disk :: "'l saved_prompter"
  flight :: "('l batch \<times> instant \<times> (string + bool) option) option"
  wanted_glass :: "glass_save option"
  wanted_look :: "'l look_save option"
  wall :: instant
  begun :: "instant list"
  calm :: bool

definition ignores :: "'l saver \<Rightarrow> bool" where
  "ignores s \<longleftrightarrow> stopping s \<or> stopped s"

inductive saving_step :: "'l saving \<Rightarrow> 'l saving \<Rightarrow> bool" where
  hand_glass:
    "keep_glass fault now ended save u (sv r, disk r) = ((s, d), w) \<Longrightarrow> now \<le> wall r \<Longrightarrow> glass_revision save \<le> stored_revision (disk r) \<Longrightarrow>
       saving_step r (r\<lparr>sv := s, disk := d, wanted_glass := if ignores (sv r) then wanted_glass r else Some save,
                        calm := calm r \<and> u = Coalesced \<and> threaded (sv r)\<rparr>)"
| hand_look:
    "keep_look fault now ended save u (sv r, disk r) = ((s, d), w) \<Longrightarrow> now \<le> wall r \<Longrightarrow>
       saving_step r (r\<lparr>sv := s, disk := d, wanted_look := if ignores (sv r) then wanted_look r else Some save,
                        calm := calm r \<and> u = Coalesced \<and> threaded (sv r)\<rparr>)"
| let_go: "saving_step r (r\<lparr>sv := let_go_of_glass (sv r), wanted_glass := None\<rparr>)"
| glass_moves:
    "stored_revision d = stored_revision (disk r) + 1 \<Longrightarrow> stored_look d = stored_look (disk r) \<Longrightarrow> saving_step r (r\<lparr>disk := d\<rparr>)"
| elsewhere:
    "stored_revision d = stored_revision (disk r) \<Longrightarrow> stored_look d = stored_look (disk r) \<Longrightarrow> glass_script d = glass_script (disk r) \<Longrightarrow>
     (case glass_script d of Some i \<Rightarrow> script_values d i = script_values (disk r) i | None \<Rightarrow> True) \<Longrightarrow> saving_step r (r\<lparr>disk := d\<rparr>)"
| asks_counts: "take_counts (sv r) = (s, c) \<Longrightarrow> saving_step r (r\<lparr>sv := s\<rparr>)"
| flush: "flush_asked fault now ended (sv r, disk r) = ((s, d), w) \<Longrightarrow> saving_step r (r\<lparr>sv := s, disk := d, calm := False\<rparr>)"
| finish: "finish_asked fault now ended (sv r, disk r) = ((s, d), w) \<Longrightarrow> saving_step r (r\<lparr>sv := s, disk := d, calm := False\<rparr>)"
| starts: "start_thread spawned (sv r) = (s, running) \<Longrightarrow> saving_step r (r\<lparr>sv := s\<rparr>)"
| time: "wall r \<le> t \<Longrightarrow> saving_step r (r\<lparr>wall := t\<rparr>)"
| sleeps:
    "threaded (sv r) \<Longrightarrow> flight r = None \<Longrightarrow> thread_look (wall r) moment (sv r) = (s, Sleeps t) \<Longrightarrow> saving_step r (r\<lparr>sv := s\<rparr>)"
| ends:
    "threaded (sv r) \<Longrightarrow> flight r = None \<Longrightarrow> thread_look (wall r) moment (sv r) = (s, Ends) \<Longrightarrow> saving_step r (r\<lparr>sv := thread_end s\<rparr>)"
| begins:
    "threaded (sv r) \<Longrightarrow> flight r = None \<Longrightarrow> thread_look (wall r) moment (sv r) = (s, Writes b) \<Longrightarrow> wall r \<le> moment \<Longrightarrow>
       saving_step r (r\<lparr>sv := s, flight := Some (b, moment, None), begun := moment # begun r, wall := moment\<rparr>)"
| writes:
    "flight r = Some (b, t, None) \<Longrightarrow> write_batch fault b (disk r) = (d, outcome) \<Longrightarrow>
       saving_step r (r\<lparr>disk := d, flight := Some (b, t, Some outcome)\<rparr>)"
| is_done:
    "flight r = Some (b, t, Some outcome) \<Longrightarrow> write_done b outcome t (wall r) (sv r) = (s, w) \<Longrightarrow>
       saving_step r (r\<lparr>sv := s, flight := None\<rparr>)"

definition saving_new :: "'l saved_prompter \<Rightarrow> instant \<Rightarrow> 'l saving" where
  "saving_new d t =
     \<lparr>sv = saver_new, disk = d, flight = None, wanted_glass = None, wanted_look = None, wall = t, begun = [], calm = True\<rparr>"

inductive saving_reachable :: "'l saving \<Rightarrow> bool" where
  start: "saving_reachable (saving_new d t)"
| further: "saving_reachable r \<Longrightarrow> saving_step r r' \<Longrightarrow> saving_reachable r'"

subsection \<open>One slot\<close>

text \<open>
  \<open>H v\<close> says that the disk has \<open>v\<close>. \<open>fly\<close> is the slot's value in the write on its way, and whether it
  has reached the disk.
\<close>

definition slot_ok :: "('a \<Rightarrow> bool) \<Rightarrow> 'a option \<Rightarrow> ('a \<times> bool) option \<Rightarrow> 'a slot \<Rightarrow> bool" where
  "slot_ok H wanted fly s \<longleftrightarrow>
     (\<forall>v. written s = Some v \<and> (\<forall>x. fly \<noteq> Some (x, True)) \<longrightarrow> H v)
     \<and> (\<forall>x. fly = Some (x, True) \<longrightarrow> H x)
     \<and> (fly \<noteq> None \<longrightarrow> pending s = None \<longrightarrow> wanted = None)
     \<and> (\<forall>v. wanted = Some v \<longrightarrow> (\<exists>t. pending s = Some (v, t)) \<or> pending s = None \<and> H v)"

lemma slot_ok_mono: "slot_ok H wanted fly s \<Longrightarrow> (\<And>v. H v \<Longrightarrow> H' v) \<Longrightarrow> slot_ok H' wanted fly s"
  by (auto simp: slot_ok_def)

lemma slot_ok_unwanted: "slot_ok H wanted fly s \<Longrightarrow> slot_ok H None fly s"
  by (simp add: slot_ok_def)

lemma slot_ok_taken [simp]: "slot_ok H wanted fly (s\<lparr>taken := b\<rparr>) = slot_ok H wanted fly s"
  by (simp add: slot_ok_def)

lemma slot_ok_hand_over: "slot_ok H wanted fly s \<Longrightarrow> slot_ok H (Some v) fly (hand_over v due s)"
  by (simp add: slot_ok_def hand_over_def)

lemma slot_ok_due_now: "slot_ok H wanted fly s \<Longrightarrow> slot_ok H wanted fly (due_now t s)"
  by (fastforce simp: slot_ok_def due_now_def)

lemma slot_ok_let_go: "slot_ok H wanted fly s \<Longrightarrow> slot_ok H None fly (s\<lparr>pending := None, written := None\<rparr>)"
  by (simp add: slot_ok_def)

lemma slot_ok_drop_written: "slot_ok H wanted None s \<Longrightarrow> slot_ok H wanted None (drop_written s)"
  by (auto simp: slot_ok_def drop_written_def split: option.splits)

lemma slot_ok_take:
  "slot_ok H wanted None s \<Longrightarrow> slot_ok H wanted (map_option (\<lambda>v. (v, False)) (due_value limit s)) s"
  by (auto simp: slot_ok_def due_value_def split: option.splits if_splits)

lemma slot_ok_landed: "slot_ok H wanted (Some (x, False)) s \<Longrightarrow> H' x \<Longrightarrow> slot_ok H' wanted (Some (x, True)) s"
  by (auto simp: slot_ok_def)

lemma slot_ok_done: "slot_ok H wanted (Some (x, True)) s \<Longrightarrow> slot_ok H wanted None ((forget_value x s)\<lparr>written := if landed then Some x else None\<rparr>)"
  by (auto simp: slot_ok_def forget_value_def split: option.splits)

lemma slot_ok_failed: "slot_ok H wanted (Some (x, False)) s \<Longrightarrow> slot_ok H wanted None s"
  by (auto simp: slot_ok_def)

lemma slot_ok_dropped: "slot_ok H wanted None s \<Longrightarrow> slot_ok H None None (s\<lparr>taken := b, pending := None\<rparr>)"
  by (auto simp: slot_ok_def)

lemma slot_ok_empty: "slot_ok H None None empty_slot"
  by (simp add: slot_ok_def empty_slot_def)


subsection \<open>Both slots and the disk\<close>

definition has_glass :: "'l saved_prompter \<Rightarrow> glass_save \<Rightarrow> bool" where
  "has_glass d g \<longleftrightarrow>
     glass_revision g \<le> stored_revision d
     \<and> (glass_script d = Some (script_id g) \<and> stored_revision d = glass_revision g \<and> script_values d (script_id g) \<noteq> None
        \<longrightarrow> script_values d (script_id g) = Some (save_place g, speed_wpm g))"

definition has_look :: "'l saved_prompter \<Rightarrow> 'l look_save \<Rightarrow> bool" where
  "has_look d l \<longleftrightarrow> stored_look d = l"

definition flying :: "bool \<Rightarrow> 'a option \<Rightarrow> ('a \<times> bool) option" where
  "flying landed v = map_option (\<lambda>x. (x, landed)) v"

definition slots_ok ::
  "glass_save option \<Rightarrow> 'l look_save option \<Rightarrow> bool \<Rightarrow> 'l batch option \<Rightarrow> 'l saver \<Rightarrow> 'l saved_prompter \<Rightarrow> bool" where
  "slots_ok wg wl landed b s d \<longleftrightarrow>
     slot_ok (has_glass d) (if stopping s then None else wg) (flying landed (case b of Some x \<Rightarrow> batch_glass x | None \<Rightarrow> None)) (glass s)
     \<and> slot_ok (has_look d) (if stopping s then None else wl) (flying landed (case b of Some x \<Rightarrow> batch_look x | None \<Rightarrow> None)) (look s)
     \<and> (\<forall>g t. pending (glass s) = Some (g, t) \<longrightarrow> glass_revision g \<le> stored_revision d)
     \<and> (\<forall>x g. b = Some x \<longrightarrow> batch_glass x = Some g \<longrightarrow> glass_revision g \<le> stored_revision d)"


lemma flying_simps [simp]: "flying l None = None" "flying l (Some v) = Some (v, l)"
  by (simp_all add: flying_def)

lemma pending_drop: "pending (drop_written s) = Some v \<Longrightarrow> pending s = Some v"
  by (auto simp: drop_written_def split: option.splits if_splits)

lemma due_value_pending: "due_value limit s = Some v \<Longrightarrow> \<exists>t. pending s = Some (v, t)"
  by (auto simp: due_value_def split: option.splits if_splits)

lemma take_batch_ok:
  assumes "slots_ok wg wl l None s d" "take_batch limit m s = (s', b)"
  shows "slots_ok wg wl False b s' d" "stopping s' = stopping s" "threaded s' = threaded s"
proof -
  let ?g = "drop_written (glass s)" and ?k = "drop_written (look s)"
  have g: "slot_ok (has_glass d) (if stopping s then None else wg) None ?g" and k: "slot_ok (has_look d) (if stopping s then None else wl) None ?k"
    using assms(1) by (simp_all add: slots_ok_def slot_ok_drop_written)
  note g' = slot_ok_take [OF g, of limit] and k' = slot_ok_take [OF k, of limit]
  have rev: "glass_revision x \<le> stored_revision d" if "pending ?g = Some (x, t)" for x t
    using pending_drop [OF that] assms(1) by (simp add: slots_ok_def)
  have "slots_ok wg wl False b s' d \<and> stopping s' = stopping s \<and> threaded s' = threaded s"
  proof (cases "due_value limit ?g = None \<and> due_value limit ?k = None")
    case True
    then show ?thesis using assms(2) g k rev by (auto simp: take_batch_def Let_def slots_ok_def)
  next
    case False
    moreover have "glass_revision x \<le> stored_revision d" if "due_value limit ?g = Some x" for x
      using due_value_pending [OF that] rev by blast
    ultimately show ?thesis using assms(2) g' k' rev by (auto simp: take_batch_def Let_def slots_ok_def flying_def)
  qed
  then show "slots_ok wg wl False b s' d" "stopping s' = stopping s" "threaded s' = threaded s" by simp_all
qed

lemma write_glass_save_has:
  "write_glass_save g d = (d', landed) \<Longrightarrow> glass_revision g \<le> stored_revision d \<Longrightarrow> has_glass d' g"
  by (auto simp: write_glass_save_def has_glass_def split: if_splits)

lemma write_batch_parts:
  assumes "write_batch None b d = (d', out)"
  shows "\<exists>landed. out = Inr landed" "stored_revision d' = stored_revision d"
    "batch_glass b = Some g \<Longrightarrow> glass_revision g \<le> stored_revision d \<Longrightarrow> has_glass d' g"
    "batch_glass b = None \<Longrightarrow> has_glass d' = has_glass d"
    "batch_look b = Some k \<Longrightarrow> has_look d' k" "batch_look b = None \<Longrightarrow> has_look d' = has_look d"
  using assms
  by (auto simp: write_batch_def Let_def write_look_save_def write_glass_save_def has_glass_def has_look_def
      split: option.splits prod.splits if_splits)

lemma write_batch_ok:
  assumes "slots_ok wg wl False (Some b) s d" "write_batch fault b d = (d', out)"
  shows "slots_ok wg wl (is_ok out) (Some b) s d'"
proof (cases fault)
  case (Some e)
  then show ?thesis using assms by (auto simp: write_batch_def)
next
  case None
  then have w: "write_batch None b d = (d', out)" using assms(2) by simp
  note p = write_batch_parts [OF w]
  obtain landed where out: "out = Inr landed" using p(1) by blast
  have g: "slot_ok (has_glass d') (if stopping s then None else wg) (flying True (batch_glass b)) (glass s)"
  proof (cases "batch_glass b")
    case None
    then show ?thesis using assms(1) p(4) by (simp add: slots_ok_def)
  next
    case (Some x)
    then show ?thesis using assms(1) p(3) [OF Some] by (auto simp: slots_ok_def intro: slot_ok_landed)
  qed
  have k: "slot_ok (has_look d') (if stopping s then None else wl) (flying True (batch_look b)) (look s)"
  proof (cases "batch_look b")
    case None
    then show ?thesis using assms(1) p(6) by (simp add: slots_ok_def)
  next
    case (Some x)
    then show ?thesis using assms(1) p(5) [OF Some] by (auto simp: slots_ok_def intro: slot_ok_landed)
  qed
  from g k show ?thesis using assms(1) p(2) by (simp add: slots_ok_def out)
qed


lemma pending_forget: "pending (forget_value v s) = Some x \<Longrightarrow> pending s = Some x"
  by (auto simp: forget_value_def split: option.splits if_splits)

lemma forget_taken [simp]: "forget_value v (s\<lparr>taken := b\<rparr>) = (forget_value v s)\<lparr>taken := b\<rparr>"
  by (simp add: forget_value_def split: option.splits)

lemma slot_ok_done_taken:
  assumes "slot_ok H wanted (Some (x, True)) s"
  shows "slot_ok H wanted None ((forget_value x s)\<lparr>taken := b, written := Some x\<rparr>)"
    "slot_ok H wanted None ((forget_value x s)\<lparr>taken := b, written := None\<rparr>)"
  using assms by (auto simp: slot_ok_def forget_value_def split: option.splits)

lemma finish_batch_ok:
  assumes "slots_ok wg wl (is_ok out) (Some b) s d" "finish_batch b out t e s = (s', w)"
  shows "slots_ok wg wl l None s' d" "stopping s' = stopping s" "threaded s' = threaded s"
proof -
  have "slots_ok wg wl l None s' d \<and> stopping s' = stopping s \<and> threaded s' = threaded s"
  proof (cases out)
    case (Inr landed)
    have g: "slot_ok (has_glass d) (if stopping s then None else wg) None
        (case batch_glass b of Some v \<Rightarrow> (forget_value v (glass s))\<lparr>taken := False, written := (if landed then Some v else None)\<rparr>
           | None \<Rightarrow> (glass s)\<lparr>taken := False\<rparr>)"
      using assms(1) Inr by (cases "batch_glass b") (auto simp: slots_ok_def intro: slot_ok_done_taken)
    have k: "slot_ok (has_look d) (if stopping s then None else wl) None
        (case batch_look b of Some v \<Rightarrow> (forget_value v (look s))\<lparr>taken := False, written := Some v\<rparr> | None \<Rightarrow> (look s)\<lparr>taken := False\<rparr>)"
      using assms(1) Inr by (cases "batch_look b") (auto simp: slots_ok_def intro: slot_ok_done_taken)
    have rev: "glass_revision x \<le> stored_revision d" if "pending (forget_value v (glass s)) = Some (x, u)" for v x u
      using pending_forget [OF that] assms(1) by (simp add: slots_ok_def)
    show ?thesis using g k assms Inr rev
      by (cases "batch_glass b"; cases "batch_look b") (auto simp: slots_ok_def finish_batch_def Let_def)
  next
    case (Inl error)
    have g: "slot_ok (has_glass d) (if stopping s then None else wg) None (glass s)"
      using assms(1) Inl by (cases "batch_glass b") (auto simp: slots_ok_def intro: slot_ok_failed)
    have k: "slot_ok (has_look d) (if stopping s then None else wl) None (look s)"
      using assms(1) Inl by (cases "batch_look b") (auto simp: slots_ok_def intro: slot_ok_failed)
    show ?thesis using g k assms Inl slot_ok_dropped [OF g] slot_ok_dropped [OF k]
      by (auto simp: slots_ok_def finish_batch_def Let_def split: if_splits)
  qed
  then show "slots_ok wg wl l None s' d" "stopping s' = stopping s" "threaded s' = threaded s" by simp_all
qed

lemma write_here_ok:
  assumes "slots_ok wg wl l None s d" "write_here fault now ended (s, d) = ((s', d'), w)"
  shows "slots_ok wg wl l None s' d'" "stopping s' = stopping s" "threaded s' = threaded s" "stored_revision d' = stored_revision d"
proof -
  obtain s1 ob where t: "take_batch None now s = (s1, ob)" by (cases "take_batch None now s")
  note k = take_batch_ok [OF assms(1) t]
  have "slots_ok wg wl l None s' d' \<and> stopping s' = stopping s \<and> threaded s' = threaded s \<and> stored_revision d' = stored_revision d"
  proof (cases ob)
    case None
    then show ?thesis using assms(2) t k by (simp add: write_here_def slots_ok_def)
  next
    case (Some b)
    obtain d1 out where w: "write_batch fault b d = (d1, out)" by (cases "write_batch fault b d")
    have "slots_ok wg wl (is_ok out) (Some b) s1 d1" using write_batch_ok k(1) w unfolding Some by blast
    from finish_batch_ok [OF this] assms(2) t w Some k(2,3) have "slots_ok wg wl l None s' d1 \<and> stopping s' = stopping s \<and> threaded s' = threaded s"
      by (auto simp: write_here_def split: prod.splits)
    moreover have "stored_revision d1 = stored_revision d"
      using w write_batch_parts(2) [of b d d1 out] by (cases fault) (auto simp: write_batch_def)
    ultimately show ?thesis using assms(2) t w Some by (auto simp: write_here_def split: prod.splits)
  qed
  then show "slots_ok wg wl l None s' d'" "stopping s' = stopping s" "threaded s' = threaded s" "stored_revision d' = stored_revision d"
    by simp_all
qed


definition on_its_way :: "'l saving \<Rightarrow> 'l batch option" where
  "on_its_way r = map_option fst (flight r)"

definition has_landed :: "'l saving \<Rightarrow> bool" where
  "has_landed r \<longleftrightarrow> (case flight r of Some (_, _, Some out) \<Rightarrow> is_ok out | _ \<Rightarrow> False)"

definition saving_ok :: "'l saving \<Rightarrow> bool" where
  "saving_ok r \<longleftrightarrow>
     slots_ok (wanted_glass r) (wanted_look r) (has_landed r) (on_its_way r) (sv r) (disk r)
     \<and> (flight r \<noteq> None \<longrightarrow> threaded (sv r))"

lemma slots_ok_no_flight: "slots_ok wg wl l None s d \<longleftrightarrow> slots_ok wg wl l' None s d"
  by (simp add: slots_ok_def)

lemma pending_hand_over: "pending (hand_over v due s) = Some (g, t) \<Longrightarrow> g = v"
  by (simp add: hand_over_def)

lemma slots_ok_hand_glass:
  "slots_ok wg wl l b s d \<Longrightarrow> \<not> stopping s \<Longrightarrow> glass_revision v \<le> stored_revision d \<Longrightarrow>
     slots_ok (Some v) wl l b (s\<lparr>glass := hand_over v due (glass s)\<rparr>) d"
  by (auto simp: slots_ok_def intro: slot_ok_hand_over dest: pending_hand_over)

lemma slots_ok_hand_look:
  "slots_ok wg wl l b s d \<Longrightarrow> \<not> stopping s \<Longrightarrow> slots_ok wg (Some v) l b (s\<lparr>look := hand_over v due (look s)\<rparr>) d"
  by (auto simp: slots_ok_def intro: slot_ok_hand_over)

lemma slots_ok_due_now: "slots_ok wg wl l b s d \<Longrightarrow> slots_ok wg wl l b (make_due_now t s) d"
  by (auto simp: slots_ok_def make_due_now_def slot_ok_due_now) (auto simp: due_now_def)

lemma slots_ok_stopping: "slots_ok wg wl l b s d \<Longrightarrow> slots_ok wg wl l b (s\<lparr>stopping := True\<rparr>) d"
  by (auto simp: slots_ok_def dest: slot_ok_unwanted split: if_splits)

lemma has_glass_mono:
  "has_glass d g \<Longrightarrow> stored_revision d' = stored_revision d + 1 \<Longrightarrow> has_glass d' g"
  by (auto simp: has_glass_def)

lemma slots_ok_disk:
  assumes "slots_ok wg wl l b s d" "\<And>g. has_glass d g \<Longrightarrow> has_glass d' g" "stored_look d' = stored_look d" "stored_revision d \<le> stored_revision d'"
  shows "slots_ok wg wl l b s d'"
proof -
  have k: "has_look d' = has_look d" by (simp add: has_look_def assms(3) fun_eq_iff)
  have g: "slot_ok (has_glass d) w f x \<Longrightarrow> slot_ok (has_glass d') w f x" for w f x
    by (erule slot_ok_mono) (rule assms(2))
  have "slot_ok (has_glass d') (if stopping s then None else wg) (flying l (case b of Some x \<Rightarrow> batch_glass x | None \<Rightarrow> None)) (glass s)"
    using assms(1) by (intro g) (simp add: slots_ok_def)
  moreover have "glass_revision x \<le> stored_revision d \<Longrightarrow> glass_revision x \<le> stored_revision d'" for x :: glass_save
    using assms(4) by simp
  ultimately show ?thesis using assms(1) unfolding slots_ok_def k by blast
qed

lemma slots_ok_parts:
  "slots_ok wg wl l b (s\<lparr>counts := c\<rparr>) d = slots_ok wg wl l b s d" "slots_ok wg wl l b (s\<lparr>stopped := t\<rparr>) d = slots_ok wg wl l b s d"
  "slots_ok wg wl l b (s\<lparr>threaded := t\<rparr>) d = slots_ok wg wl l b s d" "slots_ok wg wl l b (s\<lparr>writing := t\<rparr>) d = slots_ok wg wl l b s d"
  by (simp_all add: slots_ok_def)

lemma hand_ok:
  assumes "slots_ok wg wl l b s d" "b \<noteq> None \<longrightarrow> threaded s" "handed_over fault now ended (s, d) = ((s', d'), w)"
  shows "slots_ok wg wl l b s' d' \<and> threaded s' = threaded s"
proof (cases "threaded s")
  case True
  then show ?thesis using assms(1,3) by (simp add: handed_over_def)
next
  case False
  then have "b = None" "write_here fault now ended (s, d) = ((s', d'), w)" using assms(2,3) by (auto simp: handed_over_def)
  with assms(1) show ?thesis using write_here_ok [of wg wl l s d fault now ended s' d' w] by simp
qed

lemma keep_glass_ok:
  assumes "slots_ok wg wl l b s d" "b \<noteq> None \<longrightarrow> threaded s" "glass_revision v \<le> stored_revision d"
    "keep_glass fault now ended v u (s, d) = ((s', d'), w)"
  shows "slots_ok (if ignores s then wg else Some v) wl l b s' d' \<and> threaded s' = threaded s"
proof (cases "ignores s")
  case True
  then show ?thesis using assms(1,4) by (auto simp: keep_glass_def ignores_def)
next
  case False
  then have "handed_over fault now ended (s\<lparr>glass := hand_over v (due_at s u now) (glass s)\<rparr>, d) = ((s', d'), w)" "\<not> stopping s"
    using assms(4) by (auto simp: keep_glass_def ignores_def)
  from hand_ok [OF slots_ok_hand_glass [OF assms(1) this(2) assms(3)] _ this(1)] assms(2) False show ?thesis by simp
qed

lemma keep_look_ok:
  assumes "slots_ok wg wl l b s d" "b \<noteq> None \<longrightarrow> threaded s" "keep_look fault now ended v u (s, d) = ((s', d'), w)"
  shows "slots_ok wg (if ignores s then wl else Some v) l b s' d' \<and> threaded s' = threaded s"
proof (cases "ignores s")
  case True
  then show ?thesis using assms(1,3) by (auto simp: keep_look_def ignores_def)
next
  case False
  then have "handed_over fault now ended (s\<lparr>look := hand_over v (due_at s u now) (look s)\<rparr>, d) = ((s', d'), w)" "\<not> stopping s"
    using assms(3) by (auto simp: keep_look_def ignores_def)
  from hand_ok [OF slots_ok_hand_look [OF assms(1) this(2)] _ this(1)] assms(2) False show ?thesis by simp
qed

lemma flush_ok:
  assumes "slots_ok wg wl l b s d" "b \<noteq> None \<longrightarrow> threaded s" "flush_asked fault now ended (s, d) = ((s', d'), w)"
  shows "slots_ok wg wl l b s' d' \<and> threaded s' = threaded s"
proof (cases "threaded s")
  case True
  then show ?thesis using assms(1,3) slots_ok_due_now [OF assms(1), of now] by (auto simp: flush_asked_def make_due_now_def)
next
  case False
  then have "b = None" "write_here fault now ended (s, d) = ((s', d'), w)" using assms(2,3) by (auto simp: flush_asked_def)
  with assms(1) show ?thesis using write_here_ok [of wg wl l s d fault now ended s' d' w] by simp
qed

lemma finish_ok:
  assumes "slots_ok wg wl l b s d" "b \<noteq> None \<longrightarrow> threaded s" "finish_asked fault now ended (s, d) = ((s', d'), w)"
  shows "slots_ok wg wl l b s' d' \<and> threaded s' = threaded s"
proof (cases "threaded s")
  case True
  then show ?thesis using assms(3) slots_ok_due_now [OF slots_ok_stopping [OF assms(1)], of now]
    by (auto simp: finish_asked_def make_due_now_def)
next
  case False
  then obtain s1 where b: "b = None" and h: "write_here fault now ended (s, d) = ((s1, d'), w)" and s': "s' = s1\<lparr>stopped := True\<rparr>"
    using assms(2,3) by (auto simp: finish_asked_def split: prod.splits)
  have "slots_ok wg wl l None s d" using assms(1) b by simp
  from write_here_ok [OF this h] show ?thesis by (simp add: s' b slots_ok_parts slots_ok_no_flight)
qed

lemma thread_look_ok:
  assumes "slots_ok wg wl l None s d" "thread_look now m s = (s', turn)"
  shows "slots_ok wg wl False (case turn of Writes b \<Rightarrow> Some b | _ \<Rightarrow> None) s' d \<and> threaded s' = threaded s"
proof -
  have same: "slots_ok wg wl False None s d" using assms(1) slots_ok_no_flight by blast
  show ?thesis
    using assms(2) take_batch_ok [OF assms(1)] same
    by (auto simp: thread_look_def slots_ok_parts split: if_splits option.splits prod.splits)
qed


lemma saving_okD: "saving_ok r \<Longrightarrow> slots_ok (wanted_glass r) (wanted_look r) (has_landed r) (on_its_way r) (sv r) (disk r)"
  "saving_ok r \<Longrightarrow> on_its_way r \<noteq> None \<longrightarrow> threaded (sv r)"
  by (simp_all add: saving_ok_def on_its_way_def)

lemma let_go_ok: "slots_ok wg wl l b s d \<Longrightarrow> slots_ok None wl l b (let_go_of_glass s) d"
  by (auto simp: slots_ok_def let_go_of_glass_def intro: slot_ok_let_go)

lemma elsewhere_has:
  assumes "stored_revision d' = stored_revision d" "glass_script d' = glass_script d"
    "case glass_script d' of Some i \<Rightarrow> script_values d' i = script_values d i | None \<Rightarrow> True" "has_glass d g"
  shows "has_glass d' g"
proof -
  have "script_values d' (script_id g) = script_values d (script_id g)" if "glass_script d = Some (script_id g)"
    using assms(2,3) that by simp
  then show ?thesis using assms(4) unfolding has_glass_def assms(1,2) by metis
qed

lemma saving_step_ok: "saving_step r r' \<Longrightarrow> saving_ok r \<Longrightarrow> saving_ok r'"
proof (induction rule: saving_step.induct)
  case (hand_glass fault now ended save u r s d w)
  from keep_glass_ok [OF saving_okD [OF hand_glass(4)] hand_glass(3,1)] hand_glass(4) show ?case
    by (simp add: saving_ok_def has_landed_def on_its_way_def)
next
  case (hand_look fault now ended save u r s d w)
  from keep_look_ok [OF saving_okD [OF hand_look(3)] hand_look(1)] hand_look(3) show ?case
    by (simp add: saving_ok_def has_landed_def on_its_way_def)
next
  case (let_go r)
  then show ?case using let_go_ok [OF saving_okD(1) [OF let_go]] saving_okD(2) [OF let_go]
    by (simp add: saving_ok_def has_landed_def on_its_way_def let_go_of_glass_def)
next
  case (glass_moves d r)
  then have "slots_ok (wanted_glass r) (wanted_look r) (has_landed r) (on_its_way r) (sv r) d"
    using slots_ok_disk [OF saving_okD(1) [OF glass_moves(3)], of d] has_glass_mono [OF _ glass_moves(1)] by simp
  then show ?case using glass_moves by (simp add: saving_ok_def has_landed_def on_its_way_def)
next
  case (elsewhere d r)
  then have "slots_ok (wanted_glass r) (wanted_look r) (has_landed r) (on_its_way r) (sv r) d"
    using slots_ok_disk [OF saving_okD(1) [OF elsewhere(5)], of d] elsewhere_has [OF elsewhere(1,3,4)] by simp
  then show ?case using elsewhere by (simp add: saving_ok_def has_landed_def on_its_way_def)
next
  case (asks_counts r s c)
  then show ?case by (auto simp: saving_ok_def has_landed_def on_its_way_def take_counts_def slots_ok_parts)
next
  case (flush fault now ended r s d w)
  from flush_ok [OF saving_okD [OF flush(2)] flush(1)] flush(2) show ?case
    by (simp add: saving_ok_def has_landed_def on_its_way_def)
next
  case (finish fault now ended r s d w)
  from finish_ok [OF saving_okD [OF finish(2)] finish(1)] finish(2) show ?case
    by (simp add: saving_ok_def has_landed_def on_its_way_def)
next
  case (starts spawned r s running)
  then show ?case
    by (auto simp: saving_ok_def has_landed_def on_its_way_def start_thread_def slots_ok_parts split: if_splits)
next
  case (time r t)
  then show ?case by (simp add: saving_ok_def has_landed_def on_its_way_def)
next
  case (sleeps r moment s t)
  then have "slots_ok (wanted_glass r) (wanted_look r) False None (sv r) (disk r)"
    by (simp add: saving_ok_def on_its_way_def has_landed_def)
  from thread_look_ok [OF this sleeps(3)] sleeps(2) show ?case by (simp add: saving_ok_def on_its_way_def has_landed_def)
next
  case (ends r moment s)
  then have "slots_ok (wanted_glass r) (wanted_look r) False None (sv r) (disk r)"
    by (simp add: saving_ok_def on_its_way_def has_landed_def)
  from thread_look_ok [OF this ends(3)] ends(2) show ?case
    by (simp add: saving_ok_def on_its_way_def has_landed_def thread_end_def slots_ok_parts)
next
  case (begins r moment s b)
  then have "slots_ok (wanted_glass r) (wanted_look r) False None (sv r) (disk r)"
    by (simp add: saving_ok_def on_its_way_def has_landed_def)
  from thread_look_ok [OF this begins(3)] begins(1) show ?case by (simp add: saving_ok_def on_its_way_def has_landed_def)
next
  case (writes r b t d outcome)
  then have "slots_ok (wanted_glass r) (wanted_look r) False (Some b) (sv r) (disk r)"
    by (simp add: saving_ok_def on_its_way_def has_landed_def)
  from write_batch_ok [OF this writes(2)] writes(1,3) show ?case by (simp add: saving_ok_def on_its_way_def has_landed_def)
next
  case (is_done r b t outcome s w)
  then have "slots_ok (wanted_glass r) (wanted_look r) (is_ok outcome) (Some b) ((sv r)\<lparr>writing := False\<rparr>) (disk r)"
    by (simp add: saving_ok_def on_its_way_def has_landed_def slots_ok_parts)
  from finish_batch_ok [OF this, of t "wall r" s w] is_done(2) show ?case
    by (auto simp: saving_ok_def on_its_way_def has_landed_def write_done_def)
qed

lemma saving_new_ok: "saving_ok (saving_new d t)"
  by (simp add: saving_ok_def saving_new_def slots_ok_def saver_new_def slot_ok_empty on_its_way_def) (simp add: empty_slot_def)

lemma saving_reachable_ok: "saving_reachable r \<Longrightarrow> saving_ok r"
  by (induction rule: saving_reachable.induct) (auto simp: saving_new_ok intro: saving_step_ok)



section \<open>How often it writes\<close>

definition apart_by :: "duration \<Rightarrow> instant list \<Rightarrow> bool" where
  "apart_by w ts \<longleftrightarrow> sorted_wrt (\<lambda>later earlier. earlier + w \<le> later) ts"

text \<open>\<open>at_least s\<close>: no earlier than a second after the last write began.\<close>

definition at_least :: "'l saver \<Rightarrow> instant \<Rightarrow> bool" where
  "at_least s t \<longleftrightarrow> (case last_write_at s of Some w \<Rightarrow> w + COALESCE_FOR \<le> t | None \<Rightarrow> True)"

definition at_most :: "'l saver \<Rightarrow> instant \<Rightarrow> instant \<Rightarrow> bool" where
  "at_most s now t \<longleftrightarrow> t \<le> (case last_write_at s of Some w \<Rightarrow> max (w + COALESCE_FOR) now | None \<Rightarrow> now)"

definition retry_late :: "'l saver \<Rightarrow> bool" where
  "retry_late s \<longleftrightarrow> (\<exists>t. retry_at s = Some t \<and> at_least s t)"

text \<open>What waits in a slot while hand-offs are coalesced; \<open>fly\<close> is its value in the write on its way.\<close>

definition calm_slot :: "'l saver \<Rightarrow> instant \<Rightarrow> 'a option \<Rightarrow> 'a slot \<Rightarrow> bool" where
  "calm_slot s now fly x \<longleftrightarrow>
     (\<forall>v t. pending x = Some (v, t) \<longrightarrow>
        at_most s now t \<and> (at_least s t \<or> retry_late s \<or> taken x \<and> fly = Some v))
     \<and> (fly = None \<longrightarrow> pending x \<noteq> None \<longrightarrow> \<not> taken x)"

definition calm_ok :: "'l saving \<Rightarrow> bool" where
  "calm_ok r \<longleftrightarrow>
     apart_by COALESCE_FOR (begun r)
     \<and> last_write_at (sv r) = (case begun r of [] \<Rightarrow> None | t # _ \<Rightarrow> Some t)
     \<and> (\<forall>t \<in> set (begun r). t \<le> wall r)
     \<and> \<not> stopping (sv r)
     \<and> (\<forall>b t out. flight r = Some (b, t, out) \<longrightarrow>
          last_write_at (sv r) = Some t \<and> (\<forall>u. retry_at (sv r) = Some u \<longrightarrow> u \<le> t))
     \<and> calm_slot (sv r) (wall r) (case flight r of Some (b, _) \<Rightarrow> batch_glass b | None \<Rightarrow> None) (glass (sv r))
     \<and> calm_slot (sv r) (wall r) (case flight r of Some (b, _) \<Rightarrow> batch_look b | None \<Rightarrow> None) (look (sv r))"

lemma due_at_calm: "now \<le> w \<Longrightarrow> at_most s w (due_at s Coalesced now) \<and> at_least s (due_at s Coalesced now)"
  by (auto simp: due_at_def at_most_def at_least_def max_def split: option.splits)

lemma calm_hand_over:
  assumes "calm_slot s w fly x" "now \<le> w"
  shows "calm_slot s w fly (hand_over v (due_at s Coalesced now) x)"
proof -
  note d = due_at_calm [OF assms(2), of s]
  show ?thesis
  proof (cases "pending x")
    case None
    then show ?thesis using d by (auto simp: calm_slot_def hand_over_def)
  next
    case (Some p)
    obtain u t where p: "p = (u, t)" by (cases p)
    show ?thesis
    proof (cases "taken x")
      case True
      then show ?thesis using d by (auto simp: calm_slot_def hand_over_def Some)
    next
      case False
      then have "at_most s w t \<and> (at_least s t \<or> retry_late s)" using assms(1) Some p by (simp add: calm_slot_def)
      then show ?thesis using d False by (auto simp: calm_slot_def hand_over_def Some p min_def)
    qed
  qed
qed

lemma calm_slot_same:
  "last_write_at s' = last_write_at s \<Longrightarrow> retry_at s' = retry_at s \<Longrightarrow> calm_slot s' w fly x = calm_slot s w fly x"
  by (simp add: calm_slot_def at_most_def at_least_def retry_late_def)

lemma calm_slot_later: "calm_slot s w fly x \<Longrightarrow> w \<le> w' \<Longrightarrow> calm_slot s w' fly x"
  by (fastforce simp: calm_slot_def at_most_def split: option.splits)

lemma calm_slot_empty: "calm_slot s w fly (x\<lparr>pending := None, written := a\<rparr>)" "pending x = None \<Longrightarrow> calm_slot s w fly x"
  by (simp_all add: calm_slot_def)

lemma calm_drop: "calm_slot s w None x \<Longrightarrow> calm_slot s w None (drop_written x)"
  by (auto simp: calm_slot_def drop_written_def split: option.splits)


lemma calm_due:
  assumes "calm_slot s now None x" "due_value (Some now) x = Some v" "case retry_at s of Some t \<Rightarrow> t \<le> now | None \<Rightarrow> True"
  shows "at_least s now"
proof -
  obtain t where t: "pending x = Some (v, t)" "t \<le> now"
    using assms(2) by (auto simp: due_value_def split: option.splits if_splits)
  then have "at_least s t \<or> retry_late s" using assms(1) by (simp add: calm_slot_def)
  then show ?thesis using t(2) assms(3) by (auto simp: at_least_def retry_late_def split: option.splits)
qed

lemma calm_all_due: "calm_slot s now fly x \<Longrightarrow> at_least s now \<Longrightarrow> pending x = Some (v, t) \<Longrightarrow> t \<le> now"
  by (auto simp: calm_slot_def at_most_def at_least_def split: option.splits)

lemma calm_slot_begun:
  assumes "calm_slot s now None x" "at_least s now" "now \<le> moment" "last_write_at s' = Some moment"
  shows "calm_slot s' moment (due_value (Some now) x) (x\<lparr>taken := (due_value (Some now) x \<noteq> None)\<rparr>)"
proof -
  have "due_value (Some now) x = Some v \<and> t \<le> moment" if "pending x = Some (v, t)" for v t
    using calm_all_due [OF assms(1,2) that] that assms(3) by (simp add: due_value_def)
  then show ?thesis using assms(4) by (auto simp: calm_slot_def at_most_def due_value_def)
qed

lemma thread_begins:
  assumes "thread_look now moment s = (s', Writes b)" "\<not> stopping s"
    "calm_slot s now None (glass s)" "calm_slot s now None (look s)" "now \<le> moment"
  shows "at_least s now" "last_write_at s' = Some moment" "\<not> stopping s'" "retry_at s' = retry_at s"
    "case retry_at s of Some t \<Rightarrow> t \<le> now | None \<Rightarrow> True"
    "calm_slot s' moment (batch_glass b) (glass s')" "calm_slot s' moment (batch_look b) (look s')"
proof -
  let ?g = "drop_written (glass s)" and ?k = "drop_written (look s)"
  let ?dg = "due_value (Some now) ?g" and ?dk = "due_value (Some now) ?k"
  have t: "case retry_at s of Some t \<Rightarrow> t \<le> now | None \<Rightarrow> True"
    and s': "s' = s\<lparr>glass := ?g\<lparr>taken := (?dg \<noteq> None)\<rparr>, look := ?k\<lparr>taken := (?dk \<noteq> None)\<rparr>, last_write_at := Some moment, writing := True\<rparr>"
    and b: "b = \<lparr>batch_glass = ?dg, batch_look = ?dk\<rparr>" and some: "?dg \<noteq> None \<or> ?dk \<noteq> None"
    using assms(1,2) by (auto simp: thread_look_def take_batch_def Let_def split: if_splits option.splits)
  have g: "calm_slot s now None ?g" and k: "calm_slot s now None ?k" using assms(3,4) by (simp_all add: calm_drop)
  show l: "at_least s now" using some calm_due [OF g _ t] calm_due [OF k _ t] by auto
  show "last_write_at s' = Some moment" "\<not> stopping s'" "retry_at s' = retry_at s" using assms(2) by (simp_all add: s')
  show "case retry_at s of Some t \<Rightarrow> t \<le> now | None \<Rightarrow> True" by (rule t)
  show "calm_slot s' moment (batch_glass b) (glass s')" "calm_slot s' moment (batch_look b) (look s')"
    using calm_slot_begun [OF g l assms(5), of s'] calm_slot_begun [OF k l assms(5), of s'] by (simp_all add: s' b)
qed

lemma retry_wait_least: "RETRY_AFTER \<le> retry_wait n"
proof -
  have "(1 :: nat) \<le> 2 ^ min (n - 1) 8" by simp
  then have "RETRY_AFTER * 1 \<le> RETRY_AFTER * 2 ^ min (n - 1) 8" by (rule mult_le_mono2)
  then show ?thesis by (simp add: retry_wait_def RETRY_AFTER_def RETRY_AT_MOST_def)
qed

lemma calm_slot_done:
  assumes "calm_slot s w fly x" "\<not> retry_late s" "last_write_at s' = last_write_at s"
  shows "calm_slot s' w None (case fly of Some v \<Rightarrow> (forget_value v x)\<lparr>taken := False, written := y\<rparr> | None \<Rightarrow> x\<lparr>taken := False\<rparr>)"
  using assms by (cases fly) (auto simp: calm_slot_def forget_value_def at_most_def at_least_def split: option.splits)

lemma calm_slot_failed:
  assumes "calm_slot s w fly x" "retry_late s'" "last_write_at s' = last_write_at s"
  shows "calm_slot s' w None (x\<lparr>taken := False\<rparr>)"
  using assms by (auto simp: calm_slot_def at_most_def)


lemma write_done_calm:
  assumes "write_done b out t now s = (s', w)" "\<not> stopping s" "last_write_at s = Some t" "t \<le> now" "\<forall>u. retry_at s = Some u \<longrightarrow> u \<le> t"
    "calm_slot s now (batch_glass b) (glass s)" "calm_slot s now (batch_look b) (look s)"
  shows "\<not> stopping s'" "last_write_at s' = Some t" "calm_slot s' now None (glass s')" "calm_slot s' now None (look s')"
proof -
  have never: "\<not> retry_late s" using assms(3,5) by (auto simp: retry_late_def at_least_def COALESCE_FOR_def)
  have "\<not> stopping s' \<and> last_write_at s' = Some t \<and> calm_slot s' now None (glass s') \<and> calm_slot s' now None (look s')"
  proof (cases out)
    case (Inr landed)
    have f: "glass s' = (case batch_glass b of
            Some v \<Rightarrow> (forget_value v (glass s))\<lparr>taken := False, written := (if landed then Some v else None)\<rparr> | None \<Rightarrow> (glass s)\<lparr>taken := False\<rparr>)"
      "look s' = (case batch_look b of Some v \<Rightarrow> (forget_value v (look s))\<lparr>taken := False, written := Some v\<rparr> | None \<Rightarrow> (look s)\<lparr>taken := False\<rparr>)"
      "stopping s' = stopping s" "last_write_at s' = last_write_at s"
      using assms(1) by (auto simp: write_done_def finish_batch_def Let_def Inr split: option.splits)
    show ?thesis using assms(2,3) calm_slot_done [OF assms(6) never f(4)] 
      calm_slot_done [OF assms(7) never f(4)] unfolding f
      by (cases "batch_glass b"; cases "batch_look b") auto
  next
    case (Inl error)
    have f: "glass s' = (glass s)\<lparr>taken := False\<rparr>" "look s' = (look s)\<lparr>taken := False\<rparr>" "stopping s' = stopping s"
      "last_write_at s' = last_write_at s" "\<exists>n. retry_at s' = Some (now + retry_wait n)"
      using assms(1,2) by (auto simp: write_done_def finish_batch_def Let_def Inl split: if_splits)
    then have "retry_late s'" using assms(3,4) retry_wait_least
      by (auto simp: retry_late_def at_least_def COALESCE_FOR_def RETRY_AFTER_def intro: add_mono)
    then show ?thesis using assms(2,3) calm_slot_failed [OF assms(6) _ f(4)] calm_slot_failed [OF assms(7) _ f(4)] by (simp add: f)
  qed
  then show "\<not> stopping s'" "last_write_at s' = Some t" "calm_slot s' now None (glass s')" "calm_slot s' now None (look s')" by simp_all
qed

lemma calm_okD:
  assumes "calm_ok r"
  shows "apart_by COALESCE_FOR (begun r)" "last_write_at (sv r) = (case begun r of [] \<Rightarrow> None | t # _ \<Rightarrow> Some t)"
    "\<forall>t \<in> set (begun r). t \<le> wall r" "\<not> stopping (sv r)"
    "flight r = Some (b, t, out) \<Longrightarrow> last_write_at (sv r) = Some t \<and> (\<forall>u. retry_at (sv r) = Some u \<longrightarrow> u \<le> t)"
    "calm_slot (sv r) (wall r) (case flight r of Some (b, _) \<Rightarrow> batch_glass b | None \<Rightarrow> None) (glass (sv r))"
    "calm_slot (sv r) (wall r) (case flight r of Some (b, _) \<Rightarrow> batch_look b | None \<Rightarrow> None) (look (sv r))"
  using assms unfolding calm_ok_def by blast+

text \<open>A change of the saver that leaves its times and its flags alone, and both slots calm.\<close>

lemma calm_ok_change:
  assumes "calm_ok r" "last_write_at s = last_write_at (sv r)" "retry_at s = retry_at (sv r)" "stopping s = stopping (sv r)"
    "calm_slot (sv r) (wall r) (case flight r of Some (b, _) \<Rightarrow> batch_glass b | None \<Rightarrow> None) (glass s)"
    "calm_slot (sv r) (wall r) (case flight r of Some (b, _) \<Rightarrow> batch_look b | None \<Rightarrow> None) (look s)"
  shows "calm_ok (r\<lparr>sv := s, disk := d, wanted_glass := g, wanted_look := l, calm := c\<rparr>)"
  using assms calm_slot_same [OF assms(2,3), of _ _ "glass s"] calm_slot_same [OF assms(2,3), of _ _ "look s"]
  unfolding calm_ok_def by (clarsimp; simp)

lemma keep_threaded:
  "keep_glass fault now ended v u (s, d) = ((s', d'), w) \<Longrightarrow> threaded s \<Longrightarrow>
     s' = (if ignores s then s else s\<lparr>glass := hand_over v (due_at s u now) (glass s)\<rparr>) \<and> d' = d"
  "keep_look fault now ended k u (s, d) = ((s', d'), w) \<Longrightarrow> threaded s \<Longrightarrow>
     s' = (if ignores s then s else s\<lparr>look := hand_over k (due_at s u now) (look s)\<rparr>) \<and> d' = d"
  by (auto simp: keep_glass_def keep_look_def handed_over_def ignores_def)


lemma calm_ok_disk [simp]: "calm_ok (r\<lparr>disk := d\<rparr>) = calm_ok r"
  unfolding calm_ok_def by simp

lemma calm_step: "saving_step r r' \<Longrightarrow> (calm r \<Longrightarrow> calm_ok r) \<Longrightarrow> calm r' \<Longrightarrow> calm_ok r'"
proof (induction rule: saving_step.induct)
  case (hand_glass fault now ended save u r s d w)
  then have ok: "calm_ok r" and u: "u = Coalesced" "threaded (sv r)" by simp_all
  note k = keep_threaded(1) [OF hand_glass(1) u(2)] and c = calm_okD [OF ok]
  have "calm_ok (r\<lparr>sv := s, disk := d, wanted_glass := g, wanted_look := l, calm := e\<rparr>)" for g l e
    by (rule calm_ok_change [OF ok]) (use k u c(6,7) calm_hand_over [OF c(6) hand_glass(2)] in auto)
  from this [where l = "wanted_look r"] show ?case by simp
next
  case (hand_look fault now ended save u r s d w)
  then have ok: "calm_ok r" and u: "u = Coalesced" "threaded (sv r)" by simp_all
  note k = keep_threaded(2) [OF hand_look(1) u(2)] and c = calm_okD [OF ok]
  have "calm_ok (r\<lparr>sv := s, disk := d, wanted_glass := g, wanted_look := l, calm := e\<rparr>)" for g l e
    by (rule calm_ok_change [OF ok]) (use k u c(6,7) calm_hand_over [OF c(7) hand_look(2)] in auto)
  from this [where g = "wanted_glass r"] show ?case by simp
next
  case (let_go r)
  then have ok: "calm_ok r" by simp
  have "calm_ok (r\<lparr>sv := let_go_of_glass (sv r), disk := d, wanted_glass := g, wanted_look := l, calm := e\<rparr>)" for d g l e
    by (rule calm_ok_change [OF ok]) (use calm_okD(7) [OF ok] in \<open>auto simp: let_go_of_glass_def calm_slot_empty\<close>)
  from this [where d = "disk r" and g = None and l = "wanted_look r" and e = "calm r"] show ?case by simp
next
  case (glass_moves d r)
  then show ?case by simp
next
  case (elsewhere d r)
  then show ?case by simp
next
  case (asks_counts r s c)
  then have ok: "calm_ok r" by simp
  have "calm_ok (r\<lparr>sv := s, disk := d, wanted_glass := g, wanted_look := l, calm := e\<rparr>)" for d g l e
    by (rule calm_ok_change [OF ok]) (use asks_counts(1) calm_okD(6,7) [OF ok] in \<open>auto simp: take_counts_def\<close>)
  from this [where d = "disk r" and g = "wanted_glass r" and l = "wanted_look r" and e = "calm r"] show ?case by simp
next
  case (starts spawned r s running)
  then have ok: "calm_ok r" by simp
  have "calm_ok (r\<lparr>sv := s, disk := d, wanted_glass := g, wanted_look := l, calm := e\<rparr>)" for d g l e
    by (rule calm_ok_change [OF ok])
      (use starts(1) calm_okD(6,7) [OF ok] in \<open>auto simp: start_thread_def split: if_splits\<close>)
  from this [where d = "disk r" and g = "wanted_glass r" and l = "wanted_look r" and e = "calm r"] show ?case by simp
next
  case (time r t)
  then have ok: "calm_ok r" by simp
  note c = calm_okD [OF ok]
  have "\<forall>u \<in> set (begun r). u \<le> t" using c(3) time(1) by (meson le_trans)
  moreover have "\<forall>b u out. flight r = Some (b, u, out) \<longrightarrow> last_write_at (sv r) = Some u \<and> (\<forall>v. retry_at (sv r) = Some v \<longrightarrow> v \<le> u)"
    using c(5) by blast
  ultimately show ?case using c(1,2,4) calm_slot_later [OF c(6) time(1)] calm_slot_later [OF c(7) time(1)]
    unfolding calm_ok_def by (clarsimp; simp)
next
  case (sleeps r moment s t)
  then have ok: "calm_ok r" by simp
  note c = calm_okD [OF ok]
  have s: "s = sv r \<or> s = (sv r)\<lparr>glass := drop_written (glass (sv r)), look := drop_written (look (sv r))\<rparr>"
    using sleeps(3) c(4) by (auto simp: thread_look_def take_batch_def Let_def split: if_splits option.splits)
  have "calm_ok (r\<lparr>sv := s, disk := d, wanted_glass := g, wanted_look := l, calm := e\<rparr>)" for d g l e
    by (rule calm_ok_change [OF ok]) (use s sleeps(2) c(6,7) calm_drop in auto)
  from this [where d = "disk r" and g = "wanted_glass r" and l = "wanted_look r" and e = "calm r"] show ?case by simp
next
  case (ends r moment s)
  then have "\<not> stopping (sv r)" using calm_okD(4) by simp
  then show ?case using ends(3) by (simp add: thread_look_def split: prod.splits option.splits if_splits)
next
  case (begins r moment s b)
  then have ok: "calm_ok r" by simp
  note c = calm_okD [OF ok]
  note t = thread_begins [OF begins(3) c(4) _ _ begins(4)]
  have g: "calm_slot (sv r) (wall r) None (glass (sv r))" and k: "calm_slot (sv r) (wall r) None (look (sv r))"
    using c(6,7) begins(2) by simp_all
  note t = t [OF g k]
  have "apart_by COALESCE_FOR (moment # begun r)"
  proof (cases "begun r")
    case Nil
    then show ?thesis by (simp add: apart_by_def)
  next
    case (Cons l ls)
    then have "l + COALESCE_FOR \<le> moment" using t(1) c(2) begins(4) by (simp add: at_least_def)
    moreover have "u \<le> l" if "u \<in> set ls" for u using c(1) that by (fastforce simp: Cons apart_by_def)
    ultimately show ?thesis using c(1) by (fastforce simp: Cons apart_by_def)
  qed
  moreover have "u \<le> moment" if "u \<in> set (begun r)" for u using c(3) that begins(4) by (meson le_trans)
  moreover have "u \<le> moment" if "retry_at s = Some u" for u
    using t(5) that [unfolded t(4)] begins(4) by (auto split: option.splits)
  ultimately show ?case using t(2,3,6,7) by (simp add: calm_ok_def)
next
  case (writes r b t d outcome)
  then have ok: "calm_ok r" by simp
  show ?case using calm_okD(1-4,6,7) [OF ok] calm_okD(5) [OF ok writes(1)] writes(1) by (simp add: calm_ok_def)
next
  case (is_done r b t outcome s w)
  then have ok: "calm_ok r" by simp
  note c = calm_okD [OF ok]
  have l: "last_write_at (sv r) = Some t" "\<forall>u. retry_at (sv r) = Some u \<longrightarrow> u \<le> t" using c(5) [OF is_done(1)] by simp_all
  then have "t \<le> wall r" using c(2,3) by (auto split: list.splits)
  from write_done_calm [OF is_done(2) c(4) l(1) this l(2)] c(6,7) is_done(1)
  have "\<not> stopping s" "last_write_at s = Some t" "calm_slot s (wall r) None (glass s)" "calm_slot s (wall r) None (look s)" by simp_all
  then show ?case using c(1-3) l(1) by (simp add: calm_ok_def)
qed simp_all

lemma saving_new_calm: "calm_ok (saving_new d t)"
  by (simp add: calm_ok_def saving_new_def saver_new_def apart_by_def calm_slot_def empty_slot_def)

text \<open>
  While the text only scrolls (coalesced hand-offs, whatever the glass and the disk do), the thread
  begins two writes a second apart at least, however slow the disk is and however often it fails.
\<close>

theorem coalesced_writes_are_apart:
  assumes "saving_reachable r" "calm r"
  shows "apart_by COALESCE_FOR (begun r)"
proof -
  from assms(1) have "calm r \<Longrightarrow> calm_ok r"
    by (induction rule: saving_reachable.induct) (use saving_new_calm calm_step in blast)+
  then show ?thesis using assms(2) calm_okD(1) by blast
qed


section \<open>Sleeping and stopping\<close>

text \<open>
  The thread never sleeps past a save: when it sleeps, what waits is not due before it wakes, a
  millisecond and a failed write's pause aside.
\<close>

theorem no_save_is_slept_through:
  assumes "thread_look now moment s = (s', Sleeps t)"
    and "pending (glass s') = Some (g, due) \<or> pending (look s') = Some (l, due)"
  shows "now + t \<le> max (max due (case retry_at s' of Some r \<Rightarrow> r | None \<Rightarrow> 0)) (now + from_millis 1)"
proof -
  let ?dues = "slot_due (glass s') @ slot_due (look s')"
  have t: "t = next_wake s' now" using assms(1) by (auto simp: thread_look_def split: prod.splits option.splits if_splits)
  have "due \<in> set ?dues" using assms(2) by (auto simp: slot_due_def)
  then have m: "?dues \<noteq> []" "Min (set ?dues) \<le> due" by (auto simp del: set_append)
  have "max (x - now) (from_millis 1) + now = max (max x now) (now + from_millis 1)" for x :: nat by auto
  then show ?thesis using m unfolding t next_wake_def Let_def by (auto simp: max_def split: option.splits)
qed

text \<open>
  C37. A stop ends in two turns: what waited when it was asked is written in one transaction, or given
  up with a line in the log, and the next look ends the thread; nothing handed over meanwhile is taken.
\<close>

theorem stop_writes_and_ends:
  assumes "stopping s" "thread_look now moment s = (s1, Writes b)"
    and "write_batch fault b d = (d', out)" "write_done b out t ended s1 = (s2, w)"
  shows "snd (thread_look now' moment' s2) = Ends
    \<and> keep_glass f n e g u (s1, d) = ((s1, d), None) \<and> keep_look f n e k u (s1, d) = ((s1, d), None)
    \<and> (case fault of
         None \<Rightarrow> (case pending (look s1) of Some (l, _) \<Rightarrow> stored_look d' = l | None \<Rightarrow> True)
           \<and> (case pending (glass s1) of Some (v, _) \<Rightarrow> glass_revision v \<le> stored_revision d \<longrightarrow> has_glass d' v | None \<Rightarrow> True)
       | Some _ \<Rightarrow> w \<noteq> None)"
proof -
  let ?g = "drop_written (glass s)" and ?k = "drop_written (look s)"
  have s1: "stopping s1" "glass s1 = ?g\<lparr>taken := (due_value None ?g \<noteq> None)\<rparr>" "look s1 = ?k\<lparr>taken := (due_value None ?k \<noteq> None)\<rparr>"
    and b: "b = \<lparr>batch_glass = due_value None ?g, batch_look = due_value None ?k\<rparr>"
    using assms(1,2) by (auto simp: thread_look_def take_batch_def Let_def split: if_splits option.splits)
  have v: "due_value None x = map_option fst (pending x)" for x :: "'x slot" by (auto simp: due_value_def split: option.splits)
  have p: "pending (glass s2) = None \<and> pending (look s2) = None \<and> stopping s2"
    using assms(4) s1 b
    by (cases out; cases "pending ?g"; cases "pending ?k")
      (auto simp: write_done_def finish_batch_def Let_def v forget_value_def)
  then have "take_batch None moment' s2 = (s2\<lparr>glass := drop_written (glass s2), look := drop_written (look s2)\<rparr>, None)"
    by (simp add: take_batch_def Let_def drop_written_def due_value_def)
  then have "snd (thread_look now' moment' s2) = Ends" using p by (simp add: thread_look_def)
  moreover have "case fault of
         None \<Rightarrow> (case pending (look s1) of Some (l, _) \<Rightarrow> stored_look d' = l | None \<Rightarrow> True)
           \<and> (case pending (glass s1) of Some (v, _) \<Rightarrow> glass_revision v \<le> stored_revision d \<longrightarrow> has_glass d' v | None \<Rightarrow> True)
       | Some _ \<Rightarrow> w \<noteq> None"
  proof (cases fault)
    case None
    with assms(3) have w: "write_batch None b d = (d', out)" by simp
    show ?thesis using None write_batch_parts(3,5) [OF w] s1 b by (auto simp: v has_look_def split: option.splits)
  next
    case (Some error)
    then have "out = Inl error" using assms(3) by (simp add: write_batch_def)
    then show ?thesis using assms(4) s1(1) Some by (auto simp: write_done_def finish_batch_def Let_def)
  qed
  ultimately show ?thesis using s1(1) by (simp add: keep_glass_def keep_look_def)
qed

section \<open>An example run\<close>

definition look_a :: "nat look_save" where "look_a = \<lparr>save_look = 0, size_px = 88, look_revision = 1\<rparr>"
definition look_b :: "nat look_save" where "look_b = \<lparr>save_look = 0, size_px = 92, look_revision = 2\<rparr>"

definition first_disk :: "nat saved_prompter" where
  "first_disk = \<lparr>script_values = Map.empty, glass_script = None, stored_revision = 0, stored_look = look_a\<rparr>"

definition waits :: "nat look_save \<Rightarrow> instant \<Rightarrow> nat look_save option \<Rightarrow> nat look_save slot" where
  "waits v t w = \<lparr>pending = Some (v, t), taken = False, written = w\<rparr>"

definition thread_up :: "nat saving" where
  "thread_up = (saving_new first_disk 0)\<lparr>sv := saver_new\<lparr>threaded := True\<rparr>\<rparr>"

definition handed :: "nat saving" where
  "handed = thread_up\<lparr>sv := (sv thread_up)\<lparr>look := waits look_b 0 None\<rparr>, wanted_look := Some look_b\<rparr>"

definition going :: "nat saving" where
  "going = handed\<lparr>sv := (sv handed)\<lparr>look := (waits look_b 0 None)\<lparr>taken := True\<rparr>, last_write_at := Some 0, writing := True\<rparr>,
     flight := Some (\<lparr>batch_glass = None, batch_look = Some look_b\<rparr>, 0, None), begun := [0]\<rparr>"

definition came_back :: "nat saving" where
  "came_back = going\<lparr>sv := (sv going)\<lparr>look := waits look_a COALESCE_FOR None\<rparr>, wanted_look := Some look_a\<rparr>"

definition in_place :: "nat saving" where
  "in_place = came_back\<lparr>disk := first_disk\<lparr>stored_look := look_b\<rparr>,
     flight := Some (\<lparr>batch_glass = None, batch_look = Some look_b\<rparr>, 0, Some (Inr True))\<rparr>"

lemmas run_defs = thread_up_def handed_def going_def came_back_def in_place_def waits_def saving_new_def saver_new_def first_disk_def empty_slot_def

lemma look_differs: "look_a \<noteq> look_b"
  by (simp add: look_a_def look_b_def)

lemma thread_up_reachable: "saving_reachable thread_up"
  using saving_reachable.further [OF saving_reachable.start saving_step.starts [of True "saving_new first_disk 0" "saver_new\<lparr>threaded := True\<rparr>" True]]
  by (simp add: thread_up_def start_thread_def) (simp add: saving_new_def saver_new_def)

lemma handed_reachable: "saving_reachable handed"
proof (rule saving_reachable.further [OF thread_up_reachable])
  show "saving_step thread_up handed"
    using saving_step.hand_look [of None 0 0 look_b Coalesced thread_up "sv handed" "disk handed" None]
    by (simp add: run_defs keep_look_def handed_over_def due_at_def hand_over_def ignores_def)
qed

lemma going_reachable: "saving_reachable going"
proof (rule saving_reachable.further [OF handed_reachable])
  show "saving_step handed going"
    using saving_step.begins [of handed 0 "sv going" "\<lparr>batch_glass = None, batch_look = Some look_b\<rparr>"]
    by (simp add: run_defs thread_look_def take_batch_def Let_def drop_written_def due_value_def)
qed

lemma came_back_reachable: "saving_reachable came_back"
proof (rule saving_reachable.further [OF going_reachable])
  show "saving_step going came_back"
    using saving_step.hand_look [of None 0 0 look_a Coalesced going "sv came_back" "disk came_back" None]
    by (simp add: run_defs keep_look_def handed_over_def due_at_def hand_over_def ignores_def COALESCE_FOR_def)
qed

lemma in_place_reachable: "saving_reachable in_place"
proof (rule saving_reachable.further [OF came_back_reachable])
  show "saving_step came_back in_place"
    using saving_step.writes [of came_back "\<lparr>batch_glass = None, batch_look = Some look_b\<rparr>" 0 None "disk in_place" "Inr True"]
    by (simp add: run_defs write_batch_def write_look_save_def)
qed


theorem coalesced_writes_are_apart_witness: "apart_by COALESCE_FOR (begun in_place)"
  by (rule coalesced_writes_are_apart [OF in_place_reachable]) (simp add: run_defs)

theorem no_save_is_slept_through_witness:
  "0 + COALESCE_FOR \<le> max (max COALESCE_FOR (case None of Some r \<Rightarrow> r | None \<Rightarrow> 0)) (0 + from_millis 1)"
proof -
  let ?s = "(sv thread_up)\<lparr>look := waits look_a COALESCE_FOR None\<rparr>"
  have "thread_look 0 0 ?s = (?s, Sleeps COALESCE_FOR)"
    by (simp add: run_defs thread_look_def take_batch_def Let_def drop_written_def due_value_def next_wake_def slot_due_def COALESCE_FOR_def)
  from no_save_is_slept_through [OF this, of _ COALESCE_FOR look_a] show ?thesis by (simp add: run_defs)
qed

theorem stop_writes_and_ends_witness:
  "snd (thread_look 0 0 ((sv thread_up)\<lparr>look := \<lparr>pending = None, taken = False, written = Some look_b\<rparr>, stopping := True,
      last_write_at := Some 0, counts := no_counts\<lparr>saved := 1\<rparr>\<rparr>)) = (Ends :: nat thread_turn)"
proof -
  let ?s = "(sv handed)\<lparr>stopping := True\<rparr>"
  have l: "thread_look 0 0 ?s = ((sv going)\<lparr>stopping := True\<rparr>, Writes \<lparr>batch_glass = None, batch_look = Some look_b\<rparr>)"
    by (simp add: run_defs thread_look_def take_batch_def Let_def drop_written_def due_value_def)
  have w: "write_batch None \<lparr>batch_glass = None, batch_look = Some look_b\<rparr> first_disk = (first_disk\<lparr>stored_look := look_b\<rparr>, Inr True)"
    by (simp add: write_batch_def write_look_save_def)
  have d: "write_done \<lparr>batch_glass = None, batch_look = Some look_b\<rparr> (Inr True) 0 0 ((sv going)\<lparr>stopping := True\<rparr>)
      = ((sv thread_up)\<lparr>look := \<lparr>pending = None, taken = False, written = Some look_b\<rparr>, stopping := True,
           last_write_at := Some 0, counts := no_counts\<lparr>saved := 1\<rparr>\<rparr>, None)"
    by (simp add: run_defs write_done_def finish_batch_def Let_def forget_value_def no_counts_def)
  show ?thesis using stop_writes_and_ends [OF _ l w d, of 0 0] by simp
qed

end
