(* ===== verification/Prompter_Text.thy ===== *)
theory Prompter_Text
  imports Text_Std
begin

text \<open>
  The prompter's script model (\<open>prompter/model.rs\<close>): paragraphs of runs, what an incoming text is
  cleaned of, the words and the cues of a text and which words the presenter reads. Text is its UTF-8
  bytes, and spans are byte ranges as the code has them.
\<close>

section \<open>Paragraphs\<close>

record prompter_run =
  run_text :: string
  bold :: bool
  italic :: bool
  underline :: bool

definition plain_run :: "string \<Rightarrow> prompter_run" where
  "plain_run t = \<lparr>run_text = t, bold = False, italic = False, underline = False\<rparr>"

definition same_marks :: "prompter_run \<Rightarrow> prompter_run \<Rightarrow> bool" where
  "same_marks a b \<longleftrightarrow> bold a = bold b \<and> italic a = italic b \<and> underline a = underline b"

text \<open>A paragraph is its runs.\<close>

type_synonym script_paragraph = "prompter_run list"

definition plain_paragraph :: "string \<Rightarrow> script_paragraph" where
  "plain_paragraph t = [plain_run t]"

definition paragraph_text :: "script_paragraph \<Rightarrow> string" where
  "paragraph_text p = concat (map run_text p)"

definition is_blank :: "script_paragraph \<Rightarrow> bool" where
  "is_blank p \<longleftrightarrow> list_all (\<lambda>r. trim (run_text r) = []) p"

definition add_run :: "prompter_run list \<Rightarrow> prompter_run \<Rightarrow> prompter_run list" where
  "add_run runs r =
     (if run_text r = [] then runs
      else if runs \<noteq> [] \<and> same_marks (last runs) r
      then butlast runs @ [(last runs)\<lparr>run_text := run_text (last runs) @ run_text r\<rparr>]
      else runs @ [r])"

definition normalized :: "script_paragraph \<Rightarrow> script_paragraph" where
  "normalized p = foldl add_run [] p"

section \<open>An incoming text\<close>

text \<open>\<open>is_control\<close>: U+0000 to U+001F, U+007F, and U+0080 to U+009F, which take two bytes.\<close>

fun sanitize_text :: "string \<Rightarrow> string" where
  "sanitize_text [] = []"
| "sanitize_text (c # s) =
     (if c = CHR 0xEF \<and> starts_with s [CHR 0xBB, CHR 0xBF] then sanitize_text (drop 2 s)
      else if c = CHR 13 then CHR 10 # sanitize_text (if starts_with s [CHR 10] then drop 1 s else s)
      else if c = CHR 0xC2 \<and> starts_with s [CHR 0x85] then CHR 10 # sanitize_text (drop 1 s)
      else if c = CHR 0xE2 \<and> (starts_with s [CHR 0x80, CHR 0xA8] \<or> starts_with s [CHR 0x80, CHR 0xA9])
      then CHR 10 # sanitize_text (drop 2 s)
      else if c = CHR 9 then CHR '' '' # sanitize_text s
      else if c = CHR 10 then CHR 10 # sanitize_text s
      else if code c < 32 \<or> code c = 127 then sanitize_text s
      else if c = CHR 0xC2 \<and> s \<noteq> [] \<and> in_range 0x80 0x9F (hd s) then sanitize_text (drop 1 s)
      else c # sanitize_text s)"

section \<open>Words and cues\<close>

text \<open>\<open>i\<close> is the offset of the text that is left, \<open>begin\<close> where a word that has begun begins.\<close>

function words_from :: "nat \<Rightarrow> nat option \<Rightarrow> string \<Rightarrow> (nat \<times> nat) list" where
  "words_from i b [] = (case b of Some x \<Rightarrow> [(x, i)] | None \<Rightarrow> [])"
| "words_from i b (c # s) =
     (let k = ws_len (c # s)
      in if k = 0 then words_from (i + 1) (case b of None \<Rightarrow> Some i | Some x \<Rightarrow> Some x) s
         else (case b of Some x \<Rightarrow> [(x, i)] | None \<Rightarrow> []) @ words_from (i + k) None (drop k (c # s)))"
  by pat_completeness auto
termination
proof (relation "measure (\<lambda>(i, b, s). length s)")
  fix i :: nat and b :: "nat option" and c :: char and s x
  assume "x = ws_len (c # s)" "x \<noteq> 0"
  then show "((i + x, None, drop x (c # s)), i, b, c # s) \<in> measure (\<lambda>(i, b, s). length s)" by (cases x) auto
qed simp_all

declare words_from.simps(2) [simp del]

definition word_spans :: "string \<Rightarrow> (nat \<times> nat) list" where
  "word_spans t = words_from 0 None t"

fun cues_from :: "nat \<Rightarrow> nat option \<Rightarrow> string \<Rightarrow> (nat \<times> nat) list" where
  "cues_from i op [] = []"
| "cues_from i op (c # s) =
     (if c = CHR ''['' \<and> op = None then cues_from (i + 1) (Some i) s
      else if c = CHR '']''
      then (case op of Some b \<Rightarrow> (b, i + 1) # cues_from (i + 1) None s | None \<Rightarrow> cues_from (i + 1) None s)
      else if c = CHR 10 then cues_from (i + 1) None s
      else cues_from (i + 1) op s)"

definition cue_spans :: "string \<Rightarrow> (nat \<times> nat) list" where
  "cue_spans t = cues_from 0 None t"

definition paragraph_word_count :: "script_paragraph \<Rightarrow> nat" where
  "paragraph_word_count p = length (word_spans (paragraph_text p))"

definition word_count :: "script_paragraph list \<Rightarrow> nat" where
  "word_count ps = sum_list (map paragraph_word_count ps)"

text \<open>Whether the bytes from \<open>i\<close> to \<open>e\<close> have one outside the cues, which are in order.\<close>

fun outside :: "(nat \<times> nat) list \<Rightarrow> nat \<Rightarrow> nat \<Rightarrow> bool" where
  "outside [] i e = (i < e)"
| "outside ((b, ce) # cues) i e = (if i < e then (if b \<le> i then outside cues (max i ce) e else True) else False)"

fun read_pass :: "(nat \<times> nat) list \<Rightarrow> (nat \<times> nat) list \<Rightarrow> bool list" where
  "read_pass cues [] = []"
| "read_pass cues ((b, e) # words) =
     (let left = dropWhile (\<lambda>(_, ce). ce \<le> b) cues in outside left b e # read_pass left words)"

definition read_flags :: "script_paragraph \<Rightarrow> bool list" where
  "read_flags p = (let t = paragraph_text p in read_pass (cue_spans t) (word_spans t))"

definition read_word_count :: "script_paragraph list \<Rightarrow> nat" where
  "read_word_count ps = sum_list (map (\<lambda>p. length (filter id (read_flags p))) ps)"

record cue_target =
  target_paragraph :: nat
  target_word :: nat
  target_text :: string

text \<open>One line of a paragraph, at its offset.\<close>

definition line_cue :: "nat \<Rightarrow> (nat \<times> nat) list \<Rightarrow> nat \<Rightarrow> string \<Rightarrow> cue_target option" where
  "line_cue p words start l =
     (let t = trim l
      in if 2 \<le> length t \<and> cue_spans t = [(0, length t)]
         then Some \<lparr>target_paragraph = p,
                    target_word = length (takeWhile (\<lambda>(b, _). b < start + (length l - length (trim_start l))) words),
                    target_text = trim (take (length t - 2) (drop 1 t))\<rparr>
         else None)"

fun lines_cues :: "nat \<Rightarrow> (nat \<times> nat) list \<Rightarrow> nat \<Rightarrow> string list \<Rightarrow> cue_target list" where
  "lines_cues p words start [] = []"
| "lines_cues p words start (l # ls) =
     (case line_cue p words start l of Some t \<Rightarrow> [t] | None \<Rightarrow> []) @ lines_cues p words (start + length l + 1) ls"

definition cue_targets :: "script_paragraph list \<Rightarrow> cue_target list" where
  "cue_targets ps =
     concat (map (\<lambda>(i, p). let t = paragraph_text p in lines_cues i (word_spans t) 0 (split_on (CHR 10) t)) (enumerate 0 ps))"

section \<open>Counts\<close>

definition format_count :: "nat \<Rightarrow> string" where
  "format_count n =
     (let ds = show_nat n
      in concat (map (\<lambda>(i, d). (if 0 < i \<and> (length ds - i) mod 3 = 0 then '','' else []) @ [d]) (enumerate 0 ds)))"

definition counted_as :: "nat \<Rightarrow> string \<Rightarrow> string \<Rightarrow> string" where
  "counted_as n singular plural = (if n = 1 then ''1 '' @ singular else format_count n @ '' '' @ plural)"

section \<open>Which words are read\<close>

text \<open>What the one pass stands for: a word is read when one of its bytes lies outside every cue.\<close>

definition reads :: "(nat \<times> nat) list \<Rightarrow> nat \<times> nat \<Rightarrow> bool" where
  "reads cues w \<longleftrightarrow> (\<exists>i \<in> {fst w..<snd w}. \<forall>c \<in> set cues. \<not> (fst c \<le> i \<and> i < snd c))"

text \<open>Spans in order: each with a byte in it, and each begins where the one before has ended or later.\<close>

fun spans_from :: "nat \<Rightarrow> (nat \<times> nat) list \<Rightarrow> bool" where
  "spans_from n [] = True"
| "spans_from n ((b, e) # ss) = (n \<le> b \<and> b < e \<and> spans_from e ss)"

lemma spans_from_mono: "spans_from n ss \<Longrightarrow> m \<le> n \<Longrightarrow> spans_from m ss"
  by (cases ss) auto

lemma spans_from_later: "spans_from n ss \<Longrightarrow> s \<in> set ss \<Longrightarrow> n \<le> fst s \<and> fst s < snd s"
proof (induction n ss rule: spans_from.induct)
  case (2 n b e ss)
  then show ?case by (auto dest!: 2(1))
qed simp

lemma cues_in_order: "(case op of Some b \<Rightarrow> n \<le> b \<and> b < i | None \<Rightarrow> n \<le> i) \<Longrightarrow> spans_from n (cues_from i op s)"
  by (induction i op s arbitrary: n rule: cues_from.induct) (auto split: option.splits)

lemma words_in_order: "(case b of Some x \<Rightarrow> n \<le> x \<and> x < i | None \<Rightarrow> n \<le> i) \<Longrightarrow> spans_from n (words_from i b s)"
proof (induction i b s arbitrary: n rule: words_from.induct)
  case (1 i b)
  then show ?case by (auto split: option.splits)
next
  case (2 i b c s)
  show ?case
  proof (cases "ws_len (c # s) = 0")
    case True
    with 2(1) [OF refl this, of n] 2(3) show ?thesis
      by (subst words_from.simps) (auto simp: Let_def split: option.splits)
  next
    case False
    note ih = 2(2) [OF refl False]
    show ?thesis using False ih [of n] ih [of i] 2(3)
      by (subst words_from.simps) (auto simp: Let_def split: option.splits)
  qed
qed

lemma outside_reads: "spans_from n cues \<Longrightarrow> outside cues i e = reads cues (i, e)"
proof (induction cues i e arbitrary: n rule: outside.induct)
  case (1 i e)
  then show ?case by (auto simp: reads_def)
next
  case (2 b ce cues i e)
  then have s: "b < ce" "spans_from ce cues" by simp_all
  show ?case
  proof (cases "i < e \<and> b \<le> i")
    case True
    then have "outside cues (max i ce) e = reads cues (max i ce, e)" using 2(1) s(2) by blast
    also have "\<dots> = reads ((b, ce) # cues) (i, e)"
    proof -
      have "j \<in> {max i ce..<e} \<longleftrightarrow> j \<in> {i..<e} \<and> \<not> (b \<le> j \<and> j < ce)" for j using True by auto
      then show ?thesis by (simp add: reads_def Bex_def)
    qed
    finally show ?thesis using True by simp
  next
    case False
    show ?thesis
    proof (cases "i < e")
      case False
      then show ?thesis by (simp add: reads_def)
    next
      case True
      with False have i: "i < b" by simp
      have "b \<le> fst c" if "c \<in> set ((b, ce) # cues)" for c
        using spans_from_later [OF s(2), of c] s(1) that by (cases "c = (b, ce)") simp_all
      then have "\<not> (fst c \<le> i \<and> i < snd c)" if "c \<in> set ((b, ce) # cues)" for c
        using i that by (metis leD order_trans)
      moreover have "i \<in> {i..<e}" using True by simp
      ultimately have "reads ((b, ce) # cues) (i, e)" unfolding reads_def fst_conv snd_conv by (intro bexI [of _ i] ballI)
      then show ?thesis using True False by simp
    qed
  qed
qed

lemma reads_dropped: "spans_from n cues \<Longrightarrow> b \<le> fst w \<Longrightarrow> reads (dropWhile (\<lambda>(_, ce). ce \<le> b) cues) w = reads cues w"
proof (induction n cues rule: spans_from.induct)
  case (2 n cb ce cues)
  then show ?case by (auto simp: reads_def)
qed simp

lemma dropped_in_order: "spans_from n cues \<Longrightarrow> \<exists>m. spans_from m (dropWhile f cues)"
  by (induction n cues rule: spans_from.induct) auto

lemma read_pass_reads: "spans_from m cues \<Longrightarrow> spans_from n words \<Longrightarrow> read_pass cues words = map (reads cues) words"
proof (induction cues words arbitrary: m n rule: read_pass.induct)
  case (2 cues b e words)
  let ?left = "dropWhile (\<lambda>(_, ce). ce \<le> b) cues"
  obtain k where k: "spans_from k ?left" using dropped_in_order [OF 2(2)] by blast
  have "read_pass ?left words = map (reads ?left) words" using 2(1) [OF refl k] 2(3) by auto
  moreover have "reads ?left w = reads cues w" if "w \<in> set words" for w
  proof (rule reads_dropped [OF 2(2)])
    have "e \<le> fst w" using spans_from_later [of e words w] 2(3) that by simp
    then show "b \<le> fst w" using 2(3) by simp
  qed
  moreover have "outside ?left b e = reads cues (b, e)" using outside_reads [OF k] reads_dropped [OF 2(2), of b "(b, e)"] by simp
  ultimately show ?case by (simp add: Let_def)
qed simp

text \<open>
  C38. The one pass over words and cues says of every word what checking each byte against every cue
  would: the presenter reads it exactly when a byte of it lies outside every cue.
\<close>

theorem read_flags_are_the_words_outside_cues:
  "read_flags p = map (reads (cue_spans (paragraph_text p))) (word_spans (paragraph_text p))"
proof -
  have "spans_from 0 (cue_spans t)" "spans_from 0 (word_spans t)" for t
    by (simp_all add: cue_spans_def word_spans_def cues_in_order words_in_order)
  from read_pass_reads [OF this] show ?thesis by (simp add: read_flags_def Let_def)
qed

section \<open>Runs\<close>

text \<open>Runs that need no joining: none empty, and no two neighbours of the same marks.\<close>

fun joined :: "prompter_run list \<Rightarrow> bool" where
  "joined [] = True"
| "joined [r] = (run_text r \<noteq> [])"
| "joined (r # q # rs) = (run_text r \<noteq> [] \<and> \<not> same_marks r q \<and> joined (q # rs))"

lemma joined_snoc: "joined (rs @ [r]) \<longleftrightarrow> joined rs \<and> run_text r \<noteq> [] \<and> (rs \<noteq> [] \<longrightarrow> \<not> same_marks (last rs) r)"
  by (induction rs rule: joined.induct) auto

lemma add_run_ok: "joined rs \<Longrightarrow> joined (add_run rs r) \<and> paragraph_text (add_run rs r) = paragraph_text rs @ run_text r"
proof -
  assume rs: "joined rs"
  show ?thesis
  proof (cases "rs = [] \<or> run_text r = [] \<or> \<not> same_marks (last rs) r")
    case True
    then show ?thesis using rs by (auto simp: add_run_def joined_snoc paragraph_text_def)
  next
    case False
    then obtain qs q where q: "rs = qs @ [q]" by (metis append_butlast_last_id)
    then show ?thesis using rs False
      by (auto simp: add_run_def joined_snoc paragraph_text_def same_marks_def)
  qed
qed

lemma normalized_from: "joined rs \<Longrightarrow> joined (foldl add_run rs p) \<and> paragraph_text (foldl add_run rs p) = paragraph_text rs @ paragraph_text p"
  by (induction p arbitrary: rs) (simp_all add: add_run_ok, simp_all add: paragraph_text_def)

lemma add_run_joined: "joined (rs @ [r]) \<Longrightarrow> add_run rs r = rs @ [r]"
  by (auto simp: add_run_def joined_snoc)

lemma joined_kept: "joined (rs @ p) \<Longrightarrow> foldl add_run rs p = rs @ p"
proof (induction p arbitrary: rs)
  case (Cons r p)
  have "joined (a @ b) \<Longrightarrow> joined a" for a b
    by (induction b rule: rev_induct) (auto simp: joined_snoc simp flip: append_assoc)
  then have "joined (rs @ [r])" using Cons(2) by (metis append.assoc append_Cons append_Nil)
  then show ?case using Cons by (simp add: add_run_joined)
qed simp

text \<open>
  Normalizing a paragraph leaves its text as it is and its runs joined, and a paragraph it has
  normalized as it is.
\<close>

theorem normalizing_keeps_the_text:
  "paragraph_text (normalized p) = paragraph_text p \<and> joined (normalized p) \<and> normalized (normalized p) = normalized p"
proof -
  have n: "joined (normalized p)" "paragraph_text (normalized p) = paragraph_text p"
    using normalized_from [of "[]" p] by (simp_all add: normalized_def paragraph_text_def)
  moreover have "normalized (normalized p) = normalized p" using joined_kept [of "[]" "normalized p"] n(1) by (simp add: normalized_def)
  ultimately show ?thesis by blast
qed

end
