(* ===== verification/Prompter_Edits.thy ===== *)
theory Prompter_Edits
  imports Prompter_Text "HOL-Library.Multiset"
begin

text \<open>
  Where a place in a script goes when the script's text changes (\<open>prompter/edits.rs\<close>), with the
  place of \<open>prompter/clock.rs\<close>. How alike two paragraphs are is a quotient of two word counts that the
  code rounds to an \<open>f64\<close>; here it is the pair of the counts, compared by their products. The two agree:
  a script has at most 30,000 words, so two quotients that differ do so by more than \<open>1 / 10 ^ 9\<close>, far
  over what the rounding moves them, and one half is a \<open>f64\<close>.
\<close>

section \<open>Places\<close>

text \<open>\<open>paragraph\<close> and \<open>word\<close> are \<open>u32\<close>; \<open>as u32\<close> keeps the low 32 bits of a count.\<close>

record script_place =
  place_paragraph :: nat
  place_word :: nat

definition as_u32 :: "nat \<Rightarrow> nat" where
  "as_u32 n = n mod 2 ^ 32"

definition end_of :: "script_paragraph list \<Rightarrow> script_place" where
  "end_of ps = \<lparr>place_paragraph = as_u32 (length ps), place_word = 0\<rparr>"

text \<open>The derived order: by paragraph, then by word.\<close>

definition place_le :: "script_place \<Rightarrow> script_place \<Rightarrow> bool" where
  "place_le a b \<longleftrightarrow> place_paragraph a < place_paragraph b \<or>
     place_paragraph a = place_paragraph b \<and> place_word a \<le> place_word b"

definition clamped :: "script_paragraph list \<Rightarrow> script_place \<Rightarrow> script_place" where
  "clamped ps pl =
     (if place_le (end_of ps) pl then end_of ps
      else \<lparr>place_paragraph = place_paragraph pl,
            place_word = min (place_word pl) (as_u32 (paragraph_word_count (ps ! place_paragraph pl)) - 1)\<rparr>)"

section \<open>How alike two paragraphs are\<close>

text \<open>The counts of the words of the paragraph before, each word of the one after taking one.\<close>

definition counts_of :: "string list \<Rightarrow> string \<rightharpoonup> nat" where
  "counts_of ws = foldl (\<lambda>m w. m(w \<mapsto> (case m w of Some n \<Rightarrow> n | None \<Rightarrow> 0) + 1)) Map.empty ws"

fun words_taken :: "(string \<rightharpoonup> nat) \<Rightarrow> string list \<Rightarrow> nat" where
  "words_taken m [] = 0"
| "words_taken m (w # ws) =
     (case m w of
        Some n \<Rightarrow> if 0 < n then Suc (words_taken (m(w \<mapsto> n - 1)) ws) else words_taken m ws
      | None \<Rightarrow> words_taken m ws)"

definition likeness :: "script_paragraph \<Rightarrow> script_paragraph \<Rightarrow> nat \<times> nat" where
  "likeness before after =
     (let bw = split_whitespace (paragraph_text before); aw = split_whitespace (paragraph_text after);
          longer = max (length bw) (length aw)
      in if longer = 0 then (1, 1) else (words_taken (counts_of bw) aw, longer))"

definition alike_enough :: "nat \<times> nat \<Rightarrow> bool" where
  "alike_enough q \<longleftrightarrow> snd q \<le> 2 * fst q"

definition as_alike :: "nat \<times> nat \<Rightarrow> nat \<times> nat \<Rightarrow> bool" where
  "as_alike a b \<longleftrightarrow> fst b * snd a \<le> fst a * snd b"

fun keep_best :: "(nat \<times> nat \<times> nat) option \<Rightarrow> nat \<times> nat \<times> nat \<Rightarrow> (nat \<times> nat \<times> nat) option" where
  "keep_best best x =
     (case best of
        Some (_, bl) \<Rightarrow> if as_alike bl (snd x) then best else Some x
      | None \<Rightarrow> Some x)"

definition best_match :: "script_paragraph \<Rightarrow> script_paragraph list \<Rightarrow> nat list \<Rightarrow> nat option" where
  "best_match old new candidates =
     map_option fst (foldl keep_best None
       (filter (\<lambda>(_, l). alike_enough l) (map (\<lambda>i. (i, likeness old (new ! i))) candidates)))"

section \<open>Where a place goes\<close>

definition same_start :: "script_paragraph list \<Rightarrow> script_paragraph list \<Rightarrow> nat" where
  "same_start old new = length (takeWhile (\<lambda>(b, a). b = a) (zip old new))"

definition same_end :: "script_paragraph list \<Rightarrow> script_paragraph list \<Rightarrow> nat" where
  "same_end old new =
     length (takeWhile (\<lambda>(b, a). b = a)
       (take (min (length old) (length new) - same_start old new) (zip (rev old) (rev new))))"

fun next_match :: "script_paragraph list \<Rightarrow> script_paragraph list \<Rightarrow> nat list \<Rightarrow> nat list \<Rightarrow> nat option" where
  "next_match old new candidates [] = None"
| "next_match old new candidates (i # is) =
     (case best_match (old ! i) new candidates of Some j \<Rightarrow> Some j | None \<Rightarrow> next_match old new candidates is)"

definition map_place :: "script_paragraph list \<Rightarrow> script_paragraph list \<Rightarrow> script_place \<Rightarrow> script_place \<times> bool" where
  "map_place old new pl =
     (let p = place_paragraph pl;
          prefix = same_start old new;
          suffix = same_end old new;
          at = (\<lambda>q. clamped new \<lparr>place_paragraph = as_u32 q, place_word = place_word pl\<rparr>);
          old_end = length old - suffix;
          new_end = length new - suffix;
          candidates = [prefix..<new_end]
      in if length old \<le> p then (end_of new, False)
         else if p < prefix then (at p, False)
         else if old_end \<le> p then (at (p - old_end + new_end), False)
         else (case best_match (old ! p) new candidates of
             Some i \<Rightarrow> (at i, False)
           | None \<Rightarrow>
               if old_end - prefix = new_end - prefix then (at p, False)
               else (let next = (case next_match old new candidates [p + 1..<old_end] of Some j \<Rightarrow> j | None \<Rightarrow> new_end)
                     in (clamped new \<lparr>place_paragraph = as_u32 next, place_word = 0\<rparr>, True))))"

section \<open>The words in common\<close>

definition counts_mset :: "(string \<rightharpoonup> nat) \<Rightarrow> string multiset \<Rightarrow> bool" where
  "counts_mset m M \<longleftrightarrow> (\<forall>w. count M w = (case m w of Some n \<Rightarrow> n | None \<Rightarrow> 0))"

lemma counts_from: "counts_mset m M \<Longrightarrow>
    counts_mset (foldl (\<lambda>m w. m(w \<mapsto> (case m w of Some n \<Rightarrow> n | None \<Rightarrow> 0) + 1)) m ws) (M + mset ws)"
proof (induction ws arbitrary: m M)
  case (Cons w ws)
  have "counts_mset (m(w \<mapsto> (case m w of Some n \<Rightarrow> n | None \<Rightarrow> 0) + 1)) (add_mset w M)"
    using Cons(2) by (simp add: counts_mset_def)
  from Cons(1) [OF this] show ?case by simp
qed simp

lemma counts_of_words: "counts_mset (counts_of ws) (mset ws)"
  using counts_from [of Map.empty "{#}" ws] by (simp add: counts_of_def counts_mset_def)

lemma words_taken_shared: "counts_mset m M \<Longrightarrow> words_taken m ws = size (M \<inter># mset ws)"
proof (induction ws arbitrary: m M)
  case (Cons w ws)
  show ?case
  proof (cases "w \<in># M")
    case True
    then have "0 < count M w" by simp
    with Cons(2) obtain n where n: "m w = Some n" "0 < n" by (auto simp: counts_mset_def split: option.splits)
    have "counts_mset (m(w \<mapsto> n - 1)) (M - {#w#})" using Cons(2) n by (auto simp: counts_mset_def)
    from Cons(1) [OF this] show ?thesis using n True by (simp add: inter_add_right2 del: fun_upd_apply)
  next
    case False
    then have z: "count M w = 0" by (simp add: not_in_iff)
    then have "words_taken m (w # ws) = words_taken m ws" using Cons(2) by (auto simp: counts_mset_def split: option.splits)
    then show ?thesis using Cons(1) [OF Cons(2)] False by (simp add: inter_add_right1)
  qed
qed simp

text \<open>
  The words two paragraphs have in common, which the code counts with one map, are the words of
  the intersection of the two multisets of words; so the likeness of two paragraphs is the same
  whichever of the two is the one before, and a paragraph is wholly like itself.
\<close>

theorem likeness_counts_shared_words:
  "words_taken (counts_of xs) ys = size (mset xs \<inter># mset ys) \<and> likeness a b = likeness b a \<and>
   fst (likeness a a) = snd (likeness a a)"
proof -
  have t: "words_taken (counts_of xs) ys = size (mset xs \<inter># mset ys)" for xs ys
    by (rule words_taken_shared [OF counts_of_words])
  have c: "words_taken (counts_of xs) ys = words_taken (counts_of ys) xs" for xs ys
    unfolding t by (rule arg_cong [OF multiset_eqI]) (simp add: min.commute)
  have "likeness a b = likeness b a" by (simp add: likeness_def Let_def max.commute c [of "split_whitespace (paragraph_text a)"])
  moreover have "fst (likeness a a) = snd (likeness a a)" by (simp add: likeness_def Let_def t)
  ultimately show ?thesis using t by blast
qed

section \<open>Where places go\<close>

lemma best_match_in: "best_match old new cs = Some i \<Longrightarrow> i \<in> set cs \<and> alike_enough (likeness old (new ! i))"
proof -
  have "(case best of Some x \<Rightarrow> P x | None \<Rightarrow> True) \<Longrightarrow> list_all P xs \<Longrightarrow>
      (case foldl keep_best best xs of Some x \<Rightarrow> P x | None \<Rightarrow> True)" for best xs and P :: "nat \<times> nat \<times> nat \<Rightarrow> bool"
  proof (induction xs arbitrary: best)
    case (Cons x xs)
    have "keep_best best x = best \<and> best \<noteq> None \<or> keep_best best x = Some x" by (auto split: option.splits)
    then have "case keep_best best x of Some x \<Rightarrow> P x | None \<Rightarrow> True" using Cons(2,3) by auto
    from Cons(1) [OF this] show ?case using Cons(3) by simp
  qed simp
  note kept = this
  let ?ok = "\<lambda>x. fst x \<in> set cs \<and> snd x = likeness old (new ! fst x) \<and> alike_enough (snd x)"
  let ?xs = "filter (\<lambda>(_, l). alike_enough l) (map (\<lambda>i. (i, likeness old (new ! i))) cs)"
  have "list_all ?ok ?xs" unfolding list_all_iff by clarsimp
  with kept [of ?ok None ?xs] have k: "case foldl keep_best None ?xs of Some x \<Rightarrow> ?ok x | None \<Rightarrow> True" by simp
  assume "best_match old new cs = Some i"
  then obtain x where "foldl keep_best None ?xs = Some x" "i = fst x" by (auto simp: best_match_def)
  with k show ?thesis by auto
qed

lemma best_match_none: "best_match old new cs = None \<longleftrightarrow> (\<forall>i \<in> set cs. \<not> alike_enough (likeness old (new ! i)))"
proof -
  have "foldl keep_best best xs = None \<longleftrightarrow> best = None \<and> xs = []" for best xs
    by (induction xs arbitrary: best) (auto split: option.splits)
  then show ?thesis by (auto simp: best_match_def filter_empty_conv)
qed

lemma same_start_bounds: "same_start old new \<le> length old \<and> same_start old new \<le> length new"
  using length_takeWhile_le [of "\<lambda>(b, a). b = a" "zip old new"] by (simp add: same_start_def)

lemma same_start_nth: "i < same_start old new \<Longrightarrow> new ! i = old ! i"
proof -
  assume i: "i < same_start old new"
  then have "(\<lambda>(b, a). b = a) (takeWhile (\<lambda>(b, a). b = a) (zip old new) ! i)"
    using nth_mem [of i "takeWhile (\<lambda>(b, a). b = a) (zip old new)"] set_takeWhileD unfolding same_start_def by fastforce
  then show ?thesis using i same_start_bounds [of old new] by (simp add: same_start_def takeWhile_nth)
qed

lemma same_end_bounds: "same_start old new + same_end old new \<le> min (length old) (length new)"
proof -
  have "same_end old new \<le> min (length old) (length new) - same_start old new"
    unfolding same_end_def by (rule order_trans [OF length_takeWhile_le]) simp
  then show ?thesis using same_start_bounds [of old new] by linarith
qed

lemma same_end_nth: "i < same_end old new \<Longrightarrow> new ! (length new - Suc i) = old ! (length old - Suc i)"
proof -
  let ?zs = "take (min (length old) (length new) - same_start old new) (zip (rev old) (rev new))"
  assume i: "i < same_end old new"
  then have "(\<lambda>(b, a). b = a) (takeWhile (\<lambda>(b, a). b = a) ?zs ! i)"
    using nth_mem [of i "takeWhile (\<lambda>(b, a). b = a) ?zs"] set_takeWhileD unfolding same_end_def by fastforce
  then have "fst (?zs ! i) = snd (?zs ! i)" using i by (simp add: same_end_def takeWhile_nth split_beta)
  moreover have "i < min (length old) (length new) - same_start old new"
    using i length_takeWhile_le [of "\<lambda>(b, a). b = a" ?zs] by (simp add: same_end_def)
  ultimately show ?thesis by (simp add: rev_nth)
qed

lemma same_start_least: "length pre \<le> same_start (pre @ xs) (pre @ ys)"
  by (induction pre) (auto simp: same_start_def)

lemma same_end_least:
  "length post \<le> same_end (xs @ post) (ys @ post) \<or>
   same_start (xs @ post) (ys @ post) + same_end (xs @ post) (ys @ post) = min (length (xs @ post)) (length (ys @ post))"
proof -
  let ?k = "min (length (xs @ post)) (length (ys @ post)) - same_start (xs @ post) (ys @ post)"
  have "min k (length as) \<le> length (takeWhile (\<lambda>(b, a). b = a) (take k (zip (as @ us) (as @ vs))))"
    for k and as us vs :: "script_paragraph list"
  proof (induction as arbitrary: k)
    case (Cons a as)
    show ?case using Cons [of "k - 1"] by (cases k) auto
  qed simp
  from this [of ?k "rev post" "rev xs" "rev ys"]
  have "min ?k (length post) \<le> same_end (xs @ post) (ys @ post)" by (simp add: same_end_def)
  then show ?thesis using same_end_bounds [of "xs @ post" "ys @ post"] same_start_bounds [of "xs @ post" "ys @ post"] by linarith
qed

text \<open>Scripts whose counts a \<open>u32\<close> holds.\<close>

definition small_script :: "script_paragraph list \<Rightarrow> bool" where
  "small_script ps \<longleftrightarrow> length ps < 2 ^ 32 \<and> list_all (\<lambda>p. paragraph_word_count p < 2 ^ 32) ps"

text \<open>A place in a script: at a word of a paragraph (a blank one has the word 0 alone) or at the end.\<close>

definition place_in :: "script_paragraph list \<Rightarrow> script_place \<Rightarrow> bool" where
  "place_in ps pl \<longleftrightarrow>
     (if place_paragraph pl < length ps then place_word pl < max 1 (paragraph_word_count (ps ! place_paragraph pl))
      else place_paragraph pl = length ps \<and> place_word pl = 0)"

lemma as_u32_small: "n < 2 ^ 32 \<Longrightarrow> as_u32 n = n"
  by (simp add: as_u32_def)

lemma as_u32_le: "as_u32 n \<le> n"
  by (simp add: as_u32_def)

lemma clamped_in: "small_script ps \<Longrightarrow> place_in ps (clamped ps pl)"
  by (auto simp: small_script_def place_in_def clamped_def end_of_def place_le_def as_u32_small list_all_length)

lemma clamped_kept:
  "small_script ps \<Longrightarrow> place_in ps pl \<Longrightarrow> clamped ps pl = pl"
  by (auto simp: small_script_def place_in_def clamped_def end_of_def place_le_def as_u32_small list_all_length
      intro!: script_place.equality)

text \<open>
  Wherever the place was and however the text changed, the place is one of the new text: at a word
  of one of its paragraphs or at its end. A place past the old text's end is the new text's end.
\<close>

theorem place_stays_in_the_text:
  assumes "small_script new"
  shows "place_in new (fst (map_place old new pl))"
proof -
  have "place_in new (end_of new)" using assms by (simp add: place_in_def end_of_def small_script_def as_u32_small)
  then show ?thesis using clamped_in [OF assms]
    by (auto simp: map_place_def Let_def split: option.splits)
qed

lemma unchanged_kept:
  assumes new: "small_script new" and p: "p < length old" "p < same_start old new \<or> length old - same_end old new \<le> p"
    and w: "w < max 1 (paragraph_word_count (old ! p))"
  shows "\<exists>q < length new. new ! q = old ! p \<and>
           map_place old new \<lparr>place_paragraph = p, place_word = w\<rparr> = (\<lparr>place_paragraph = q, place_word = w\<rparr>, False)"
proof (cases "p < same_start old new")
  case True
  with same_start_nth same_start_bounds [of old new] have "p < length new" "new ! p = old ! p" by force+
  moreover from this new w have "clamped new \<lparr>place_paragraph = as_u32 p, place_word = w\<rparr> = \<lparr>place_paragraph = p, place_word = w\<rparr>"
    by (subst clamped_kept) (auto simp: place_in_def small_script_def as_u32_small)
  ultimately show ?thesis using True p by (auto simp: map_place_def Let_def)
next
  case False
  with p have e: "length old - same_end old new \<le> p" by simp
  define i where "i = length old - Suc p"
  have i: "i < same_end old new" "p = length old - Suc i" using e p(1) by (auto simp: i_def)
  define q where "q = length new - Suc i"
  have q: "p - (length old - same_end old new) + (length new - same_end old new) = q"
    using i same_end_bounds [of old new] by (simp add: q_def)
  have "q < length new" "new ! q = old ! p"
    using i same_end_bounds [of old new] same_end_nth [OF i(1)] by (auto simp: q_def)
  moreover from this new w have "clamped new \<lparr>place_paragraph = as_u32 q, place_word = w\<rparr> = \<lparr>place_paragraph = q, place_word = w\<rparr>"
    by (subst clamped_kept) (auto simp: place_in_def small_script_def as_u32_small)
  ultimately show ?thesis using False p(1) e q by (auto simp: map_place_def Let_def)
qed

text \<open>
  C39. An edit in one place that adds paragraphs or rewrites them moves the reading line off no
  other paragraph: what stood before the edit or after it has its place in the new text, the same word
  of the same paragraph, and is never said to be taken away.
\<close>

theorem additions_keep_the_reading_line:
  assumes "small_script (pre @ added @ post)" "length removed \<le> length added"
    and "p < length pre \<or> length pre + length removed \<le> p" "p < length (pre @ removed @ post)"
    and "w < max 1 (paragraph_word_count ((pre @ removed @ post) ! p))"
  shows "\<exists>q < length (pre @ added @ post). (pre @ added @ post) ! q = (pre @ removed @ post) ! p \<and>
           map_place (pre @ removed @ post) (pre @ added @ post) \<lparr>place_paragraph = p, place_word = w\<rparr> =
             (\<lparr>place_paragraph = q, place_word = w\<rparr>, False)"
proof (rule unchanged_kept [OF assms(1,4) _ assms(5)])
  show "p < same_start (pre @ removed @ post) (pre @ added @ post) \<or>
        length (pre @ removed @ post) - same_end (pre @ removed @ post) (pre @ added @ post) \<le> p"
    using same_start_least [of pre "removed @ post" "added @ post"] same_end_least [of post "pre @ removed" "pre @ added"] assms(2-4)
    by (auto simp: min_def)
qed


section \<open>At work\<close>

abbreviation one_line :: "string \<Rightarrow> script_paragraph" where
  "one_line \<equiv> plain_paragraph"

lemma small_word_counts:
  "paragraph_word_count (one_line ''a b'') = 2" "paragraph_word_count (one_line ''c'') = 1"
  "paragraph_word_count (one_line ''new first'') = 2" "paragraph_word_count (one_line ''c d'') = 2"
  by code_simp+

theorem place_stays_in_the_text_witness:
  "place_in [one_line ''a b''] (fst (map_place [one_line ''a b'', one_line ''gone''] [one_line ''a b'']
     \<lparr>place_paragraph = 1, place_word = 0\<rparr>))"
  by (rule place_stays_in_the_text) (simp add: small_script_def small_word_counts)

theorem additions_keep_the_reading_line_witness:
  "\<exists>q < 3. [one_line ''new first'', one_line ''a b'', one_line ''c''] ! q = one_line ''a b'' \<and>
     map_place [one_line ''a b'', one_line ''c''] [one_line ''new first'', one_line ''a b'', one_line ''c'']
       \<lparr>place_paragraph = 0, place_word = 1\<rparr> = (\<lparr>place_paragraph = q, place_word = 1\<rparr>, False)"
proof -
  have "small_script ([] @ [one_line ''new first''] @ [one_line ''a b'', one_line ''c''])"
    by (simp add: small_script_def small_word_counts)
  from additions_keep_the_reading_line [OF this, of "[]" 0 1] show ?thesis
    by (simp add: small_word_counts numeral_3_eq_3)
qed


end
