(* ===== verification/Fixture_Catalog.thy ===== *)
theory Fixture_Catalog
  imports Text_Std
begin

text \<open>
  The catalog of fixtures (\<open>lighting/fixture_catalog/mod.rs\<close>): what the engine reads of a definition,
  its modes with their DMX channels, controls and defaults, and how a saved or a sent name comes to a
  definition and a mode. The manufacturer's names, the sources, the drawing of a fixture and a channel's
  named ranges are only handed to the page and are left out, as are a control's label, step and unit.
\<close>

section \<open>Definitions\<close>

record dmx_channel =
  offset :: int
  channel_label :: string
  control_id :: string
  value_type :: string
  default_dmx :: int

record fixture_control =
  slider_id :: string
  slider_min :: int
  slider_max :: int
  default_value :: int

record fixture_mode =
  mode_id :: string
  channel_count :: int
  capabilities :: "string list"
  channels :: "dmx_channel list"
  controls :: "fixture_control list"
  mode_defaults :: "string \<rightharpoonup> int"

record fixture_definition =
  definition_id :: string
  kind :: string
  default_mode_id :: string
  modes :: "fixture_mode list"

definition DEFAULT_FIXTURE_DEFINITION_ID :: string where
  "DEFAULT_FIXTURE_DEFINITION_ID = ''litepanels-astra-bicolor''"

definition DEFAULT_MODE_ID :: string where
  "DEFAULT_MODE_ID = ''default''"

definition DEFAULT_LIGHTING_FIXTURE_TYPE :: string where
  "DEFAULT_LIGHTING_FIXTURE_TYPE = ''astra-bicolor''"

definition dmx_mode ::
  "string \<Rightarrow> string list \<Rightarrow> dmx_channel list \<Rightarrow> fixture_control list \<Rightarrow> (string \<rightharpoonup> int) \<Rightarrow> fixture_mode" where
  "dmx_mode i caps chs ctls defaults =
     \<lparr>mode_id = i, channel_count = int (length chs), capabilities = caps, channels = chs, controls = ctls,
      mode_defaults = defaults\<rparr>"

definition no_dmx_mode :: "string \<Rightarrow> fixture_mode" where
  "no_dmx_mode i = dmx_mode i [] [] [] Map.empty"

definition ch :: "int \<Rightarrow> string \<Rightarrow> string \<Rightarrow> string \<Rightarrow> int \<Rightarrow> dmx_channel" where
  "ch off label control vt d =
     \<lparr>offset = off, channel_label = label, control_id = control, value_type = vt, default_dmx = d\<rparr>"

text \<open>The labels are ASCII: \<open>to_lowercase\<close> lowers their letters.\<close>

definition label_control :: "string \<Rightarrow> string" where
  "label_control label = map (\<lambda>c. if c = CHR ''/'' \<or> c = CHR '' '' then CHR ''-'' else c) (map to_ascii_lower label)"

definition repeated_pixel_channels :: "nat \<Rightarrow> string list \<Rightarrow> dmx_channel list" where
  "repeated_pixel_channels pixels labels =
     concat (map (\<lambda>p. map (\<lambda>(k, label).
         ch (int ((p - 1) * length labels + k + 1)) (''Px '' @ show_nat p @ '' '' @ label) (label_control label)
           (if label = ''CCT'' then ''kelvin'' else ''percent'') 0)
       (enumerate 0 labels)) [1..<pixels + 1])"

definition slider :: "string \<Rightarrow> int \<Rightarrow> int \<Rightarrow> int \<Rightarrow> fixture_control" where
  "slider i lo hi d = \<lparr>slider_id = i, slider_min = lo, slider_max = hi, default_value = d\<rparr>"

definition cct_controls :: "int \<Rightarrow> int \<Rightarrow> int \<Rightarrow> fixture_control list" where
  "cct_controls lo hi d =
     [slider ''intensity'' 0 100 100,
      slider ''cct'' lo hi d,
      slider ''green-magenta'' (- 100) 100 0,
      slider ''fan'' 0 255 0]"

definition hsi_controls :: "int \<Rightarrow> int \<Rightarrow> int \<Rightarrow> fixture_control list" where
  "hsi_controls lo hi d = cct_controls lo hi d @ [slider ''hue'' 0 359 0, slider ''saturation'' 0 100 0]"

definition rgbw_controls :: "int \<Rightarrow> int \<Rightarrow> fixture_control list" where
  "rgbw_controls lo hi =
     cct_controls lo hi 3200 @
     [slider ''red'' 0 255 255, slider ''green'' 0 255 255, slider ''blue'' 0 255 255, slider ''white'' 0 255 255]"

definition build_definition :: "string \<Rightarrow> string \<Rightarrow> string \<Rightarrow> fixture_mode list \<Rightarrow> fixture_definition" where
  "build_definition i k m ms = \<lparr>definition_id = i, kind = k, default_mode_id = m, modes = ms\<rparr>"

section \<open>The catalog\<close>

definition compatibility_definitions :: "fixture_definition list" where
  "compatibility_definitions =
     [build_definition DEFAULT_FIXTURE_DEFINITION_ID ''profile'' DEFAULT_MODE_ID
        [dmx_mode DEFAULT_MODE_ID [''intensity'', ''cct'']
           [ch 1 ''Dimmer'' ''intensity'' ''percent'' 0, ch 2 ''CCT'' ''cct'' ''kelvin'' 68]
           [slider ''intensity'' 0 100 100, slider ''cct'' 3200 5600 4400]
           (map_of [(''intensity'', 100),
                     (''cct'', 4400),
                     (''cctMin'', 3200),
                     (''cctMax'', 5600)])],
      build_definition ''aputure-infinimat-generic'' ''wash'' DEFAULT_MODE_ID
        [dmx_mode DEFAULT_MODE_ID [''intensity'', ''cct'', ''green-magenta'']
           [ch 1 ''Dimmer'' ''intensity'' ''percent'' 0,
            ch 2 ''CCT'' ''cct'' ''kelvin'' 102,
            ch 3 ''+/- G/M'' ''green-magenta'' ''offset'' 127,
            ch 4 ''Strobe'' ''strobe'' ''range'' 0]
           [slider ''intensity'' 0 100 100,
            slider ''cct'' 2000 10000 5600,
            slider ''green-magenta'' (- 100) 100 0]
           (map_of [(''intensity'', 100),
                     (''cct'', 5600),
                     (''cctMin'', 2000),
                     (''cctMax'', 10000),
                     (''green-magenta'', 0)]),
         dmx_mode ''le-1x4-rgbww-8bit'' [''intensity'', ''cct'', ''rgb'', ''pixel'']
           (repeated_pixel_channels 4 [''Dimmer'', ''CCT'', ''Red'', ''Green'', ''Blue''])
           [slider ''intensity'' 0 100 100,
            slider ''cct'' 2000 10000 5600,
            slider ''red'' 0 255 0,
            slider ''green'' 0 255 0,
            slider ''blue'' 0 255 0]
           (map_of [(''intensity'', 100),
                     (''cct'', 5600),
                     (''cctMin'', 2000),
                     (''cctMax'', 10000)])],
      build_definition ''aputure-infinibar-pb12'' ''practical'' DEFAULT_MODE_ID
        [dmx_mode DEFAULT_MODE_ID [''intensity'', ''cct'', ''green-magenta'', ''rgb'']
           [ch 1 ''Dimmer'' ''intensity'' ''percent'' 0,
            ch 2 ''CCT'' ''cct'' ''kelvin'' 102,
            ch 3 ''G/M'' ''green-magenta'' ''aputure-gm'' 132,
            ch 4 ''CCT/RGB Crossfade'' ''cct-rgb-crossfade'' ''derived'' 0,
            ch 5 ''Red'' ''red'' ''percent'' 0,
            ch 6 ''Green'' ''green'' ''percent'' 0,
            ch 7 ''Blue'' ''blue'' ''percent'' 0,
            ch 8 ''Strobe'' ''strobe'' ''range'' 0]
           [slider ''intensity'' 0 100 100,
            slider ''cct'' 2000 10000 5600,
            slider ''green-magenta'' (- 100) 100 0,
            slider ''red'' 0 255 0,
            slider ''green'' 0 255 0,
            slider ''blue'' 0 255 0]
           (map_of [(''intensity'', 100),
                     (''cct'', 5600),
                     (''cctMin'', 2000),
                     (''cctMax'', 10000),
                     (''green-magenta'', 0)]),
         dmx_mode ''pixel-rgb-48'' [''rgb'', ''pixel'']
           (repeated_pixel_channels 48 [''Red'', ''Green'', ''Blue''])
           [slider ''red'' 0 255 0, slider ''green'' 0 255 0, slider ''blue'' 0 255 0]
           (map_of [(''red'', 0), (''green'', 0), (''blue'', 0)])],
      build_definition ''litepanels-apollo-bridge'' ''control-node'' DEFAULT_MODE_ID
        [no_dmx_mode DEFAULT_MODE_ID]]"

definition storm_80c_definition :: "fixture_definition" where
  "storm_80c_definition =
     build_definition ''aputure-storm-80c'' ''beam'' ''cct-rgb-8bit-7ch''
       [dmx_mode ''cct-rgb-8bit-7ch'' [''intensity'', ''cct'', ''rgb'', ''green-magenta'']
          [ch 1 ''Dimmer'' ''intensity'' ''percent'' 0,
           ch 2 ''CCT'' ''cct'' ''kelvin'' 49,
           ch 3 ''+/- Green'' ''green-magenta'' ''offset'' 127,
           ch 4 ''Red'' ''red'' ''percent'' 0,
           ch 5 ''Green'' ''green'' ''percent'' 0,
           ch 6 ''Blue'' ''blue'' ''percent'' 0,
           ch 7 ''Color Crossfade'' ''mix'' ''percent'' 0]
          [slider ''intensity'' 0 100 100,
           slider ''cct'' 1800 20000 5600,
           slider ''green-magenta'' (- 100) 100 0,
           slider ''red'' 0 255 0,
           slider ''green'' 0 255 0,
           slider ''blue'' 0 255 0]
          (map_of [(''intensity'', 100),
                    (''cct'', 5600),
                    (''cctMin'', 1800),
                    (''cctMax'', 20000)]),
        dmx_mode ''hsic-control-16bit-13ch'' [''intensity'', ''hsi'', ''cct'', ''green-magenta'', ''control'']
          [ch 1 ''Dimmer coarse'' ''intensity'' ''percent'' 0,
           ch 2 ''Dimmer fine'' ''intensity'' ''fine'' 0,
           ch 3 ''Hue coarse'' ''hue'' ''degrees'' 0,
           ch 4 ''Hue fine'' ''hue'' ''fine'' 0,
           ch 5 ''Saturation coarse'' ''saturation'' ''percent'' 0,
           ch 6 ''Saturation fine'' ''saturation'' ''fine'' 0,
           ch 7 ''CCT coarse'' ''cct'' ''kelvin'' 49,
           ch 8 ''CCT fine'' ''cct'' ''fine'' 0,
           ch 9 ''+/- Green coarse'' ''green-magenta'' ''offset'' 127,
           ch 10 ''+/- Green fine'' ''green-magenta'' ''fine'' 0,
           ch 11 ''Control'' ''control'' ''range'' 0,
           ch 12 ''Fan'' ''fan'' ''range'' 0,
           ch 13 ''Dimming Curve'' ''dimming-curve'' ''range'' 0]
          [slider ''intensity'' 0 100 100,
           slider ''hue'' 0 359 0,
           slider ''saturation'' 0 100 0,
           slider ''cct'' 1800 20000 5600,
           slider ''green-magenta'' (- 100) 100 0]
          (map_of [(''intensity'', 100),
                    (''cct'', 5600),
                    (''cctMin'', 1800),
                    (''cctMax'', 20000),
                    (''hue'', 0),
                    (''saturation'', 0)])]"

definition storm_1200x_definition :: "fixture_definition" where
  "storm_1200x_definition =
     build_definition ''aputure-storm-1200x'' ''beam'' ''cct-plus-8bit-3ch''
       [dmx_mode ''cct-plus-8bit-3ch'' [''intensity'', ''cct'', ''green-magenta'']
          [ch 1 ''Dimmer'' ''intensity'' ''percent'' 0,
           ch 2 ''CCT'' ''cct'' ''kelvin'' 91,
           ch 3 ''+/- Green'' ''green-magenta'' ''offset'' 127]
          [slider ''intensity'' 0 100 100,
           slider ''cct'' 2500 10000 5600,
           slider ''green-magenta'' (- 100) 100 0]
          (map_of [(''intensity'', 100),
                    (''cct'', 5600),
                    (''cctMin'', 2500),
                    (''cctMax'', 10000)])]"

definition aputure_verified_definitions :: "fixture_definition list" where
  "aputure_verified_definitions =
     [build_definition ''aputure-ls-600d-pro'' ''beam'' ''5ch-fx''
        [dmx_mode ''5ch-fx'' [''intensity'']
           [ch 1 ''Dimmer'' ''intensity'' ''percent'' 0,
            ch 2 ''Mode Selection'' ''mode'' ''range'' 0,
            ch 3 ''FX Control'' ''fx'' ''range'' 0,
            ch 4 ''FX Frequency'' ''speed'' ''range'' 0,
            ch 5 ''FX Trigger'' ''trigger'' ''range'' 0]
           [slider ''intensity'' 0 100 100]
           (map_of [(''intensity'', 100),
                     (''cct'', 5600),
                     (''cctMin'', 5600),
                     (''cctMax'', 5600)])],
      storm_80c_definition,
      storm_1200x_definition]"

definition litepanels_astra_ip_definition :: "fixture_definition" where
  "litepanels_astra_ip_definition =
     build_definition ''litepanels-astra-ip'' ''profile'' ''p02-cct-8bit''
       [dmx_mode ''p01-cct-rgbw-8bit'' [''intensity'', ''cct'', ''rgb'', ''fan'']
          [ch 1 ''Dimmer'' ''intensity'' ''percent'' 0,
           ch 2 ''CCT'' ''cct'' ''kelvin'' 18,
           ch 3 ''Green Offset'' ''green-magenta'' ''offset'' 127,
           ch 4 ''White/RGB Crossfade'' ''mix'' ''percent'' 0,
           ch 5 ''Red'' ''red'' ''percent'' 255,
           ch 6 ''Green'' ''green'' ''percent'' 255,
           ch 7 ''Blue'' ''blue'' ''percent'' 255,
           ch 8 ''White'' ''white'' ''percent'' 255,
           ch 9 ''Fan'' ''fan'' ''range'' 0,
           ch 10 ''Reserved'' ''reserved'' ''range'' 0,
           ch 11 ''Reserved'' ''reserved'' ''range'' 0,
           ch 12 ''Reserved'' ''reserved'' ''range'' 0]
          (rgbw_controls 2700 6500)
          (map_of [(''intensity'', 100),
                    (''cct'', 3200),
                    (''cctMin'', 2700),
                    (''cctMax'', 6500)]),
        dmx_mode ''p02-cct-8bit'' [''intensity'', ''cct'', ''green-magenta'', ''fan'']
          [ch 1 ''Dimmer'' ''intensity'' ''percent'' 0,
           ch 2 ''CCT'' ''cct'' ''kelvin'' 18,
           ch 3 ''Green Offset'' ''green-magenta'' ''offset'' 127,
           ch 4 ''Reserved'' ''reserved'' ''range'' 0,
           ch 5 ''DMX Mode Control'' ''mode'' ''range'' 0,
           ch 6 ''Fan'' ''fan'' ''range'' 0]
          (cct_controls 2700 6500 3200)
          (map_of [(''intensity'', 100),
                    (''cct'', 3200),
                    (''cctMin'', 2700),
                    (''cctMax'', 6500)])]"

definition litepanels_gemini_definition :: "string \<Rightarrow> fixture_definition" where
  "litepanels_gemini_definition i =
     build_definition i ''wash'' ''p02-cct-8bit''
       [dmx_mode ''p02-cct-8bit'' [''intensity'', ''cct'', ''green-magenta'', ''fan'']
          [ch 1 ''Dimmer'' ''intensity'' ''percent'' 0,
           ch 2 ''CCT'' ''cct'' ''kelvin'' 18,
           ch 3 ''Green Offset'' ''green-magenta'' ''offset'' 127,
           ch 4 ''Reserved'' ''reserved'' ''range'' 0,
           ch 5 ''DMX Mode Control'' ''mode'' ''range'' 0,
           ch 6 ''Fan'' ''fan'' ''range'' 0]
          (cct_controls 2700 10000 3200)
          (map_of [(''intensity'', 100),
                    (''cct'', 3200),
                    (''cctMin'', 2700),
                    (''cctMax'', 10000)]),
        dmx_mode ''p03-cct-hsi-8bit'' [''intensity'', ''cct'', ''hsi'', ''green-magenta'', ''fan'']
          [ch 1 ''Dimmer'' ''intensity'' ''percent'' 0,
           ch 2 ''CCT'' ''cct'' ''kelvin'' 18,
           ch 3 ''Green Offset'' ''green-magenta'' ''offset'' 127,
           ch 4 ''White/HSI Crossfade'' ''mix'' ''percent'' 0,
           ch 5 ''Hue'' ''hue'' ''degrees'' 0,
           ch 6 ''Saturation'' ''saturation'' ''percent'' 0,
           ch 7 ''Fan'' ''fan'' ''range'' 0,
           ch 8 ''Reserved'' ''reserved'' ''range'' 0,
           ch 9 ''Reserved'' ''reserved'' ''range'' 0,
           ch 10 ''Reserved'' ''reserved'' ''range'' 0]
          (hsi_controls 2700 10000 3200)
          (map_of [(''intensity'', 100),
                    (''cct'', 3200),
                    (''cctMin'', 2700),
                    (''cctMax'', 10000),
                    (''hue'', 0),
                    (''saturation'', 0)]),
        dmx_mode ''p07-cct-16bit'' [''intensity'', ''cct'', ''green-magenta'', ''fan'']
          [ch 1 ''Dimmer coarse'' ''intensity'' ''percent'' 0,
           ch 2 ''Dimmer fine'' ''intensity'' ''fine'' 0,
           ch 3 ''CCT coarse'' ''cct'' ''kelvin'' 18,
           ch 4 ''CCT fine'' ''cct'' ''fine'' 0,
           ch 5 ''Green Offset coarse'' ''green-magenta'' ''offset'' 127,
           ch 6 ''Green Offset fine'' ''green-magenta'' ''fine'' 0,
           ch 7 ''DMX Mode Control'' ''mode'' ''range'' 0,
           ch 8 ''Fan'' ''fan'' ''range'' 0]
          (cct_controls 2700 10000 3200)
          (map_of [(''intensity'', 100),
                    (''cct'', 3200),
                    (''cctMin'', 2700),
                    (''cctMax'', 10000)]),
        dmx_mode ''p08-cct-hsi-16bit'' [''intensity'', ''cct'', ''hsi'', ''green-magenta'', ''fan'']
          [ch 1 ''Dimmer coarse'' ''intensity'' ''percent'' 0,
           ch 2 ''Dimmer fine'' ''intensity'' ''fine'' 0,
           ch 3 ''CCT coarse'' ''cct'' ''kelvin'' 18,
           ch 4 ''CCT fine'' ''cct'' ''fine'' 0,
           ch 5 ''Green Offset coarse'' ''green-magenta'' ''offset'' 127,
           ch 6 ''Green Offset fine'' ''green-magenta'' ''fine'' 0,
           ch 7 ''White/HSI Crossfade coarse'' ''mix'' ''percent'' 0,
           ch 8 ''White/HSI Crossfade fine'' ''mix'' ''fine'' 0,
           ch 9 ''Hue coarse'' ''hue'' ''degrees'' 0,
           ch 10 ''Hue fine'' ''hue'' ''fine'' 0,
           ch 11 ''Saturation coarse'' ''saturation'' ''percent'' 0,
           ch 12 ''Saturation fine'' ''saturation'' ''fine'' 0,
           ch 13 ''Fan'' ''fan'' ''range'' 0,
           ch 14 ''Reserved'' ''reserved'' ''range'' 0,
           ch 15 ''Reserved'' ''reserved'' ''range'' 0,
           ch 16 ''Reserved'' ''reserved'' ''range'' 0]
          (hsi_controls 2700 10000 3200)
          (map_of [(''intensity'', 100),
                    (''cct'', 3200),
                    (''cctMin'', 2700),
                    (''cctMax'', 10000),
                    (''hue'', 0),
                    (''saturation'', 0)])]"

definition litepanels_studio_x_definition :: "fixture_definition" where
  "litepanels_studio_x_definition =
     build_definition ''litepanels-studio-x-bicolor'' ''profile'' ''bicolor-8bit''
       [dmx_mode ''bicolor-8bit'' [''intensity'', ''cct'', ''zoom'']
          [ch 1 ''Dimmer'' ''intensity'' ''percent'' 0,
           ch 2 ''CCT'' ''cct'' ''kelvin'' 60,
           ch 3 ''Spot/Flood'' ''zoom'' ''percent'' 0]
          [slider ''intensity'' 0 100 100,
           slider ''cct'' 2700 6500 3200,
           slider ''zoom'' 0 100 0]
          (map_of [(''intensity'', 100),
                    (''cct'', 3200),
                    (''cctMin'', 2700),
                    (''cctMax'', 6500),
                    (''zoom'', 0)]),
        dmx_mode ''bicolor-16bit'' [''intensity'', ''cct'', ''zoom'']
          [ch 1 ''Dimmer coarse'' ''intensity'' ''percent'' 0,
           ch 2 ''Dimmer fine'' ''intensity'' ''fine'' 0,
           ch 3 ''CCT coarse'' ''cct'' ''kelvin'' 60,
           ch 4 ''CCT fine'' ''cct'' ''fine'' 0,
           ch 5 ''Spot/Flood coarse'' ''zoom'' ''percent'' 0,
           ch 6 ''Spot/Flood fine'' ''zoom'' ''fine'' 0]
          [slider ''intensity'' 0 100 100,
           slider ''cct'' 2700 6500 3200,
           slider ''zoom'' 0 100 0]
          (map_of [(''intensity'', 100),
                    (''cct'', 3200),
                    (''cctMin'', 2700),
                    (''cctMax'', 6500),
                    (''zoom'', 0)])]"

definition litepanels_verified_definitions :: "fixture_definition list" where
  "litepanels_verified_definitions =
     [litepanels_astra_ip_definition,
      litepanels_gemini_definition ''litepanels-gemini-1x1'',
      litepanels_gemini_definition ''litepanels-gemini-2x1'',
      litepanels_studio_x_definition]"

definition research_needed_definitions :: "fixture_definition list" where
  "research_needed_definitions =
     map (\<lambda>(i, k). build_definition i k DEFAULT_MODE_ID [no_dmx_mode DEFAULT_MODE_ID])
       [(''aputure-ls-600d'', ''beam''),
        (''aputure-ls-600x-pro'', ''beam''),
        (''aputure-ls-600c-pro'', ''beam''),
        (''aputure-ls-1200d-pro'', ''beam''),
        (''aputure-storm-1000c'', ''beam''),
        (''aputure-electro-storm-cs15'', ''beam''),
        (''aputure-electro-storm-xt26'', ''beam''),
        (''aputure-nova-p300c'', ''panel''),
        (''aputure-nova-p600c'', ''panel''),
        (''aputure-nova-ii'', ''panel''),
        (''aputure-nova-9'', ''panel''),
        (''litepanels-astra-ip-half'', ''profile''),
        (''litepanels-astra-ip-2x1'', ''profile''),
        (''litepanels-studio-x-daylight'', ''profile'')]"

definition catalog_definitions :: "fixture_definition list" where
  "catalog_definitions =
     compatibility_definitions @ aputure_verified_definitions @ litepanels_verified_definitions @
     research_needed_definitions"

section \<open>From a name to a definition\<close>

text \<open>
  \<open>to_lowercase\<close> lowers the ASCII letters. A character outside ASCII has a lower-case form with one
  outside ASCII, but for the Kelvin sign, which becomes a \<open>k\<close>: no name looked for below has one.
\<close>

definition lowered :: "string \<Rightarrow> string" where
  "lowered s = map to_ascii_lower (trim s)"

definition normalized_catalog_id :: "string \<Rightarrow> string option" where
  "normalized_catalog_id v = map_option definition_id (find (\<lambda>d. definition_id d = lowered v) catalog_definitions)"

definition resolve_fixture_alias :: "string \<Rightarrow> string option" where
  "resolve_fixture_alias v =
     (let cleaned = map (\<lambda>c. if c = CHR ''_'' \<or> c = CHR '' '' then CHR ''-'' else c) (lowered v) in
      if cleaned \<in> set [''astra'', ''astra-bi-color'', ''astra-bicolor'', ''litepanels-astra'']
      then Some DEFAULT_FIXTURE_DEFINITION_ID
      else if cleaned \<in> set [''apollo-bridge'', ''litepanels-apollo'', ''litepanels-apollo-bridge'']
      then Some ''litepanels-apollo-bridge''
      else if cleaned \<in> set [''infinimat'', ''aputure-infinimat''] then Some ''aputure-infinimat-generic''
      else if cleaned \<in> set [''infinibar'', ''infinibar-pb12'', ''aputure-infinibar-pb12'']
      then Some ''aputure-infinibar-pb12''
      else normalized_catalog_id cleaned)"

definition fixture_type_for_definition :: "string \<Rightarrow> string" where
  "fixture_type_for_definition d =
     (if d = DEFAULT_FIXTURE_DEFINITION_ID then DEFAULT_LIGHTING_FIXTURE_TYPE
      else if d = ''aputure-infinimat-generic'' then ''infinimat''
      else if d = ''aputure-infinibar-pb12'' then ''infinibar-pb12''
      else if d = ''litepanels-apollo-bridge'' then ''Apollo Bridge''
      else d)"

definition infer_from_legacy_kind :: "string option \<Rightarrow> string option" where
  "infer_from_legacy_kind v =
     (let k = (case v of Some k \<Rightarrow> k | None \<Rightarrow> [])
      in if k = ''profile'' then Some DEFAULT_FIXTURE_DEFINITION_ID
         else if k = ''wash'' then Some ''aputure-infinimat-generic''
         else if k = ''practical'' then Some ''aputure-infinibar-pb12''
         else if k = ''control-node'' then Some ''litepanels-apollo-bridge''
         else None)"

fun has_text :: "string \<Rightarrow> string \<Rightarrow> bool" where
  "has_text [] p = (p = [])"
| "has_text (c # s) p = (starts_with (c # s) p \<or> has_text s p)"

definition infer_from_fixture_id :: "string \<Rightarrow> string option" where
  "infer_from_fixture_id i =
     (if has_text i ''wash'' then Some ''aputure-infinimat-generic''
      else if has_text i ''practical'' \<or> has_text i ''house'' then Some ''aputure-infinibar-pb12''
      else if has_text i ''apollo'' \<or> has_text i ''bridge'' then Some ''litepanels-apollo-bridge''
      else if has_text i ''key'' then Some DEFAULT_FIXTURE_DEFINITION_ID
      else None)"

text \<open>\<open>and_then\<close> and \<open>or_else\<close> of \<open>Option\<close>.\<close>

definition or_else :: "'a option \<Rightarrow> 'a option \<Rightarrow> 'a option" where
  "or_else a b = (case a of Some _ \<Rightarrow> a | None \<Rightarrow> b)"

definition requested_definition :: "string option \<Rightarrow> string option \<Rightarrow> string option \<Rightarrow> string \<Rightarrow> string" where
  "requested_definition did ftype legacy fid =
     (case or_else (Option.bind did normalized_catalog_id)
             (or_else (Option.bind ftype resolve_fixture_alias)
               (or_else (Option.bind legacy resolve_fixture_alias)
                 (or_else (infer_from_legacy_kind legacy) (infer_from_fixture_id fid)))) of
        Some d \<Rightarrow> d
      | None \<Rightarrow> DEFAULT_FIXTURE_DEFINITION_ID)"

definition find_fixture_definition ::
  "string option \<Rightarrow> string option \<Rightarrow> string option \<Rightarrow> string \<Rightarrow> fixture_definition option" where
  "find_fixture_definition did ftype legacy fid =
     find (\<lambda>d. definition_id d = requested_definition did ftype legacy fid) catalog_definitions"

text \<open>The \<open>expect\<close> of the default's lookup is the \<open>the\<close>: \<open>the_default_is_listed\<close> is that it holds.\<close>

definition default_definition :: fixture_definition where
  "default_definition = the (find (\<lambda>d. definition_id d = DEFAULT_FIXTURE_DEFINITION_ID) catalog_definitions)"

definition resolve_fixture_definition ::
  "string option \<Rightarrow> string option \<Rightarrow> string option \<Rightarrow> string \<Rightarrow> fixture_definition" where
  "resolve_fixture_definition did ftype legacy fid =
     (case find_fixture_definition did ftype legacy fid of Some d \<Rightarrow> d | None \<Rightarrow> default_definition)"

definition resolve_fixture_mode :: "fixture_definition \<Rightarrow> string option \<Rightarrow> fixture_mode" where
  "resolve_fixture_mode d mid =
     (let requested = (case mid of
                         Some m \<Rightarrow> if trim m = [] then default_mode_id d else trim m
                       | None \<Rightarrow> default_mode_id d)
      in case find (\<lambda>m. mode_id m = requested) (modes d) of
           Some m \<Rightarrow> m
         | None \<Rightarrow>
             (case find (\<lambda>m. mode_id m = default_mode_id d) (modes d) of
                Some m \<Rightarrow> m
              | None \<Rightarrow> (case modes d of m # _ \<Rightarrow> m | [] \<Rightarrow> no_dmx_mode DEFAULT_MODE_ID)))"

section \<open>A profile\<close>

record fixture_profile =
  profile_definition :: string
  profile_mode :: string
  profile_kind :: string
  profile_channels :: int
  profile_labels :: "string list"
  profile_defaults :: "string \<rightharpoonup> int"
  profile_capabilities :: "string list"

definition resolve_fixture_profile ::
  "string option \<Rightarrow> string option \<Rightarrow> string option \<Rightarrow> string option \<Rightarrow> string \<Rightarrow> fixture_profile" where
  "resolve_fixture_profile did mid ftype legacy fid =
     (let d = (case find_fixture_definition did ftype legacy fid of Some d \<Rightarrow> d | None \<Rightarrow> default_definition);
          m = resolve_fixture_mode d mid
      in \<lparr>profile_definition = definition_id d, profile_mode = mode_id m, profile_kind = kind d,
          profile_channels = channel_count m, profile_labels = map channel_label (channels m),
          profile_defaults = mode_defaults m, profile_capabilities = capabilities m\<rparr>)"

definition fixture_default_cct :: "fixture_profile \<Rightarrow> int" where
  "fixture_default_cct p =
     (case profile_defaults p ''cct'' of
        Some k \<Rightarrow> k
      | None \<Rightarrow> if ''cct'' \<in> set (profile_capabilities p) then 5600 else 0)"

definition fixture_cct_range_from_profile :: "fixture_profile \<Rightarrow> int \<times> int" where
  "fixture_cct_range_from_profile p =
     (case profile_defaults p ''cctMin'' of Some k \<Rightarrow> k | None \<Rightarrow> 3200,
      case profile_defaults p ''cctMax'' of Some k \<Rightarrow> k | None \<Rightarrow> 5600)"

section \<open>What the catalog holds\<close>

text \<open>
  A mode in order: its channels are numbered from 1 on and fit a universe, a control's default is within
  the control's bounds, and a mode with a colour temperature has a range of them that is none of one value
  and holds its default.
\<close>

definition mode_in_order :: "fixture_mode \<Rightarrow> bool" where
  "mode_in_order m =
     (map offset (channels m) = map int [1..<length (channels m) + 1] \<and> length (channels m) \<le> 512 \<and>
      channel_count m = int (length (channels m)) \<and>
      list_all (\<lambda>c. 0 \<le> default_dmx c \<and> default_dmx c \<le> 255) (channels m) \<and>
      list_all (\<lambda>c. slider_min c \<le> default_value c \<and> default_value c \<le> slider_max c) (controls m) \<and>
      distinct (map slider_id (controls m)) \<and>
      (case (mode_defaults m ''cctMin'', mode_defaults m ''cct'', mode_defaults m ''cctMax'') of
         (Some lo, Some d, Some hi) \<Rightarrow>
           0 < lo \<and> lo \<le> d \<and> d \<le> hi \<and> (lo < hi \<or> ''cct'' \<notin> set (map control_id (channels m)))
       | (None, None, None) \<Rightarrow> ''cct'' \<notin> set (map control_id (channels m))
       | _ \<Rightarrow> False))"

definition definition_in_order :: "fixture_definition \<Rightarrow> bool" where
  "definition_in_order d =
     (list_all mode_in_order (modes d) \<and> distinct (map mode_id (modes d)) \<and>
      default_mode_id d \<in> set (map mode_id (modes d)))"

text \<open>An id's characters: each is visible and its own lower case.\<close>

definition id_chars :: string where
  "id_chars = ''abcdefghijklmnopqrstuvwxyz0123456789-''"

lemma id_chars_kept: "list_all (\<lambda>c. visible c \<and> to_ascii_lower c = c) id_chars"
  by code_simp

lemma lowered_id: "set s \<subseteq> set id_chars \<Longrightarrow> lowered s = s"
proof -
  assume "set s \<subseteq> set id_chars"
  then have v: "list_all visible s" and l: "\<forall>c \<in> set s. to_ascii_lower c = c"
    using id_chars_kept by (auto simp: list_all_iff)
  from l have "map to_ascii_lower s = s" by (simp add: map_idI)
  with v show ?thesis by (simp add: lowered_def visible_no_ws trim_no_ws)
qed

lemmas catalog_defs =
  compatibility_definitions_def aputure_verified_definitions_def storm_80c_definition_def
  storm_1200x_definition_def litepanels_verified_definitions_def litepanels_astra_ip_definition_def
  litepanels_gemini_definition_def litepanels_studio_x_definition_def research_needed_definitions_def
  catalog_definitions_def

lemma catalog_checked:
  "list_all definition_in_order compatibility_definitions"
  "list_all definition_in_order aputure_verified_definitions"
  "list_all definition_in_order litepanels_verified_definitions"
  "list_all definition_in_order research_needed_definitions"
  by code_simp+

lemma catalog_ids_distinct: "distinct (map definition_id catalog_definitions)"
  by code_simp

lemma catalog_ids: "list_all (\<lambda>d. set (definition_id d) \<subseteq> set id_chars) catalog_definitions"
  by code_simp

lemma the_default_is_listed: "\<exists>d. find (\<lambda>d. definition_id d = DEFAULT_FIXTURE_DEFINITION_ID) catalog_definitions = Some d \<and> d \<in> set catalog_definitions"
proof -
  have "hd compatibility_definitions \<in> set catalog_definitions \<and> definition_id (hd compatibility_definitions) = DEFAULT_FIXTURE_DEFINITION_ID"
    by (simp add: catalog_defs build_definition_def)
  then show ?thesis by (simp add: catalog_definitions_def compatibility_definitions_def build_definition_def)
qed

lemma catalog_all_in_order: "d \<in> set catalog_definitions \<Longrightarrow> definition_in_order d"
  using catalog_checked by (auto simp: catalog_definitions_def list_all_iff)

lemma find_in: "find p xs = Some x \<Longrightarrow> x \<in> set xs \<and> p x"
  by (auto simp: find_Some_iff)

lemma resolved_listed: "resolve_fixture_definition did ftype legacy fid \<in> set catalog_definitions"
  using the_default_is_listed
  by (auto simp: resolve_fixture_definition_def find_fixture_definition_def default_definition_def dest: find_in split: option.splits)

lemma mode_listed: "d \<in> set catalog_definitions \<Longrightarrow> resolve_fixture_mode d mid \<in> set (modes d)"
proof -
  assume "d \<in> set catalog_definitions"
  then have "default_mode_id d \<in> set (map mode_id (modes d))" using catalog_all_in_order by (simp add: definition_in_order_def)
  then have "find (\<lambda>m. mode_id m = default_mode_id d) (modes d) \<noteq> None" by (auto simp: find_None_iff)
  then show ?thesis by (auto simp: resolve_fixture_mode_def Let_def dest: find_in split: option.splits)
qed

lemma catalog_id_kept: "d \<in> set catalog_definitions \<Longrightarrow> normalized_catalog_id (definition_id d) = Some (definition_id d)"
proof -
  assume d: "d \<in> set catalog_definitions"
  then have l: "lowered (definition_id d) = definition_id d" using catalog_ids lowered_id by (simp add: list_all_iff)
  have "find (\<lambda>x. definition_id x = definition_id d) catalog_definitions \<noteq> None" using d by (auto simp: find_None_iff)
  then obtain x where "find (\<lambda>x. definition_id x = definition_id d) catalog_definitions = Some x" by blast
  then show ?thesis using find_in by (fastforce simp: normalized_catalog_id_def l)
qed

lemma definition_found: "d \<in> set catalog_definitions \<Longrightarrow> resolve_fixture_definition (Some (definition_id d)) ftype legacy fid = d"
proof -
  assume d: "d \<in> set catalog_definitions"
  have "find (\<lambda>x. definition_id x = definition_id d) catalog_definitions \<noteq> None" using d by (auto simp: find_None_iff)
  then obtain x where x: "find (\<lambda>x. definition_id x = definition_id d) catalog_definitions = Some x" by blast
  then have "x = d" using d catalog_ids_distinct find_in [OF x] by (auto simp: distinct_map inj_on_def)
  then show ?thesis using x catalog_id_kept [OF d]
    by (simp add: resolve_fixture_definition_def find_fixture_definition_def requested_definition_def or_else_def)
qed

lemma modes_distinct: "d \<in> set catalog_definitions \<Longrightarrow> distinct (map mode_id (modes d))"
  using catalog_all_in_order by (simp add: definition_in_order_def)

lemma mode_ids: "list_all (\<lambda>d. list_all (\<lambda>m. mode_id m \<noteq> [] \<and> set (mode_id m) \<subseteq> set id_chars) (modes d)) catalog_definitions"
  by code_simp

lemma mode_found: "d \<in> set catalog_definitions \<Longrightarrow> m \<in> set (modes d) \<Longrightarrow> resolve_fixture_mode d (Some (mode_id m)) = m"
proof -
  assume d: "d \<in> set catalog_definitions" and m: "m \<in> set (modes d)"
  then have i: "mode_id m \<noteq> []" "set (mode_id m) \<subseteq> set id_chars" using mode_ids by (auto simp: list_all_iff)
  then have "list_all visible (mode_id m)" using id_chars_kept by (auto simp: list_all_iff)
  then have t: "trim (mode_id m) = mode_id m" by (simp add: visible_no_ws trim_no_ws)
  have "find (\<lambda>x. mode_id x = mode_id m) (modes d) \<noteq> None" using m by (auto simp: find_None_iff)
  then obtain x where x: "find (\<lambda>x. mode_id x = mode_id m) (modes d) = Some x" by blast
  then have "x = m" using m modes_distinct [OF d] find_in [OF x] by (auto simp: distinct_map inj_on_def)
  then show ?thesis using x i t by (simp add: resolve_fixture_mode_def)
qed

text \<open>
  Every definition of the catalog is in order, no two have one id, and the default is one of them, so
  looking it up never panics; and a name of any kind comes to a definition of the catalog and to a mode of
  that definition.
\<close>

theorem catalog_in_order:
  "list_all definition_in_order catalog_definitions \<and> distinct (map definition_id catalog_definitions) \<and>
   resolve_fixture_definition did ftype legacy fid \<in> set catalog_definitions \<and>
   resolve_fixture_mode (resolve_fixture_definition did ftype legacy fid) mid
     \<in> set (modes (resolve_fixture_definition did ftype legacy fid))"
  using catalog_checked catalog_ids_distinct resolved_listed mode_listed by (simp add: catalog_definitions_def)

lemma profile_of_mode:
  "resolve_fixture_profile did mid ftype legacy fid =
     (let d = resolve_fixture_definition did ftype legacy fid; m = resolve_fixture_mode d mid
      in \<lparr>profile_definition = definition_id d, profile_mode = mode_id m, profile_kind = kind d,
          profile_channels = channel_count m, profile_labels = map channel_label (channels m),
          profile_defaults = mode_defaults m, profile_capabilities = capabilities m\<rparr>)"
  by (simp only: resolve_fixture_profile_def resolve_fixture_definition_def)

text \<open>
  A profile once resolved is kept: the ids it carries come to the same definition and the same mode,
  whatever the other names say, so what the engine saves of a fixture is read back as it was.
\<close>

theorem resolved_profile_is_kept:
  "let p = resolve_fixture_profile did mid ftype legacy fid
   in resolve_fixture_profile (Some (profile_definition p)) (Some (profile_mode p)) ftype' legacy' fid' = p"
  by (simp add: profile_of_mode Let_def definition_found [OF resolved_listed] mode_found [OF resolved_listed mode_listed [OF resolved_listed]])

end
