(* ===== verification/F64.thy ===== *)
theory F64
  imports Prelude Complex_Main
begin

text \<open>
  Rust's \<open>f64\<close> arithmetic where the code computes with it: a finite number is its rational, and a
  sum, a product or a quotient is the exact one rounded to the nearest of the numbers with 53
  significant bits, ties to the even one. The exponent is left unbounded: every number the modelled
  code computes is 0 or lies far inside the type's range, so neither overflow nor a subnormal number
  occurs.
\<close>

section \<open>Rounding\<close>

function bit_length :: "int \<Rightarrow> nat" where
  "bit_length n = (if n \<le> 0 then 0 else Suc (bit_length (n div 2)))"
  by pat_completeness auto
termination
  by (relation "measure nat") auto

declare bit_length.simps [simp del]

text \<open>For a positive number, the \<open>e\<close> with \<open>2 ^ e \<le> x < 2 ^ (e + 1)\<close>.\<close>

definition exponent :: "rat \<Rightarrow> int" where
  "exponent x =
     (let e = int (bit_length (fst (quotient_of x))) - int (bit_length (snd (quotient_of x)))
      in if x < 2 powi e then e - 1 else e)"

definition round_even :: "rat \<Rightarrow> int" where
  "round_even x =
     (let n = \<lfloor>x\<rfloor>; d = x - of_int n
      in if d < 1 / 2 \<or> d = 1 / 2 \<and> even n then n else n + 1)"

definition nearest :: "rat \<Rightarrow> rat" where
  "nearest x =
     (if x = 0 then 0
      else let u = 2 powi (exponent \<bar>x\<bar> - 52) in sgn x * of_int (round_even (\<bar>x\<bar> / u)) * u)"

text \<open>\<open>f64::round\<close>: half away from zero.\<close>

definition round_half_away :: "rat \<Rightarrow> int" where
  "round_half_away x = (if 0 \<le> x then \<lfloor>x + 1 / 2\<rfloor> else - \<lfloor>1 / 2 - x\<rfloor>)"

section \<open>What rounding keeps\<close>

lemma bit_length_bounds: "0 < n \<Longrightarrow> 2 ^ (bit_length n - 1) \<le> n \<and> n < 2 ^ bit_length n"
proof (induction n rule: bit_length.induct)
  case (1 n)
  show ?case
  proof (cases "n = 1")
    case True
    have "bit_length 0 = 0" by (simp add: bit_length.simps)
    then have "bit_length 1 = 1" by (subst bit_length.simps) simp
    then show ?thesis using True by simp
  next
    case False
    with 1(2) have p: "0 < n div 2" by auto
    then have "0 < bit_length (n div 2)" by (subst bit_length.simps) simp
    then obtain k where k: "bit_length (n div 2) = Suc k" using gr0_implies_Suc by blast
    have "2 ^ k \<le> n div 2" "n div 2 < 2 ^ Suc k" using 1(1) 1(2) p k by auto
    moreover have "bit_length n = Suc (Suc k)" using 1(2) k by (subst bit_length.simps) simp
    ultimately show ?thesis by auto
  qed
qed

lemma powi_nat: "(2::rat) powi int n = 2 ^ n"
  by (simp add: power_int_def)

lemma powi_add_nat: "(2::rat) powi (k + int n) = 2 ^ n * 2 powi k"
  by (simp add: power_int_add powi_nat)

lemma powi_mono: "a \<le> b \<Longrightarrow> (2::rat) powi a \<le> 2 powi b"
  by (simp add: power_int_increasing)

lemma powi_pos [simp]: "0 < (2::rat) powi a"
  by simp

lemma bit_length_rat: "0 < p \<Longrightarrow> (2::rat) ^ (bit_length p - 1) \<le> of_int p \<and> of_int p < (2::rat) ^ bit_length p"
proof -
  assume "0 < p"
  then have "(of_int (2 ^ (bit_length p - 1)) :: rat) \<le> of_int p" "(of_int p :: rat) < of_int (2 ^ bit_length p)"
    using bit_length_bounds unfolding of_int_le_iff of_int_less_iff by simp_all
  then show ?thesis by simp
qed

lemma exponent_bounds: "0 < x \<Longrightarrow> 2 powi exponent x \<le> x \<and> x < 2 powi (exponent x + 1)"
proof -
  assume x: "0 < x"
  obtain p q where pq: "quotient_of x = (p, q)" by (cases "quotient_of x")
  have q: "0 < q" using quotient_of_denom_pos [OF pq] .
  have e: "x = of_int p / of_int q" using quotient_of_div [OF pq] .
  have p: "0 < p" using x e q by (simp add: zero_less_divide_iff)
  let ?a = "bit_length p" let ?b = "bit_length q"
  have pos: "0 < ?a" "0 < ?b" using p q by (simp_all add: bit_length.simps)
  have pr: "(2::rat) ^ (?a - 1) \<le> of_int p" "of_int p < (2::rat) ^ ?a" using bit_length_rat [OF p] by simp_all
  have qr: "(2::rat) ^ (?b - 1) \<le> of_int q" "of_int q < (2::rat) ^ ?b" using bit_length_rat [OF q] by simp_all
  let ?e = "int ?a - int ?b"
  have lo: "2 powi (?e - 1) \<le> x"
  proof -
    have "?e - 1 + int ?b = int (?a - 1)" using pos by simp
    then have "2 powi (?e - 1) * 2 ^ ?b = (2::rat) ^ (?a - 1)"
      using powi_add_nat [of "?e - 1" ?b] unfolding powi_nat [symmetric] by (simp only: mult.commute)
    then have "2 powi (?e - 1) * of_int q \<le> (2::rat) ^ (?a - 1)"
      using qr(2) by (metis less_imp_le mult_left_mono powi_pos)
    from order_trans [OF this pr(1)] show ?thesis using q e by (simp add: pos_le_divide_eq)
  qed
  have hi: "x < 2 powi (?e + 1)"
  proof -
    have "?e + 1 + int (?b - 1) = int ?a" using pos by simp
    then have "2 powi (?e + 1) * 2 ^ (?b - 1) = (2::rat) ^ ?a"
      using powi_add_nat [of "?e + 1" "?b - 1"] unfolding powi_nat [symmetric] by (simp only: mult.commute)
    then have "(2::rat) ^ ?a \<le> 2 powi (?e + 1) * of_int q"
      using qr(1) by (metis less_imp_le mult_left_mono powi_pos)
    with pr(2) have "of_int p < 2 powi (?e + 1) * rat_of_int q" by (rule less_le_trans)
    then show ?thesis using q e by (simp add: pos_divide_less_eq)
  qed
  show ?thesis using lo hi pq by (auto simp: exponent_def Let_def)
qed

lemma exponent_mono: "0 < x \<Longrightarrow> x \<le> y \<Longrightarrow> exponent x \<le> exponent y"
proof (rule ccontr)
  assume a: "0 < x" "x \<le> y" "\<not> exponent x \<le> exponent y"
  then have "(2::rat) powi (exponent y + 1) \<le> 2 powi exponent x" by (intro powi_mono) simp
  with a exponent_bounds [of x] exponent_bounds [of y] show False by simp
qed

lemma round_even_mono: "x \<le> y \<Longrightarrow> round_even x \<le> round_even y"
proof -
  assume xy: "x \<le> y"
  then have f: "\<lfloor>x\<rfloor> \<le> \<lfloor>y\<rfloor>" by (rule floor_mono)
  show ?thesis
  proof (cases "\<lfloor>x\<rfloor> = \<lfloor>y\<rfloor>")
    case True
    then show ?thesis using xy by (auto simp: round_even_def Let_def)
  next
    case False
    with f show ?thesis by (auto simp: round_even_def Let_def)
  qed
qed

lemma round_even_int [simp]: "round_even (of_int n) = n"
  by (simp add: round_even_def)

lemma nearest_pos: "0 < x \<Longrightarrow> nearest x = of_int (round_even (x / 2 powi (exponent x - 52))) * 2 powi (exponent x - 52)"
  by (simp add: nearest_def Let_def)

lemma nearest_between: "0 < x \<Longrightarrow> 2 powi exponent x \<le> nearest x \<and> nearest x \<le> 2 powi (exponent x + 1)"
proof -
  assume x: "0 < x"
  let ?u = "2 powi (exponent x - 52) :: rat"
  have lo: "2 powi exponent x = of_int (2 ^ 52) * ?u" and hi: "2 powi (exponent x + 1) = of_int (2 ^ 53) * ?u"
    using powi_add_nat [of "exponent x - 52" 52] powi_add_nat [of "exponent x - 52" 53] by (simp_all add: add.commute)
  have "of_int (2 ^ 52) \<le> x / ?u" "x / ?u \<le> of_int (2 ^ 53)"
    using exponent_bounds [OF x] by (simp_all only: lo hi pos_le_divide_eq [OF powi_pos] pos_divide_le_eq [OF powi_pos]) simp_all
  from this [THEN round_even_mono] have "2 ^ 52 \<le> round_even (x / ?u)" "round_even (x / ?u) \<le> 2 ^ 53" by (simp_all only: round_even_int)
  then show ?thesis unfolding nearest_pos [OF x] lo hi by (metis of_int_le_iff less_imp_le mult_right_mono powi_pos)
qed

lemma nearest_mono_pos: "0 < x \<Longrightarrow> x \<le> y \<Longrightarrow> nearest x \<le> nearest y"
proof (cases "exponent x = exponent y")
  case True
  assume a: "0 < x" "x \<le> y"
  then have "round_even (x / 2 powi (exponent x - 52)) \<le> round_even (y / 2 powi (exponent y - 52))"
    unfolding True by (intro round_even_mono divide_right_mono) simp_all
  then show ?thesis using a True by (simp add: nearest_pos)
next
  case False
  assume a: "0 < x" "x \<le> y"
  with False exponent_mono have "exponent x + 1 \<le> exponent y" by fastforce
  then have "2 powi (exponent x + 1) \<le> (2::rat) powi exponent y" by (rule powi_mono)
  then show ?thesis using nearest_between [of x] nearest_between [of y] a by simp
qed

lemma nearest_zero [simp]: "nearest 0 = 0"
  by (simp add: nearest_def)

lemma nearest_minus: "nearest (- x) = - nearest x"
  by (simp add: nearest_def Let_def sgn_minus)

lemma nearest_nonneg: "0 \<le> x \<Longrightarrow> 0 \<le> nearest x"
proof (cases "x = 0")
  case False
  moreover assume "0 \<le> x"
  ultimately show ?thesis using nearest_between [of x] powi_pos [of "exponent x"] by linarith
qed simp

lemma nearest_mono: "x \<le> y \<Longrightarrow> nearest x \<le> nearest y"
proof -
  assume xy: "x \<le> y"
  consider "0 < x" | "x \<le> 0" "0 \<le> y" | "y < 0" by linarith
  then show ?thesis
  proof cases
    case 1
    then show ?thesis using xy nearest_mono_pos by simp
  next
    case 2
    then show ?thesis using nearest_nonneg [of "- x"] nearest_nonneg [of y] by (simp add: nearest_minus)
  next
    case 3
    then show ?thesis using nearest_mono_pos [of "- y" "- x"] xy by (simp add: nearest_minus)
  qed
qed

text \<open>An integer of up to 53 bits is a number of the type, and so is one half of one.\<close>

lemma nearest_multiple: "0 < n \<Longrightarrow> n \<le> 2 ^ 53 \<Longrightarrow> nearest (of_int n * 2 powi k) = of_int n * 2 powi k"
proof -
  assume n: "0 < n" "n \<le> 2 ^ 53"
  let ?x = "of_int n * 2 powi k :: rat"
  have x: "0 < ?x" using n by simp
  show ?thesis
  proof (cases "n = 2 ^ 53")
    case True
    have e: "?x = 2 powi (k + 53)" using True powi_add_nat [of k 53] by simp
    have "exponent ?x = k + 53"
    proof (rule antisym)
      have "(2::rat) powi exponent ?x < 2 powi (k + 53 + 1)" using exponent_bounds [OF x] e
        by (metis (no_types, lifting) add.commute e le_less_trans less_add_one one_less_numeral_iff power_int_strict_increasing semiring_norm(76))
      then show "exponent ?x \<le> k + 53" using powi_mono [of "k + 53 + 1" "exponent ?x"] by linarith
    next
      have "(2::rat) powi (k + 53) < 2 powi (exponent ?x + 1)" using exponent_bounds [OF x] e by simp
      then show "k + 53 \<le> exponent ?x" using powi_mono [of "exponent ?x + 1" "k + 53"] by linarith
    qed
    then have "nearest ?x = of_int (round_even (2 powi (k + 53) / 2 powi (k + 1))) * 2 powi (k + 1)"
      using nearest_pos [OF x] e by (simp add: add.commute)
    also have p: "(2::rat) powi (k + 53) = of_int (2 ^ 52) * 2 powi (k + 1)" using powi_add_nat [of "k + 1" 52] by (simp add: add.commute)
    also have "of_int (2 ^ 52) * (2::rat) powi (k + 1) / 2 powi (k + 1) = of_int (2 ^ 52)" by simp
    also have "of_int (round_even (of_int (2 ^ 52))) * (2::rat) powi (k + 1) = 2 powi (k + 53)"
      unfolding round_even_int p ..
    finally show ?thesis using e by simp
  next
    case False
    with n have "?x < 2 powi (k + 53)" using powi_add_nat [of k 53]
      by (simp add: mult_less_cancel_right_pos)
    then have "exponent ?x < k + 53" using exponent_bounds [OF x] powi_mono [of "k + 53" "exponent ?x"] by linarith
    then have "exponent ?x - 52 \<le> k" by simp
    then obtain m where m: "k = exponent ?x - 52 + int m" by (metis zle_iff_zadd)
    define u where "u = (2::rat) powi (exponent ?x - 52)"
    have u: "0 < u" by (simp add: u_def)
    have "(2::rat) powi k = 2 ^ m * u" using powi_add_nat [of "exponent ?x - 52" m] unfolding m [symmetric] u_def .
    then have x': "?x = of_int (n * 2 ^ m) * u" by simp
    then have "?x / u = of_int (n * 2 ^ m)" using u by (metis less_irrefl nonzero_mult_div_cancel_right)
    then show ?thesis using nearest_pos [OF x] unfolding u_def [symmetric] by (simp only: round_even_int x' [symmetric])
  qed
qed

lemma nearest_int [simp]: "\<bar>n\<bar> \<le> 2 ^ 53 \<Longrightarrow> nearest (of_int n) = of_int n"
  using nearest_multiple [of n 0] nearest_multiple [of "- n" 0] nearest_minus [of "of_int n"]
  by (cases "n = 0"; cases "0 < n") simp_all

text \<open>Rounding keeps a number between two of the type between them.\<close>

lemma nearest_in: "of_int a \<le> x \<Longrightarrow> x \<le> of_int b \<Longrightarrow> \<bar>a\<bar> \<le> 2 ^ 53 \<Longrightarrow> \<bar>b\<bar> \<le> 2 ^ 53 \<Longrightarrow>
    of_int a \<le> nearest x \<and> nearest x \<le> of_int b"
  using nearest_mono [of "of_int a" x] nearest_mono [of x "of_int b"] by simp

lemma round_half_away_in: "of_int a \<le> x \<Longrightarrow> x \<le> of_int b \<Longrightarrow> a \<le> round_half_away x \<and> round_half_away x \<le> b"
  unfolding round_half_away_def by (simp add: le_floor_iff floor_le_iff; linarith)

lemma round_half_away_int [simp]: "round_half_away (of_int n) = n"
  using round_half_away_in [of n "of_int n" n] by simp

lemma round_half_away_mono: "x \<le> y \<Longrightarrow> round_half_away x \<le> round_half_away y"
proof -
  assume xy: "x \<le> y"
  have "\<lfloor>x + 1 / 2\<rfloor> \<le> \<lfloor>y + 1 / 2\<rfloor>" "\<lfloor>1 / 2 - y\<rfloor> \<le> \<lfloor>1 / 2 - x\<rfloor>" using xy by (simp_all add: floor_mono)
  moreover have "- \<lfloor>1 / 2 - x\<rfloor> \<le> \<lfloor>y + 1 / 2\<rfloor>" if "0 \<le> y" "x < 0"
  proof -
    have "0 \<le> \<lfloor>y + 1 / 2\<rfloor>" "0 \<le> \<lfloor>1 / 2 - x\<rfloor>" using that by (simp_all add: le_floor_iff)
    then show ?thesis by linarith
  qed
  ultimately show ?thesis using xy by (auto simp: round_half_away_def)
qed

end
