(* ===== verification/Rig_State.thy ===== *)
theory Rig_State
  imports Fixture_Catalog F64 Lights_Config
begin

text \<open>
  The lighting editor's state (\<open>lighting/types.rs\<close>), the helpers its commands share
  (\<open>lighting/helpers.rs\<close>), and how a saved state is read: brought in order against the inventory, or made
  new from it (\<open>lighting/editor_state.rs\<close>, \<open>lighting_backend.rs\<close>). Coordinates, angles and a palette's value
  are finite \<open>f64\<close>s, as JSON has no others: their rationals. A \<open>HashMap\<close> is a map.
\<close>

section \<open>The state\<close>

record lighting_effect =
  effect_type :: string
  effect_speed :: int

record rig_fixture =
  fixture_id :: string
  fixture_name :: string
  fixture_type :: string
  fixture_definition_id :: "string option"
  fixture_mode_id :: "string option"
  universe :: int
  dmx_start_address :: int
  fixture_kind :: string
  fixture_group :: "string option"
  spatial_x :: "rat option"
  spatial_y :: "rat option"
  spatial_rotation :: rat
  rig_z :: "rat option"
  beam_angle_degrees :: "rat option"
  intensity :: int
  cct :: int
  fixture_on :: bool
  control_values :: "string \<rightharpoonup> int"
  effect :: "lighting_effect option"

record scene_level =
  level_fixture :: string
  level_intensity :: int
  level_cct :: int
  level_on :: bool
  level_controls :: "string \<rightharpoonup> int"

record rig_scene =
  scene_id :: string
  scene_name :: string
  scene_levels :: "scene_level list"
  scene_color :: "nat option"

record rig_group =
  group_id :: string
  group_name :: string
  group_color :: "nat option"

datatype palette_kind = IntensityPalette | CctPalette

record rig_palette =
  palette_id :: string
  palette_name :: string
  palette_kind :: palette_kind
  palette_value :: rat
  palette_color :: "nat option"

record rig_fade =
  fade_scene :: string
  fade_started :: int
  fade_duration :: int
  fade_origin :: "scene_level list"
  fade_target :: "scene_level list"

record rig =
  groups :: "rig_group list"
  removed_fixture_ids :: "string list"
  fixtures :: "rig_fixture list"
  scenes :: "rig_scene list"
  scene_order :: "string list"
  pinned_scene_ids :: "string list"
  group_order :: "string list"
  palettes :: "rig_palette list"
  palette_order :: "string list"
  active_fade :: "rig_fade option"

datatype lighting_error = Rejected string string | StorageError string

section \<open>Helpers\<close>

definition clamp_i64 :: "int \<Rightarrow> int \<Rightarrow> int \<Rightarrow> int" where
  "clamp_i64 v lo hi = min (max v lo) hi"

definition clamp_f64 :: "rat \<Rightarrow> rat \<Rightarrow> rat \<Rightarrow> rat" where
  "clamp_f64 v lo hi = min (max v lo) hi"

definition normalized_fixture_type :: "string option \<Rightarrow> string option \<Rightarrow> string \<Rightarrow> string" where
  "normalized_fixture_type ty legacy i =
     fixture_type_for_definition (definition_id (resolve_fixture_definition None ty legacy i))"

definition type_profile :: "string \<Rightarrow> fixture_profile" where
  "type_profile ty = resolve_fixture_profile None None (Some ty) None []"

definition fixture_channel_count :: "string \<Rightarrow> int" where
  "fixture_channel_count ty = profile_channels (type_profile ty)"

definition fixture_cct_range :: "string \<Rightarrow> int \<times> int" where
  "fixture_cct_range ty = fixture_cct_range_from_profile (type_profile ty)"

definition default_fixture_cct_for_type :: "string \<Rightarrow> int" where
  "default_fixture_cct_for_type ty = fixture_default_cct (type_profile ty)"

definition normalize_dmx_start_address :: "int \<Rightarrow> string \<Rightarrow> int" where
  "normalize_dmx_start_address a ty =
     (let n = fixture_channel_count ty in if n \<le> 0 then 0 else clamp_i64 a 1 (512 - n + 1))"

definition normalize_lighting_effect :: "lighting_effect \<Rightarrow> lighting_effect" where
  "normalize_lighting_effect e =
     \<lparr>effect_type = (if effect_type e \<in> set [''pulse'', ''strobe'', ''candle''] then effect_type e else ''pulse''),
      effect_speed = clamp_i64 (effect_speed e) 1 10\<rparr>"

definition clamp_cct_for_type :: "int \<Rightarrow> string \<Rightarrow> int \<Rightarrow> int" where
  "clamp_cct_for_type k ty d =
     (case fixture_cct_range ty of (lo, hi) \<Rightarrow> clamp_i64 (if k = 0 then d else k) lo hi)"

definition fixture_profile_for_state :: "rig_fixture \<Rightarrow> fixture_profile" where
  "fixture_profile_for_state f =
     resolve_fixture_profile (fixture_definition_id f) (fixture_mode_id f) (Some (fixture_type f))
       (Some (fixture_kind f)) (fixture_id f)"

definition profile_mode_of :: "fixture_profile \<Rightarrow> fixture_mode" where
  "profile_mode_of p =
     resolve_fixture_mode (resolve_fixture_definition (Some (profile_definition p)) None None []) (Some (profile_mode p))"

text \<open>The loop over the mode's controls: each writes its clamped value, but for the two with a field of
  their own.\<close>

definition normalize_fixture_control_values :: "fixture_profile \<Rightarrow> (string \<rightharpoonup> int) \<Rightarrow> (string \<rightharpoonup> int)" where
  "normalize_fixture_control_values p vs =
     foldl (\<lambda>m c.
         if slider_id c \<in> set [''intensity'', ''cct''] then m
         else m(slider_id c \<mapsto>
                clamp_i64 (case vs (slider_id c) of Some v \<Rightarrow> v | None \<Rightarrow> default_value c) (slider_min c) (slider_max c)))
       Map.empty (controls (profile_mode_of p))"

definition effective_fixture_control_values :: "rig_fixture \<Rightarrow> (string \<rightharpoonup> int)" where
  "effective_fixture_control_values f =
     (let p = fixture_profile_for_state f;
          vs = (normalize_fixture_control_values p (control_values f))(''intensity'' \<mapsto> clamp_i64 (intensity f) 0 100)
      in if ''cct'' \<in> set (profile_capabilities p)
         then case fixture_cct_range_from_profile p of (lo, hi) \<Rightarrow> vs(''cct'' \<mapsto> clamp_i64 (cct f) lo hi)
         else vs)"

definition capture_level :: "rig_fixture \<Rightarrow> scene_level" where
  "capture_level f =
     \<lparr>level_fixture = fixture_id f, level_intensity = intensity f, level_cct = cct f, level_on = fixture_on f,
      level_controls = effective_fixture_control_values f\<rparr>"

definition capture_scene_fixture_states :: "rig_fixture list \<Rightarrow> scene_level list" where
  "capture_scene_fixture_states fs = map capture_level fs"

definition append_fixture_to_scenes :: "rig_fixture \<Rightarrow> rig_scene list \<Rightarrow> rig_scene list" where
  "append_fixture_to_scenes f =
     map (\<lambda>s. if list_ex (\<lambda>l. level_fixture l = fixture_id f) (scene_levels s) then s
              else s\<lparr>scene_levels := scene_levels s @ [capture_level f]\<rparr>)"

definition remove_fixture_from_scenes :: "string \<Rightarrow> rig_scene list \<Rightarrow> rig_scene list" where
  "remove_fixture_from_scenes i =
     map (\<lambda>s. s\<lparr>scene_levels := filter (\<lambda>l. level_fixture l \<noteq> i) (scene_levels s)\<rparr>)"

text \<open>\<open>value.rem_euclid(360.0)\<close>: the exact remainder, 360 added, and rounded, when it is negative.\<close>

definition normalize_rotation :: "rat \<Rightarrow> rat" where
  "normalize_rotation v =
     (let r = (if 0 \<le> v then v - of_int \<lfloor>v / 360\<rfloor> * 360 else v + of_int \<lfloor>- v / 360\<rfloor> * 360);
          n = (if r < 0 then nearest (r + 360) else r)
      in if n = 360 then 0 else n)"

definition normalize_optional_coordinate :: "rat option \<Rightarrow> rat option" where
  "normalize_optional_coordinate = map_option (\<lambda>c. clamp_f64 c 0 20)"

definition read_optional_setting :: "settings \<Rightarrow> string \<Rightarrow> string option" where
  "read_optional_setting settings key =
     (case settings key of None \<Rightarrow> None | Some v \<Rightarrow> if trim v = [] then None else Some (trim v))"

definition LIGHTING_GRAND_MASTER_KEY :: string where
  "LIGHTING_GRAND_MASTER_KEY = ''app.lighting.grand_master''"

definition read_lighting_grand_master :: "settings \<Rightarrow> int" where
  "read_lighting_grand_master settings =
     (case Option.bind (settings LIGHTING_GRAND_MASTER_KEY) parse_i64 of Some v \<Rightarrow> clamp_i64 v 0 100 | None \<Rightarrow> 100)"

section \<open>The inventory\<close>

text \<open>A fixture as the page and the output see it; \<open>LightingFixtureSnapshot\<close>.\<close>

record fixture_snapshot =
  snap_id :: string
  snap_name :: string
  snap_type :: string
  snap_definition :: string
  snap_mode :: string
  snap_universe :: int
  snap_address :: int
  snap_kind :: string
  snap_group :: "string option"
  snap_x :: "rat option"
  snap_y :: "rat option"
  snap_rotation :: rat
  snap_rig_z :: "rat option"
  snap_beam :: "rat option"
  snap_on :: bool
  snap_intensity :: int
  snap_cct :: int
  snap_controls :: "string \<rightharpoonup> int"
  snap_effect :: "lighting_effect option"

text \<open>The groups' and the scenes' ids and names; the rest of their snapshots is not read.\<close>

record inventory =
  inventory_fixtures :: "fixture_snapshot list"
  inventory_groups :: "(string \<times> string) list"
  inventory_scenes :: "(string \<times> string) list"

definition simulated_fixture ::
  "int \<Rightarrow> string \<Rightarrow> string \<Rightarrow> string \<Rightarrow> string \<Rightarrow> int \<Rightarrow> string \<Rightarrow> string \<Rightarrow> rat \<Rightarrow> rat \<Rightarrow> rat \<Rightarrow> int \<Rightarrow> fixture_snapshot" where
  "simulated_fixture u i name ty d a k g x y rot kelvin =
     \<lparr>snap_id = i, snap_name = name, snap_type = ty, snap_definition = d, snap_mode = ''default'',
      snap_universe = u, snap_address = a, snap_kind = k, snap_group = Some g, snap_x = Some (nearest x),
      snap_y = Some (nearest y), snap_rotation = rot, snap_rig_z = None, snap_beam = None, snap_on = False,
      snap_intensity = 100, snap_cct = kelvin, snap_controls = Map.empty, snap_effect = None\<rparr>"

definition read_inventory :: "lighting_config \<Rightarrow> inventory" where
  "read_inventory c =
     (if \<not> enabled c \<or> trim (bridge_ip c) = [] \<or> config_universe c \<le> 0
      then \<lparr>inventory_fixtures = [], inventory_groups = [], inventory_scenes = []\<rparr>
      else
        \<lparr>inventory_fixtures =
           [simulated_fixture (config_universe c) ''fixture-key-left'' ''Key Left'' ''astra-bicolor''
              ''litepanels-astra-bicolor'' 1 ''profile'' ''group-stage'' (3 / 10) (1 / 4) 180 4500,
            simulated_fixture (config_universe c) ''fixture-key-right'' ''Key Right'' ''astra-bicolor''
              ''litepanels-astra-bicolor'' 3 ''profile'' ''group-stage'' (7 / 10) (1 / 4) 180 4500,
            simulated_fixture (config_universe c) ''fixture-backline-wash'' ''Backline Wash'' ''infinimat''
              ''aputure-infinimat-generic'' 5 ''wash'' ''group-stage'' (1 / 2) (3 / 20) 180 4500,
            simulated_fixture (config_universe c) ''fixture-house-practicals'' ''House Practicals'' ''infinibar-pb12''
              ''aputure-infinibar-pb12'' 9 ''practical'' ''group-room'' (1 / 2) (17 / 20) 0 3200],
         inventory_groups = [(''group-stage'', ''Stage''), (''group-room'', ''Room'')],
         inventory_scenes = [(''scene-prep'', ''Prep''), (''scene-teaching'', ''Teaching''), (''scene-stream'', ''Stream'')]\<rparr>)"

definition read_lighting_editor_inventory :: "lighting_config \<Rightarrow> inventory" where
  "read_lighting_editor_inventory c = read_inventory (c\<lparr>enabled := trim (bridge_ip c) \<noteq> []\<rparr>)"

text \<open>What the backend's recall sets: a fixture's switch and its level. \<open>None\<close> is its error.\<close>

definition recall_default_lighting_scene ::
  "lighting_config \<Rightarrow> inventory \<Rightarrow> string \<Rightarrow> (string \<rightharpoonup> bool \<times> int) option" where
  "recall_default_lighting_scene c iv i =
     (if \<not> enabled c \<or> trim (bridge_ip c) = [] \<or> config_universe c \<le> 0 then None
      else if i \<notin> fst ` set (inventory_scenes iv) then None
      else Some (map_of
        (if i = ''scene-prep'' then
           [(''fixture-key-left'', False, 35), (''fixture-key-right'', False, 35),
            (''fixture-backline-wash'', True, 25), (''fixture-house-practicals'', True, 40)]
         else if i = ''scene-teaching'' then
           [(''fixture-key-left'', True, 80), (''fixture-key-right'', True, 80),
            (''fixture-backline-wash'', True, 55), (''fixture-house-practicals'', False, 15)]
         else
           [(''fixture-key-left'', True, 90), (''fixture-key-right'', True, 90),
            (''fixture-backline-wash'', True, 35), (''fixture-house-practicals'', True, 15)])))"

section \<open>A state brought in order\<close>

definition DEFAULT_FIXTURE_INTENSITY :: int where "DEFAULT_FIXTURE_INTENSITY = 100"
definition DEFAULT_FIXTURE_CCT :: int where "DEFAULT_FIXTURE_CCT = 4500"
definition MIN_FIXTURE_CCT :: int where "MIN_FIXTURE_CCT = 2000"
definition MAX_FIXTURE_CCT :: int where "MAX_FIXTURE_CCT = 10000"

definition color_kept :: "nat option \<Rightarrow> nat option" where
  "color_kept c = (case c of Some i \<Rightarrow> if i < 8 then Some i else None | None \<Rightarrow> None)"

definition normalize_fixture :: "inventory \<Rightarrow> rig_fixture \<Rightarrow> rig_fixture" where
  "normalize_fixture iv f =
     (let known = find (\<lambda>s. snap_id s = fixture_id f) (rev (inventory_fixtures iv));
          ty = normalized_fixture_type (Some (fixture_type f)) (Some (fixture_kind f)) (fixture_id f);
          p = resolve_fixture_profile (fixture_definition_id f) (fixture_mode_id f) (Some ty)
                (Some (fixture_kind f)) (fixture_id f)
      in \<lparr>fixture_id = fixture_id f,
          fixture_name =
            (if trim (fixture_name f) = [] then case known of Some s \<Rightarrow> snap_name s | None \<Rightarrow> fixture_id f
             else fixture_name f),
          fixture_type = ty,
          fixture_definition_id = Some (profile_definition p),
          fixture_mode_id = Some (profile_mode p),
          universe = clamp_i64 (universe f) 1 63999,
          dmx_start_address = normalize_dmx_start_address (dmx_start_address f) ty,
          fixture_kind = profile_kind p,
          fixture_group = fixture_group f,
          spatial_x = normalize_optional_coordinate (spatial_x f),
          spatial_y = normalize_optional_coordinate (spatial_y f),
          spatial_rotation = normalize_rotation (spatial_rotation f),
          rig_z = rig_z f,
          beam_angle_degrees = beam_angle_degrees f,
          intensity = clamp_i64 (intensity f) 0 100,
          cct = clamp_cct_for_type (cct f) ty
                  (case known of Some s \<Rightarrow> snap_cct s | None \<Rightarrow> default_fixture_cct_for_type ty),
          fixture_on = fixture_on f,
          control_values = normalize_fixture_control_values p (control_values f),
          effect = map_option normalize_lighting_effect (effect f)\<rparr>)"

text \<open>A fixture of the inventory that is not in the state and was not removed.\<close>

definition appended_fixture :: "fixture_snapshot \<Rightarrow> rig_fixture" where
  "appended_fixture s =
     (let ty = normalized_fixture_type (Some (snap_type s)) (Some (snap_kind s)) (snap_id s);
          p = resolve_fixture_profile (Some (snap_definition s)) (Some (snap_mode s)) (Some ty)
                (Some (snap_kind s)) (snap_id s)
      in \<lparr>fixture_id = snap_id s, fixture_name = snap_name s, fixture_type = ty,
          fixture_definition_id = Some (profile_definition p), fixture_mode_id = Some (profile_mode p),
          universe = snap_universe s,
          dmx_start_address = normalize_dmx_start_address (snap_address s) ty,
          fixture_kind = profile_kind p, fixture_group = snap_group s,
          spatial_x = normalize_optional_coordinate (snap_x s), spatial_y = normalize_optional_coordinate (snap_y s),
          spatial_rotation = normalize_rotation (snap_rotation s), rig_z = None, beam_angle_degrees = None,
          intensity = DEFAULT_FIXTURE_INTENSITY,
          cct = clamp_cct_for_type DEFAULT_FIXTURE_CCT ty (snap_cct s), fixture_on = False,
          control_values = normalize_fixture_control_values p (snap_controls s), effect = None\<rparr>)"

definition append_missing_fixture_states :: "string list \<Rightarrow> inventory \<Rightarrow> rig_fixture list \<Rightarrow> rig_fixture list" where
  "append_missing_fixture_states removed iv fs =
     fs @ map appended_fixture
       (filter (\<lambda>s. snap_id s \<notin> set (map fixture_id fs) \<and> snap_id s \<notin> set removed) (inventory_fixtures iv))"

fun append_missing_group_states :: "inventory \<Rightarrow> rig_fixture list \<Rightarrow> rig_group list \<Rightarrow> rig_group list" where
  "append_missing_group_states iv [] gs = gs"
| "append_missing_group_states iv (f # fs) gs =
     append_missing_group_states iv fs
       (case fixture_group f of
          None \<Rightarrow> gs
        | Some g \<Rightarrow>
            if g \<in> set (map group_id gs) then gs
            else gs @ [\<lparr>group_id = g,
                        group_name = (case map_of (rev (inventory_groups iv)) g of Some n \<Rightarrow> n | None \<Rightarrow> g),
                        group_color = None\<rparr>])"

definition default_lighting_group_states :: "inventory \<Rightarrow> rig_fixture list \<Rightarrow> rig_group list" where
  "default_lighting_group_states iv fs =
     append_missing_group_states iv fs
       (map (\<lambda>(i, n). \<lparr>group_id = i, group_name = n, group_color = None\<rparr>) (inventory_groups iv))"

definition normalize_lighting_group_states :: "rig_group list \<Rightarrow> inventory \<Rightarrow> rig_fixture list \<Rightarrow> rig_group list" where
  "normalize_lighting_group_states gs iv fs =
     (if gs = [] then default_lighting_group_states iv fs
      else append_missing_group_states iv fs (map (\<lambda>g. g\<lparr>group_color := color_kept (group_color g)\<rparr>) gs))"

definition default_lighting_scene_fixture_states ::
  "lighting_config \<Rightarrow> inventory \<Rightarrow> string \<Rightarrow> rig_fixture list \<Rightarrow> scene_level list" where
  "default_lighting_scene_fixture_states c iv i fs =
     (let updates = (case recall_default_lighting_scene c iv i of Some m \<Rightarrow> m | None \<Rightarrow> Map.empty)
      in map (\<lambda>f. \<lparr>level_fixture = fixture_id f,
                   level_intensity = (case updates (fixture_id f) of Some (_, v) \<Rightarrow> clamp_i64 v 0 100 | None \<Rightarrow> intensity f),
                   level_cct = cct f,
                   level_on = (case updates (fixture_id f) of Some (o', _) \<Rightarrow> o' | None \<Rightarrow> fixture_on f),
                   level_controls = effective_fixture_control_values f\<rparr>) fs)"

definition default_lighting_scene_states :: "lighting_config \<Rightarrow> inventory \<Rightarrow> rig_fixture list \<Rightarrow> rig_scene list" where
  "default_lighting_scene_states c iv fs =
     map (\<lambda>(i, n). \<lparr>scene_id = i, scene_name = n, scene_levels = default_lighting_scene_fixture_states c iv i fs,
                     scene_color = None\<rparr>) (inventory_scenes iv)"

definition normalize_level :: "rig_scene \<Rightarrow> rig_fixture \<Rightarrow> scene_level" where
  "normalize_level s f =
     (case find (\<lambda>l. level_fixture l = fixture_id f) (scene_levels s) of
        Some l \<Rightarrow>
          \<lparr>level_fixture = fixture_id f, level_intensity = clamp_i64 (level_intensity l) 0 100,
           level_cct = clamp_i64 (level_cct l) MIN_FIXTURE_CCT MAX_FIXTURE_CCT, level_on = level_on l,
           level_controls = normalize_fixture_control_values (fixture_profile_for_state f) (level_controls l)\<rparr>
      | None \<Rightarrow> capture_level f)"

definition normalize_scenes :: "lighting_config \<Rightarrow> inventory \<Rightarrow> rig_fixture list \<Rightarrow> rig_scene list \<Rightarrow> rig_scene list" where
  "normalize_scenes c iv fs ss =
     (if ss = [] then default_lighting_scene_states c iv fs
      else map (\<lambda>s. \<lparr>scene_id = scene_id s, scene_name = scene_name s, scene_levels = map (normalize_level s) fs,
                     scene_color = color_kept (scene_color s)\<rparr>) ss)"

text \<open>A saved order: the ids that are still there, then those it does not have.\<close>

fun append_missing_ids :: "string list \<Rightarrow> string list \<Rightarrow> string list" where
  "append_missing_ids order [] = order"
| "append_missing_ids order (i # is) = append_missing_ids (if i \<in> set order then order else order @ [i]) is"

definition rebuilt_order :: "string list \<Rightarrow> string list \<Rightarrow> string list" where
  "rebuilt_order saved is = append_missing_ids (filter (\<lambda>i. i \<in> set is) saved) is"

definition normalize_palette_value :: "palette_kind \<Rightarrow> rat \<Rightarrow> rat" where
  "normalize_palette_value k v =
     (case k of
        IntensityPalette \<Rightarrow> clamp_f64 v 0 100
      | CctPalette \<Rightarrow> clamp_f64 v (of_int MIN_FIXTURE_CCT) (of_int MAX_FIXTURE_CCT))"

fun normalize_palettes_from :: "rig_palette list \<Rightarrow> rig_palette list \<Rightarrow> rig_palette list" where
  "normalize_palettes_from done [] = done"
| "normalize_palettes_from done (p # ps) =
     (if trim (palette_id p) = [] \<or> trim (palette_name p) = [] \<or> palette_id p \<in> set (map palette_id done)
      then normalize_palettes_from done ps
      else normalize_palettes_from
        (done @ [\<lparr>palette_id = trim (palette_id p), palette_name = trim (palette_name p), palette_kind = palette_kind p,
                  palette_value = normalize_palette_value (palette_kind p) (palette_value p),
                  palette_color = color_kept (palette_color p)\<rparr>]) ps)"

definition normalize_lighting_palette_states :: "rig_palette list \<Rightarrow> rig_palette list" where
  "normalize_lighting_palette_states ps = normalize_palettes_from [] ps"

definition kind_of_palette :: "rig_palette list \<Rightarrow> string \<Rightarrow> palette_kind option" where
  "kind_of_palette ps i = map_option palette_kind (find (\<lambda>p. palette_id p = i) ps)"

fun palette_ids_from :: "rig_palette list \<Rightarrow> string list \<Rightarrow> string list \<Rightarrow> string list" where
  "palette_ids_from ps ordered [] = ordered"
| "palette_ids_from ps ordered (i # is) =
     (if trim i = [] \<or> i \<in> set ordered \<or> i \<notin> set (map palette_id ps) then palette_ids_from ps ordered is
      else palette_ids_from ps (ordered @ [i]) is)"

definition normalize_lighting_palette_order :: "rig_palette list \<Rightarrow> string list \<Rightarrow> string list" where
  "normalize_lighting_palette_order ps saved =
     (let ordered = append_missing_ids (palette_ids_from ps [] saved) (map palette_id ps)
      in concat (map (\<lambda>k. filter (\<lambda>i. kind_of_palette ps i = Some k) ordered) [IntensityPalette, CctPalette]))"

definition default_lighting_palette_states :: "rig_palette list" where
  "default_lighting_palette_states =
     map (\<lambda>(i, n, k, v, c). \<lparr>palette_id = i, palette_name = n, palette_kind = k, palette_value = v, palette_color = Some c\<rparr>)
       [(''palette-intensity-low'', ''Low'', IntensityPalette, 10, 5),
        (''palette-intensity-quarter'', ''Quarter'', IntensityPalette, 25, 4),
        (''palette-intensity-half'', ''Half'', IntensityPalette, 50, 2),
        (''palette-intensity-full'', ''Full'', IntensityPalette, 100, 0),
        (''palette-cct-warm'', ''Warm'', CctPalette, 2700, 0),
        (''palette-cct-studio'', ''Studio'', CctPalette, 4000, 4),
        (''palette-cct-daylight'', ''Daylight'', CctPalette, 5600, 5),
        (''palette-cct-cool'', ''Cool'', CctPalette, 6500, 5)]"

definition normalize_lighting_editor_state :: "rig \<Rightarrow> lighting_config \<Rightarrow> inventory \<Rightarrow> rig" where
  "normalize_lighting_editor_state r c iv =
     (let removed = removed_fixture_ids r;
          fs = append_missing_fixture_states removed iv
                 (map (normalize_fixture iv) (filter (\<lambda>f. fixture_id f \<notin> set removed) (fixtures r)));
          gs = normalize_lighting_group_states (groups r) iv fs;
          ss = normalize_scenes c iv fs (scenes r);
          ps = normalize_lighting_palette_states (palettes r)
      in \<lparr>groups = gs, removed_fixture_ids = removed, fixtures = fs, scenes = ss,
          scene_order = rebuilt_order (scene_order r) (map scene_id ss),
          pinned_scene_ids = filter (\<lambda>i. i \<in> set (map scene_id ss)) (pinned_scene_ids r),
          group_order = rebuilt_order (group_order r) (map group_id gs),
          palettes = ps, palette_order = normalize_lighting_palette_order ps (palette_order r),
          active_fade = active_fade r\<rparr>)"

definition default_fixture :: "fixture_snapshot \<Rightarrow> rig_fixture" where
  "default_fixture s =
     (let ty = normalized_fixture_type (Some (snap_type s)) (Some (snap_kind s)) (snap_id s);
          p = resolve_fixture_profile (Some (snap_definition s)) (Some (snap_mode s)) (Some ty)
                (Some (snap_kind s)) (snap_id s)
      in \<lparr>fixture_id = snap_id s, fixture_name = snap_name s, fixture_type = ty,
          fixture_definition_id = Some (profile_definition p), fixture_mode_id = Some (profile_mode p),
          universe = snap_universe s,
          dmx_start_address = normalize_dmx_start_address (snap_address s) (snap_type s),
          fixture_kind = profile_kind p, fixture_group = snap_group s, spatial_x = snap_x s, spatial_y = snap_y s,
          spatial_rotation = normalize_rotation (snap_rotation s), rig_z = None, beam_angle_degrees = None,
          intensity = DEFAULT_FIXTURE_INTENSITY, cct = DEFAULT_FIXTURE_CCT, fixture_on = False,
          control_values = normalize_fixture_control_values p (snap_controls s), effect = None\<rparr>)"

definition default_lighting_editor_state :: "lighting_config \<Rightarrow> inventory \<Rightarrow> rig" where
  "default_lighting_editor_state c iv =
     (let fs = map default_fixture (inventory_fixtures iv);
          gs = default_lighting_group_states iv fs;
          ss = default_lighting_scene_states c iv fs
      in \<lparr>groups = gs, removed_fixture_ids = [], fixtures = fs, scenes = ss, scene_order = map scene_id ss,
          pinned_scene_ids = [], group_order = map group_id gs, palettes = default_lighting_palette_states,
          palette_order = map palette_id default_lighting_palette_states, active_fade = None\<rparr>)"

text \<open>
  What the settings hold of the lights: the keys of plain text, and under three keys JSON, which is kept
  here as what it stands for. \<open>saved_rig\<close> is \<open>None\<close> while there is none or it does not read. Reading back
  what \<open>serde_json\<close> wrote gives the value again.
\<close>

record identify_burst =
  started_at_ms :: int
  duration_ms :: int

record light_store =
  plain :: settings
  saved_rig :: "rig option"
  saved_bursts :: "string \<rightharpoonup> identify_burst"
  saved_highlight :: "string set"
  saved_solo :: "string set"

definition load_with_inventory :: "light_store \<Rightarrow> lighting_config \<Rightarrow> inventory \<Rightarrow> rig" where
  "load_with_inventory st c iv =
     (case saved_rig st of
        Some r \<Rightarrow> normalize_lighting_editor_state r c iv
      | None \<Rightarrow> default_lighting_editor_state c iv)"

definition load_lighting_editor_state :: "light_store \<Rightarrow> rig" where
  "load_lighting_editor_state st =
     (let c = resolve_lighting_config (plain st) in load_with_inventory st c (read_lighting_editor_inventory c))"

end
