(* ===== verification/Rig_Fade.thy ===== *)
theory Rig_Fade
  imports Rig_State
begin

text \<open>
  The fade of a recall (\<open>lighting/fade.rs\<close>): how far it is, the levels between where the lights were and
  the scene's, and a fixture taken out of it. \<open>as f64\<close> and each product, sum and quotient round as
  \<open>F64\<close> has it.
\<close>

definition fade_duration_ms_from_seconds :: "rat \<Rightarrow> int" where
  "fade_duration_ms_from_seconds s = clamp_i64 (round_half_away (nearest (s * 1000))) 0 10000"

definition fade_progress :: "int \<Rightarrow> int \<Rightarrow> int \<Rightarrow> rat" where
  "fade_progress started now duration =
     (if duration \<le> 0 then 1
      else clamp_f64 (nearest (nearest (of_int (now - started)) / nearest (of_int duration))) 0 1)"

definition lerp_i64 :: "int \<Rightarrow> int \<Rightarrow> rat \<Rightarrow> int" where
  "lerp_i64 o' t p = round_half_away (nearest (nearest (of_int o') + nearest (nearest (of_int (t - o')) * p)))"

definition sample_lighting_fade_state :: "scene_level \<Rightarrow> scene_level \<Rightarrow> rat \<Rightarrow> scene_level" where
  "sample_lighting_fade_state origin target progress =
     (let t = clamp_f64 progress 0 1 in
      if 1 \<le> t then target
      else
        let o' = (if level_on origin then level_intensity origin else 0);
            g = (if level_on target then level_intensity target else 0);
            i = clamp_i64 (lerp_i64 o' g t) 0 100
        in \<lparr>level_fixture = level_fixture target,
            level_intensity = i,
            level_cct = lerp_i64 (level_cct origin) (level_cct target) t,
            level_on = (if o' < g then 0 < i \<or> level_on target
                        else if g < o' then t < 1 \<and> level_on origin
                        else level_on target),
            level_controls = level_controls target\<rparr>)"

definition capture_fixture_states :: "rig_fixture list \<Rightarrow> scene_level list" where
  "capture_fixture_states fs = map (\<lambda>f. (capture_level f)\<lparr>level_intensity := clamp_i64 (intensity f) 0 100\<rparr>) fs"

definition start_lighting_fade :: "string \<Rightarrow> int \<Rightarrow> int \<Rightarrow> scene_level list \<Rightarrow> rig \<Rightarrow> rig" where
  "start_lighting_fade i now duration targets r =
     (if duration \<le> 0 then r\<lparr>active_fade := None\<rparr>
      else r\<lparr>active_fade := Some \<lparr>fade_scene = i, fade_started = now, fade_duration = duration,
               fade_origin = capture_fixture_states (fixtures r), fade_target = targets\<rparr>\<rparr>)"

text \<open>\<open>states_by_fixture_id\<close>: of two states of one fixture, the later.\<close>

definition states_by_fixture_id :: "scene_level list \<Rightarrow> (string \<rightharpoonup> scene_level)" where
  "states_by_fixture_id ls = map_of (rev (map (\<lambda>l. (level_fixture l, l)) ls))"

definition set_levels :: "scene_level \<Rightarrow> rig_fixture \<Rightarrow> rig_fixture" where
  "set_levels l f =
     f\<lparr>intensity := level_intensity l, cct := level_cct l, fixture_on := level_on l, control_values := level_controls l\<rparr>"

definition fade_fixture :: "rig_fade \<Rightarrow> rat \<Rightarrow> rig_fixture \<Rightarrow> rig_fixture" where
  "fade_fixture fade progress f =
     (let origin = (case states_by_fixture_id (fade_origin fade) (fixture_id f) of Some l \<Rightarrow> l | None \<Rightarrow> capture_level f);
          target = (case states_by_fixture_id (fade_target fade) (fixture_id f) of Some l \<Rightarrow> l | None \<Rightarrow> origin)
      in set_levels (sample_lighting_fade_state origin target progress) f)"

text \<open>The status is the scene, how far the fade is and how long it takes.\<close>

definition apply_active_fade_sample :: "int \<Rightarrow> rig \<Rightarrow> rig \<times> (string \<times> rat \<times> int) option" where
  "apply_active_fade_sample now r =
     (case active_fade r of
        None \<Rightarrow> (r, None)
      | Some fade \<Rightarrow>
          let progress = fade_progress (fade_started fade) now (fade_duration fade)
          in (r\<lparr>fixtures := map (fade_fixture fade progress) (fixtures r),
                active_fade := (if 1 \<le> progress then None else active_fade r)\<rparr>,
              Some (fade_scene fade, progress, fade_duration fade)))"

abbreviation sampled :: "int \<Rightarrow> rig \<Rightarrow> rig" where
  "sampled now r \<equiv> fst (apply_active_fade_sample now r)"

definition remove_fixture_from_active_fade :: "string \<Rightarrow> rig \<Rightarrow> rig" where
  "remove_fixture_from_active_fade i r =
     (case active_fade r of
        None \<Rightarrow> r
      | Some fade \<Rightarrow>
          let fade' = fade\<lparr>fade_origin := filter (\<lambda>l. level_fixture l \<noteq> i) (fade_origin fade),
                           fade_target := filter (\<lambda>l. level_fixture l \<noteq> i) (fade_target fade)\<rparr>
          in r\<lparr>active_fade := (if fade_target fade' = [] then None else Some fade')\<rparr>)"

definition clear_active_fade :: "rig \<Rightarrow> rig" where
  "clear_active_fade r = r\<lparr>active_fade := None\<rparr>"

section \<open>Levels between\<close>

lemma progress_bounds: "0 \<le> fade_progress s n d \<and> fade_progress s n d \<le> 1"
  by (auto simp: fade_progress_def clamp_f64_def)

lemma lerp_between_up:
  assumes "0 \<le> p" "p \<le> 1" "o' \<le> t" "\<bar>o'\<bar> \<le> 2 ^ 52" "\<bar>t\<bar> \<le> 2 ^ 52"
  shows "o' \<le> lerp_i64 o' t p \<and> lerp_i64 o' t p \<le> t"
proof -
  have d: "\<bar>t - o'\<bar> \<le> 2 ^ 53" and os: "\<bar>o'\<bar> \<le> 2 ^ 53" "\<bar>t\<bar> \<le> 2 ^ 53" using assms(4,5) by simp_all
  have n: "nearest (of_int (t - o')) = of_int (t - o')" using d by (rule nearest_int)
  have no: "nearest (of_int o') = of_int o'" using os(1) by (rule nearest_int)
  have "of_int 0 \<le> of_int (t - o') * p" using assms(1,3) by simp
  moreover have "of_int (t - o') * p \<le> of_int (t - o')" using assms(2,3) by (simp add: mult_left_le)
  ultimately have m: "of_int 0 \<le> nearest (of_int (t - o') * p)" "nearest (of_int (t - o') * p) \<le> of_int (t - o')"
    using nearest_in [of 0 "of_int (t - o') * p" "t - o'"] d by simp_all
  have "of_int o' \<le> of_int o' + nearest (of_int (t - o') * p)" "of_int o' + nearest (of_int (t - o') * p) \<le> of_int t"
    using m by simp_all
  from nearest_in [OF this os] have "of_int o' \<le> nearest (of_int o' + nearest (of_int (t - o') * p))"
    "nearest (of_int o' + nearest (of_int (t - o') * p)) \<le> of_int t" by simp_all
  from round_half_away_in [OF this] show ?thesis unfolding lerp_i64_def n no .
qed

lemma lerp_between_down:
  assumes "0 \<le> p" "p \<le> 1" "t \<le> o'" "\<bar>o'\<bar> \<le> 2 ^ 52" "\<bar>t\<bar> \<le> 2 ^ 52"
  shows "t \<le> lerp_i64 o' t p \<and> lerp_i64 o' t p \<le> o'"
proof -
  have d: "\<bar>t - o'\<bar> \<le> 2 ^ 53" and os: "\<bar>o'\<bar> \<le> 2 ^ 53" "\<bar>t\<bar> \<le> 2 ^ 53" using assms(4,5) by simp_all
  have n: "nearest (of_int (t - o')) = of_int (t - o')" using d by (rule nearest_int)
  have no: "nearest (of_int o') = of_int o'" using os(1) by (rule nearest_int)
  have "of_int (t - o') * p \<le> of_int 0" using assms(1,3) by (simp add: mult_nonpos_nonneg)
  moreover have "of_int (t - o') \<le> of_int (t - o') * p"
    using mult_left_mono_neg [of p 1 "of_int (t - o')"] assms(2,3) by simp
  ultimately have m: "nearest (of_int (t - o') * p) \<le> of_int 0" "of_int (t - o') \<le> nearest (of_int (t - o') * p)"
    using nearest_in [of "t - o'" "of_int (t - o') * p" 0] d by simp_all
  have "of_int t \<le> of_int o' + nearest (of_int (t - o') * p)" "of_int o' + nearest (of_int (t - o') * p) \<le> of_int o'"
    using m by simp_all
  from nearest_in [OF this os(2,1)] have "of_int t \<le> nearest (of_int o' + nearest (of_int (t - o') * p))"
    "nearest (of_int o' + nearest (of_int (t - o') * p)) \<le> of_int o'" by simp_all
  from round_half_away_in [OF this] show ?thesis unfolding lerp_i64_def n no .
qed

lemma lerp_between:
  "0 \<le> p \<Longrightarrow> p \<le> 1 \<Longrightarrow> \<bar>o'\<bar> \<le> 2 ^ 52 \<Longrightarrow> \<bar>t\<bar> \<le> 2 ^ 52 \<Longrightarrow> min o' t \<le> lerp_i64 o' t p \<and> lerp_i64 o' t p \<le> max o' t"
  using lerp_between_up [of p o' t] lerp_between_down [of p t o'] by (cases "o' \<le> t") simp_all

text \<open>What a light gives: its level while it is on.\<close>

definition shown_level :: "scene_level \<Rightarrow> int" where
  "shown_level l = (if level_on l then level_intensity l else 0)"

definition level_ok :: "scene_level \<Rightarrow> bool" where
  "level_ok l \<longleftrightarrow> 0 \<le> level_intensity l \<and> level_intensity l \<le> 100 \<and> 0 \<le> level_cct l \<and> level_cct l \<le> 2 ^ 52"

text \<open>
  C35. A fade neither dips nor overshoots: at every moment before its end each light gives a level between
  what it gave and what the scene gives, at a colour temperature between the two, however the floating-point
  arithmetic rounds; and at the end it is the scene's own state.
\<close>

theorem fade_stays_between:
  assumes "level_ok origin" "level_ok target"
  shows "let l = sample_lighting_fade_state origin target p
         in min (shown_level origin) (shown_level target) \<le> shown_level l \<and>
            shown_level l \<le> max (shown_level origin) (shown_level target) \<and>
            min (level_cct origin) (level_cct target) \<le> level_cct l \<and>
            level_cct l \<le> max (level_cct origin) (level_cct target) \<and>
            (1 \<le> p \<longrightarrow> l = target)"
proof (cases "1 \<le> p")
  case True
  then have "sample_lighting_fade_state origin target p = target"
    by (simp add: sample_lighting_fade_state_def clamp_f64_def Let_def)
  then show ?thesis by (simp add: Let_def)
next
  case False
  let ?t = "clamp_f64 p 0 1" let ?o = "shown_level origin" let ?g = "shown_level target"
  have t: "0 \<le> ?t" "?t \<le> 1" "?t < 1" using False by (auto simp: clamp_f64_def)
  have b: "0 \<le> ?o" "?o \<le> 100" "0 \<le> ?g" "?g \<le> 100" using assms by (auto simp: shown_level_def level_ok_def)
  have l: "min ?o ?g \<le> lerp_i64 ?o ?g ?t" "lerp_i64 ?o ?g ?t \<le> max ?o ?g"
    using lerp_between [OF t(1,2), of ?o ?g] b by simp_all
  then have i: "clamp_i64 (lerp_i64 ?o ?g ?t) 0 100 = lerp_i64 ?o ?g ?t" using b by (auto simp: clamp_i64_def)
  have c: "min (level_cct origin) (level_cct target) \<le> lerp_i64 (level_cct origin) (level_cct target) ?t"
    "lerp_i64 (level_cct origin) (level_cct target) ?t \<le> max (level_cct origin) (level_cct target)"
    using lerp_between [OF t(1,2), of "level_cct origin" "level_cct target"] assms by (simp_all add: level_ok_def)
  have s: "sample_lighting_fade_state origin target p =
      \<lparr>level_fixture = level_fixture target, level_intensity = lerp_i64 ?o ?g ?t,
       level_cct = lerp_i64 (level_cct origin) (level_cct target) ?t,
       level_on = (if ?o < ?g then 0 < lerp_i64 ?o ?g ?t \<or> level_on target
                   else if ?g < ?o then level_on origin else level_on target),
       level_controls = level_controls target\<rparr>"
    using t(3) i by (simp add: sample_lighting_fade_state_def Let_def flip: shown_level_def)
  have "level_on target" if "?o < ?g" using that b by (auto simp: shown_level_def split: if_splits)
  moreover have "level_on origin" if "?g < ?o" using that b by (auto simp: shown_level_def split: if_splits)
  moreover have "level_on target \<or> ?g = 0" by (simp add: shown_level_def)
  ultimately have "shown_level (sample_lighting_fade_state origin target p) = lerp_i64 ?o ?g ?t"
    unfolding s using l by (auto simp: shown_level_def [of "\<lparr>level_fixture = _, level_intensity = _, level_cct = _, level_on = _, level_controls = _\<rparr>"])
  then show ?thesis using False l c s by (simp add: Let_def)
qed

text \<open>A light taken out of the fade is no longer moved by it.\<close>

lemma removed_from_fade:
  "fixture_id f = i \<Longrightarrow> active_fade (remove_fixture_from_active_fade i r) = Some fade \<Longrightarrow>
   fade_fixture fade p f = set_levels (sample_lighting_fade_state (capture_level f) (capture_level f) p) f"
proof -
  assume i: "fixture_id f = i" and f: "active_fade (remove_fixture_from_active_fade i r) = Some fade"
  then have n: "\<forall>l \<in> set (fade_origin fade) \<union> set (fade_target fade). level_fixture l \<noteq> i"
    by (auto simp: remove_fixture_from_active_fade_def Let_def split: option.splits if_splits)
  have "states_by_fixture_id ls i = None" if "\<forall>l \<in> set ls. level_fixture l \<noteq> i" for ls
    using that by (auto simp: states_by_fixture_id_def map_of_eq_None_iff)
  then show ?thesis using n i by (simp add: fade_fixture_def Let_def)
qed

theorem fade_stays_between_witness:
  "shown_level (sample_lighting_fade_state
     \<lparr>level_fixture = ''k'', level_intensity = 20, level_cct = 3200, level_on = False, level_controls = Map.empty\<rparr>
     \<lparr>level_fixture = ''k'', level_intensity = 80, level_cct = 5600, level_on = True, level_controls = Map.empty\<rparr> (1 / 3)) \<le> 80"
  using fade_stays_between [of
     "\<lparr>level_fixture = ''k'', level_intensity = 20, level_cct = 3200, level_on = False, level_controls = Map.empty\<rparr>"
     "\<lparr>level_fixture = ''k'', level_intensity = 80, level_cct = 5600, level_on = True, level_controls = Map.empty\<rparr>" "1 / 3"]
  by (simp add: Let_def level_ok_def shown_level_def [of "\<lparr>level_fixture = ''k'', level_intensity = 80, level_cct = 5600, level_on = True, level_controls = Map.empty\<rparr>"]
      shown_level_def [of "\<lparr>level_fixture = ''k'', level_intensity = 20, level_cct = 3200, level_on = False, level_controls = Map.empty\<rparr>"])

end
