(* ===== verification/Rig_Edit.thy ===== *)
theory Rig_Edit
  imports Rig_Fade
begin

text \<open>
  The lighting editor's commands on the rig (\<open>lighting/groups.rs\<close>, \<open>lighting/scenes.rs\<close>,
  \<open>lighting/fixtures.rs\<close>): each reads the saved state, changes it and saves it whole with the words of the
  last action. A command is a function of what is saved; of its result the summary is kept, the rest of it
  being drawn from the saved state. \<open>fixed n x\<close> is how \<open>{:.n}\<close> prints a \<open>f64\<close>.
\<close>

section \<open>Saving\<close>

definition LIGHTING_LAST_ACTION_STATUS_KEY :: string where
  "LIGHTING_LAST_ACTION_STATUS_KEY = ''app.lighting.last_action_status''"
definition LIGHTING_LAST_ACTION_CODE_KEY :: string where
  "LIGHTING_LAST_ACTION_CODE_KEY = ''app.lighting.last_action_code''"
definition LIGHTING_LAST_ACTION_MESSAGE_KEY :: string where
  "LIGHTING_LAST_ACTION_MESSAGE_KEY = ''app.lighting.last_action_message''"
definition LIGHTING_LAST_RECALLED_SCENE_ID_KEY :: string where
  "LIGHTING_LAST_RECALLED_SCENE_ID_KEY = ''app.lighting.last_recalled_scene_id''"
definition LIGHTING_LAST_SCENE_RECALL_AT_KEY :: string where
  "LIGHTING_LAST_SCENE_RECALL_AT_KEY = ''app.lighting.last_scene_recall_at''"
definition LIGHTING_SELECTED_SCENE_ID_KEY :: string where
  "LIGHTING_SELECTED_SCENE_ID_KEY = ''app.lighting.selected_scene_id''"
definition LIGHTING_SELECTED_FIXTURE_ID_KEY :: string where
  "LIGHTING_SELECTED_FIXTURE_ID_KEY = ''app.control_surface.selected_light_id''"
definition LIGHTING_CHECK_STATUS_KEY :: string where
  "LIGHTING_CHECK_STATUS_KEY = ''app.commissioning.check.lighting.status''"

definition action_succeeded :: "string \<Rightarrow> settings \<Rightarrow> settings" where
  "action_succeeded summary s =
     s(LIGHTING_LAST_ACTION_STATUS_KEY \<mapsto> ''succeeded'', LIGHTING_LAST_ACTION_CODE_KEY \<mapsto> [],
       LIGHTING_LAST_ACTION_MESSAGE_KEY \<mapsto> summary)"

definition action_failed :: "string \<Rightarrow> string \<Rightarrow> settings \<Rightarrow> settings" where
  "action_failed why message s =
     s(LIGHTING_LAST_ACTION_STATUS_KEY \<mapsto> ''failed'', LIGHTING_LAST_ACTION_CODE_KEY \<mapsto> why,
       LIGHTING_LAST_ACTION_MESSAGE_KEY \<mapsto> message)"

definition saved_with :: "rig \<Rightarrow> string \<Rightarrow> light_store \<Rightarrow> light_store" where
  "saved_with r summary st = st\<lparr>saved_rig := Some r, plain := action_succeeded summary (plain st)\<rparr>"

text \<open>
  A command on the disk: a read that fails changes nothing, and neither does a write that fails, for a
  command writes once and all of it or none of it. A refused command has not written.
\<close>

record disk =
  read_error :: "string option"
  write_error :: "string option"

definition on_disk ::
  "disk \<Rightarrow> (light_store \<Rightarrow> lighting_error + light_store \<times> 'r) \<Rightarrow> light_store \<Rightarrow> light_store \<times> (lighting_error + 'r)" where
  "on_disk d f st =
     (case read_error d of
        Some e \<Rightarrow> (st, Inl (StorageError e))
      | None \<Rightarrow>
          (case f st of
             Inl e \<Rightarrow> (st, Inl e)
           | Inr (st', v) \<Rightarrow> (case write_error d of Some e \<Rightarrow> (st, Inl (StorageError e)) | None \<Rightarrow> (st', Inr v))))"

definition quoted :: "string \<Rightarrow> string" where
  "quoted s = CHR 39 # s @ [CHR 39]"

definition not_exposed :: "string \<Rightarrow> string \<Rightarrow> string" where
  "not_exposed what i = what @ '' '' @ quoted i @ '' is not exposed by the native editor state.''"

text \<open>The number after the highest of the custom ids; the addition wraps in a release build.\<close>

definition next_custom_id :: "string \<Rightarrow> string list \<Rightarrow> string" where
  "next_custom_id prefix ids =
     prefix @ show_nat
       ((foldl max 0 (List.map_filter (\<lambda>i. Option.bind (strip_prefix i prefix) parse_usize) ids) + 1) mod 2 ^ 64)"

definition LIGHTING_CUSTOM_FIXTURE_ID_PREFIX :: string where "LIGHTING_CUSTOM_FIXTURE_ID_PREFIX = ''fixture-custom-''"
definition LIGHTING_CUSTOM_GROUP_ID_PREFIX :: string where "LIGHTING_CUSTOM_GROUP_ID_PREFIX = ''group-custom-''"
definition LIGHTING_CUSTOM_SCENE_ID_PREFIX :: string where "LIGHTING_CUSTOM_SCENE_ID_PREFIX = ''scene-custom-''"

text \<open>\<open>iter_mut().find(..)\<close> and a change of what it found.\<close>

fun update_first :: "('a \<Rightarrow> bool) \<Rightarrow> ('a \<Rightarrow> 'a) \<Rightarrow> 'a list \<Rightarrow> 'a list" where
  "update_first p g [] = []"
| "update_first p g (x # xs) = (if p x then g x # xs else x # update_first p g xs)"

definition set_if :: "'v option \<Rightarrow> ('v \<Rightarrow> 'a \<Rightarrow> 'a) \<Rightarrow> 'a \<Rightarrow> 'a" where
  "set_if v g x = (case v of Some w \<Rightarrow> g w x | None \<Rightarrow> x)"

text \<open>The id taken out of the order, then put before the anchor, or at the end.\<close>

definition moved_before :: "string \<Rightarrow> string option \<Rightarrow> string list \<Rightarrow> string list" where
  "moved_before i before order =
     (let rest = filter (\<lambda>j. j \<noteq> i) order in
      case before of
        None \<Rightarrow> rest @ [i]
      | Some b \<Rightarrow> if b \<in> set rest then takeWhile (\<lambda>j. j \<noteq> b) rest @ i # dropWhile (\<lambda>j. j \<noteq> b) rest else rest @ [i])"

section \<open>Groups\<close>

definition group_not_found :: "string \<Rightarrow> lighting_error" where
  "group_not_found i = Rejected ''LIGHTING_GROUP_NOT_FOUND'' (not_exposed ''Lighting group'' i)"

definition create_lighting_group :: "string \<Rightarrow> light_store \<Rightarrow> lighting_error + light_store \<times> string" where
  "create_lighting_group name st =
     (let r = load_lighting_editor_state st;
          i = next_custom_id LIGHTING_CUSTOM_GROUP_ID_PREFIX (map group_id (groups r));
          summary = ''Lighting group '' @ quoted name @ '' was created.''
      in Inr (saved_with (r\<lparr>groups := groups r @ [\<lparr>group_id = i, group_name = name, group_color = None\<rparr>],
                            group_order := group_order r @ [i]\<rparr>) summary st, summary))"

definition changed_parts :: "bool \<Rightarrow> bool \<Rightarrow> nat option option \<Rightarrow> string list" where
  "changed_parts renamed captured color =
     (if renamed then [''renamed''] else []) @ (if captured then [''captured current fixture state''] else []) @
     (case color of None \<Rightarrow> [] | Some (Some _) \<Rightarrow> [''recolored''] | Some None \<Rightarrow> [''color cleared''])"

definition update_summary :: "string \<Rightarrow> string \<Rightarrow> string list \<Rightarrow> string" where
  "update_summary what name parts =
     what @ '' '' @ quoted name @ '' '' @ (if parts = [] then ''was updated'' else join '' and '' parts) @ ''.''"

definition update_lighting_group ::
  "string \<Rightarrow> string option \<Rightarrow> nat option option \<Rightarrow> light_store \<Rightarrow> lighting_error + light_store \<times> string" where
  "update_lighting_group i name color st =
     (let r = load_lighting_editor_state st;
          change = set_if color (\<lambda>c g. g\<lparr>group_color := c\<rparr>) \<circ> set_if name (\<lambda>n g. g\<lparr>group_name := n\<rparr>)
      in case find (\<lambda>g. group_id g = i) (groups r) of
           None \<Rightarrow> Inl (group_not_found i)
         | Some g \<Rightarrow>
             let summary = update_summary ''Lighting group'' (group_name (change g)) (changed_parts (name \<noteq> None) False color)
             in Inr (saved_with (r\<lparr>groups := update_first (\<lambda>g. group_id g = i) change (groups r)\<rparr>) summary st, summary))"

definition delete_lighting_group :: "string \<Rightarrow> light_store \<Rightarrow> lighting_error + light_store \<times> string" where
  "delete_lighting_group i st =
     (let r = load_lighting_editor_state st in
      case find (\<lambda>g. group_id g = i) (groups r) of
        None \<Rightarrow> Inl (group_not_found i)
      | Some g \<Rightarrow>
          let affected = length (filter (\<lambda>f. fixture_group f = Some i) (fixtures r));
              summary = ''Lighting group '' @ quoted (group_name g) @ '' was deleted'' @
                (if affected = 0 then ''.'' else '' and '' @ show_nat affected @ '' fixtures were moved to ungrouped.'')
          in Inr (saved_with (r\<lparr>groups := filter (\<lambda>g. group_id g \<noteq> i) (groups r),
                               group_order := filter (\<lambda>j. j \<noteq> i) (group_order r),
                               fixtures := map (\<lambda>f. if fixture_group f = Some i then f\<lparr>fixture_group := None\<rparr> else f) (fixtures r)\<rparr>)
                    summary st, summary))"

text \<open>The name comes from the snapshot, which of two groups of one id has the later.\<close>

definition set_lighting_group_power :: "int \<Rightarrow> string \<Rightarrow> bool \<Rightarrow> light_store \<Rightarrow> lighting_error + light_store \<times> string" where
  "set_lighting_group_power now i on' st =
     (let r0 = load_lighting_editor_state st in
      case find (\<lambda>g. group_id g = i) (rev (groups r0)) of
        None \<Rightarrow> Inl (group_not_found i)
      | Some g \<Rightarrow>
          let r = sampled now r0;
              affected = filter (\<lambda>f. fixture_group f = Some (group_id g)) (fixtures r);
              r' = r\<lparr>fixtures := map (\<lambda>f. if fixture_group f = Some (group_id g) then f\<lparr>fixture_on := on'\<rparr> else f) (fixtures r)\<rparr>;
              summary = ''Lighting group '' @ quoted (group_name g) @ '' set '' @ (if on' then ''on'' else ''off'') @
                '' across '' @ show_nat (length affected) @ '' fixtures.''
          in if affected = []
             then Inl (Rejected ''LIGHTING_GROUP_EMPTY''
                    (''Lighting group '' @ quoted (group_name g) @ '' does not currently contain fixtures.''))
             else Inr (saved_with (foldl (\<lambda>x f. remove_fixture_from_active_fade (fixture_id f) x) r' affected) summary st, summary))"

definition reorder_lighting_group :: "string \<Rightarrow> string option \<Rightarrow> light_store \<Rightarrow> lighting_error + light_store \<times> string" where
  "reorder_lighting_group i before st =
     (let r = load_lighting_editor_state st;
          summary = ''Lighting group '' @ quoted i @ '' was reordered in the rail.''
      in if i \<notin> set (map group_id (groups r)) then Inl (group_not_found i)
         else case before of
             Some b \<Rightarrow>
               if b \<notin> set (map group_id (groups r))
               then Inl (Rejected ''LIGHTING_GROUP_NOT_FOUND'' (not_exposed ''Reorder anchor group'' b))
               else Inr (saved_with (r\<lparr>group_order := moved_before i before (group_order r)\<rparr>) summary st, summary)
           | None \<Rightarrow> Inr (saved_with (r\<lparr>group_order := moved_before i before (group_order r)\<rparr>) summary st, summary))"

section \<open>Scenes\<close>

definition scene_not_found :: "string \<Rightarrow> lighting_error" where
  "scene_not_found i = Rejected ''LIGHTING_SCENE_NOT_FOUND'' (not_exposed ''Lighting scene'' i)"

text \<open>The rig's status, as the snapshot has it, and what it refuses.\<close>

definition lighting_status :: "settings \<Rightarrow> string" where
  "lighting_status s =
     (let c = resolve_lighting_config s;
          check = (case s LIGHTING_CHECK_STATUS_KEY of Some v \<Rightarrow> v | None \<Rightarrow> ''idle'')
      in if \<not> enabled c \<and> trim (bridge_ip c) = [] then ''unconfigured''
         else if \<not> enabled c then ''disabled''
         else if check = ''passed'' then ''ready''
         else if check = ''failed'' then ''attention''
         else ''not-verified'')"

definition lighting_refusal :: "string \<Rightarrow> (string \<times> string) option" where
  "lighting_refusal status =
     (if status = ''ready'' then None
      else if status = ''attention'' then
        Some (''LIGHTING_PROBE_FAILED'', ''The bridge did not answer its last probe. Check its power and network, run the lighting probe in Setup, then recall.'')
      else if status = ''not-verified'' then
        Some (''LIGHTING_NOT_VERIFIED'', ''Run the lighting probe in Setup before recalling a scene.'')
      else if status = ''disabled'' then
        Some (''LIGHTING_DISABLED'', ''Lighting is switched off. Switch it on in Setup and run the lighting probe, then recall.'')
      else Some (''LIGHTING_UNCONFIGURED'', ''The bridge'' @ CHR 39 # ''s address or universe is missing. Set them in Setup, then recall.''))"

definition recall_mode_label :: "(nat \<Rightarrow> rat \<Rightarrow> string) \<Rightarrow> rat \<Rightarrow> string" where
  "recall_mode_label fixed s =
     (if s \<le> 0 then ''instant recall''
      else if s = of_int \<lfloor>s\<rfloor> then show_int \<lfloor>s\<rfloor> @ ''s fade''
      else fixed 1 s @ ''s fade'')"

text \<open>A recall without a fade: each light the scene holds takes the scene's state.\<close>

definition recalled_fixture :: "rig_scene \<Rightarrow> rig_fixture \<Rightarrow> rig_fixture" where
  "recalled_fixture s f =
     (case find (\<lambda>l. level_fixture l = fixture_id f) (scene_levels s) of
        None \<Rightarrow> f
      | Some l \<Rightarrow>
          let f' = f\<lparr>fixture_on := level_on l, intensity := level_intensity l, cct := level_cct l\<rparr>
          in f'\<lparr>control_values := normalize_fixture_control_values (fixture_profile_for_state f') (level_controls l)\<rparr>)"

definition recalled_rig :: "int \<Rightarrow> rat \<Rightarrow> rig_scene \<Rightarrow> rig \<Rightarrow> rig" where
  "recalled_rig now seconds s r =
     (let ms = fade_duration_ms_from_seconds seconds in
      if 0 < ms then start_lighting_fade (scene_id s) now ms (scene_levels s) r
      else r\<lparr>active_fade := None, fixtures := map (recalled_fixture s) (fixtures r)\<rparr>)"

definition recall_summary :: "(nat \<Rightarrow> rat \<Rightarrow> string) \<Rightarrow> lighting_config \<Rightarrow> string \<Rightarrow> rat \<Rightarrow> string" where
  "recall_summary fixed c name seconds =
     ''Simulated lighting scene '' @ quoted name @ '' was recalled via '' @ recall_mode_label fixed seconds @ '' on '' @
     bridge_ip c @ '' universe '' @ show_int (config_universe c) @ ''.''"

definition recall_stored :: "string \<Rightarrow> string \<Rightarrow> settings \<Rightarrow> settings" where
  "recall_stored i time s =
     s(LIGHTING_LAST_RECALLED_SCENE_ID_KEY \<mapsto> i, LIGHTING_LAST_SCENE_RECALL_AT_KEY \<mapsto> time)"

text \<open>
  A refusal is itself saved as the last action, and when that write fails the write's error is the answer;
  a scene that is not there is saved as one too, whether or not that write succeeds. \<open>clock\<close> is the database's
  \<open>strftime\<close>, or its error.
\<close>

definition recall_lighting_scene ::
  "(nat \<Rightarrow> rat \<Rightarrow> string) \<Rightarrow> disk \<Rightarrow> string + string \<Rightarrow> int \<Rightarrow> string \<Rightarrow> rat \<Rightarrow> light_store
    \<Rightarrow> light_store \<times> (lighting_error + string)" where
  "recall_lighting_scene fixed d clock now i seconds st =
     (case read_error d of
        Some e \<Rightarrow> (st, Inl (StorageError e))
      | None \<Rightarrow>
          (case lighting_refusal (lighting_status (plain st)) of
             Some (why, message) \<Rightarrow>
               (case write_error d of
                  Some e \<Rightarrow> (st, Inl (StorageError e))
                | None \<Rightarrow> (st\<lparr>plain := action_failed why message (plain st)\<rparr>, Inl (Rejected why message)))
           | None \<Rightarrow>
               let c = resolve_lighting_config (plain st);
                   r = sampled now (load_with_inventory st c (read_inventory c))
               in case find (\<lambda>s. scene_id s = i) (scenes r) of
                    None \<Rightarrow>
                      let message = not_exposed ''Lighting scene'' i
                      in (if write_error d = None
                          then st\<lparr>plain := action_failed ''LIGHTING_SCENE_NOT_FOUND'' message (plain st)\<rparr> else st,
                          Inl (scene_not_found i))
                  | Some s \<Rightarrow>
                      (case clock of
                         Inl e \<Rightarrow> (st, Inl (StorageError e))
                       | Inr time \<Rightarrow>
                           let summary = recall_summary fixed c (scene_name s) seconds
                           in case write_error d of
                                Some e \<Rightarrow> (st, Inl (StorageError e))
                              | None \<Rightarrow>
                                  (st\<lparr>saved_rig := Some (recalled_rig now seconds s r),
                                     plain := action_succeeded summary (recall_stored i time (plain st))\<rparr>, Inr summary))))"

definition LIGHTING_NO_FIXTURES :: lighting_error where
  "LIGHTING_NO_FIXTURES = Rejected ''LIGHTING_NO_FIXTURES'' ''No lighting fixtures are available for scene creation.''"

text \<open>The check of each state a sent scene holds, in order; \<open>seen\<close> are the ids of those before.\<close>

fun check_scene_states :: "string set \<Rightarrow> string set \<Rightarrow> scene_level list \<Rightarrow> lighting_error option" where
  "check_scene_states known seen [] = None"
| "check_scene_states known seen (l # ls) =
     (if level_fixture l \<notin> known
      then Some (Rejected ''LIGHTING_FIXTURE_NOT_FOUND'' (not_exposed ''Lighting fixture'' (level_fixture l)))
      else if level_fixture l \<in> seen
      then Some (Rejected ''LIGHTING_SCENE_DUPLICATE_FIXTURE''
             (''Scene fixtureStates includes fixture '' @ quoted (level_fixture l) @ '' more than once.''))
      else if \<not> (0 \<le> level_intensity l \<and> level_intensity l \<le> 100)
      then Some (Rejected ''LIGHTING_SCENE_INVALID_INTENSITY'' ''Scene fixture intensity must be between 0 and 100.'')
      else if \<not> (MIN_FIXTURE_CCT \<le> level_cct l \<and> level_cct l \<le> MAX_FIXTURE_CCT)
      then Some (Rejected ''LIGHTING_SCENE_INVALID_CCT''
             (''Scene fixture CCT must be between '' @ show_int MIN_FIXTURE_CCT @ '' and '' @ show_int MAX_FIXTURE_CCT @ ''.''))
      else check_scene_states known (insert (level_fixture l) seen) ls)"

definition validated_scene_fixture_states :: "rig_fixture list \<Rightarrow> scene_level list \<Rightarrow> lighting_error + scene_level list" where
  "validated_scene_fixture_states fs ls =
     (if ls = [] then Inl (Rejected ''LIGHTING_SCENE_EMPTY'' ''Scene fixtureStates must include at least one fixture.'')
      else case check_scene_states (set (map fixture_id fs)) {} ls of Some e \<Rightarrow> Inl e | None \<Rightarrow> Inr ls)"

definition validated_scene_color_index :: "nat option \<Rightarrow> lighting_error + nat option" where
  "validated_scene_color_index c =
     (case c of
        Some v \<Rightarrow> if 7 < v then Inl (Rejected ''LIGHTING_SCENE_INVALID_COLOR'' ''Scene colorIndex must be between 0 and 7.'') else Inr c
      | None \<Rightarrow> Inr c)"

definition scene_added :: "rig \<Rightarrow> string \<Rightarrow> scene_level list \<Rightarrow> nat option \<Rightarrow> rig" where
  "scene_added r name ls color =
     (let i = next_custom_id LIGHTING_CUSTOM_SCENE_ID_PREFIX (map scene_id (scenes r))
      in r\<lparr>scenes := scenes r @ [\<lparr>scene_id = i, scene_name = name, scene_levels = ls, scene_color = color\<rparr>],
           scene_order := scene_order r @ [i]\<rparr>)"

definition create_lighting_scene ::
  "int \<Rightarrow> string \<Rightarrow> scene_level list option \<Rightarrow> nat option \<Rightarrow> light_store \<Rightarrow> lighting_error + light_store \<times> string" where
  "create_lighting_scene now name states color st =
     (let r = sampled now (load_lighting_editor_state st) in
      if fixtures r = [] then Inl LIGHTING_NO_FIXTURES
      else case (case states of
                   Some ls \<Rightarrow> validated_scene_fixture_states (fixtures r) ls
                 | None \<Rightarrow> Inr (capture_scene_fixture_states (fixtures r))) of
             Inl e \<Rightarrow> Inl e
           | Inr ls \<Rightarrow>
               (case validated_scene_color_index color of
                  Inl e \<Rightarrow> Inl e
                | Inr c \<Rightarrow>
                    let summary = ''Lighting scene '' @ quoted name @
                          (if states \<noteq> None then '' was restored from a saved scene state.''
                           else '' was saved from the current fixture state.'')
                    in Inr (saved_with (scene_added r name ls c) summary st, summary)))"

definition update_lighting_scene ::
  "int \<Rightarrow> string \<Rightarrow> string option \<Rightarrow> bool \<Rightarrow> nat option option \<Rightarrow> light_store \<Rightarrow> lighting_error + light_store \<times> string" where
  "update_lighting_scene now i name capture color st =
     (let r = sampled now (load_lighting_editor_state st);
          change = set_if color (\<lambda>c s. s\<lparr>scene_color := c\<rparr>)
            \<circ> (\<lambda>s. if capture then s\<lparr>scene_levels := capture_scene_fixture_states (fixtures r)\<rparr> else s)
            \<circ> set_if name (\<lambda>n s. s\<lparr>scene_name := n\<rparr>)
      in case find (\<lambda>s. scene_id s = i) (scenes r) of
           None \<Rightarrow> Inl (scene_not_found i)
         | Some s \<Rightarrow>
             let summary = update_summary ''Lighting scene'' (scene_name (change s)) (changed_parts (name \<noteq> None) capture color)
             in Inr (saved_with (r\<lparr>scenes := update_first (\<lambda>s. scene_id s = i) change (scenes r)\<rparr>) summary st, summary))"

definition delete_lighting_scene :: "string \<Rightarrow> light_store \<Rightarrow> lighting_error + light_store \<times> string" where
  "delete_lighting_scene i st =
     (let r = load_lighting_editor_state st in
      case find (\<lambda>s. scene_id s = i) (scenes r) of
        None \<Rightarrow> Inl (scene_not_found i)
      | Some s \<Rightarrow>
          let summary = ''Lighting scene '' @ quoted (scene_name s) @ '' was deleted from the native editor state.'';
              st' = saved_with (r\<lparr>scenes := filter (\<lambda>s. scene_id s \<noteq> i) (scenes r),
                                  scene_order := filter (\<lambda>j. j \<noteq> i) (scene_order r),
                                  pinned_scene_ids := filter (\<lambda>j. j \<noteq> i) (pinned_scene_ids r)\<rparr>) summary st;
              recalled = (if read_optional_setting (plain st) LIGHTING_LAST_RECALLED_SCENE_ID_KEY = Some i
                          then recall_stored [] [] (plain st') else plain st');
              selected = (if read_optional_setting (plain st) LIGHTING_SELECTED_SCENE_ID_KEY = Some i
                          then recalled(LIGHTING_SELECTED_SCENE_ID_KEY \<mapsto> []) else recalled)
          in Inr (st'\<lparr>plain := selected\<rparr>, summary))"

definition reorder_lighting_scene :: "string \<Rightarrow> string option \<Rightarrow> light_store \<Rightarrow> lighting_error + light_store \<times> string" where
  "reorder_lighting_scene i before st =
     (let r = load_lighting_editor_state st;
          summary = ''Lighting scene '' @ quoted i @ '' was reordered in the rail.''
      in if i \<notin> set (map scene_id (scenes r)) then Inl (scene_not_found i)
         else case before of
             Some b \<Rightarrow>
               if b \<notin> set (map scene_id (scenes r))
               then Inl (Rejected ''LIGHTING_SCENE_NOT_FOUND'' (not_exposed ''Reorder anchor scene'' b))
               else Inr (saved_with (r\<lparr>scene_order := moved_before i before (scene_order r)\<rparr>) summary st, summary)
           | None \<Rightarrow> Inr (saved_with (r\<lparr>scene_order := moved_before i before (scene_order r)\<rparr>) summary st, summary))"

definition pin_lighting_scene :: "string \<Rightarrow> bool \<Rightarrow> light_store \<Rightarrow> lighting_error + light_store \<times> string" where
  "pin_lighting_scene i pin st =
     (let r = load_lighting_editor_state st in
      case find (\<lambda>s. scene_id s = i) (scenes r) of
        None \<Rightarrow> Inl (scene_not_found i)
      | Some s \<Rightarrow>
          let already = i \<in> set (pinned_scene_ids r);
              pins = (if pin \<and> \<not> already then pinned_scene_ids r @ [i]
                      else if \<not> pin \<and> already then filter (\<lambda>j. j \<noteq> i) (pinned_scene_ids r)
                      else pinned_scene_ids r);
              summary = ''Lighting scene '' @ quoted (scene_name s) @ (if pin then '' was pinned.'' else '' was unpinned.'')
          in Inr (saved_with (r\<lparr>pinned_scene_ids := pins\<rparr>) summary st, summary))"

section \<open>Fixtures\<close>

definition validate_group_exists :: "rig_group list \<Rightarrow> string option \<Rightarrow> lighting_error option" where
  "validate_group_exists gs g =
     (case g of
        Some i \<Rightarrow> if i \<in> set (map group_id gs) then None else Some (group_not_found i)
      | None \<Rightarrow> None)"

definition overlaps :: "int \<Rightarrow> int \<Rightarrow> int \<Rightarrow> string option \<Rightarrow> rig_fixture \<Rightarrow> bool" where
  "overlaps u a new_end exclude f =
     (if exclude = Some (fixture_id f) then False
      else if universe f \<noteq> u then False
      else let n = profile_channels (fixture_profile_for_state f)
           in if n \<le> 0 then False
              else a \<le> dmx_start_address f + n - 1 \<and> dmx_start_address f \<le> new_end)"

definition validate_dmx_start_address ::
  "rig_fixture list \<Rightarrow> fixture_profile \<Rightarrow> int \<Rightarrow> int \<Rightarrow> string option \<Rightarrow> lighting_error option" where
  "validate_dmx_start_address fs p u a exclude =
     (if profile_channels p \<le> 0 then None
      else let max_start = 512 - profile_channels p + 1 in
           if \<not> (1 \<le> a \<and> a \<le> max_start)
           then Some (Rejected ''LIGHTING_INVALID_DMX_ADDRESS''
                  (''DMX start address must be between 1 and '' @ show_int max_start @ '' for fixture definition '' @
                   quoted (profile_definition p) @ '' mode '' @ quoted (profile_mode p) @ ''.''))
           else case find (overlaps u a (a + profile_channels p - 1) exclude) fs of
                  Some f \<Rightarrow> Some (Rejected ''LIGHTING_DMX_OVERLAP''
                    (''DMX address overlaps with '' @ quoted (fixture_name f) @ '' at '' @ show_int (dmx_start_address f) @ ''.''))
                | None \<Rightarrow> None)"

record fixture_create =
  create_name :: string
  create_type :: string
  create_definition :: string
  create_mode :: string
  create_universe :: int
  create_address :: int
  create_group :: "string option"

definition created_fixture :: "fixture_create \<Rightarrow> rig_fixture list \<Rightarrow> rig_fixture" where
  "created_fixture q fs =
     (let p = resolve_fixture_profile (Some (create_definition q)) (Some (create_mode q)) (Some (create_type q)) None []
      in \<lparr>fixture_id = next_custom_id LIGHTING_CUSTOM_FIXTURE_ID_PREFIX (map fixture_id fs), fixture_name = create_name q,
          fixture_type = create_type q, fixture_definition_id = Some (profile_definition p),
          fixture_mode_id = Some (profile_mode p), universe = create_universe q, dmx_start_address = create_address q,
          fixture_kind = profile_kind p, fixture_group = create_group q, spatial_x = None, spatial_y = None,
          spatial_rotation = 0, rig_z = None, beam_angle_degrees = None, intensity = DEFAULT_FIXTURE_INTENSITY,
          cct = fixture_default_cct p, fixture_on = False,
          control_values = normalize_fixture_control_values p Map.empty, effect = None\<rparr>)"

definition create_lighting_fixture :: "fixture_create \<Rightarrow> light_store \<Rightarrow> lighting_error + light_store \<times> string" where
  "create_lighting_fixture q st =
     (let r = load_lighting_editor_state st;
          p = resolve_fixture_profile (Some (create_definition q)) (Some (create_mode q)) (Some (create_type q)) None []
      in case validate_group_exists (groups r) (create_group q) of
           Some e \<Rightarrow> Inl e
         | None \<Rightarrow>
             (case validate_dmx_start_address (fixtures r) p (create_universe q) (create_address q) None of
                Some e \<Rightarrow> Inl e
              | None \<Rightarrow>
                  let f = created_fixture q (fixtures r);
                      summary = ''Lighting fixture '' @ quoted (fixture_name f) @ '' was created as '' @ fixture_type f @
                        '' on DMX '' @ show_int (dmx_start_address f) @ ''.''
                  in Inr (saved_with (r\<lparr>scenes := append_fixture_to_scenes f (scenes r), fixtures := fixtures r @ [f],
                                       removed_fixture_ids := filter (\<lambda>i. i \<noteq> fixture_id f) (removed_fixture_ids r)\<rparr>)
                            summary st, summary)))"

text \<open>A field of an update: \<open>None\<close> is one that was not sent.\<close>

record fixture_update =
  up_fixture :: string
  up_name :: "string option"
  up_type :: "string option"
  up_definition :: "string option"
  up_mode :: "string option"
  up_universe :: "int option"
  up_address :: "int option"
  up_effect :: "lighting_effect option option"
  up_on :: "bool option"
  up_intensity :: "int option"
  up_cct :: "int option"
  up_controls :: "(string \<rightharpoonup> int) option"
  up_group :: "string option option"
  up_x :: "rat option option"
  up_y :: "rat option option"
  up_rotation :: "rat option"
  up_rig_z :: "rat option option"
  up_beam :: "rat option option"

definition next_fixture_profile :: "fixture_update \<Rightarrow> rig_fixture \<Rightarrow> fixture_profile" where
  "next_fixture_profile q f =
     (let ty = (case up_type q of Some t \<Rightarrow> t | None \<Rightarrow> fixture_type f);
          of_type = profile_definition (resolve_fixture_profile None None (Some ty) (Some (fixture_kind f)) (fixture_id f));
          d = (case up_definition q of
                 Some d \<Rightarrow> d
               | None \<Rightarrow> if up_type q \<noteq> None then of_type
                         else (case fixture_definition_id f of Some d \<Rightarrow> d | None \<Rightarrow> of_type));
          default_mode = profile_mode (resolve_fixture_profile (Some d) None (Some ty) (Some (fixture_kind f)) (fixture_id f));
          m = (case up_mode q of
                 Some m \<Rightarrow> m
               | None \<Rightarrow> if up_definition q \<noteq> None \<or> up_type q \<noteq> None then default_mode
                         else (case fixture_mode_id f of Some m \<Rightarrow> m | None \<Rightarrow> default_mode))
      in resolve_fixture_profile (Some d) (Some m) (Some ty) (Some (fixture_kind f)) (fixture_id f))"

definition moved_to_profile :: "fixture_profile \<Rightarrow> rig_fixture \<Rightarrow> rig_fixture" where
  "moved_to_profile p f =
     f\<lparr>fixture_definition_id := Some (profile_definition p), fixture_mode_id := Some (profile_mode p),
       fixture_kind := profile_kind p,
       cct := (case fixture_cct_range_from_profile p of (lo, hi) \<Rightarrow>
                 clamp_i64 (if cct f = 0 then fixture_default_cct p else cct f) lo hi),
       control_values := normalize_fixture_control_values p (control_values f)\<rparr>"

definition set_cct :: "int \<Rightarrow> rig_fixture \<Rightarrow> rig_fixture" where
  "set_cct k f =
     (let p = fixture_profile_for_state f in
      case fixture_cct_range_from_profile p of (lo, hi) \<Rightarrow>
        f\<lparr>cct := clamp_i64 (if k = 0 then fixture_default_cct p else k) lo hi\<rparr>)"

definition set_controls :: "(string \<rightharpoonup> int) \<Rightarrow> rig_fixture \<Rightarrow> rig_fixture" where
  "set_controls vs f =
     f\<lparr>control_values := normalize_fixture_control_values (fixture_profile_for_state f) (control_values f ++ vs)\<rparr>"

text \<open>The fields in the order the code sets them.\<close>

definition updated_fixture :: "fixture_update \<Rightarrow> rig_fixture \<Rightarrow> rig_fixture" where
  "updated_fixture q f =
     (set_if (up_beam q) (\<lambda>v f. f\<lparr>beam_angle_degrees := v\<rparr>)
      \<circ> set_if (up_rig_z q) (\<lambda>v f. f\<lparr>rig_z := v\<rparr>)
      \<circ> set_if (up_rotation q) (\<lambda>v f. f\<lparr>spatial_rotation := normalize_rotation v\<rparr>)
      \<circ> set_if (up_y q) (\<lambda>v f. f\<lparr>spatial_y := v\<rparr>)
      \<circ> set_if (up_x q) (\<lambda>v f. f\<lparr>spatial_x := v\<rparr>)
      \<circ> set_if (up_group q) (\<lambda>v f. f\<lparr>fixture_group := v\<rparr>)
      \<circ> set_if (up_controls q) set_controls
      \<circ> set_if (up_cct q) set_cct
      \<circ> set_if (up_intensity q) (\<lambda>v f. f\<lparr>intensity := clamp_i64 v 0 100\<rparr>)
      \<circ> set_if (up_on q) (\<lambda>v f. f\<lparr>fixture_on := v\<rparr>)
      \<circ> set_if (up_effect q) (\<lambda>v f. f\<lparr>effect := map_option normalize_lighting_effect v\<rparr>)
      \<circ> set_if (up_address q) (\<lambda>v f. f\<lparr>dmx_start_address := v\<rparr>)
      \<circ> set_if (up_universe q) (\<lambda>v f. f\<lparr>universe := v\<rparr>)
      \<circ> (\<lambda>f'. if up_definition q \<noteq> None \<or> up_mode q \<noteq> None \<or> up_type q \<noteq> None
               then moved_to_profile (next_fixture_profile q f) f' else f')
      \<circ> set_if (up_type q) (\<lambda>v f. f\<lparr>fixture_type := v\<rparr>)
      \<circ> set_if (up_name q) (\<lambda>v f. f\<lparr>fixture_name := v\<rparr>)) f"

definition lighting_fixture_update_summary :: "(nat \<Rightarrow> rat \<Rightarrow> string) \<Rightarrow> rig_fixture \<Rightarrow> string" where
  "lighting_fixture_update_summary fixed f =
     ''Lighting fixture '' @ quoted (fixture_name f) @ '' ('' @ fixture_type f @ '', DMX '' @ show_int (dmx_start_address f) @
     '') saved as '' @ (if fixture_on f then ''on'' else ''off'') @ '' at '' @ show_int (intensity f) @ ''% / '' @
     show_int (cct f) @ ''K in '' @ (case fixture_group f of Some g \<Rightarrow> g | None \<Rightarrow> ''ungrouped'') @ '' with '' @
     (case (spatial_x f, spatial_y f) of
        (Some x, Some y) \<Rightarrow> ''manual layout at '' @ fixed 1 x @ ''m / '' @ fixed 1 y @ ''m / '' @ fixed 0 (spatial_rotation f) @ ''deg''
      | _ \<Rightarrow> ''auto layout / '' @ fixed 0 (spatial_rotation f) @ ''deg'') @ '' and '' @
     (case effect f of
        Some e \<Rightarrow> effect_type e @ '' at speed '' @ show_int (effect_speed e)
      | None \<Rightarrow> ''no effect'') @ ''.''"

definition fixture_not_found :: "string \<Rightarrow> lighting_error" where
  "fixture_not_found i = Rejected ''LIGHTING_FIXTURE_NOT_FOUND'' (not_exposed ''Lighting fixture'' i)"

definition update_lighting_fixture ::
  "(nat \<Rightarrow> rat \<Rightarrow> string) \<Rightarrow> int \<Rightarrow> fixture_update \<Rightarrow> light_store \<Rightarrow> lighting_error + light_store \<times> string" where
  "update_lighting_fixture fixed now q st =
     (let r = sampled now (load_lighting_editor_state st) in
      case validate_group_exists (groups r) (case up_group q of Some g \<Rightarrow> g | None \<Rightarrow> None) of
        Some e \<Rightarrow> Inl e
      | None \<Rightarrow>
          (case find (\<lambda>f. fixture_id f = up_fixture q) (fixtures r) of
             None \<Rightarrow> Inl (fixture_not_found (up_fixture q))
           | Some f \<Rightarrow>
               (case validate_dmx_start_address (fixtures r) (next_fixture_profile q f)
                       (case up_universe q of Some u \<Rightarrow> u | None \<Rightarrow> universe f)
                       (case up_address q of Some a \<Rightarrow> a | None \<Rightarrow> dmx_start_address f) (Some (up_fixture q)) of
                  Some e \<Rightarrow> Inl e
                | None \<Rightarrow>
                    let r' = r\<lparr>fixtures := update_first (\<lambda>f. fixture_id f = up_fixture q) (updated_fixture q) (fixtures r)\<rparr>;
                        summary = lighting_fixture_update_summary fixed (updated_fixture q f)
                    in Inr (saved_with (remove_fixture_from_active_fade (up_fixture q) r') summary st, summary))))"

text \<open>All off ends the overlays in the same write.\<close>

definition set_lighting_all_power :: "int \<Rightarrow> bool \<Rightarrow> light_store \<Rightarrow> lighting_error + light_store \<times> string" where
  "set_lighting_all_power now on' st =
     (let r = sampled now (load_lighting_editor_state st);
          summary = ''All native lighting fixtures set '' @ (if on' then ''on'' else ''off'') @ '' across '' @
            show_nat (length (fixtures r)) @ '' fixtures.'';
          r' = clear_active_fade (r\<lparr>fixtures := map (\<lambda>f. f\<lparr>fixture_on := on'\<rparr>) (fixtures r)\<rparr>);
          st' = saved_with r' summary st
      in if fixtures r = []
         then Inl (Rejected ''LIGHTING_FIXTURES_EMPTY'' ''No lighting fixtures are exposed by the native editor state.'')
         else Inr (if on' then st' else st'\<lparr>saved_bursts := Map.empty, saved_highlight := {}, saved_solo := {}\<rparr>, summary))"

definition delete_lighting_fixture :: "string \<Rightarrow> light_store \<Rightarrow> lighting_error + light_store \<times> string" where
  "delete_lighting_fixture i st =
     (let c = resolve_lighting_config (plain st);
          iv = read_lighting_editor_inventory c;
          r = load_with_inventory st c iv
      in case find (\<lambda>f. fixture_id f = i) (fixtures r) of
           None \<Rightarrow> Inl (fixture_not_found i)
         | Some f \<Rightarrow>
             let summary = ''Lighting fixture '' @ quoted (fixture_name f) @ '' was deleted.'';
                 removed = (if i \<in> set (map snap_id (inventory_fixtures iv)) \<and> i \<notin> set (removed_fixture_ids r)
                            then removed_fixture_ids r @ [i] else removed_fixture_ids r);
                 r' = r\<lparr>fixtures := filter (\<lambda>f. fixture_id f \<noteq> i) (fixtures r),
                        scenes := remove_fixture_from_scenes i (scenes r), removed_fixture_ids := removed\<rparr>;
                 selected = (if read_optional_setting (plain st) LIGHTING_SELECTED_FIXTURE_ID_KEY = Some i
                             then (plain st)(LIGHTING_SELECTED_FIXTURE_ID_KEY \<mapsto> []) else plain st)
             in Inr (saved_with r' summary (st\<lparr>plain := selected\<rparr>), summary))"

section \<open>Ids are never taken twice\<close>

lemma foldl_max_le: "n \<in> set (ns :: nat list) \<or> n = a \<Longrightarrow> n \<le> foldl max a ns"
proof (induction ns arbitrary: a)
  case (Cons m ns)
  have mono: "a' \<le> foldl max a' ns" for a' :: nat by (induction ns arbitrary: a') (simp_all, meson max.boundedE)
  show ?case
  proof (cases "n \<in> set ns")
    case True
    then show ?thesis using Cons(1) by simp
  next
    case False
    then have "n \<le> max a m" using Cons(2) by auto
    from order_trans [OF this mono] show ?thesis by simp
  qed
qed simp

lemma parse_show_nat: "n \<le> u64_max \<Longrightarrow> parse_usize (show_nat n) = Some n"
proof -
  assume n: "n \<le> u64_max"
  have d: "list_all is_ascii_digit (show_nat n)" "digits_value 0 (show_nat n) = n" using show_nat_digits by simp_all
  obtain c r where c: "show_nat n = c # r" by (cases "show_nat n") simp_all
  with d have "c \<noteq> CHR ''+''" by (auto simp: is_ascii_digit_def)
  then show ?thesis using c d n by (auto simp: parse_usize_def)
qed

lemma foldl_max_in: "foldl max a ns \<in> insert (a :: nat) (set ns)"
proof (induction ns arbitrary: a)
  case (Cons m ns)
  then show ?case using Cons [of "max a m"] by (cases "a \<le> m") (auto simp: max_def)
qed simp

lemma parse_usize_le: "parse_usize s = Some n \<Longrightarrow> n \<le> u64_max"
  by (auto simp: parse_usize_def Let_def split: if_splits)

definition custom_number :: "string \<Rightarrow> string \<Rightarrow> nat option" where
  "custom_number prefix i = Option.bind (strip_prefix i prefix) parse_usize"

lemma new_id_fresh:
  assumes free: "Some u64_max \<notin> custom_number prefix ` set ids"
  shows "next_custom_id prefix ids \<notin> set ids"
proof
  let ?ns = "List.map_filter (custom_number prefix) ids"
  let ?m = "foldl max 0 ?ns"
  have i': "next_custom_id prefix ids = prefix @ show_nat ((?m + 1) mod 2 ^ 64)"
    by (simp add: next_custom_id_def custom_number_def [abs_def])
  assume i: "next_custom_id prefix ids \<in> set ids"
  have ns: "n \<in> set ?ns \<longleftrightarrow> Some n \<in> custom_number prefix ` set ids" for n
    by (induction ids) (auto simp: List.map_filter_def split: option.splits)
  have "n < u64_max" if "n \<in> set ?ns" for n
  proof -
    have c: "Some n \<in> custom_number prefix ` set ids" using that by (simp only: ns)
    then obtain x where "custom_number prefix x = Some n" by (metis imageE)
    then have "n \<le> u64_max" using parse_usize_le by (auto simp: custom_number_def bind_eq_Some_conv)
    moreover have "n \<noteq> u64_max" using c free by blast
    ultimately show ?thesis by simp
  qed
  moreover have "0 < u64_max" by (simp add: u64_max_def)
  ultimately have m: "?m < u64_max" using foldl_max_in [of 0 ?ns] by auto
  then have "(?m + 1) mod 2 ^ 64 = ?m + 1" by (simp add: u64_max_def)
  then have e: "next_custom_id prefix ids = prefix @ show_nat (?m + 1)" by (simp only: i')
  have "custom_number prefix (prefix @ show_nat (?m + 1)) = Some (?m + 1)"
    using parse_show_nat [of "?m + 1"] m by (simp add: custom_number_def strip_prefix_def starts_with_iff)
  then have "Some (?m + 1) \<in> custom_number prefix ` set ids" using i unfolding e by (metis imageI)
  then have "?m + 1 \<in> set ?ns" by (simp only: ns)
  then have "?m + 1 \<le> ?m" by (intro foldl_max_le) simp
  then show False by simp
qed

end
