(* ===== verification/Rig_Overlay.thy ===== *)
theory Rig_Overlay
  imports Rig_Edit
begin

text \<open>
  What is laid over the lights and never saved into them (\<open>lighting/identify.rs\<close>): the flash of an identify,
  the highlight and the solo; and the palettes (\<open>lighting/palettes.rs\<close>).
\<close>

section \<open>Identify\<close>

definition DEFAULT_IDENTIFY_DURATION_MS :: int where "DEFAULT_IDENTIFY_DURATION_MS = 1200"
definition MIN_IDENTIFY_DURATION_MS :: int where "MIN_IDENTIFY_DURATION_MS = 100"
definition MAX_IDENTIFY_DURATION_MS :: int where "MAX_IDENTIFY_DURATION_MS = 5000"
definition MIN_IDENTIFY_STEP_MS :: int where "MIN_IDENTIFY_STEP_MS = 100"
definition MAX_IDENTIFY_STEP_MS :: int where "MAX_IDENTIFY_STEP_MS = 5000"
definition MAX_IDENTIFY_SEQUENCE_FIXTURES :: nat where "MAX_IDENTIFY_SEQUENCE_FIXTURES = 64"
definition NEUTRAL_HIGHLIGHT_CCT :: int where "NEUTRAL_HIGHLIGHT_CCT = 4500"

definition saturating_sub :: "int \<Rightarrow> int \<Rightarrow> int" where
  "saturating_sub a b = clamp_i64 (a - b) (- (2 ^ 63)) (2 ^ 63 - 1)"

definition burst_active :: "int \<Rightarrow> identify_burst \<Rightarrow> bool" where
  "burst_active now b \<longleftrightarrow> started_at_ms b \<le> now \<and> saturating_sub now (started_at_ms b) < duration_ms b"

text \<open>Whether the fixture is one of \<open>active_identify_burst_ids\<close>.\<close>

definition identify_active :: "light_store \<Rightarrow> int \<Rightarrow> string \<Rightarrow> bool" where
  "identify_active st now i = (case saved_bursts st i of Some b \<Rightarrow> burst_active now b | None \<Rightarrow> False)"

definition overlay_saved :: "string \<Rightarrow> light_store \<Rightarrow> light_store" where
  "overlay_saved summary st = st\<lparr>plain := action_succeeded summary (plain st)\<rparr>"

definition identify_lighting_fixture ::
  "int \<Rightarrow> string \<Rightarrow> int option \<Rightarrow> light_store \<Rightarrow> lighting_error + light_store \<times> string" where
  "identify_lighting_fixture now i sent st =
     (let c = resolve_lighting_config (plain st) in
      case find (\<lambda>f. fixture_id f = i) (fixtures (load_lighting_editor_state st)) of
        None \<Rightarrow> Inl (fixture_not_found i)
      | Some f \<Rightarrow>
          let ms = clamp_i64 (case sent of Some m \<Rightarrow> m | None \<Rightarrow> DEFAULT_IDENTIFY_DURATION_MS)
                     MIN_IDENTIFY_DURATION_MS MAX_IDENTIFY_DURATION_MS;
              kept = (\<lambda>j. case saved_bursts st j of
                            Some b \<Rightarrow> if saturating_sub now (started_at_ms b) < duration_ms b then Some b else None
                          | None \<Rightarrow> None);
              summary = ''Identify burst for '' @ fixture_name f @ '' ('' @ show_int ms @ '' ms on universe '' @
                show_int (config_universe c) @ '')''
          in Inr (overlay_saved summary (st\<lparr>saved_bursts := kept(i \<mapsto> \<lparr>started_at_ms = now, duration_ms = ms\<rparr>)\<rparr>), summary))"

fun sequence_bursts :: "int \<Rightarrow> int \<Rightarrow> int \<Rightarrow> nat \<Rightarrow> string list \<Rightarrow> (string \<rightharpoonup> identify_burst) \<Rightarrow> (string \<rightharpoonup> identify_burst)" where
  "sequence_bursts now step ms k [] m = m"
| "sequence_bursts now step ms k (i # is) m =
     sequence_bursts now step ms (Suc k) is (m(i \<mapsto> \<lparr>started_at_ms = now + int k * step, duration_ms = ms\<rparr>))"

definition first_unknown :: "light_store \<Rightarrow> string list \<Rightarrow> string option" where
  "first_unknown st is = find (\<lambda>i. i \<notin> set (map fixture_id (fixtures (load_lighting_editor_state st)))) is"

definition start_lighting_identify_sequence ::
  "int \<Rightarrow> string list \<Rightarrow> int \<Rightarrow> int \<Rightarrow> light_store \<Rightarrow> lighting_error + light_store \<times> string" where
  "start_lighting_identify_sequence now is step_sent ms_sent st =
     (if is = []
      then Inl (Rejected ''LIGHTING_IDENTIFY_SEQUENCE_EMPTY'' ''identifySequence requires at least one fixture id.'')
      else if MAX_IDENTIFY_SEQUENCE_FIXTURES < length is
      then Inl (Rejected ''LIGHTING_IDENTIFY_SEQUENCE_TOO_LARGE''
             (''identifySequence accepts at most '' @ show_nat MAX_IDENTIFY_SEQUENCE_FIXTURES @ '' fixtures.''))
      else case first_unknown st is of
             Some i \<Rightarrow> Inl (fixture_not_found i)
           | None \<Rightarrow>
               let step = clamp_i64 step_sent MIN_IDENTIFY_STEP_MS MAX_IDENTIFY_STEP_MS;
                   ms = clamp_i64 ms_sent MIN_IDENTIFY_DURATION_MS MAX_IDENTIFY_DURATION_MS;
                   summary = ''Identify sequence on '' @ show_nat (length is) @ '' fixture(s) (step '' @ show_int step @
                     '' ms, '' @ show_int ms @ '' ms each)''
               in Inr (overlay_saved summary (st\<lparr>saved_bursts := sequence_bursts now step ms 0 is Map.empty\<rparr>), summary))"

text \<open>\<open>n\<close> is the number of bursts there are, the map's \<open>len\<close>.\<close>

definition clear_lighting_identify_bursts :: "nat \<Rightarrow> light_store \<Rightarrow> lighting_error + light_store \<times> string" where
  "clear_lighting_identify_bursts n st =
     (let summary = ''Cleared '' @ show_nat n @ '' identify burst(s)''
      in Inr (overlay_saved summary (st\<lparr>saved_bursts := Map.empty\<rparr>), summary))"

section \<open>Highlight and solo\<close>

datatype highlight_mode = Highlight | Solo | Off

definition conflict :: "string \<Rightarrow> lighting_error" where
  "conflict message = Rejected ''LIGHTING_HIGHLIGHT_SOLO_CONFLICT'' message"

definition set_lighting_fixture_highlight ::
  "highlight_mode \<Rightarrow> string list \<Rightarrow> light_store \<Rightarrow> lighting_error + light_store \<times> string" where
  "set_lighting_fixture_highlight mode is st =
     (case first_unknown st is of
        Some i \<Rightarrow> Inl (fixture_not_found i)
      | None \<Rightarrow>
          (case mode of
             Highlight \<Rightarrow>
               if saved_solo st \<noteq> {} then Inl (conflict ''Solo is active; clear solo before activating highlight.'')
               else let summary = ''Highlight on '' @ show_nat (length is) @ '' fixture(s)''
                    in Inr (overlay_saved summary (st\<lparr>saved_highlight := set is, saved_solo := {}\<rparr>), summary)
           | Solo \<Rightarrow>
               if saved_highlight st \<noteq> {} then Inl (conflict ''Highlight is active; clear highlight before activating solo.'')
               else let summary = ''Solo on '' @ show_nat (length is) @ '' fixture(s)''
                    in Inr (overlay_saved summary (st\<lparr>saved_highlight := {}, saved_solo := set is\<rparr>), summary)
           | Off \<Rightarrow>
               let summary = ''Cleared highlight + solo overlays''
               in Inr (overlay_saved summary (st\<lparr>saved_highlight := {}, saved_solo := {}\<rparr>), summary)))"

section \<open>Palettes\<close>

definition LIGHTING_CUSTOM_PALETTE_ID_PREFIX :: string where "LIGHTING_CUSTOM_PALETTE_ID_PREFIX = ''palette-custom-''"

definition palette_not_found :: "string \<Rightarrow> lighting_error" where
  "palette_not_found i = Rejected ''LIGHTING_PALETTE_NOT_FOUND'' (not_exposed ''Lighting palette'' i)"

definition palette_kind_label :: "palette_kind \<Rightarrow> string" where
  "palette_kind_label k = (case k of IntensityPalette \<Rightarrow> ''intensity'' | CctPalette \<Rightarrow> ''CCT'')"

definition format_palette_value :: "palette_kind \<Rightarrow> rat \<Rightarrow> string" where
  "format_palette_value k v =
     show_int (round_half_away v) @ (case k of IntensityPalette \<Rightarrow> ''%'' | CctPalette \<Rightarrow> ''K'')"

definition validated_palette_value :: "palette_kind \<Rightarrow> rat \<Rightarrow> lighting_error + rat" where
  "validated_palette_value k v =
     (let (lo, hi, label) = (case k of
            IntensityPalette \<Rightarrow> (0, 100, ''intensity'')
          | CctPalette \<Rightarrow> (MIN_FIXTURE_CCT, MAX_FIXTURE_CCT, ''CCT''))
      in if \<not> (of_int lo \<le> v \<and> v \<le> of_int hi)
         then Inl (Rejected ''LIGHTING_PALETTE_INVALID_VALUE''
                (''Palette '' @ label @ '' value must be between '' @ show_int lo @ '' and '' @ show_int hi @ ''.''))
         else Inr v)"

definition validate_reorder_target ::
  "rig_palette list \<Rightarrow> string \<Rightarrow> palette_kind \<Rightarrow> string option \<Rightarrow> lighting_error option" where
  "validate_reorder_target ps i k before =
     (case before of
        None \<Rightarrow> None
      | Some b \<Rightarrow>
          if b = i then Some (Rejected ''LIGHTING_PALETTE_REORDER_INVALID'' ''beforePaletteId must differ from paletteId.'')
          else (case kind_of_palette ps b of
                  None \<Rightarrow> Some (palette_not_found b)
                | Some k' \<Rightarrow>
                    if k' \<noteq> k
                    then Some (Rejected ''LIGHTING_PALETTE_KIND_MISMATCH''
                           ''Palettes can only be reordered within the same attribute pool.'')
                    else None))"

definition insert_at :: "nat \<Rightarrow> 'a \<Rightarrow> 'a list \<Rightarrow> 'a list" where
  "insert_at n x xs = take n xs @ x # drop n xs"

text \<open>At the end of its kind: after the last of it, else before the first of another kind, else last.\<close>

definition kind_end :: "rig_palette list \<Rightarrow> palette_kind \<Rightarrow> string list \<Rightarrow> nat" where
  "kind_end ps k order =
     (if list_ex (\<lambda>i. kind_of_palette ps i = Some k) order
      then length order - length (takeWhile (\<lambda>i. kind_of_palette ps i \<noteq> Some k) (rev order))
      else length (takeWhile (\<lambda>i. kind_of_palette ps i = Some k \<or> kind_of_palette ps i = None) order))"

definition move_palette_in_order ::
  "string list \<Rightarrow> rig_palette list \<Rightarrow> string \<Rightarrow> string option \<Rightarrow> lighting_error + string list" where
  "move_palette_in_order saved ps i before =
     (case kind_of_palette ps i of
        None \<Rightarrow> Inl (palette_not_found i)
      | Some k \<Rightarrow>
          (case validate_reorder_target ps i k before of
             Some e \<Rightarrow> Inl e
           | None \<Rightarrow>
               let order = filter (\<lambda>j. j \<noteq> i) (normalize_lighting_palette_order ps saved)
               in case before of
                    Some b \<Rightarrow>
                      if b \<notin> set order then Inl (palette_not_found b)
                      else Inr (normalize_lighting_palette_order ps
                             (insert_at (length (takeWhile (\<lambda>j. j \<noteq> b) order)) i order))
                  | None \<Rightarrow> Inr (normalize_lighting_palette_order ps (insert_at (kind_end ps k order) i order))))"

definition create_lighting_palette ::
  "string \<Rightarrow> palette_kind \<Rightarrow> rat \<Rightarrow> nat option \<Rightarrow> light_store \<Rightarrow> lighting_error + light_store \<times> string" where
  "create_lighting_palette name k v color st =
     (let r = load_lighting_editor_state st;
          i = next_custom_id LIGHTING_CUSTOM_PALETTE_ID_PREFIX (map palette_id (palettes r))
      in case validated_palette_value k v of
           Inl e \<Rightarrow> Inl e
         | Inr v' \<Rightarrow>
             let ps = palettes r @ [\<lparr>palette_id = i, palette_name = name, palette_kind = k, palette_value = v', palette_color = color\<rparr>];
                 summary = ''Lighting '' @ palette_kind_label k @ '' palette '' @ quoted name @ '' was created at '' @
                   format_palette_value k v' @ ''.''
             in case move_palette_in_order (palette_order r) ps i None of
                  Inl e \<Rightarrow> Inl e
                | Inr order \<Rightarrow> Inr (saved_with (r\<lparr>palettes := ps, palette_order := order\<rparr>) summary st, summary))"

definition update_lighting_palette ::
  "string \<Rightarrow> string option \<Rightarrow> rat option \<Rightarrow> nat option option \<Rightarrow> string option option \<Rightarrow> light_store
    \<Rightarrow> lighting_error + light_store \<times> string" where
  "update_lighting_palette i name v color before st =
     (let r = load_lighting_editor_state st in
      case find (\<lambda>p. palette_id p = i) (palettes r) of
        None \<Rightarrow> Inl (palette_not_found i)
      | Some p \<Rightarrow>
          (case validate_reorder_target (palettes r) i (palette_kind p) (case before of Some b \<Rightarrow> b | None \<Rightarrow> None) of
             Some e \<Rightarrow> Inl e
           | None \<Rightarrow>
               (case (case v of Some w \<Rightarrow> map_sum id Some (validated_palette_value (palette_kind p) w) | None \<Rightarrow> Inr None) of
                  Inl e \<Rightarrow> Inl e
                | Inr v' \<Rightarrow>
                    let change = set_if color (\<lambda>c p. p\<lparr>palette_color := c\<rparr>) \<circ> set_if v' (\<lambda>w p. p\<lparr>palette_value := w\<rparr>)
                          \<circ> set_if name (\<lambda>n p. p\<lparr>palette_name := n\<rparr>);
                        ps = update_first (\<lambda>p. palette_id p = i) change (palettes r);
                        p' = change p;
                        summary = update_summary ''Lighting palette'' (palette_name p')
                          ((if name \<noteq> None then [''renamed''] else []) @
                           (if v \<noteq> None then [''set to '' @ format_palette_value (palette_kind p') (palette_value p')] else []) @
                           (case color of None \<Rightarrow> [] | Some (Some _) \<Rightarrow> [''recolored''] | Some None \<Rightarrow> [''color cleared'']) @
                           (if before \<noteq> None then [''reordered''] else []))
                    in case (case before of
                               Some b \<Rightarrow> move_palette_in_order (palette_order r) ps i b
                             | None \<Rightarrow> Inr (palette_order r)) of
                         Inl e \<Rightarrow> Inl e
                       | Inr order \<Rightarrow> Inr (saved_with (r\<lparr>palettes := ps, palette_order := order\<rparr>) summary st, summary))))"

definition delete_lighting_palette :: "string \<Rightarrow> light_store \<Rightarrow> lighting_error + light_store \<times> string" where
  "delete_lighting_palette i st =
     (let r = load_lighting_editor_state st in
      case find (\<lambda>p. palette_id p = i) (palettes r) of
        None \<Rightarrow> Inl (palette_not_found i)
      | Some p \<Rightarrow>
          let summary = ''Lighting palette '' @ quoted (palette_name p) @ '' was deleted.''
          in Inr (saved_with (r\<lparr>palettes := filter (\<lambda>p. palette_id p \<noteq> i) (palettes r),
                               palette_order := filter (\<lambda>j. j \<noteq> i) (palette_order r)\<rparr>) summary st, summary))"

definition validate_palette_fixture_ids :: "rig_fixture list \<Rightarrow> string list \<Rightarrow> lighting_error option" where
  "validate_palette_fixture_ids fs is =
     (if is = []
      then Some (Rejected ''LIGHTING_PALETTE_NO_FIXTURES'' ''Select at least one lighting fixture before applying a palette.'')
      else map_option fixture_not_found (find (\<lambda>i. i \<notin> set (map fixture_id fs)) is))"

text \<open>What a palette sets of a light's level, switch and colour temperature.\<close>

definition palette_levels :: "rig_palette \<Rightarrow> string \<Rightarrow> int \<times> bool \<times> int \<Rightarrow> int \<times> bool \<times> int" where
  "palette_levels p ty l =
     (case (palette_kind p, l) of
        (IntensityPalette, _, _, k) \<Rightarrow>
          let v = clamp_i64 (round_half_away (palette_value p)) 0 100 in (v, 0 < v, k)
      | (CctPalette, v, o', _) \<Rightarrow>
          (v, o', clamp_cct_for_type (round_half_away (palette_value p)) ty (default_fixture_cct_for_type ty)))"

definition apply_palette_to_fixture :: "rig_palette \<Rightarrow> rig_fixture \<Rightarrow> rig_fixture" where
  "apply_palette_to_fixture p f =
     (case palette_levels p (fixture_type f) (intensity f, fixture_on f, cct f) of
        (v, o', k) \<Rightarrow> f\<lparr>intensity := v, fixture_on := o', cct := k\<rparr>)"

definition palette_apply_summary :: "rig_palette \<Rightarrow> nat \<Rightarrow> bool \<Rightarrow> string" where
  "palette_apply_summary p n previewing =
     ''Lighting '' @ palette_kind_label (palette_kind p) @ '' palette '' @ quoted (palette_name p) @ '' applied to '' @
     show_nat n @ '' fixture'' @ (if n = 1 then [] else ''s'') @ (if previewing then '' in preview'' else []) @ ''.''"

definition apply_lighting_palette_live ::
  "int \<Rightarrow> string \<Rightarrow> string list \<Rightarrow> light_store \<Rightarrow> lighting_error + light_store \<times> string" where
  "apply_lighting_palette_live now i is st =
     (let r = sampled now (load_lighting_editor_state st) in
      case find (\<lambda>p. palette_id p = i) (palettes r) of
        None \<Rightarrow> Inl (palette_not_found i)
      | Some p \<Rightarrow>
          (case validate_palette_fixture_ids (fixtures r) is of
             Some e \<Rightarrow> Inl e
           | None \<Rightarrow>
               let r' = foldl (\<lambda>x j. remove_fixture_from_active_fade j
                          (x\<lparr>fixtures := update_first (\<lambda>f. fixture_id f = j) (apply_palette_to_fixture p) (fixtures x)\<rparr>)) r is;
                   summary = palette_apply_summary p (length is) False
               in Inr (saved_with r' summary st, summary)))"

end
