(* ===== verification/Rig_Preview.thy ===== *)
theory Rig_Preview
  imports Rig_Overlay
begin

text \<open>
  The preview (\<open>lighting/preview.rs\<close>): while it is on, what a control changes is staged in a buffer that the
  page and the deck share, and the lights stay as they are. The buffer is one per process and is taken under
  the state lock (\<open>lighting/state_lock.rs\<close>), so a command has what is saved and the buffer to itself.
\<close>

section \<open>The buffer\<close>

record preview =
  previewing :: bool
  target_scene :: "string option"
  preview_dirty :: bool
  staged :: "string \<rightharpoonup> scene_level"

definition preview_off :: preview where
  "preview_off = \<lparr>previewing = False, target_scene = None, preview_dirty = False, staged = Map.empty\<rparr>"

definition enable_from_editor_state :: "rig \<Rightarrow> string option \<Rightarrow> preview" where
  "enable_from_editor_state r t =
     \<lparr>previewing = True, target_scene = t, preview_dirty = False,
      staged = states_by_fixture_id (capture_scene_fixture_states (fixtures r))\<rparr>"

definition load_scene :: "rig_scene \<Rightarrow> preview" where
  "load_scene s =
     \<lparr>previewing = True, target_scene = Some (scene_id s), preview_dirty = False,
      staged = states_by_fixture_id (scene_levels s)\<rparr>"

definition clamped_level :: "rig_fixture \<Rightarrow> scene_level" where
  "clamped_level f = (capture_level f)\<lparr>level_intensity := clamp_i64 (intensity f) 0 100\<rparr>"

definition staged_states :: "preview \<Rightarrow> rig_fixture list \<Rightarrow> scene_level list" where
  "staged_states pv fs =
     map (\<lambda>f. case staged pv (fixture_id f) of Some l \<Rightarrow> l | None \<Rightarrow> clamped_level f) fs"

text \<open>\<open>entry(..).or_insert_with(..)\<close> and a change of it.\<close>

definition stage :: "rig_fixture \<Rightarrow> (scene_level \<Rightarrow> scene_level) \<Rightarrow> preview \<Rightarrow> preview" where
  "stage f g pv =
     pv\<lparr>staged := (staged pv)(fixture_id f \<mapsto>
          g (case staged pv (fixture_id f) of Some l \<Rightarrow> l | None \<Rightarrow> clamped_level f))\<rparr>"

record fixture_levels =
  shown_on :: bool
  shown_intensity :: int
  shown_cct :: int
  shown_cct_min :: int
  shown_cct_max :: int
  shown_previewing :: bool

definition read_lighting_fixture_levels :: "int \<Rightarrow> light_store \<Rightarrow> preview \<Rightarrow> string \<Rightarrow> fixture_levels option" where
  "read_lighting_fixture_levels now st pv i =
     (case find (\<lambda>f. fixture_id f = i) (fixtures (sampled now (load_lighting_editor_state st))) of
        None \<Rightarrow> None
      | Some f \<Rightarrow>
          (case fixture_cct_range_from_profile (fixture_profile_for_state f) of
             (lo, hi) \<Rightarrow>
               Some (case (if previewing pv then staged pv i else None) of
                       Some l \<Rightarrow> \<lparr>shown_on = level_on l, shown_intensity = clamp_i64 (level_intensity l) 0 100,
                                  shown_cct = level_cct l, shown_cct_min = lo, shown_cct_max = hi, shown_previewing = True\<rparr>
                     | None \<Rightarrow> \<lparr>shown_on = fixture_on f, shown_intensity = clamp_i64 (intensity f) 0 100,
                                shown_cct = cct f, shown_cct_min = lo, shown_cct_max = hi,
                                shown_previewing = previewing pv\<rparr>)))"

section \<open>Its commands\<close>

text \<open>
  A command of the preview on what is saved and the buffer. \<open>saving\<close> runs one that saves on the disk; the
  others only read it.
\<close>

type_synonym 'r preview_command = "light_store \<times> preview \<Rightarrow> (light_store \<times> preview) \<times> (lighting_error + 'r)"

definition on_rig_alone ::
  "disk \<Rightarrow> (light_store \<Rightarrow> lighting_error + light_store \<times> 'r) \<Rightarrow> 'r preview_command" where
  "on_rig_alone d f x = (case on_disk d f (fst x) of (st, v) \<Rightarrow> ((st, snd x), v))"

definition reading :: "disk \<Rightarrow> (light_store \<Rightarrow> preview \<Rightarrow> lighting_error + preview \<times> 'r) \<Rightarrow> 'r preview_command" where
  "reading d f x =
     (case read_error d of
        Some e \<Rightarrow> (x, Inl (StorageError e))
      | None \<Rightarrow> (case f (fst x) (snd x) of Inl e \<Rightarrow> (x, Inl e) | Inr (pv, v) \<Rightarrow> ((fst x, pv), Inr v)))"

definition set_lighting_preview_mode :: "disk \<Rightarrow> int \<Rightarrow> bool \<Rightarrow> bool \<Rightarrow> string preview_command" where
  "set_lighting_preview_mode d now on' patching x =
     (if on' \<and> patching
      then (x, Inl (Rejected ''LIGHTING_PREVIEW_PATCH_MODE_CONFLICT'' ''Exit patch mode before enabling lighting preview mode.''))
      else if on'
      then reading d (\<lambda>st pv. Inr (enable_from_editor_state (sampled now (load_lighting_editor_state st))
             (read_optional_setting (plain st) LIGHTING_LAST_RECALLED_SCENE_ID_KEY), ''Lighting preview mode enabled.'')) x
      else ((fst x, preview_off), Inr ''Lighting preview mode disabled.''))"

definition discard_lighting_preview :: "string preview_command" where
  "discard_lighting_preview x = ((fst x, preview_off), Inr ''Lighting preview edits discarded.'')"

definition structural_update :: "fixture_update \<Rightarrow> bool" where
  "structural_update q \<longleftrightarrow>
     up_name q \<noteq> None \<or> up_type q \<noteq> None \<or> up_definition q \<noteq> None \<or> up_mode q \<noteq> None \<or> up_universe q \<noteq> None \<or>
     up_address q \<noteq> None \<or> up_effect q \<noteq> None \<or> up_group q \<noteq> None \<or> up_x q \<noteq> None \<or> up_y q \<noteq> None \<or>
     up_rotation q \<noteq> None \<or> up_rig_z q \<noteq> None \<or> up_beam q \<noteq> None"

definition stage_update :: "fixture_update \<Rightarrow> rig_fixture \<Rightarrow> scene_level \<Rightarrow> scene_level" where
  "stage_update q f =
     set_if (up_controls q) (\<lambda>vs l. l\<lparr>level_controls :=
         normalize_fixture_control_values (fixture_profile_for_state f) (level_controls l ++ vs)\<rparr>)
     \<circ> set_if (up_cct q) (\<lambda>k l. l\<lparr>level_cct :=
         clamp_cct_for_type k (fixture_type f) (default_fixture_cct_for_type (fixture_type f))\<rparr>)
     \<circ> set_if (up_intensity q) (\<lambda>v l. l\<lparr>level_intensity := clamp_i64 v 0 100\<rparr>)
     \<circ> set_if (up_on q) (\<lambda>v l. l\<lparr>level_on := v\<rparr>)"

definition update_lighting_fixture_with_preview ::
  "(nat \<Rightarrow> rat \<Rightarrow> string) \<Rightarrow> disk \<Rightarrow> int \<Rightarrow> fixture_update \<Rightarrow> string preview_command" where
  "update_lighting_fixture_with_preview fixed d now q x =
     (if \<not> previewing (snd x) then on_rig_alone d (update_lighting_fixture fixed now q) x
      else if structural_update q
      then (x, Inl (Rejected ''LIGHTING_PREVIEW_UNSUPPORTED_UPDATE''
             ''Preview mode only stages fixture output values. Exit preview before changing fixture identity, patch, grouping, or placement.''))
      else reading d (\<lambda>st pv.
        case find (\<lambda>f. fixture_id f = up_fixture q) (fixtures (load_lighting_editor_state st)) of
          None \<Rightarrow> Inl (fixture_not_found (up_fixture q))
        | Some f \<Rightarrow>
            let pv' = (stage f (stage_update q f) pv)\<lparr>preview_dirty := True\<rparr>;
                l = the (staged pv' (fixture_id f))
            in Inr (pv', ''Lighting preview fixture '' @ quoted (fixture_name f) @ '' staged as '' @
                 (if level_on l then ''on'' else ''off'') @ '' at '' @ show_int (clamp_i64 (level_intensity l) 0 100) @
                 ''% / '' @ show_int (level_cct l) @ ''K.'')) x)"

definition stage_power :: "bool \<Rightarrow> rig_fixture list \<Rightarrow> preview \<Rightarrow> preview" where
  "stage_power on' fs pv = foldl (\<lambda>p f. stage f (\<lambda>l. l\<lparr>level_on := on'\<rparr>) p) pv fs"

definition set_lighting_group_power_with_preview ::
  "disk \<Rightarrow> int \<Rightarrow> string \<Rightarrow> bool \<Rightarrow> string preview_command" where
  "set_lighting_group_power_with_preview d now i on' x =
     (if \<not> previewing (snd x) then on_rig_alone d (set_lighting_group_power now i on') x
      else reading d (\<lambda>st pv.
        let r = load_lighting_editor_state st in
        case find (\<lambda>g. group_id g = i) (groups r) of
          None \<Rightarrow> Inl (group_not_found i)
        | Some g \<Rightarrow>
            let fs = filter (\<lambda>f. fixture_group f = Some (group_id g)) (fixtures r)
            in if fs = []
               then Inl (Rejected ''LIGHTING_GROUP_EMPTY''
                      (''Lighting group '' @ quoted (group_name g) @ '' does not currently contain fixtures.''))
               else Inr ((stage_power on' fs pv)\<lparr>preview_dirty := True\<rparr>,
                      ''Lighting preview group '' @ quoted (group_name g) @ '' staged '' @ (if on' then ''on'' else ''off'') @
                      '' across '' @ show_nat (length fs) @ '' fixtures.'')) x)"

definition set_lighting_all_power_with_preview :: "disk \<Rightarrow> int \<Rightarrow> bool \<Rightarrow> string preview_command" where
  "set_lighting_all_power_with_preview d now on' x =
     (if \<not> previewing (snd x) then on_rig_alone d (set_lighting_all_power now on') x
      else reading d (\<lambda>st pv.
        let fs = fixtures (load_lighting_editor_state st)
        in if fs = []
           then Inl (Rejected ''LIGHTING_FIXTURES_EMPTY'' ''No lighting fixtures are exposed by the native editor state.'')
           else Inr ((stage_power on' fs pv)\<lparr>preview_dirty := True\<rparr>,
                  ''All lighting preview fixtures staged '' @ (if on' then ''on'' else ''off'') @ '' across '' @
                  show_nat (length fs) @ '' fixtures.'')) x)"

text \<open>The clock is read after the buffer has the scene: its error leaves the scene loaded.\<close>

definition recall_lighting_scene_with_preview ::
  "(nat \<Rightarrow> rat \<Rightarrow> string) \<Rightarrow> disk \<Rightarrow> string + string \<Rightarrow> int \<Rightarrow> string \<Rightarrow> rat \<Rightarrow> string preview_command" where
  "recall_lighting_scene_with_preview fixed d clock now i seconds x =
     (if \<not> previewing (snd x)
      then (case recall_lighting_scene fixed d clock now i seconds (fst x) of (st, v) \<Rightarrow> ((st, snd x), v))
      else case read_error d of
        Some e \<Rightarrow> (x, Inl (StorageError e))
      | None \<Rightarrow>
          (case find (\<lambda>s. scene_id s = i) (scenes (load_lighting_editor_state (fst x))) of
             None \<Rightarrow> (x, Inl (scene_not_found i))
           | Some s \<Rightarrow>
               ((fst x, load_scene s),
                (case clock of
                   Inl e \<Rightarrow> Inl (StorageError e)
                 | Inr _ \<Rightarrow> Inr (''Lighting scene '' @ quoted (scene_name s) @ '' was loaded into preview.'')))))"

definition saving_preview ::
  "disk \<Rightarrow> (light_store \<Rightarrow> preview \<Rightarrow> lighting_error + light_store \<times> 'r) \<Rightarrow> 'r preview_command" where
  "saving_preview d f x =
     (case on_disk d (\<lambda>st. f st (snd x)) (fst x) of
        (st, Inl e) \<Rightarrow> ((st, snd x), Inl e)
      | (st, Inr v) \<Rightarrow> ((st, preview_off), Inr v))"

definition preview_saved_summary :: "string \<Rightarrow> string" where
  "preview_saved_summary name =
     ''Lighting scene '' @ quoted name @ '' saved from preview without changing live output.''"

definition preview_into_scene ::
  "string \<Rightarrow> string option \<Rightarrow> nat option option \<Rightarrow> light_store \<Rightarrow> preview \<Rightarrow> lighting_error + light_store \<times> string" where
  "preview_into_scene i name color st pv =
     (let r = load_lighting_editor_state st;
          change = (\<lambda>s. s\<lparr>scene_levels := staged_states pv (fixtures r)\<rparr>)
            \<circ> set_if color (\<lambda>c s. s\<lparr>scene_color := c\<rparr>) \<circ> set_if name (\<lambda>n s. s\<lparr>scene_name := n\<rparr>)
      in case find (\<lambda>s. scene_id s = i) (scenes r) of
           None \<Rightarrow> Inl (scene_not_found i)
         | Some s \<Rightarrow>
             let summary = preview_saved_summary (scene_name (change s))
             in Inr (saved_with (r\<lparr>scenes := update_first (\<lambda>s. scene_id s = i) change (scenes r)\<rparr>) summary st, summary))"

definition update_lighting_scene_with_preview ::
  "disk \<Rightarrow> int \<Rightarrow> string \<Rightarrow> string option \<Rightarrow> bool \<Rightarrow> nat option option \<Rightarrow> string preview_command" where
  "update_lighting_scene_with_preview d now i name capture color x =
     (if \<not> previewing (snd x) \<or> \<not> capture then on_rig_alone d (update_lighting_scene now i name capture color) x
      else case target_scene (snd x) of
        Some t \<Rightarrow>
          if t \<noteq> i
          then (x, Inl (Rejected ''LIGHTING_PREVIEW_SCENE_MISMATCH''
                 (''Lighting preview is targeting scene '' @ quoted t @ '' and cannot be saved into '' @ quoted i @ ''.'')))
          else saving_preview d (preview_into_scene i name color) x
      | None \<Rightarrow> saving_preview d (preview_into_scene i name color) x)"

definition preview_as_scene ::
  "string \<Rightarrow> scene_level list option \<Rightarrow> nat option \<Rightarrow> light_store \<Rightarrow> preview \<Rightarrow> lighting_error + light_store \<times> string" where
  "preview_as_scene name states color st pv =
     (let r = load_lighting_editor_state st in
      if fixtures r = [] then Inl LIGHTING_NO_FIXTURES
      else case (case states of
                   Some ls \<Rightarrow> validated_scene_fixture_states (fixtures r) ls
                 | None \<Rightarrow> Inr (staged_states pv (fixtures r))) of
             Inl e \<Rightarrow> Inl e
           | Inr ls \<Rightarrow>
               (case validated_scene_color_index color of
                  Inl e \<Rightarrow> Inl e
                | Inr c \<Rightarrow>
                    let r' = scene_added r name ls c;
                        summary = ''Lighting scene '' @ quoted name @ '' was saved from preview without changing live output.'';
                        chosen = (plain st)(LIGHTING_SELECTED_SCENE_ID_KEY \<mapsto>
                          next_custom_id LIGHTING_CUSTOM_SCENE_ID_PREFIX (map scene_id (scenes r)))
                    in Inr (saved_with r' summary (st\<lparr>plain := chosen\<rparr>), summary)))"

definition create_lighting_scene_with_preview ::
  "disk \<Rightarrow> int \<Rightarrow> string \<Rightarrow> scene_level list option \<Rightarrow> nat option \<Rightarrow> string preview_command" where
  "create_lighting_scene_with_preview d now name states color x =
     (if \<not> previewing (snd x) then on_rig_alone d (create_lighting_scene now name states color) x
      else saving_preview d (preview_as_scene name states color) x)"

definition apply_palette_to_preview_state :: "rig_palette \<Rightarrow> rig_fixture \<Rightarrow> scene_level \<Rightarrow> scene_level" where
  "apply_palette_to_preview_state p f l =
     (case palette_levels p (fixture_type f) (level_intensity l, level_on l, level_cct l) of
        (v, o', k) \<Rightarrow> l\<lparr>level_intensity := v, level_on := o', level_cct := k\<rparr>)"

text \<open>This one's missing entry takes the fixture's stored controls as they are.\<close>

definition stage_palette :: "rig_palette \<Rightarrow> rig_fixture \<Rightarrow> preview \<Rightarrow> preview" where
  "stage_palette p f pv =
     pv\<lparr>staged := (staged pv)(fixture_id f \<mapsto> apply_palette_to_preview_state p f
          (case staged pv (fixture_id f) of
             Some l \<Rightarrow> l
           | None \<Rightarrow> (clamped_level f)\<lparr>level_controls := control_values f\<rparr>))\<rparr>"

definition apply_lighting_palette_preview :: "string \<Rightarrow> string list \<Rightarrow> light_store \<Rightarrow> preview \<Rightarrow> lighting_error + preview \<times> string" where
  "apply_lighting_palette_preview i is st pv =
     (let r = load_lighting_editor_state st in
      case find (\<lambda>p. palette_id p = i) (palettes r) of
        None \<Rightarrow> Inl (palette_not_found i)
      | Some p \<Rightarrow>
          (case validate_palette_fixture_ids (fixtures r) is of
             Some e \<Rightarrow> Inl e
           | None \<Rightarrow>
               let pv' = foldl (\<lambda>x j. case find (\<lambda>f. fixture_id f = j) (fixtures r) of
                                        Some f \<Rightarrow> stage_palette p f x | None \<Rightarrow> x) pv is
               in Inr (pv'\<lparr>preview_dirty := True\<rparr>, palette_apply_summary p (length is) True)))"

definition apply_lighting_palette_with_preview ::
  "disk \<Rightarrow> int \<Rightarrow> string \<Rightarrow> string list \<Rightarrow> bool \<Rightarrow> string preview_command" where
  "apply_lighting_palette_with_preview d now i is patching x =
     (if patching
      then (x, Inl (Rejected ''LIGHTING_PALETTE_PATCH_MODE_CONFLICT'' ''Exit patch mode before applying lighting palettes.''))
      else if previewing (snd x) then reading d (apply_lighting_palette_preview i is) x
      else on_rig_alone d (apply_lighting_palette_live now i is) x)"

end
