(* ===== verification/Rig_Loaded.thy ===== *)
theory Rig_Loaded
  imports Rig_Preview
begin

text \<open>
  What a load of the lights' saved state gives (\<open>lighting/editor_state.rs\<close>): every part of it brought in
  order, and a fixture that is in order is left as it is, so saving and loading again moves nothing.
\<close>

section \<open>The parts of a loaded state\<close>

lemma normalized_parts [simp]:
  "removed_fixture_ids (normalize_lighting_editor_state r c iv) = removed_fixture_ids r"
  "active_fade (normalize_lighting_editor_state r c iv) = active_fade r"
  "palettes (normalize_lighting_editor_state r c iv) = normalize_lighting_palette_states (palettes r)"
  by (simp_all add: normalize_lighting_editor_state_def Let_def)

definition loaded_fixtures :: "inventory \<Rightarrow> rig \<Rightarrow> rig_fixture list" where
  "loaded_fixtures iv r =
     append_missing_fixture_states (removed_fixture_ids r) iv
       (map (normalize_fixture iv) (filter (\<lambda>f. fixture_id f \<notin> set (removed_fixture_ids r)) (fixtures r)))"

lemma normalized_fixtures [simp]:
  "fixtures (normalize_lighting_editor_state r c iv) = loaded_fixtures iv r"
  "scenes (normalize_lighting_editor_state r c iv) = normalize_scenes c iv (loaded_fixtures iv r) (scenes r)"
  "groups (normalize_lighting_editor_state r c iv) = normalize_lighting_group_states (groups r) iv (loaded_fixtures iv r)"
  by (simp_all add: normalize_lighting_editor_state_def loaded_fixtures_def Let_def)

lemma load_saved:
  "saved_rig st = Some r \<Longrightarrow> load_lighting_editor_state st =
     normalize_lighting_editor_state r (resolve_lighting_config (plain st))
       (read_lighting_editor_inventory (resolve_lighting_config (plain st)))"
  by (simp add: load_lighting_editor_state_def load_with_inventory_def Let_def)

lemma editor_inventory: "enabled c \<Longrightarrow> read_lighting_editor_inventory c = read_inventory c"
  by (simp add: read_lighting_editor_inventory_def read_inventory_def)

lemma config_kept [simp]:
  "resolve_lighting_config (action_succeeded m s) = resolve_lighting_config s"
  "resolve_lighting_config (recall_stored i t s) = resolve_lighting_config s"
  by (simp_all add: resolve_lighting_config_def action_succeeded_def recall_stored_def read_lighting_output_enabled_def
      LIGHTING_LAST_ACTION_STATUS_KEY_def LIGHTING_LAST_ACTION_CODE_KEY_def LIGHTING_LAST_ACTION_MESSAGE_KEY_def
      LIGHTING_LAST_RECALLED_SCENE_ID_KEY_def LIGHTING_LAST_SCENE_RECALL_AT_KEY_def
      LIGHTING_BRIDGE_IP_KEY_def LIGHTING_UNIVERSE_KEY_def LIGHTING_ENABLED_KEY_def)

section \<open>A fixture brought in order\<close>

lemma normalized_id [simp]: "fixture_id (normalize_fixture iv f) = fixture_id f"
  and normalized_on [simp]: "fixture_on (normalize_fixture iv f) = fixture_on f"
  and normalized_intensity [simp]: "intensity (normalize_fixture iv f) = clamp_i64 (intensity f) 0 100"
  and normalized_group [simp]: "fixture_group (normalize_fixture iv f) = fixture_group f"
  and normalized_universe [simp]: "universe (normalize_fixture iv f) = clamp_i64 (universe f) 1 63999"
  by (simp_all add: normalize_fixture_def Let_def)

lemma appended_parts [simp]:
  "fixture_id (appended_fixture s) = snap_id s" "\<not> fixture_on (appended_fixture s)"
  "intensity (appended_fixture s) = 100" "fixture_group (appended_fixture s) = snap_group s"
  "universe (appended_fixture s) = snap_universe s"
  by (simp_all add: appended_fixture_def Let_def DEFAULT_FIXTURE_INTENSITY_def)

lemma clamp_in: "lo \<le> hi \<Longrightarrow> lo \<le> clamp_i64 v lo hi \<and> clamp_i64 v lo hi \<le> hi"
  by (auto simp: clamp_i64_def)

lemma clamp_inside: "lo \<le> v \<Longrightarrow> v \<le> hi \<Longrightarrow> clamp_i64 v lo hi = v"
  by (auto simp: clamp_i64_def)

lemma clamp_twice [simp]: "clamp_i64 (clamp_i64 v lo hi) lo hi = clamp_i64 v lo hi"
  by (auto simp: clamp_i64_def)

lemma clamp_f64_twice [simp]: "clamp_f64 (clamp_f64 v lo hi) lo hi = clamp_f64 v lo hi"
  by (auto simp: clamp_f64_def)

lemma color_kept_twice [simp]: "color_kept (color_kept c) = color_kept c"
  by (auto simp: color_kept_def split: option.splits)

lemma coordinate_twice [simp]: "normalize_optional_coordinate (normalize_optional_coordinate c) = normalize_optional_coordinate c"
  by (cases c) (simp_all add: normalize_optional_coordinate_def)

lemma effect_twice [simp]: "normalize_lighting_effect (normalize_lighting_effect e) = normalize_lighting_effect e"
  by (simp add: normalize_lighting_effect_def)

lemma rotation_in: "0 \<le> normalize_rotation v \<and> normalize_rotation v < 360"
proof -
  let ?r = "if 0 \<le> v then v - of_int \<lfloor>v / 360\<rfloor> * 360 else v + of_int \<lfloor>- v / 360\<rfloor> * 360"
  have pos: "0 \<le> x - of_int \<lfloor>x / 360\<rfloor> * 360 \<and> x - of_int \<lfloor>x / 360\<rfloor> * 360 < 360" for x :: rat
  proof -
    have "of_int \<lfloor>x / 360\<rfloor> \<le> x / 360" "x / 360 < of_int \<lfloor>x / 360\<rfloor> + 1" using floor_correct [of "x / 360"] by (simp_all only: of_int_add of_int_1)
    then show ?thesis by (intro conjI) linarith+
  qed
  have r: "- 360 < ?r \<and> ?r < 360" using pos [of v] pos [of "- v"] by auto
  have n: "of_int 0 \<le> nearest (?r + 360) \<and> nearest (?r + 360) \<le> of_int 360" if "?r < 0"
    using r that by (intro nearest_in) simp_all
  show ?thesis using r n unfolding normalize_rotation_def Let_def by (auto simp: order.order_iff_strict)
qed

lemma rotation_twice [simp]: "normalize_rotation (normalize_rotation v) = normalize_rotation v"
proof -
  let ?n = "normalize_rotation v"
  have n: "0 \<le> ?n" "?n < 360" using rotation_in by simp_all
  then have "\<lfloor>?n / 360\<rfloor> = 0" by (simp add: floor_eq_iff)
  then show ?thesis using n by (simp add: normalize_rotation_def [of ?n] Let_def)
qed

lemma loaded_all:
  "(\<And>f. f \<in> set (fixtures r) \<Longrightarrow> P (normalize_fixture iv f)) \<Longrightarrow> (\<And>s. P (appended_fixture s)) \<Longrightarrow>
   list_all P (loaded_fixtures iv r)"
  by (auto simp: loaded_fixtures_def append_missing_fixture_states_def list_all_iff)

section \<open>Its type and its profile\<close>

lemma cleaned_id: "set s \<subseteq> set id_chars \<Longrightarrow> map (\<lambda>c. if c = CHR ''_'' \<or> c = CHR '' '' then CHR ''-'' else c) s = s"
proof -
  assume "set s \<subseteq> set id_chars"
  moreover have "CHR ''_'' \<notin> set id_chars" "CHR '' '' \<notin> set id_chars" by (simp_all add: id_chars_def)
  ultimately show ?thesis by (intro map_idI) auto
qed

text \<open>No id of the catalog is another definition's alias.\<close>

lemma ids_no_alias:
  "list_all (\<lambda>d. definition_id d \<notin> set [''astra'', ''astra-bi-color'', ''astra-bicolor'', ''litepanels-astra'',
     ''apollo-bridge'', ''litepanels-apollo'', ''infinimat'', ''aputure-infinimat'', ''infinibar'', ''infinibar-pb12'']) catalog_definitions"
  by code_simp

lemma apollo_listed: "\<exists>d \<in> set catalog_definitions. definition_id d = ''litepanels-apollo-bridge''"
  and infinimat_listed: "\<exists>d \<in> set catalog_definitions. definition_id d = ''aputure-infinimat-generic''"
  by code_simp+

lemma lowered_apollo: "lowered ''Apollo Bridge'' = ''apollo bridge''"
  by code_simp

lemma alias_of_id:
  assumes d: "d \<in> set catalog_definitions"
  shows "resolve_fixture_alias (definition_id d) = Some (definition_id d)"
proof -
  have s: "set (definition_id d) \<subseteq> set id_chars" using catalog_ids d by (simp add: list_all_iff)
  have n: "definition_id d \<notin> set [''astra'', ''astra-bi-color'', ''astra-bicolor'', ''litepanels-astra'',
      ''apollo-bridge'', ''litepanels-apollo'', ''infinimat'', ''aputure-infinimat'', ''infinibar'', ''infinibar-pb12'']"
    using ids_no_alias d by (simp only: list_all_iff) blast
  then show ?thesis using catalog_id_kept [OF d]
    by (simp add: resolve_fixture_alias_def lowered_id [OF s] cleaned_id [OF s] Let_def)
qed

lemma alias_of_type:
  assumes d: "d \<in> set catalog_definitions"
  shows "resolve_fixture_alias (fixture_type_for_definition (definition_id d)) = Some (definition_id d)"
proof -
  have l: "lowered ''astra-bicolor'' = ''astra-bicolor''" "lowered ''infinimat'' = ''infinimat''"
    "lowered ''infinibar-pb12'' = ''infinibar-pb12''"
    by (rule lowered_id, simp add: id_chars_def)+
  consider "definition_id d = DEFAULT_FIXTURE_DEFINITION_ID" | "definition_id d = ''aputure-infinimat-generic''"
    | "definition_id d = ''aputure-infinibar-pb12''" | "definition_id d = ''litepanels-apollo-bridge''"
    | "fixture_type_for_definition (definition_id d) = definition_id d"
    by (fastforce simp: fixture_type_for_definition_def)
  then show ?thesis
  proof cases
    case 5
    then show ?thesis using alias_of_id [OF d] by simp
  qed (simp_all add: l lowered_apollo fixture_type_for_definition_def Let_def
      DEFAULT_LIGHTING_FIXTURE_TYPE_def DEFAULT_FIXTURE_DEFINITION_ID_def resolve_fixture_alias_def)
qed

lemma type_kept:
  assumes d: "d \<in> set catalog_definitions"
  shows "resolve_fixture_definition None (Some (fixture_type_for_definition (definition_id d))) legacy i = d"
proof -
  have "requested_definition None (Some (fixture_type_for_definition (definition_id d))) legacy i = definition_id d"
    using alias_of_type [OF d] by (simp add: requested_definition_def or_else_def)
  moreover have "requested_definition (Some (definition_id d)) None None [] = definition_id d"
    using catalog_id_kept [OF d] by (simp add: requested_definition_def or_else_def)
  ultimately show ?thesis using definition_found [OF d, of None None "[]"]
    by (simp add: resolve_fixture_definition_def find_fixture_definition_def)
qed

lemma normalized_type_kept [simp]:
  "normalized_fixture_type (Some (normalized_fixture_type ty k i)) k' i' = normalized_fixture_type ty k i"
  unfolding normalized_fixture_type_def by (simp add: type_kept [OF resolved_listed])

lemma profile_kept [simp]:
  "resolve_fixture_profile (Some (profile_definition (resolve_fixture_profile a b c d e)))
     (Some (profile_mode (resolve_fixture_profile a b c d e))) c' d' e' = resolve_fixture_profile a b c d e"
  by (simp add: profile_of_mode Let_def definition_found [OF resolved_listed] mode_found [OF resolved_listed mode_listed [OF resolved_listed]])

text \<open>A colour temperature in the range of its type is kept, for none of the ranges reaches down to 0.\<close>

lemma type_range: "0 < fst (fixture_cct_range ty) \<and> fst (fixture_cct_range ty) \<le> snd (fixture_cct_range ty)"
proof -
  let ?d = "resolve_fixture_definition None (Some ty) None []" let ?m = "resolve_fixture_mode ?d None"
  have "?m \<in> set (modes ?d)" using resolved_listed by (rule mode_listed)
  moreover have "definition_in_order ?d" using resolved_listed by (rule catalog_all_in_order)
  ultimately have "mode_in_order ?m" by (simp add: definition_in_order_def list_all_iff)
  then show ?thesis
    by (auto simp: fixture_cct_range_def type_profile_def fixture_cct_range_from_profile_def profile_of_mode Let_def
        mode_in_order_def split: option.splits)
qed

lemma cct_in_type: "fst (fixture_cct_range ty) \<le> clamp_cct_for_type k ty d \<and> clamp_cct_for_type k ty d \<le> snd (fixture_cct_range ty)"
  using type_range [of ty] clamp_in by (auto simp: clamp_cct_for_type_def split: prod.split)

lemma cct_inside: "fst (fixture_cct_range ty) \<le> k \<Longrightarrow> k \<le> snd (fixture_cct_range ty) \<Longrightarrow> clamp_cct_for_type k ty d = k"
  using type_range [of ty] by (auto simp: clamp_cct_for_type_def clamp_inside split: prod.splits)

lemma cct_twice [simp]: "clamp_cct_for_type (clamp_cct_for_type k ty d) ty d' = clamp_cct_for_type k ty d"
  using cct_in_type [of ty k d] by (simp add: cct_inside)

lemma address_twice [simp]:
  "normalize_dmx_start_address (normalize_dmx_start_address a ty) ty = normalize_dmx_start_address a ty"
  by (simp add: normalize_dmx_start_address_def Let_def)

section \<open>Its controls\<close>

definition slider_value :: "(string \<rightharpoonup> int) \<Rightarrow> fixture_control \<Rightarrow> int" where
  "slider_value vs c =
     clamp_i64 (case vs (slider_id c) of Some v \<Rightarrow> v | None \<Rightarrow> default_value c) (slider_min c) (slider_max c)"

definition own_field :: "string \<Rightarrow> bool" where
  "own_field i \<longleftrightarrow> i = ''intensity'' \<or> i = ''cct''"

lemma foldl_updates:
  "foldl (\<lambda>m c. if P c then m else m(k c \<mapsto> v c)) m0 cs = m0 ++ map_of (rev (map (\<lambda>c. (k c, v c)) (filter (\<lambda>c. \<not> P c) cs)))"
  by (induction cs arbitrary: m0) simp_all

lemma controls_at:
  "normalize_fixture_control_values p vs i = Some v \<longleftrightarrow>
     (\<exists>c \<in> set (controls (profile_mode_of p)). slider_id c = i \<and> \<not> own_field i \<and> v = slider_value vs c)"
proof -
  let ?cs = "filter (\<lambda>c. \<not> own_field (slider_id c)) (controls (profile_mode_of p))"
  have n: "normalize_fixture_control_values p vs = map_of (rev (map (\<lambda>c. (slider_id c, slider_value vs c)) ?cs))"
    using foldl_updates [of "\<lambda>c. own_field (slider_id c)" slider_id "slider_value vs" Map.empty "controls (profile_mode_of p)"]
    by (simp add: normalize_fixture_control_values_def own_field_def slider_value_def cong: if_cong)
  have "definition_in_order (resolve_fixture_definition (Some (profile_definition p)) None None [])"
    using resolved_listed by (rule catalog_all_in_order)
  moreover have "profile_mode_of p \<in> set (modes (resolve_fixture_definition (Some (profile_definition p)) None None []))"
    unfolding profile_mode_of_def using resolved_listed by (rule mode_listed)
  ultimately have "distinct (map slider_id (controls (profile_mode_of p)))"
    by (simp add: definition_in_order_def mode_in_order_def list_all_iff)
  then have "distinct (map fst (rev (map (\<lambda>c. (slider_id c, slider_value vs c)) ?cs)))"
    by (simp add: rev_map [symmetric] comp_def distinct_map_filter)
  then show ?thesis by (auto simp: n)
qed

lemma option_eqI: "(\<And>v. a = Some v \<longleftrightarrow> b = Some v) \<Longrightarrow> a = b"
  by (cases a) (metis option.exhaust)+

lemma controls_same:
  assumes "\<And>i. \<not> own_field i \<Longrightarrow> vs i = vs' i"
  shows "normalize_fixture_control_values p vs = normalize_fixture_control_values p vs'"
proof (rule ext, rule option_eqI)
  have s: "slider_value vs c = slider_value vs' c" if "\<not> own_field (slider_id c)" for c using assms that by (simp add: slider_value_def)
  show "normalize_fixture_control_values p vs i = Some v \<longleftrightarrow> normalize_fixture_control_values p vs' i = Some v" for i v
    using s by (auto simp: controls_at)
qed

lemma controls_twice [simp]:
  "normalize_fixture_control_values p (normalize_fixture_control_values p vs) = normalize_fixture_control_values p vs"
proof (rule ext, rule option_eqI)
  have "slider_value (normalize_fixture_control_values p vs) c = slider_value vs c"
    if "c \<in> set (controls (profile_mode_of p))" "\<not> own_field (slider_id c)" for c
  proof -
    have "normalize_fixture_control_values p vs (slider_id c) = Some (slider_value vs c)"
      using that by (auto simp: controls_at)
    then show ?thesis by (simp add: slider_value_def [of "normalize_fixture_control_values p vs"]) (simp add: slider_value_def)
  qed
  then show "normalize_fixture_control_values p (normalize_fixture_control_values p vs) i = Some v \<longleftrightarrow>
      normalize_fixture_control_values p vs i = Some v" for i v
    by (auto simp: controls_at)
qed

lemma effective_at: "\<not> own_field i \<Longrightarrow> effective_fixture_control_values f i =
    normalize_fixture_control_values (fixture_profile_for_state f) (control_values f) i"
  by (auto simp: effective_fixture_control_values_def own_field_def Let_def split: prod.split)

lemma controls_of_effective [simp]:
  "normalize_fixture_control_values (fixture_profile_for_state f) (effective_fixture_control_values f) =
   normalize_fixture_control_values (fixture_profile_for_state f) (control_values f)"
  using controls_same [of "effective_fixture_control_values f"
      "normalize_fixture_control_values (fixture_profile_for_state f) (control_values f)" "fixture_profile_for_state f"]
  by (simp add: effective_at)

text \<open>A fixture whose profile is settled names the definition and the mode it has, so its other names are
  not read.\<close>

definition settled_profile :: "rig_fixture \<Rightarrow> bool" where
  "settled_profile f \<longleftrightarrow>
     (\<exists>a b c d e. fixture_definition_id f = Some (profile_definition (resolve_fixture_profile a b c d e)) \<and>
                  fixture_mode_id f = Some (profile_mode (resolve_fixture_profile a b c d e)))"

lemma settled_profile_reads:
  "settled_profile f \<Longrightarrow> resolve_fixture_profile (fixture_definition_id f) (fixture_mode_id f) c d e = fixture_profile_for_state f"
  by (auto simp: settled_profile_def fixture_profile_for_state_def)

lemma normalized_settled [simp]: "settled_profile (normalize_fixture iv f)"
  by (simp add: settled_profile_def normalize_fixture_def Let_def) blast

lemma appended_settled [simp]: "settled_profile (appended_fixture s)" and default_settled [simp]: "settled_profile (default_fixture s)"
  by (simp_all add: settled_profile_def appended_fixture_def default_fixture_def Let_def) blast+

lemma normalized_profile:
  "settled_profile f \<Longrightarrow> fixture_profile_for_state (normalize_fixture iv f) = fixture_profile_for_state f"
proof -
  assume f: "settled_profile f"
  let ?p = "resolve_fixture_profile (fixture_definition_id f) (fixture_mode_id f)
      (Some (normalized_fixture_type (Some (fixture_type f)) (Some (fixture_kind f)) (fixture_id f))) (Some (fixture_kind f)) (fixture_id f)"
  have "fixture_definition_id (normalize_fixture iv f) = Some (profile_definition ?p)"
    "fixture_mode_id (normalize_fixture iv f) = Some (profile_mode ?p)"
    by (simp_all add: normalize_fixture_def Let_def)
  then have "fixture_profile_for_state (normalize_fixture iv f) = ?p" by (simp add: fixture_profile_for_state_def)
  then show ?thesis using settled_profile_reads [OF f] by simp
qed

lemma normalized_controls:
  "settled_profile f \<Longrightarrow> control_values (normalize_fixture iv f) =
     normalize_fixture_control_values (fixture_profile_for_state f) (control_values f)"
  using settled_profile_reads [of f] by (simp add: normalize_fixture_def Let_def)

lemma normalized_cct:
  "fst (fixture_cct_range (fixture_type (normalize_fixture iv f))) \<le> cct f \<Longrightarrow>
   cct f \<le> snd (fixture_cct_range (fixture_type (normalize_fixture iv f))) \<Longrightarrow> cct (normalize_fixture iv f) = cct f"
  by (simp add: normalize_fixture_def Let_def cct_inside)

end
