(* ===== verification/Rig_Desk.thy ===== *)
theory Rig_Desk
  imports Rig_Loaded
begin

text \<open>A small desk to try the lights' properties on: one light on the studio's bridge and one scene.\<close>

definition astra :: fixture_definition where
  "astra = hd compatibility_definitions"

lemma astra_listed: "astra \<in> set catalog_definitions" "definition_id astra = ''litepanels-astra-bicolor''"
  by (simp_all add: astra_def catalog_definitions_def compatibility_definitions_def build_definition_def DEFAULT_FIXTURE_DEFINITION_ID_def)

definition astra_mode :: fixture_mode where
  "astra_mode = hd (modes astra)"

lemma astra_mode: "astra_mode \<in> set (modes astra)" "mode_id astra_mode = ''default''" "channel_count astra_mode = 2"
    "channels astra_mode = [ch 1 ''Dimmer'' ''intensity'' ''percent'' 0, ch 2 ''CCT'' ''cct'' ''kelvin'' 68]"
    "mode_defaults astra_mode ''cctMin'' = Some 3200" "mode_defaults astra_mode ''cctMax'' = Some 5600"
    "default_mode_id astra = ''default''" "modes astra = [astra_mode]"
  by (simp_all add: astra_mode_def astra_def compatibility_definitions_def build_definition_def dmx_mode_def DEFAULT_MODE_ID_def)

lemma astra_found: "resolve_fixture_definition (Some ''litepanels-astra-bicolor'') ty k i = astra"
  using definition_found [OF astra_listed(1)] by (simp add: astra_listed(2))

lemma astra_mode_found: "resolve_fixture_mode astra (Some ''default'') = astra_mode"
  using mode_found [OF astra_listed(1) astra_mode(1)] by (simp add: astra_mode(2))

lemma astra_type_id: "fixture_type_for_definition ''litepanels-astra-bicolor'' = ''astra-bicolor''"
  by (simp add: fixture_type_for_definition_def DEFAULT_FIXTURE_DEFINITION_ID_def DEFAULT_LIGHTING_FIXTURE_TYPE_def)

lemma astra_by_type: "resolve_fixture_definition None (Some ''astra-bicolor'') k i = astra"
  using type_kept [OF astra_listed(1)] by (simp add: astra_listed(2) astra_type_id)

lemma astra_default_mode: "resolve_fixture_mode astra None = astra_mode"
  by (simp add: resolve_fixture_mode_def astra_mode(2,7,8))

lemma astra_type: "normalized_fixture_type (Some ''astra-bicolor'') k i = ''astra-bicolor''"
  by (simp add: normalized_fixture_type_def astra_by_type astra_listed(2) astra_type_id)

lemma astra_range: "fixture_cct_range ''astra-bicolor'' = (3200, 5600)"
  by (simp add: fixture_cct_range_def type_profile_def fixture_cct_range_from_profile_def profile_of_mode Let_def
      astra_by_type astra_default_mode astra_mode)

lemma astra_channels: "fixture_channel_count ''astra-bicolor'' = 2"
  by (simp add: fixture_channel_count_def type_profile_def profile_of_mode Let_def astra_by_type astra_default_mode astra_mode)

definition desk_light :: rig_fixture where
  "desk_light =
     \<lparr>fixture_id = ''light'', fixture_name = ''Light'', fixture_type = ''astra-bicolor'',
      fixture_definition_id = Some ''litepanels-astra-bicolor'', fixture_mode_id = Some ''default'', universe = 1,
      dmx_start_address = 1, fixture_kind = ''profile'', fixture_group = None, spatial_x = None, spatial_y = None,
      spatial_rotation = 0, rig_z = None, beam_angle_degrees = None, intensity = 100, cct = 4400, fixture_on = True,
      control_values = Map.empty, effect = None\<rparr>"

definition desk_scene :: rig_scene where
  "desk_scene =
     \<lparr>scene_id = ''talk'', scene_name = ''Talk'',
      scene_levels = [\<lparr>level_fixture = ''light'', level_intensity = 50, level_cct = 5000, level_on = True, level_controls = Map.empty\<rparr>],
      scene_color = None\<rparr>"

definition desk_rig :: rig where
  "desk_rig =
     \<lparr>groups = [], removed_fixture_ids = [''fixture-key-left'', ''fixture-key-right'', ''fixture-backline-wash'', ''fixture-house-practicals''],
      fixtures = [desk_light], scenes = [desk_scene], scene_order = [''talk''], pinned_scene_ids = [], group_order = [],
      palettes = [], palette_order = [], active_fade = None\<rparr>"

definition desk :: light_store where
  "desk =
     \<lparr>plain = [LIGHTING_BRIDGE_IP_KEY \<mapsto> ''10.1.0.1'', LIGHTING_ENABLED_KEY \<mapsto> ''true'', LIGHTING_CHECK_STATUS_KEY \<mapsto> ''passed''],
      saved_rig = Some desk_rig, saved_bursts = Map.empty, saved_highlight = {}, saved_solo = {}\<rparr>"

lemma desk_config: "resolve_lighting_config (plain desk) = \<lparr>enabled = True, bridge_ip = ''10.1.0.1'', config_universe = 1\<rparr>"
  by (simp add: desk_def resolve_lighting_config_def read_lighting_output_enabled_def LIGHTING_BRIDGE_IP_KEY_def
      LIGHTING_ENABLED_KEY_def LIGHTING_CHECK_STATUS_KEY_def LIGHTING_UNIVERSE_KEY_def DEFAULT_UNIVERSE_def)

lemma desk_ready: "lighting_refusal (lighting_status (plain desk)) = None"
  using desk_config by (simp add: lighting_status_def lighting_refusal_def Let_def) (simp add: desk_def
      LIGHTING_BRIDGE_IP_KEY_def LIGHTING_ENABLED_KEY_def LIGHTING_CHECK_STATUS_KEY_def)

lemma inventory_ids: "snap_id ` set (inventory_fixtures (read_inventory c)) \<subseteq> set (removed_fixture_ids desk_rig)"
  by (simp add: read_inventory_def simulated_fixture_def desk_rig_def)

lemma one_fixture:
  assumes "fixtures r = [f]" "removed_fixture_ids r = removed_fixture_ids desk_rig" "fixture_id f = ''light''"
  shows "loaded_fixtures (read_inventory c) r = [normalize_fixture (read_inventory c) f]"
proof -
  have "filter (\<lambda>s. P s \<and> snap_id s \<notin> set (removed_fixture_ids desk_rig)) (inventory_fixtures (read_inventory c)) = []" for P
    using inventory_ids [of c] by (auto simp: filter_empty_conv)
  moreover have "''light'' \<notin> set (removed_fixture_ids desk_rig)" by (simp add: desk_rig_def)
  ultimately show ?thesis using assms by (simp add: loaded_fixtures_def append_missing_fixture_states_def)
qed

lemma desk_light_id [simp]: "fixture_id desk_light = ''light''"
  by (simp add: desk_light_def)

lemma desk_fixtures: "loaded_fixtures (read_inventory c) desk_rig = [normalize_fixture (read_inventory c) desk_light]"
  by (rule one_fixture) (simp_all add: desk_rig_def)

text \<open>A light of the desk's kind, on its first slot.\<close>

definition astra_light :: "rig_fixture \<Rightarrow> bool" where
  "astra_light f \<longleftrightarrow>
     fixture_type f = ''astra-bicolor'' \<and> fixture_definition_id f = Some ''litepanels-astra-bicolor'' \<and>
     fixture_mode_id f = Some ''default'' \<and> universe f = 1 \<and> dmx_start_address f = 1"

lemma astra_light_tidy: "astra_light f \<Longrightarrow> astra_light (normalize_fixture iv f)"
  by (simp add: astra_light_def normalize_fixture_def Let_def astra_type profile_of_mode astra_found astra_mode_found
      astra_listed astra_mode clamp_i64_def normalize_dmx_start_address_def astra_channels)

lemma astra_light_desk: "astra_light desk_light"
  by (simp add: astra_light_def desk_light_def)

lemmas desk_light_tidy = astra_light_tidy [OF astra_light_desk, unfolded astra_light_def]

lemma desk_overlays: "saved_bursts desk = Map.empty" "saved_highlight desk = {}" "saved_solo desk = {}" "saved_rig desk = Some desk_rig"
  by (simp_all add: desk_def)

lemma desk_load: "fixtures (load_lighting_editor_state desk) = [normalize_fixture (read_inventory (resolve_lighting_config (plain desk))) desk_light]"
proof -
  have "saved_rig desk = Some desk_rig" by (simp add: desk_def)
  from load_saved [OF this] have "load_lighting_editor_state desk = normalize_lighting_editor_state desk_rig
      (resolve_lighting_config (plain desk)) (read_inventory (resolve_lighting_config (plain desk)))"
    by (simp add: read_lighting_editor_inventory_def read_inventory_def desk_config)
  then show ?thesis by (simp add: desk_fixtures)
qed

end
