(* ===== verification/Rig_Scene.thy ===== *)
theory Rig_Scene
  imports Rig_Desk
begin

text \<open>
  Whether the rig holds a scene (\<open>lighting/scene_state.rs\<close>): the one word the screen and the deck read. A
  recall, faded or not, makes its scene the live one.
\<close>

section \<open>The word\<close>

definition rig_at_fade_end :: "rig \<Rightarrow> rig_fixture list" where
  "rig_at_fade_end r =
     (case active_fade r of
        None \<Rightarrow> fixtures r
      | Some fade \<Rightarrow>
          map (\<lambda>f. case find (\<lambda>l. level_fixture l = fixture_id f) (fade_target fade) of
                     Some l \<Rightarrow> set_levels l f
                   | None \<Rightarrow> f) (fixtures r))"

text \<open>The controls compared are those the light has now: the keys of the map of what it is set to, which are
  its mode's controls.\<close>

definition same_controls :: "rig_fixture \<Rightarrow> scene_level \<Rightarrow> bool" where
  "same_controls f l =
     (let p = fixture_profile_for_state f; now = effective_fixture_control_values f;
          before = normalize_fixture_control_values p (level_controls l)
      in list_all (\<lambda>c. let i = slider_id c in
            own_field i \<or>
            (case now i of None \<Rightarrow> True | Some v \<Rightarrow> (case before i of Some w \<Rightarrow> w | None \<Rightarrow> 0) = v))
          (controls (profile_mode_of p)))"

definition holds_level :: "rig_fixture \<Rightarrow> scene_level \<Rightarrow> bool" where
  "holds_level f l \<longleftrightarrow>
     level_on l = fixture_on f \<and>
     (level_on l \<longrightarrow>
        \<bar>level_intensity l - intensity f\<bar> \<le> 0 \<and>
        (''cct'' \<in> set (profile_capabilities (fixture_profile_for_state f)) \<longrightarrow> \<bar>level_cct l - cct f\<bar> \<le> 25)) \<and>
     same_controls f l"

definition rig_holds_scene :: "rig_fixture list \<Rightarrow> rig_scene \<Rightarrow> bool" where
  "rig_holds_scene fs s =
     list_all (\<lambda>f. case find (\<lambda>l. level_fixture l = fixture_id f) (scene_levels s) of
                     None \<Rightarrow> \<not> (fixture_on f \<and> 0 < intensity f)
                   | Some l \<Rightarrow> holds_level f l) fs"

definition scene_state :: "rig \<Rightarrow> string option \<Rightarrow> string option \<Rightarrow> bool \<Rightarrow> string" where
  "scene_state r chosen last_recalled previewing' =
     (if previewing' then ''preview''
      else
        (case Option.bind chosen (\<lambda>i. find (\<lambda>s. scene_id s = i) (scenes r)) of
           None \<Rightarrow> ''none''
         | Some s \<Rightarrow>
             if last_recalled \<noteq> Some (scene_id s) then ''chosen''
             else if rig_holds_scene (rig_at_fade_end r) s then ''live'' else ''unsaved''))"

definition scene_state_in :: "settings \<Rightarrow> rig \<Rightarrow> string option \<Rightarrow> bool \<Rightarrow> string" where
  "scene_state_in settings r chosen previewing' =
     scene_state r chosen (read_optional_setting settings LIGHTING_LAST_RECALLED_SCENE_ID_KEY) previewing'"

section \<open>A light that was set to its level holds it\<close>

lemma same_controls_at:
  assumes "\<And>i. \<not> own_field i \<Longrightarrow> normalize_fixture_control_values (fixture_profile_for_state f) (control_values f) i =
     normalize_fixture_control_values (fixture_profile_for_state f) (level_controls l) i"
  shows "same_controls f l"
proof -
  have "own_field i \<or> (case effective_fixture_control_values f i of None \<Rightarrow> True
      | Some v \<Rightarrow> (case normalize_fixture_control_values (fixture_profile_for_state f) (level_controls l) i of
                   Some w \<Rightarrow> w | None \<Rightarrow> 0) = v)" for i
    using assms [of i] by (cases "own_field i") (simp_all add: effective_at split: option.split)
  then show ?thesis by (simp only: same_controls_def list_all_iff Let_def) blast
qed

text \<open>A level that a light can take as it stands: in range, and at a colour temperature of the light.\<close>

definition takes_level :: "rig_fixture \<Rightarrow> scene_level \<Rightarrow> bool" where
  "takes_level f l \<longleftrightarrow>
     0 \<le> level_intensity l \<and> level_intensity l \<le> 100 \<and> MIN_FIXTURE_CCT \<le> level_cct l \<and> level_cct l \<le> MAX_FIXTURE_CCT \<and>
     fst (fixture_cct_range (fixture_type f)) \<le> level_cct l \<and> level_cct l \<le> snd (fixture_cct_range (fixture_type f))"

definition tidy_level :: "fixture_profile \<Rightarrow> scene_level \<Rightarrow> scene_level" where
  "tidy_level p l =
     l\<lparr>level_intensity := clamp_i64 (level_intensity l) 0 100, level_cct := clamp_i64 (level_cct l) MIN_FIXTURE_CCT MAX_FIXTURE_CCT,
       level_controls := normalize_fixture_control_values p (level_controls l)\<rparr>"

lemma normalize_level_found:
  "find (\<lambda>l. level_fixture l = fixture_id f) (scene_levels s) = Some l \<Longrightarrow>
   normalize_level s f = tidy_level (fixture_profile_for_state f) l"
  by (cases l) (auto simp: normalize_level_def tidy_level_def dest: find_in)

lemma holds_tidy:
  assumes "fixture_on f = level_on l" "intensity f = level_intensity l" "cct f = level_cct l"
    and "takes_level g l"
    and "\<And>i. \<not> own_field i \<Longrightarrow> normalize_fixture_control_values (fixture_profile_for_state f) (control_values f) i =
       normalize_fixture_control_values (fixture_profile_for_state f) (level_controls l) i"
  shows "holds_level f (tidy_level (fixture_profile_for_state f) l)"
proof -
  have "same_controls f (tidy_level (fixture_profile_for_state f) l)"
    using assms(5) by (intro same_controls_at) (simp add: tidy_level_def)
  then show ?thesis using assms(1-4) by (simp add: holds_level_def tidy_level_def takes_level_def clamp_inside)
qed

lemma holds_itself: "holds_level f (capture_level f)"
proof -
  have "same_controls f (capture_level f)" by (intro same_controls_at) (simp add: capture_level_def)
  then show ?thesis by (simp add: holds_level_def capture_level_def)
qed

section \<open>A rig saved and loaded again\<close>

lemma find_map_same: "(\<And>x. P (g x) = P x) \<Longrightarrow> find P (map g xs) = map_option g (find P xs)"
  by (induction xs) auto

lemma find_own:
  "distinct (map k xs) \<Longrightarrow> x \<in> set xs \<Longrightarrow> (\<And>x. k' (g x) = k x) \<Longrightarrow> find (\<lambda>l. k' l = k x) (map g xs) = Some (g x)"
  by (induction xs) auto

text \<open>A rig that a load gave has every fixture of the inventory but the removed, and none of the removed.\<close>

definition covers :: "inventory \<Rightarrow> rig \<Rightarrow> bool" where
  "covers iv r \<longleftrightarrow>
     (\<forall>f \<in> set (fixtures r). fixture_id f \<notin> set (removed_fixture_ids r)) \<and>
     (\<forall>s \<in> set (inventory_fixtures iv). snap_id s \<in> set (removed_fixture_ids r) \<or> snap_id s \<in> fixture_id ` set (fixtures r))"

lemma default_id [simp]: "fixture_id (default_fixture s) = snap_id s"
  by (simp add: default_fixture_def Let_def)

lemma loaded_ids:
  "map fixture_id (loaded_fixtures iv r) =
     (let kept = filter (\<lambda>i. i \<notin> set (removed_fixture_ids r)) (map fixture_id (fixtures r))
      in kept @ filter (\<lambda>i. i \<notin> set kept \<and> i \<notin> set (removed_fixture_ids r)) (map snap_id (inventory_fixtures iv)))"
  by (simp add: loaded_fixtures_def append_missing_fixture_states_def Let_def filter_map comp_def)

lemma loaded_covers: "covers iv (load_with_inventory st c iv)"
proof (cases "saved_rig st")
  case None
  then show ?thesis
    by (auto simp: covers_def load_with_inventory_def default_lighting_editor_state_def Let_def image_image)
next
  case (Some r)
  have i: "fixture_id ` set (loaded_fixtures iv r) = set (map fixture_id (loaded_fixtures iv r))" by simp
  have "\<forall>j \<in> set (map fixture_id (loaded_fixtures iv r)). j \<notin> set (removed_fixture_ids r)"
    unfolding loaded_ids Let_def by auto
  moreover have "\<forall>s \<in> set (inventory_fixtures iv). snap_id s \<in> set (removed_fixture_ids r) \<or> snap_id s \<in> set (map fixture_id (loaded_fixtures iv r))"
    unfolding loaded_ids Let_def by auto
  ultimately show ?thesis using Some by (simp add: covers_def load_with_inventory_def)
qed

lemma loaded_settled: "f \<in> set (fixtures (load_with_inventory st c iv)) \<Longrightarrow> settled_profile f"
proof (cases "saved_rig st")
  case (Some r)
  have "list_all settled_profile (loaded_fixtures iv r)" by (rule loaded_all) simp_all
  then show "f \<in> set (fixtures (load_with_inventory st c iv)) \<Longrightarrow> settled_profile f"
    using Some by (simp add: load_with_inventory_def list_all_iff)
qed (auto simp: load_with_inventory_def default_lighting_editor_state_def Let_def)

lemma covers_ids: "covers iv r \<longleftrightarrow>
     (\<forall>i \<in> set (map fixture_id (fixtures r)). i \<notin> set (removed_fixture_ids r)) \<and>
     (\<forall>s \<in> set (inventory_fixtures iv). snap_id s \<in> set (removed_fixture_ids r) \<or> snap_id s \<in> set (map fixture_id (fixtures r)))"
  by (simp add: covers_def)

lemma covers_same: "covers iv r \<Longrightarrow> map fixture_id (fixtures r') = map fixture_id (fixtures r) \<Longrightarrow>
    removed_fixture_ids r' = removed_fixture_ids r \<Longrightarrow> covers iv r'"
  by (simp only: covers_ids)

lemma covered: "covers iv r \<Longrightarrow> loaded_fixtures iv r = map (normalize_fixture iv) (fixtures r)"
proof -
  assume c: "covers iv r"
  then have "filter (\<lambda>f. fixture_id f \<notin> set (removed_fixture_ids r)) (fixtures r) = fixtures r"
    by (simp add: covers_def filter_id_conv)
  then show ?thesis using c by (auto simp: loaded_fixtures_def append_missing_fixture_states_def covers_def filter_empty_conv)
qed

lemma fade_fixture_id [simp]: "fixture_id (fade_fixture fade p f) = fixture_id f"
  and set_levels_id [simp]: "fixture_id (set_levels l f) = fixture_id f"
  and recalled_id [simp]: "fixture_id (recalled_fixture s f) = fixture_id f"
  by (simp_all add: fade_fixture_def set_levels_def recalled_fixture_def Let_def split: option.split)

lemma same_profile [simp]:
  "fixture_profile_for_state (set_levels l f) = fixture_profile_for_state f"
  "fixture_profile_for_state (fade_fixture fade p f) = fixture_profile_for_state f"
  "fixture_profile_for_state (recalled_fixture s f) = fixture_profile_for_state f"
  "settled_profile (set_levels l f) = settled_profile f"
  "settled_profile (fade_fixture fade p f) = settled_profile f"
  "settled_profile (recalled_fixture s f) = settled_profile f"
  by (simp_all add: fixture_profile_for_state_def set_levels_def recalled_fixture_def settled_profile_def fade_fixture_def
      Let_def split: option.split)

lemma sampled_same [simp]:
  "map fixture_id (fixtures (sampled now r)) = map fixture_id (fixtures r)"
  "removed_fixture_ids (sampled now r) = removed_fixture_ids r" "scenes (sampled now r) = scenes r"
  "groups (sampled now r) = groups r"
  by (simp_all add: apply_active_fade_sample_def Let_def comp_def split: option.split)

lemma sampled_settled: "(\<And>f. f \<in> set (fixtures r) \<Longrightarrow> settled_profile f) \<Longrightarrow> f \<in> set (fixtures (sampled now r)) \<Longrightarrow> settled_profile f"
  by (auto simp: apply_active_fade_sample_def Let_def split: option.splits)

section \<open>A recalled scene is live\<close>

lemma normalize_level_fixture [simp]: "level_fixture (normalize_level s f) = fixture_id f"
  by (simp add: normalize_level_def capture_level_def split: option.split)

text \<open>The scene as the load after the recall has it: a level for each fixture.\<close>

lemma tidy_scene_found:
  assumes "find (\<lambda>s. scene_id s = i) (scenes r) = Some s"
  obtains s' where "find (\<lambda>s. scene_id s = i) (normalize_scenes c iv fs (scenes r)) = Some s'"
    and "scene_id s' = i" and "scene_levels s' = map (normalize_level s) fs"
proof -
  have "scenes r \<noteq> []" using assms by auto
  moreover have "scene_id s = i" using find_in [OF assms] by simp
  ultimately show ?thesis using assms that by (simp add: normalize_scenes_def find_map_same)
qed

lemma snap_holds:
  assumes "settled_profile f" and n: "n = normalize_fixture iv (recalled_fixture s f)"
    and t: "\<And>l. find (\<lambda>l. level_fixture l = fixture_id f) (scene_levels s) = Some l \<Longrightarrow> takes_level n l"
  shows "holds_level n (normalize_level s n)"
proof (cases "find (\<lambda>l. level_fixture l = fixture_id f) (scene_levels s)")
  case None
  then have "normalize_level s n = capture_level n" by (simp add: normalize_level_def n)
  then show ?thesis by (simp add: holds_itself)
next
  case (Some l)
  let ?g = "recalled_fixture s f" let ?p = "fixture_profile_for_state f"
  have g: "fixture_on ?g = level_on l" "intensity ?g = level_intensity l" "cct ?g = level_cct l"
    and gc: "control_values ?g = normalize_fixture_control_values (fixture_profile_for_state ?g) (level_controls l)"
    using Some by (simp_all add: recalled_fixture_def Let_def fixture_profile_for_state_def)
  have sg: "settled_profile ?g" using assms(1) by simp
  have tl: "takes_level n l" using t [OF Some] .
  have p: "fixture_profile_for_state n = ?p" using normalized_profile [OF sg] by (simp add: n)
  have "holds_level n (tidy_level (fixture_profile_for_state n) l)"
  proof (rule holds_tidy)
    show "fixture_on n = level_on l" by (simp add: n g)
    show "intensity n = level_intensity l" using tl by (simp add: n g takes_level_def clamp_inside)
    show "cct n = level_cct l"
      using tl normalized_cct [of iv ?g] by (simp add: n g takes_level_def)
    show "takes_level n l" by (rule tl)
    show "normalize_fixture_control_values (fixture_profile_for_state n) (control_values n) i =
        normalize_fixture_control_values (fixture_profile_for_state n) (level_controls l) i" for i
      unfolding p by (simp add: n normalized_controls [OF sg] gc)
  qed
  moreover have "normalize_level s n = tidy_level (fixture_profile_for_state n) l"
    using Some by (intro normalize_level_found) (simp add: n)
  ultimately show ?thesis by simp
qed

lemma target_holds:
  assumes t: "\<And>l. find (\<lambda>l. level_fixture l = fixture_id f) (scene_levels s) = Some l \<Longrightarrow> takes_level f l"
  shows "holds_level (case find (\<lambda>l. level_fixture l = fixture_id f) (scene_levels s) of Some l \<Rightarrow> set_levels l f | None \<Rightarrow> f)
     (normalize_level s f)"
proof (cases "find (\<lambda>l. level_fixture l = fixture_id f) (scene_levels s)")
  case None
  then show ?thesis by (simp add: normalize_level_def holds_itself)
next
  case (Some l)
  have "holds_level (set_levels l f) (tidy_level (fixture_profile_for_state (set_levels l f)) l)"
    using t [OF Some] by (intro holds_tidy) (simp_all, simp_all add: set_levels_def)
  then show ?thesis using Some by (simp add: normalize_level_found)
qed

lemma recalled_rig_same [simp]:
  "map fixture_id (fixtures (recalled_rig now secs s r)) = map fixture_id (fixtures r)"
  "removed_fixture_ids (recalled_rig now secs s r) = removed_fixture_ids r" "scenes (recalled_rig now secs s r) = scenes r"
  by (simp_all add: recalled_rig_def start_lighting_fade_def Let_def comp_def)

lemma recalled_rig_live:
  assumes cov: "covers iv r" and dist: "distinct (map fixture_id (fixtures r))"
    and settled: "\<And>f. f \<in> set (fixtures r) \<Longrightarrow> settled_profile f"
    and s: "find (\<lambda>s. scene_id s = i) (scenes r) = Some s"
    and after: "after = normalize_lighting_editor_state (recalled_rig now secs s r) c iv"
    and takes: "\<And>f l. f \<in> set (fixtures after) \<Longrightarrow> l \<in> set (scene_levels s) \<Longrightarrow> level_fixture l = fixture_id f \<Longrightarrow> takes_level f l"
  shows "scene_state after (Some i) (Some i) False = ''live''"
proof -
  let ?r = "recalled_rig now secs s r" let ?ms = "fade_duration_ms_from_seconds secs"
  have fs: "fixtures after = map (normalize_fixture iv) (fixtures ?r)"
    using covered [OF covers_same [OF cov]] by (simp add: after)
  have ids: "map fixture_id (fixtures after) = map fixture_id (fixtures r)"
    using recalled_rig_same(1) [of now secs s r] by (simp add: fs comp_def)
  obtain s' where s': "find (\<lambda>s. scene_id s = i) (scenes after) = Some s'" "scene_id s' = i"
      "scene_levels s' = map (normalize_level s) (fixtures after)"
    using tidy_scene_found [of i "?r" s c iv "fixtures after"] s by (auto simp: after)
  have lev: "find (\<lambda>l. level_fixture l = fixture_id f) (scene_levels s') = Some (normalize_level s f)"
    if "f \<in> set (fixtures after)" for f
    unfolding s'(3) using dist that by (intro find_own) (simp_all add: ids)
  have takes': "takes_level f l" if "f \<in> set (fixtures after)" "find (\<lambda>l. level_fixture l = fixture_id f) (scene_levels s) = Some l" for f l
    using takes [OF that(1)] find_in [OF that(2)] by blast
  have "rig_holds_scene (rig_at_fade_end after) s'"
  proof (cases "0 < ?ms")
    case True
    then have a: "active_fade after = Some \<lparr>fade_scene = scene_id s, fade_started = now, fade_duration = ?ms,
        fade_origin = capture_fixture_states (fixtures r), fade_target = scene_levels s\<rparr>"
      by (simp add: after recalled_rig_def start_lighting_fade_def)
    have "holds_level (case find (\<lambda>l. level_fixture l = fixture_id f) (scene_levels s) of Some l \<Rightarrow> set_levels l f | None \<Rightarrow> f)
        (normalize_level s f)" if "f \<in> set (fixtures after)" for f
      using takes' [OF that] by (rule target_holds)
    moreover have "fixture_id (case find (\<lambda>l. level_fixture l = fixture_id f) (scene_levels s) of Some l \<Rightarrow> set_levels l f | None \<Rightarrow> f) = fixture_id f" for f
      by (simp split: option.split)
    ultimately show ?thesis using lev by (simp add: rig_holds_scene_def rig_at_fade_end_def a list_all_iff)
  next
    case False
    then have fr: "fixtures ?r = map (recalled_fixture s) (fixtures r)" and a: "active_fade after = None"
      by (simp_all add: after recalled_rig_def Let_def)
    have "holds_level n (normalize_level s n)" if n: "n \<in> set (fixtures after)" for n
    proof -
      from n obtain f where f: "f \<in> set (fixtures r)" "n = normalize_fixture iv (recalled_fixture s f)" by (auto simp: fs fr)
      then show ?thesis using settled takes' [OF n] by (intro snap_holds [OF _ f(2)]) auto
    qed
    then show ?thesis using lev by (simp add: rig_holds_scene_def rig_at_fade_end_def a list_all_iff)
  qed
  then show ?thesis by (simp add: scene_state_def s'(1,2))
qed

text \<open>
  C33. A scene that was recalled reads as live at once, on the screen and on the deck, whether it was put on or
  is being faded in: the recall and the load that follows leave every light the rig has at the scene's state,
  when the scene's levels are within what each light takes.
\<close>

theorem recalled_scene_is_live:
  assumes recalled: "recall_lighting_scene fixed d clock now i secs st = (st', Inr summary)"
    and s: "find (\<lambda>s. scene_id s = i) (scenes (load_lighting_editor_state st)) = Some s"
    and one: "distinct (map fixture_id (fixtures (load_lighting_editor_state st)))" and name: "trim i = i" "i \<noteq> []"
    and takes: "\<And>f l. f \<in> set (fixtures (load_lighting_editor_state st')) \<Longrightarrow> l \<in> set (scene_levels s) \<Longrightarrow>
        level_fixture l = fixture_id f \<Longrightarrow> takes_level f l"
  shows "scene_state_in (plain st') (load_lighting_editor_state st') (Some i) False = ''live''"
proof -
  let ?c = "resolve_lighting_config (plain st)" let ?iv = "read_inventory ?c"
  let ?ld = "load_with_inventory st ?c ?iv" let ?r = "sampled now ?ld"
  have ready: "lighting_refusal (lighting_status (plain st)) = None"
    using recalled by (auto simp: recall_lighting_scene_def split: option.splits)
  then have en: "enabled ?c" by (auto simp: lighting_refusal_def lighting_status_def Let_def split: if_splits)
  have load: "load_lighting_editor_state st = ?ld" using editor_inventory [OF en] by (simp add: load_lighting_editor_state_def Let_def)
  have s': "find (\<lambda>s. scene_id s = i) (scenes ?r) = Some s" using s by (simp add: load)
  from recalled ready s' obtain t m where
    st': "st' = st\<lparr>saved_rig := Some (recalled_rig now secs s ?r), plain := action_succeeded m (recall_stored i t (plain st))\<rparr>"
    by (auto simp: recall_lighting_scene_def Let_def split: option.splits sum.splits)
  have after: "load_lighting_editor_state st' = normalize_lighting_editor_state (recalled_rig now secs s ?r) ?c ?iv"
    using load_saved [of st' "recalled_rig now secs s ?r"] editor_inventory [OF en] by (simp add: st')
  have "scene_state (load_lighting_editor_state st') (Some i) (Some i) False = ''live''"
  proof (rule recalled_rig_live [OF _ _ _ s' after])
    show "covers ?iv ?r" by (rule covers_same [OF loaded_covers [of ?iv st ?c]]) simp_all
    show "distinct (map fixture_id (fixtures ?r))" using one by (simp add: load)
    show "settled_profile f" if "f \<in> set (fixtures ?r)" for f using sampled_settled [OF loaded_settled that] .
  qed (rule takes)
  moreover have "read_optional_setting (plain st') LIGHTING_LAST_RECALLED_SCENE_ID_KEY = Some i"
    using name by (simp add: st' read_optional_setting_def action_succeeded_def recall_stored_def
        LIGHTING_LAST_ACTION_STATUS_KEY_def LIGHTING_LAST_ACTION_CODE_KEY_def LIGHTING_LAST_ACTION_MESSAGE_KEY_def
        LIGHTING_LAST_RECALLED_SCENE_ID_KEY_def LIGHTING_LAST_SCENE_RECALL_AT_KEY_def)
  ultimately show ?thesis by (simp add: scene_state_in_def)
qed

definition calm :: disk where
  "calm = \<lparr>read_error = None, write_error = None\<rparr>"

lemma recall_succeeds:
  assumes "lighting_refusal (lighting_status (plain st)) = None"
    and "find (\<lambda>s. scene_id s = i) (scenes (load_with_inventory st (resolve_lighting_config (plain st))
           (read_inventory (resolve_lighting_config (plain st))))) = Some s"
  shows "\<exists>m. recall_lighting_scene fixed calm (Inr t) now i secs st =
    (st\<lparr>saved_rig := Some (recalled_rig now secs s (sampled now (load_with_inventory st (resolve_lighting_config (plain st))
           (read_inventory (resolve_lighting_config (plain st)))))),
       plain := action_succeeded m (recall_stored i t (plain st))\<rparr>, Inr m)"
  using assms by (simp add: recall_lighting_scene_def calm_def Let_def)

lemma desk_scene_found:
  "find (\<lambda>s. scene_id s = ''talk'') (scenes (load_with_inventory desk c iv)) =
     Some (desk_scene\<lparr>scene_levels := map (normalize_level desk_scene) (loaded_fixtures iv desk_rig), scene_color := None\<rparr>)"
  by (simp add: load_with_inventory_def desk_def desk_rig_def normalize_scenes_def desk_scene_def color_kept_def)

lemma desk_level: "normalize_level desk_scene (normalize_fixture iv desk_light) =
    \<lparr>level_fixture = ''light'', level_intensity = 50, level_cct = 5000, level_on = True,
     level_controls = normalize_fixture_control_values (fixture_profile_for_state (normalize_fixture iv desk_light)) Map.empty\<rparr>"
  by (simp add: normalize_level_def desk_light_tidy desk_scene_def clamp_i64_def MIN_FIXTURE_CCT_def MAX_FIXTURE_CCT_def)

lemma normalized_type: "fixture_type (normalize_fixture iv f) =
    normalized_fixture_type (Some (fixture_type f)) (Some (fixture_kind f)) (fixture_id f)"
  by (simp add: normalize_fixture_def Let_def)

theorem recalled_scene_is_live_witness:
  "\<exists>st' m. recall_lighting_scene (\<lambda>_ _. []) calm (Inr ''now'') 0 ''talk'' 0 desk = (st', Inr m) \<and>
     scene_state_in (plain st') (load_lighting_editor_state st') (Some ''talk'') False = ''live''"
proof -
  let ?c = "resolve_lighting_config (plain desk)" let ?iv = "read_inventory ?c"
  let ?ld = "load_with_inventory desk ?c ?iv" let ?n = "normalize_fixture ?iv desk_light"
  define s where "s = desk_scene\<lparr>scene_levels := map (normalize_level desk_scene) (loaded_fixtures ?iv desk_rig), scene_color := None\<rparr>"
  have found: "find (\<lambda>s. scene_id s = ''talk'') (scenes ?ld) = Some s" by (simp add: desk_scene_found s_def)
  have en: "enabled ?c" by (simp add: desk_config)
  have load: "load_lighting_editor_state desk = ?ld" using editor_inventory [OF en] by (simp add: load_lighting_editor_state_def Let_def)
  define r where "r = recalled_rig 0 0 s (sampled 0 ?ld)"
  obtain m where recall: "recall_lighting_scene (\<lambda>_ _. []) calm (Inr ''now'') 0 ''talk'' 0 desk =
      (desk\<lparr>saved_rig := Some r, plain := action_succeeded m (recall_stored ''talk'' ''now'' (plain desk))\<rparr>, Inr m)"
    using recall_succeeds [OF desk_ready found] unfolding r_def by blast
  define st' where "st' = desk\<lparr>saved_rig := Some r, plain := action_succeeded m (recall_stored ''talk'' ''now'' (plain desk))\<rparr>"
  have ld: "fixtures ?ld = [?n]" "active_fade ?ld = None"
    by (simp_all add: load_with_inventory_def desk_def desk_fixtures) (simp add: desk_rig_def)
  have r: "fixtures r = [recalled_fixture s ?n]" "removed_fixture_ids r = removed_fixture_ids desk_rig"
    using round_half_away_int [of 0]
    by (simp_all add: r_def recalled_rig_def fade_duration_ms_from_seconds_def clamp_i64_def apply_active_fade_sample_def ld)
      (simp add: load_with_inventory_def desk_def)
  have ty: "fixture_type f = ''astra-bicolor''" if "f \<in> set (fixtures (load_lighting_editor_state st'))" for f
  proof -
    have cov: "covers ?iv r"
      by (rule covers_same [OF loaded_covers [of ?iv desk ?c]]) (simp_all add: r_def)
    have "fixtures (load_lighting_editor_state st') = map (normalize_fixture ?iv) (fixtures r)"
      using load_saved [of st' r] editor_inventory [OF en] covered [OF cov] by (simp add: st'_def)
    then have "f = normalize_fixture ?iv (recalled_fixture s ?n)" using that by (simp add: r)
    moreover have "fixture_type (recalled_fixture s ?n) = ''astra-bicolor''"
      by (simp add: recalled_fixture_def desk_light_tidy Let_def split: option.split)
    ultimately show ?thesis by (simp add: normalized_type astra_type)
  qed
  have lv: "l = normalize_level desk_scene ?n" if "l \<in> set (scene_levels s)" for l
    using that by (simp add: s_def desk_fixtures)
  have "scene_state_in (plain st') (load_lighting_editor_state st') (Some ''talk'') False = ''live''"
  proof (rule recalled_scene_is_live [OF recall [folded st'_def]])
    show "find (\<lambda>s. scene_id s = ''talk'') (scenes (load_lighting_editor_state desk)) = Some s" using found load by simp
    show "distinct (map fixture_id (fixtures (load_lighting_editor_state desk)))" by (simp add: load ld)
    show "trim ''talk'' = ''talk''" by code_simp
    show "takes_level f l" if "f \<in> set (fixtures (load_lighting_editor_state st'))" "l \<in> set (scene_levels s)" for f l
      using ty [OF that(1)] lv [OF that(2)]
      by (simp add: takes_level_def desk_level astra_range MIN_FIXTURE_CCT_def MAX_FIXTURE_CCT_def)
  qed simp
  then show ?thesis using recall st'_def by blast
qed

end
