(* ===== verification/Rig_Render.thy ===== *)
theory Rig_Render
  imports Rig_Loaded Lights_Output
begin

text \<open>
  From the stored state to the wire (\<open>lighting/snapshot.rs\<close>, and the DMX values of \<open>lighting/helpers.rs\<close>):
  the fixtures as the rig shows them at one moment, the value of every patched slot, the DMX monitor's
  list and the frames of the output. The floating-point arithmetic is \<open>F64\<close>'s.
\<close>

section \<open>Values\<close>

definition intensity_to_dmx :: "int \<Rightarrow> int" where
  "intensity_to_dmx percent = round_half_away (nearest (of_int (clamp_i64 percent 0 100) * nearest (255 / 100)))"

text \<open>A range of one value divides 0 by 0: not a number, which \<open>as i64\<close> makes 0, as the 0 of this division is.\<close>

definition cct_to_dmx :: "int \<Rightarrow> int \<Rightarrow> int \<Rightarrow> int" where
  "cct_to_dmx kelvin lo hi =
     round_half_away (nearest (nearest (of_int (clamp_i64 kelvin lo hi - lo) / of_int (hi - lo)) * 255))"

definition aputure_green_magenta_to_dmx :: "int \<Rightarrow> int" where
  "aputure_green_magenta_to_dmx value =
     (let v = clamp_i64 value (- 100) 100 in
      if v = 0 then 132
      else if v = - 100 then 15
      else if v = 100 then 250
      else if v < 0 then 120 + v
      else 145 + v)"

section \<open>The fixtures at one moment\<close>

definition fixture_profile_for_snapshot :: "fixture_snapshot \<Rightarrow> fixture_profile" where
  "fixture_profile_for_snapshot f =
     resolve_fixture_profile (Some (snap_definition f)) (Some (snap_mode f)) (Some (snap_type f))
       (Some (snap_kind f)) (snap_id f)"

definition lighting_fixture_snapshot_from_state :: "rig_fixture \<Rightarrow> fixture_snapshot" where
  "lighting_fixture_snapshot_from_state f =
     \<lparr>snap_id = fixture_id f, snap_name = fixture_name f, snap_type = fixture_type f,
      snap_definition = profile_definition (fixture_profile_for_state f),
      snap_mode = profile_mode (fixture_profile_for_state f),
      snap_universe = rig_fixture.universe f, snap_address = dmx_start_address f, snap_kind = fixture_kind f,
      snap_group = fixture_group f, snap_x = spatial_x f, snap_y = spatial_y f,
      snap_rotation = normalize_rotation (spatial_rotation f), snap_rig_z = rig_z f,
      snap_beam = beam_angle_degrees f, snap_on = fixture_on f, snap_intensity = intensity f, snap_cct = cct f,
      snap_controls = effective_fixture_control_values f, snap_effect = map_option normalize_lighting_effect (effect f)\<rparr>"

definition snapshot_mode :: "fixture_snapshot \<Rightarrow> fixture_mode" where
  "snapshot_mode f = profile_mode_of (fixture_profile_for_snapshot f)"

definition show_white_light_under_overlay :: "fixture_snapshot \<Rightarrow> fixture_snapshot" where
  "show_white_light_under_overlay f =
     (if list_ex (\<lambda>c. control_id c = ''cct-rgb-crossfade'') (channels (snapshot_mode f))
      then f\<lparr>snap_controls := (snap_controls f)(''red'' \<mapsto> 0, ''green'' \<mapsto> 0, ''blue'' \<mapsto> 0)\<rparr>
      else f)"

text \<open>The overlays: a flash before a highlight, a highlight before the dark of those not soloed.\<close>

definition overlaid :: "light_store \<Rightarrow> int \<Rightarrow> fixture_snapshot \<Rightarrow> fixture_snapshot" where
  "overlaid st now f =
     (case fixture_cct_range (snap_type f) of (lo, hi) \<Rightarrow>
        if identify_active st now (snap_id f) then
          show_white_light_under_overlay (f\<lparr>snap_intensity := 100, snap_on := True, snap_cct := hi\<rparr>)
        else if snap_id f \<in> saved_highlight st then
          show_white_light_under_overlay
            (f\<lparr>snap_intensity := 100, snap_on := True, snap_cct := clamp_i64 NEUTRAL_HIGHLIGHT_CCT lo hi\<rparr>)
        else if saved_solo st \<noteq> {} \<and> snap_id f \<notin> saved_solo st then
          f\<lparr>snap_intensity := 0, snap_on := False\<rparr>
        else f)"

definition fixtures_now :: "light_store \<Rightarrow> Rig_State.rig \<Rightarrow> int \<Rightarrow> fixture_snapshot list" where
  "fixtures_now st r now =
     map (\<lambda>f. overlaid st now (lighting_fixture_snapshot_from_state f)) (fixtures (sampled now r))"

section \<open>Slots\<close>

definition snap_control :: "fixture_snapshot \<Rightarrow> string \<Rightarrow> int \<Rightarrow> int" where
  "snap_control f i d = (case snap_controls f i of Some v \<Rightarrow> v | None \<Rightarrow> d)"

definition snap_dimmer :: "rat \<Rightarrow> fixture_snapshot \<Rightarrow> int" where
  "snap_dimmer master f =
     (if snap_on f then round_half_away (nearest (of_int (intensity_to_dmx (snap_intensity f)) * master)) else 0)"

definition channel_value :: "rat \<Rightarrow> fixture_snapshot \<Rightarrow> dmx_channel \<Rightarrow> int" where
  "channel_value master f c =
     (let i = control_id c in
      if i = ''intensity'' then snap_dimmer master f
      else if i = ''cct'' then
        (case fixture_cct_range_from_profile (fixture_profile_for_snapshot f) of (lo, hi) \<Rightarrow> cct_to_dmx (snap_cct f) lo hi)
      else if i \<in> set [''red'', ''green'', ''blue'', ''white'', ''mix'', ''fx'', ''speed'', ''fan'', ''zoom'', ''mode'',
                      ''trigger'', ''control'', ''dimming-curve''] then
        clamp_i64 (snap_control f i (default_dmx c)) 0 255
      else if i = ''hue'' then
        round_half_away (nearest (nearest (of_int (clamp_i64 (snap_control f ''hue'' 0) 0 359) / 359) * 255))
      else if i = ''saturation'' then intensity_to_dmx (snap_control f ''saturation'' 0)
      else if i = ''green-magenta'' then
        (if value_type c = ''aputure-gm'' then aputure_green_magenta_to_dmx (snap_control f ''green-magenta'' 0)
         else round_half_away (nearest (nearest (of_int (clamp_i64 (snap_control f ''green-magenta'' 0) (- 100) 100 + 100) / 200) * 255)))
      else if i = ''cct-rgb-crossfade'' then
        (if list_ex (\<lambda>k. 0 < clamp_i64 (snap_control f k 0) 0 255) [''red'', ''green'', ''blue''] then 255 else 0)
      else if i = ''reserved'' then 0
      else if value_type c = ''fine'' then 0
      else default_dmx c)"

type_synonym slot_values = "int \<times> int \<rightharpoonup> int"

definition master_share :: "int \<Rightarrow> rat" where
  "master_share percent = clamp_f64 (nearest (nearest (of_int percent) / 100)) 0 1"

definition fixture_slots :: "rat \<Rightarrow> fixture_snapshot \<Rightarrow> ((int \<times> int) \<times> int) list" where
  "fixture_slots master f =
     map (\<lambda>c. ((snap_universe f, snap_address f + offset c - 1), channel_value master f c)) (channels (snapshot_mode f))"

text \<open>Of two values for one slot, the later.\<close>

definition compute_dmx_channel_data :: "fixture_snapshot list \<Rightarrow> int \<Rightarrow> slot_values" where
  "compute_dmx_channel_data fs percent =
     map_of (rev (concat (map (fixture_slots (master_share percent)) fs)))"

section \<open>The monitor and the frames\<close>

record monitor_line =
  line_universe :: int
  line_channel :: int
  line_value :: int
  line_light :: string
  line_label :: string

definition monitor_lines :: "slot_values \<Rightarrow> fixture_snapshot \<Rightarrow> monitor_line list" where
  "monitor_lines data f =
     (let p = fixture_profile_for_snapshot f in
      map (\<lambda>o'. let channel = snap_address f + o' in
             \<lparr>line_universe = snap_universe f, line_channel = channel,
              line_value = (case data (snap_universe f, channel) of Some v \<Rightarrow> v | None \<Rightarrow> 0),
              line_light = snap_name f,
              line_label = (if nat o' < length (profile_labels p) then profile_labels p ! nat o'
                            else ''Ch'' @ show_int (o' + 1))\<rparr>)
          [0..profile_channels p - 1])"

text \<open>The sort is stable, by universe and then by channel.\<close>

definition line_key :: "monitor_line \<Rightarrow> int \<times> int" where
  "line_key l = (line_universe l, line_channel l)"

definition read_lighting_dmx_monitor_snapshot :: "light_store \<Rightarrow> int \<Rightarrow> monitor_line list" where
  "read_lighting_dmx_monitor_snapshot st now =
     (let fs = fixtures_now st (load_lighting_editor_state st) now;
          data = compute_dmx_channel_data fs (read_lighting_grand_master (plain st))
      in sort_key (\<lambda>l. line_universe l) (sort_key (\<lambda>l. line_channel l) (concat (map (monitor_lines data) fs))))"

definition frame_of :: "slot_values \<Rightarrow> int \<Rightarrow> universe_frame" where
  "frame_of data u =
     \<lparr>universe_frame.universe = word_of_int u,
      slots = map (\<lambda>k. case data (u, int k + 1) of Some v \<Rightarrow> word_of_int (clamp_i64 v 0 255) | None \<Rightarrow> 0) [0..<512]\<rparr>"

definition read_lighting_sacn_output_state_at :: "light_store \<Rightarrow> int \<Rightarrow> output_state option" where
  "read_lighting_sacn_output_state_at st now =
     (let c = resolve_lighting_config (plain st) in
      if \<not> enabled c then None
      else
        (case one_machine_ipv4 (bridge_ip c) of
           None \<Rightarrow> None
         | Some bridge \<Rightarrow>
             let fs = fixtures_now st (load_lighting_editor_state st) now in
             if fs = [] then None
             else
               let data = compute_dmx_channel_data fs (read_lighting_grand_master (plain st));
                   us = remdups_adj (sort (filter (\<lambda>u. 1 \<le> u \<and> u \<le> 63999) (map snap_universe fs)));
                   frames' = map (frame_of data) us
               in if frames' = [] then None else Some \<lparr>state_bridge = bridge, frames = frames'\<rparr>))"

section \<open>Every slot is a byte\<close>

lemma share_byte: "0 \<le> x \<Longrightarrow> x \<le> 1 \<Longrightarrow> 0 \<le> round_half_away (nearest (nearest x * 255)) \<and> round_half_away (nearest (nearest x * 255)) \<le> 255"
proof -
  assume "0 \<le> x" "x \<le> 1"
  then have "of_int 0 \<le> nearest x \<and> nearest x \<le> of_int 1" by (intro nearest_in) simp_all
  then have "of_int 0 \<le> nearest (nearest x * 255) \<and> nearest (nearest x * 255) \<le> of_int 255"
    by (intro nearest_in) simp_all
  then show ?thesis using round_half_away_in [of 0 "nearest (nearest x * 255)" 255] by simp
qed

lemma intensity_byte: "0 \<le> intensity_to_dmx p \<and> intensity_to_dmx p \<le> 255"
proof -
  have n: "0 \<le> nearest (255 / 100)" by (simp add: nearest_nonneg)
  have top: "round_half_away (nearest (100 * nearest (255 / 100))) = 255" by code_simp
  have c: "0 \<le> clamp_i64 p 0 100" "clamp_i64 p 0 100 \<le> 100" using clamp_in [of 0 100 p] by simp_all
  have "round_half_away (of_int 0) \<le> intensity_to_dmx p"
    unfolding intensity_to_dmx_def using c(1) n by (intro round_half_away_mono) (simp add: nearest_nonneg)
  moreover have "intensity_to_dmx p \<le> round_half_away (nearest (100 * nearest (255 / 100)))"
    unfolding intensity_to_dmx_def using c(2) n
    by (intro round_half_away_mono nearest_mono mult_right_mono) simp_all
  ultimately show ?thesis using top by (simp only: round_half_away_int)
qed

lemma cct_byte: "0 \<le> cct_to_dmx k lo hi \<and> cct_to_dmx k lo hi \<le> 255"
proof -
  let ?x = "of_int (clamp_i64 k lo hi - lo) / of_int (hi - lo) :: rat"
  have "0 \<le> ?x \<and> ?x \<le> 1"
  proof (cases "lo < hi")
    case True
    then show ?thesis using clamp_in [of lo hi k] by (simp add: divide_le_eq_1)
  next
    case False
    then have "clamp_i64 k lo hi = hi" by (auto simp: clamp_i64_def)
    then show ?thesis by simp
  qed
  then show ?thesis unfolding cct_to_dmx_def using share_byte by blast
qed

lemma master_share_in: "0 \<le> master_share p \<and> master_share p \<le> 1"
  by (auto simp: master_share_def clamp_f64_def)

lemma dimmer_byte: "0 \<le> m \<Longrightarrow> m \<le> 1 \<Longrightarrow> 0 \<le> snap_dimmer m f \<and> snap_dimmer m f \<le> 255"
proof -
  assume m: "0 \<le> m" "m \<le> 1"
  let ?i = "intensity_to_dmx (snap_intensity f)"
  have i: "0 \<le> ?i" "?i \<le> 255" using intensity_byte by simp_all
  have "of_int ?i * m \<le> (of_int ?i :: rat)" using m i by (simp add: mult_left_le)
  also have "\<dots> \<le> of_int 255" using i by (simp only: of_int_le_iff)
  finally have "of_int 0 \<le> nearest (of_int ?i * m) \<and> nearest (of_int ?i * m) \<le> of_int 255"
    using m i by (intro nearest_in) simp_all
  then have "0 \<le> round_half_away (nearest (of_int ?i * m)) \<and> round_half_away (nearest (of_int ?i * m)) \<le> 255"
    by (intro round_half_away_in) simp_all
  then show ?thesis by (simp add: snap_dimmer_def)
qed

lemma profile_mode_in_order: "mode_in_order (profile_mode_of p)"
proof -
  let ?d = "resolve_fixture_definition (Some (profile_definition p)) None None []"
  have "profile_mode_of p \<in> set (modes ?d)"
    unfolding profile_mode_of_def using resolved_listed by (rule mode_listed)
  moreover have "definition_in_order ?d" using resolved_listed by (rule catalog_all_in_order)
  ultimately show ?thesis by (simp add: definition_in_order_def list_all_iff)
qed

lemma snapshot_mode_in_order: "mode_in_order (snapshot_mode f)"
  unfolding snapshot_mode_def by (rule profile_mode_in_order)

lemma channel_byte:
  assumes c: "c \<in> set (channels (snapshot_mode f))" and m: "0 \<le> m" "m \<le> 1"
  shows "0 \<le> channel_value m f c \<and> channel_value m f c \<le> 255"
proof -
  have d: "0 \<le> default_dmx c \<and> default_dmx c \<le> 255"
    using snapshot_mode_in_order [of f] c by (simp add: mode_in_order_def list_all_iff)
  have hue: "0 \<le> round_half_away (nearest (nearest (of_int (clamp_i64 v 0 359) / 359) * 255)) \<and>
      round_half_away (nearest (nearest (of_int (clamp_i64 v 0 359) / 359) * 255)) \<le> 255" for v
    using clamp_in [of 0 359 v] by (intro share_byte) (simp_all add: divide_le_eq)
  have gm: "0 \<le> round_half_away (nearest (nearest (of_int (clamp_i64 v (- 100) 100 + 100) / 200) * 255)) \<and>
      round_half_away (nearest (nearest (of_int (clamp_i64 v (- 100) 100 + 100) / 200) * 255)) \<le> 255" for v
  proof -
    have "0 \<le> clamp_i64 v (- 100) 100 + 100" "clamp_i64 v (- 100) 100 + 100 \<le> 200" using clamp_in [of "- 100" 100 v] by simp_all
    then have "(0::rat) \<le> of_int (clamp_i64 v (- 100) 100 + 100)" "(of_int (clamp_i64 v (- 100) 100 + 100) :: rat) \<le> of_int 200"
      by (simp_all only: of_int_le_iff of_int_0_le_iff)
    then show ?thesis by (intro share_byte) (simp_all add: divide_le_eq)
  qed
  have ag: "0 \<le> aputure_green_magenta_to_dmx v \<and> aputure_green_magenta_to_dmx v \<le> 255" for v
    using clamp_in [of "- 100" 100 v] by (auto simp: aputure_green_magenta_to_dmx_def Let_def)
  have b: "0 \<le> clamp_i64 v 0 255 \<and> clamp_i64 v 0 255 \<le> 255" for v by (rule clamp_in) simp
  have i: "0 \<le> (if q then a else a' :: int) \<and> (if q then a else a') \<le> 255"
    if "0 \<le> a \<and> a \<le> 255" "0 \<le> a' \<and> a' \<le> 255" for q a a' using that by simp
  have cct: "0 \<le> (case r of (lo, hi) \<Rightarrow> cct_to_dmx k lo hi) \<and> (case r of (lo, hi) \<Rightarrow> cct_to_dmx k lo hi) \<le> 255" for r k
    using cct_byte by (cases r) simp
  have z: "0 \<le> (0::int) \<and> (0::int) \<le> 255" "0 \<le> (255::int) \<and> (255::int) \<le> 255" by simp_all
  show ?thesis unfolding channel_value_def Let_def
    apply (rule i, rule dimmer_byte [OF m])
    apply (rule i, rule cct)
    apply (rule i, rule b)
    apply (rule i, rule hue)
    apply (rule i, rule intensity_byte)
    apply (rule i, rule i, rule ag, rule gm)
    apply (rule i, rule i, rule z, rule z)
    apply (rule i, rule z)
    apply (rule i, rule z, rule d)
    done
qed

lemma slot_offsets: "distinct (map offset (channels (snapshot_mode f)))"
  using snapshot_mode_in_order [of f] by (simp add: mode_in_order_def distinct_map)

lemma slots_are_bytes:
  "compute_dmx_channel_data fs percent k = Some v \<Longrightarrow> 0 \<le> v \<and> v \<le> 255"
  using channel_byte master_share_in
  by (fastforce simp: compute_dmx_channel_data_def fixture_slots_def dest: map_of_SomeD)

end
