(* ===== verification/Rig_Wire.thy ===== *)
theory Rig_Wire
  imports Rig_Render Rig_Desk
begin

text \<open>
  What the lights show and what the wire carries: the frames are fit for the output of \<open>Lights_Output\<close>, the
  DMX monitor reads the same numbers, and All off darkens every dimmer.
\<close>

section \<open>The frames are fit for the wire\<close>

lemma strict_remdups_adj: "sorted (xs :: int list) \<Longrightarrow> distinct (remdups_adj xs)"
proof (induction xs rule: remdups_adj.induct)
  case (3 x y xs)
  then show ?case by (cases "x = y") auto
qed auto

lemma universe_word: "1 \<le> u \<Longrightarrow> u \<le> 63999 \<Longrightarrow> uint (word_of_int u :: 16 word) = u"
  by (simp add: uint_word_of_int)

lemma frames_rendered:
  assumes "read_lighting_sacn_output_state_at st now = Some s"
  shows "frames_ok s"
proof -
  let ?fs = "fixtures_now st (load_lighting_editor_state st) now"
  let ?us = "remdups_adj (sort (filter (\<lambda>u. 1 \<le> u \<and> u \<le> 63999) (map snap_universe ?fs)))"
  let ?data = "compute_dmx_channel_data ?fs (read_lighting_grand_master (plain st))"
  have f: "frames s = map (frame_of ?data) ?us"
    using assms by (auto simp: read_lighting_sacn_output_state_at_def Let_def split: if_splits option.splits)
  have "distinct ?us" by (rule strict_remdups_adj) simp
  moreover have "inj_on (\<lambda>u. word_of_int u :: 16 word) (set ?us)"
    by (rule inj_on_inverseI [where g = uint]) (auto simp: universe_word)
  ultimately have "distinct (map (\<lambda>u. word_of_int u :: 16 word) ?us)" by (simp add: distinct_map)
  then show ?thesis by (simp add: frames_ok_def f frame_of_def comp_def)
qed

type_synonym look_at_rig = "light_store \<times> int \<times> (nat \<Rightarrow> instant)"

definition rendered_input :: "look_at_rig \<Rightarrow> settings \<times> output_state option \<times> (nat \<Rightarrow> instant)" where
  "rendered_input = (\<lambda>(st, now, clock). (plain st, read_lighting_sacn_output_state_at st now, clock))"


section \<open>The monitor\<close>

lemma frame_slot:
  assumes "read_lighting_sacn_output_state_at st now = Some s"
    and "u \<in> set (map snap_universe (fixtures_now st (load_lighting_editor_state st) now))" "1 \<le> u" "u \<le> 63999"
  shows "frame_of (compute_dmx_channel_data (fixtures_now st (load_lighting_editor_state st) now)
           (read_lighting_grand_master (plain st))) u \<in> set (frames s)"
  using assms by (auto simp: read_lighting_sacn_output_state_at_def Let_def split: if_splits option.splits)

text \<open>
  C34. The DMX monitor never differs from the wire: each of its lines within a universe reads the number that
  the frame of that universe carries in that slot at the same moment, a byte.
\<close>

theorem monitor_is_the_wire:
  assumes s: "read_lighting_sacn_output_state_at st now = Some s"
    and l: "l \<in> set (read_lighting_dmx_monitor_snapshot st now)"
    and u: "1 \<le> line_universe l" "line_universe l \<le> 63999" and c: "1 \<le> line_channel l" "line_channel l \<le> 512"
  shows "0 \<le> line_value l \<and> line_value l \<le> 255 \<and>
    (\<exists>f \<in> set (frames s). universe_frame.universe f = word_of_int (line_universe l) \<and>
       slots f ! (nat (line_channel l) - 1) = word_of_int (line_value l))"
proof -
  let ?fs = "fixtures_now st (load_lighting_editor_state st) now"
  let ?data = "compute_dmx_channel_data ?fs (read_lighting_grand_master (plain st))"
  have "l \<in> (\<Union>f \<in> set ?fs. set (monitor_lines ?data f))"
    using l by (simp add: read_lighting_dmx_monitor_snapshot_def Let_def)
  then obtain f where f: "f \<in> set ?fs" "l \<in> set (monitor_lines ?data f)" by blast
  have v: "line_value l = (case ?data (line_universe l, line_channel l) of Some v \<Rightarrow> v | None \<Rightarrow> 0)"
    and lu: "line_universe l = snap_universe f"
    using f(2) by (auto simp: monitor_lines_def Let_def)
  have b: "0 \<le> line_value l" "line_value l \<le> 255"
    using slots_are_bytes [of ?fs _ "(line_universe l, line_channel l)"] by (auto simp: v split: option.split)
  let ?fr = "frame_of ?data (line_universe l)"
  have "?fr \<in> set (frames s)" using f(1) u by (intro frame_slot [OF s]) (auto simp: lu)
  moreover have "slots ?fr ! (nat (line_channel l) - 1) = word_of_int (line_value l)"
    using c v slots_are_bytes [of ?fs _ "(line_universe l, line_channel l)"]
    by (auto simp: frame_of_def nth_map clamp_inside split: option.splits)
  moreover have "universe_frame.universe ?fr = word_of_int (line_universe l)" by (simp add: frame_of_def)
  ultimately show ?thesis using b by blast
qed

section \<open>All off\<close>

definition patched_slots :: "fixture_snapshot \<Rightarrow> (int \<times> int) list" where
  "patched_slots f = map (\<lambda>c. (snap_universe f, snap_address f + offset c - 1)) (channels (snapshot_mode f))"

definition patched_apart :: "fixture_snapshot list \<Rightarrow> bool" where
  "patched_apart fs = distinct (concat (map patched_slots fs))"

lemma slot_given:
  assumes a: "patched_apart fs" and f: "f \<in> set fs" and c: "c \<in> set (channels (snapshot_mode f))"
  shows "compute_dmx_channel_data fs percent (snap_universe f, snap_address f + offset c - 1) =
    Some (channel_value (master_share percent) f c)"
proof -
  let ?m = "master_share percent" let ?xs = "concat (map (fixture_slots ?m) fs)"
  have "map fst ?xs = concat (map patched_slots fs)"
    by (simp add: map_concat comp_def fixture_slots_def patched_slots_def [abs_def])
  then have "distinct (map fst (rev ?xs))" using a by (simp add: patched_apart_def rev_map [symmetric])
  moreover have "((snap_universe f, snap_address f + offset c - 1), channel_value ?m f c) \<in> set (rev ?xs)"
    using f c by (auto simp: fixture_slots_def)
  ultimately show ?thesis by (simp add: compute_dmx_channel_data_def)
qed

lemma off_is_dark: "\<not> snap_on f \<Longrightarrow> control_id c = ''intensity'' \<Longrightarrow> channel_value m f c = 0"
  by (simp add: channel_value_def snap_dimmer_def)

lemma loaded_off:
  "saved_rig st = Some r \<Longrightarrow> list_all (\<lambda>f. \<not> fixture_on f) (fixtures r) \<Longrightarrow>
   list_all (\<lambda>f. \<not> fixture_on f) (fixtures (load_lighting_editor_state st))"
  by (simp only: load_saved normalized_fixtures) (rule loaded_all, simp_all add: list_all_iff)

lemma no_overlay: "saved_bursts st = Map.empty \<Longrightarrow> saved_highlight st = {} \<Longrightarrow> saved_solo st = {} \<Longrightarrow> overlaid st now f = f"
  by (simp add: overlaid_def identify_active_def split: prod.split)

text \<open>
  C31. All off is dark: from the moment it is saved until another command, whatever was fading, flashing,
  highlighted or soloed, the dimmer of every light the rig shows is at 0 on the wire and in the monitor, at
  every later moment, when no two lights are patched over each other.
\<close>

theorem all_off_is_dark:
  assumes off: "set_lighting_all_power now False st = Inr (st', summary)"
    and shown: "shown = fixtures_now st' (load_lighting_editor_state st') later" and apart: "patched_apart shown"
    and f: "f \<in> set shown" and c: "c \<in> set (channels (snapshot_mode f))" "control_id c = ''intensity''"
  shows "compute_dmx_channel_data shown (read_lighting_grand_master (plain st'))
     (snap_universe f, snap_address f + offset c - 1) = Some 0"
proof -
  define r where "r = clear_active_fade ((sampled now (load_lighting_editor_state st))
      \<lparr>fixtures := map (\<lambda>f. f\<lparr>fixture_on := False\<rparr>) (fixtures (sampled now (load_lighting_editor_state st)))\<rparr>)"
  have st': "st' = (saved_with r summary st)\<lparr>saved_bursts := Map.empty, saved_highlight := {}, saved_solo := {}\<rparr>"
    using off by (auto simp: set_lighting_all_power_def Let_def r_def split: if_split_asm)
  have r: "saved_rig st' = Some r" "active_fade r = None" "list_all (\<lambda>f. \<not> fixture_on f) (fixtures r)"
    and o': "saved_bursts st' = Map.empty" "saved_highlight st' = {}" "saved_solo st' = {}"
    by (simp_all add: st' saved_with_def) (simp_all add: r_def clear_active_fade_def list_all_iff)
  have "sampled later (load_lighting_editor_state st') = load_lighting_editor_state st'"
    using r(2) by (simp add: apply_active_fade_sample_def load_saved [OF r(1)])
  then have "f \<in> lighting_fixture_snapshot_from_state ` set (fixtures (load_lighting_editor_state st'))"
    using f by (simp add: shown fixtures_now_def no_overlay [OF o'])
  then have "\<not> snap_on f"
    using loaded_off [OF r(1,3)] by (auto simp: lighting_fixture_snapshot_from_state_def list_all_iff)
  then show ?thesis using slot_given [OF apart f c(1)] c(2) by (simp add: off_is_dark)
qed

section \<open>On a desk\<close>

lemma astra_snapshot:
  assumes "astra_light f"
  shows "snapshot_mode (lighting_fixture_snapshot_from_state f) = astra_mode"
    "profile_channels (fixture_profile_for_snapshot (lighting_fixture_snapshot_from_state f)) = 2"
    "snap_universe (lighting_fixture_snapshot_from_state f) = 1" "snap_address (lighting_fixture_snapshot_from_state f) = 1"
  using assms
  by (simp_all add: astra_light_def snapshot_mode_def fixture_profile_for_snapshot_def lighting_fixture_snapshot_from_state_def
      fixture_profile_for_state_def profile_of_mode Let_def astra_found astra_mode_found astra_listed astra_mode(2,3) profile_mode_of_def)

lemma one_light_apart: "patched_apart [f]"
  using slot_offsets [of f] by (simp add: patched_apart_def patched_slots_def distinct_map inj_on_def)

lemma desk_armed: "lighting_output_armed (plain desk)"
  by (simp add: lighting_output_armed_def desk_def LIGHTING_BRIDGE_IP_KEY_def LIGHTING_ENABLED_KEY_def
      LIGHTING_CHECK_STATUS_KEY_def LIGHTING_OUTPUT_ARMED_KEY_def)


lemma desk_shown: "fixtures_now desk (load_lighting_editor_state desk) now =
    [lighting_fixture_snapshot_from_state (normalize_fixture (read_inventory (resolve_lighting_config (plain desk))) desk_light)]"
proof -
  from load_saved [OF desk_overlays(4)] have "active_fade (load_lighting_editor_state desk) = None" by (simp add: desk_rig_def)
  then have "sampled now (load_lighting_editor_state desk) = load_lighting_editor_state desk"
    by (simp add: apply_active_fade_sample_def)
  then show ?thesis by (simp add: fixtures_now_def desk_load no_overlay [OF desk_overlays(1,2,3)])
qed

lemma desk_bridge: "one_machine_ipv4 ''10.1.0.1'' = Some (Ipv4 10 1 0 1)"
  by code_simp

theorem monitor_is_the_wire_witness:
  "\<exists>s l. read_lighting_sacn_output_state_at desk 0 = Some s \<and> l \<in> set (read_lighting_dmx_monitor_snapshot desk 0) \<and>
     (\<exists>f \<in> set (frames s). universe_frame.universe f = 1 \<and> slots f ! 0 = word_of_int (line_value l))"
proof -
  let ?f = "lighting_fixture_snapshot_from_state (normalize_fixture (read_inventory (resolve_lighting_config (plain desk))) desk_light)"
  let ?data = "compute_dmx_channel_data [?f] (read_lighting_grand_master (plain desk))"
  note light = astra_snapshot [OF astra_light_tidy [OF astra_light_desk]]
  obtain s where s: "read_lighting_sacn_output_state_at desk 0 = Some s"
    by (simp add: read_lighting_sacn_output_state_at_def desk_config desk_bridge desk_shown light Let_def)
  have two: "[0..(1::int)] = [0, 1]" by code_simp
  define l where "l = hd (monitor_lines ?data ?f)"
  have l: "l \<in> set (monitor_lines ?data ?f)" "line_universe l = 1" "line_channel l = 1"
    by (simp_all add: l_def monitor_lines_def Let_def light two)
  have "l \<in> set (read_lighting_dmx_monitor_snapshot desk 0)"
    using l(1) by (simp add: read_lighting_dmx_monitor_snapshot_def desk_shown Let_def)
  with monitor_is_the_wire [OF s this] s l show ?thesis by auto
qed

theorem all_off_is_dark_witness:
  "\<exists>st' m. set_lighting_all_power 0 False desk = Inr (st', m) \<and>
     compute_dmx_channel_data (fixtures_now st' (load_lighting_editor_state st') 7)
       (read_lighting_grand_master (plain st')) (1, 1) = Some 0"
proof -
  let ?iv = "read_inventory (resolve_lighting_config (plain desk))"
  let ?n = "normalize_fixture ?iv desk_light"
  have ld: "fixtures (load_lighting_editor_state desk) = [?n]" "active_fade (load_lighting_editor_state desk) = None"
    "removed_fixture_ids (load_lighting_editor_state desk) = removed_fixture_ids desk_rig"
    by (rule desk_load) (simp_all add: load_saved [OF desk_overlays(4)], simp add: desk_rig_def)
  define r where "r = clear_active_fade ((load_lighting_editor_state desk)\<lparr>fixtures := [?n\<lparr>fixture_on := False\<rparr>]\<rparr>)"
  obtain m where off: "set_lighting_all_power 0 False desk = Inr ((saved_with r m desk)\<lparr>saved_bursts := Map.empty,
      saved_highlight := {}, saved_solo := {}\<rparr>, m)"
    by (simp add: set_lighting_all_power_def Let_def apply_active_fade_sample_def ld r_def)
  define st' where "st' = (saved_with r m desk)\<lparr>saved_bursts := Map.empty, saved_highlight := {}, saved_solo := {}\<rparr>"
  let ?g = "normalize_fixture ?iv (?n\<lparr>fixture_on := False\<rparr>)"
  have light: "astra_light ?g"
    using astra_light_tidy [OF astra_light_desk, of ?iv] by (intro astra_light_tidy) (simp add: astra_light_def)
  have saved: "saved_rig st' = Some r" "resolve_lighting_config (plain st') = resolve_lighting_config (plain desk)"
    "active_fade r = None"
    by (simp_all add: st'_def saved_with_def r_def clear_active_fade_def config_kept)
  have "loaded_fixtures ?iv r = [?g]"
    by (rule one_fixture) (simp_all add: r_def clear_active_fade_def ld)
  then have "fixtures (load_lighting_editor_state st') = [?g]" "active_fade (load_lighting_editor_state st') = None"
    using load_saved [OF saved(1)] editor_inventory [of "resolve_lighting_config (plain desk)"]
    by (simp_all add: saved desk_config)
  then have shown: "fixtures_now st' (load_lighting_editor_state st') 7 = [lighting_fixture_snapshot_from_state ?g]"
    by (simp add: fixtures_now_def apply_active_fade_sample_def no_overlay st'_def)
  have "compute_dmx_channel_data [lighting_fixture_snapshot_from_state ?g] (read_lighting_grand_master (plain st'))
      (snap_universe (lighting_fixture_snapshot_from_state ?g), snap_address (lighting_fixture_snapshot_from_state ?g) +
         offset (ch 1 ''Dimmer'' ''intensity'' ''percent'' 0) - 1) = Some 0"
    by (rule all_off_is_dark [OF off [folded st'_def] shown [symmetric] one_light_apart])
      (simp_all add: astra_snapshot [OF light] astra_mode(4), simp add: ch_def)
  then have "compute_dmx_channel_data (fixtures_now st' (load_lighting_editor_state st') 7)
      (read_lighting_grand_master (plain st')) (1, 1) = Some 0"
    by (simp add: shown astra_snapshot [OF light] ch_def)
  then show ?thesis using off unfolding st'_def by blast
qed

end
