(* ===== verification/Rig_Kept.thy ===== *)
theory Rig_Kept
  imports Rig_Desk Rig_Render
begin

text \<open>
  A state in order stays as it is: to load what a load saved gives its lights and its fade again. So the
  preview, whose commands save nothing but scenes, never reaches the lights.
\<close>

section \<open>In order once, in order always\<close>

lemma normalized_twice [simp]: "normalize_fixture iv (normalize_fixture iv f) = normalize_fixture iv f"
  by (simp add: normalize_fixture_def Let_def option.map_comp comp_def split: option.split)

lemma inventory_universe:
  "s \<in> set (inventory_fixtures (read_inventory c)) \<Longrightarrow> snap_universe s = config_universe c \<and> 0 < config_universe c"
  by (auto simp: read_inventory_def simulated_fixture_def split: if_splits)

lemma inventory_names: "list_all (\<lambda>n. trim n \<noteq> []) [''Key Left'', ''Key Right'', ''Backline Wash'', ''House Practicals'']"
  by code_simp

lemma inventory_known:
  "s \<in> set (inventory_fixtures (read_inventory c)) \<Longrightarrow> trim (snap_name s) \<noteq> []"
  using inventory_names by (auto simp: read_inventory_def simulated_fixture_def split: if_splits)

lemma appended_kept:
  "trim (snap_name s) \<noteq> [] \<Longrightarrow> 1 \<le> snap_universe s \<Longrightarrow> snap_universe s \<le> 63999 \<Longrightarrow>
   normalize_fixture iv (appended_fixture s) = appended_fixture s"
  by (simp add: normalize_fixture_def appended_fixture_def Let_def clamp_inside DEFAULT_FIXTURE_INTENSITY_def)

text \<open>The lights a new state starts with.\<close>

lemma type_name_kept:
  "d \<in> set catalog_definitions \<Longrightarrow>
   normalized_fixture_type (Some (fixture_type_for_definition (definition_id d))) k i = fixture_type_for_definition (definition_id d)"
  by (simp add: normalized_fixture_type_def type_kept)

definition holds_4500 :: "fixture_definition \<Rightarrow> bool" where
  "holds_4500 d =
     (case (mode_defaults (resolve_fixture_mode d None) ''cctMin'', mode_defaults (resolve_fixture_mode d None) ''cctMax'') of
        (Some lo, Some hi) \<Rightarrow> lo \<le> 4500 \<and> 4500 \<le> hi
      | _ \<Rightarrow> False)"

lemma starting_definitions:
  "list_all holds_4500 (take 3 compatibility_definitions)"
  "map fixture_type_for_definition (map definition_id (take 3 compatibility_definitions)) = [''astra-bicolor'', ''infinimat'', ''infinibar-pb12'']"
  by code_simp+

lemma starting_types_kept:
  assumes "ty \<in> set [''astra-bicolor'', ''infinimat'', ''infinibar-pb12'']"
  shows "normalized_fixture_type (Some ty) k i = ty \<and> fst (fixture_cct_range ty) \<le> 4500 \<and> 4500 \<le> snd (fixture_cct_range ty)"
proof -
  obtain d where d: "d \<in> set (take 3 compatibility_definitions)" "ty = fixture_type_for_definition (definition_id d)"
    using assms unfolding starting_definitions(2) [symmetric] by auto
  then have l: "d \<in> set catalog_definitions" by (auto simp: catalog_definitions_def dest: in_set_takeD)
  have "holds_4500 d" using d(1) starting_definitions(1) by (simp add: list_all_iff)
  then show ?thesis unfolding d(2)
    by (simp add: type_name_kept [OF l] holds_4500_def fixture_cct_range_def type_profile_def
        fixture_cct_range_from_profile_def profile_of_mode Let_def type_kept [OF l] split: option.splits)
qed

lemma default_kept:
  assumes s: "s \<in> set (inventory_fixtures (read_inventory c))" and u: "config_universe c \<le> 63999"
  shows "normalize_fixture iv (default_fixture s) = default_fixture s"
proof -
  have ty: "snap_type s \<in> set [''astra-bicolor'', ''infinimat'', ''infinibar-pb12'']"
    and xy: "normalize_optional_coordinate (snap_x s) = snap_x s" "normalize_optional_coordinate (snap_y s) = snap_y s"
    using s nearest_in [of 0 "3 / 10" 20] nearest_in [of 0 "7 / 10" 20] nearest_in [of 0 "1 / 2" 20]
      nearest_in [of 0 "1 / 4" 20] nearest_in [of 0 "3 / 20" 20] nearest_in [of 0 "17 / 20" 20]
    by (auto simp: read_inventory_def simulated_fixture_def normalize_optional_coordinate_def clamp_f64_def split: if_splits)
  show ?thesis using starting_types_kept [OF ty] inventory_known [OF s] inventory_universe [OF s] u xy
    by (simp add: normalize_fixture_def default_fixture_def Let_def clamp_inside cct_inside DEFAULT_FIXTURE_INTENSITY_def DEFAULT_FIXTURE_CCT_def)
qed

lemma loaded_twice:
  assumes "\<And>s. s \<in> set (inventory_fixtures iv) \<Longrightarrow> normalize_fixture iv (appended_fixture s) = appended_fixture s"
    and "removed_fixture_ids r' = removed_fixture_ids r" "fixtures r' = loaded_fixtures iv r"
  shows "loaded_fixtures iv r' = loaded_fixtures iv r"
proof -
  let ?fs = "loaded_fixtures iv r"
  have k: "map (normalize_fixture iv) ?fs = ?fs"
    using assms(1) by (auto simp: loaded_fixtures_def append_missing_fixture_states_def)
  have d: "filter (\<lambda>f. fixture_id f \<notin> set (removed_fixture_ids r)) ?fs = ?fs"
    by (auto simp: loaded_fixtures_def append_missing_fixture_states_def filter_id_conv)
  have m: "filter (\<lambda>s. snap_id s \<notin> set (map fixture_id ?fs) \<and> snap_id s \<notin> set (removed_fixture_ids r)) (inventory_fixtures iv) = []"
    by (force simp: loaded_fixtures_def append_missing_fixture_states_def filter_empty_conv)
  have "loaded_fixtures iv r' = append_missing_fixture_states (removed_fixture_ids r) iv ?fs"
    by (simp add: loaded_fixtures_def [of iv r'] assms(2,3) d k)
  also have "\<dots> = ?fs" using m by (simp add: append_missing_fixture_states_def)
  finally show ?thesis .
qed

lemma universe_bound: "config_universe (resolve_lighting_config s) \<le> 63999"
  by (simp add: resolve_lighting_config_def DEFAULT_UNIVERSE_def Let_def split: option.split)

lemma load_again:
  assumes c: "resolve_lighting_config (plain st') = resolve_lighting_config (plain st)"
    and r: "saved_rig st' = Some r" "fixtures r = fixtures (load_lighting_editor_state st)"
      "removed_fixture_ids r = removed_fixture_ids (load_lighting_editor_state st)"
  shows "fixtures (load_lighting_editor_state st') = fixtures (load_lighting_editor_state st)"
proof -
  let ?c = "resolve_lighting_config (plain st)" let ?iv = "read_lighting_editor_inventory ?c"
  let ?e = "?c\<lparr>enabled := trim (bridge_ip ?c) \<noteq> []\<rparr>"
  have iv: "?iv = read_inventory ?e" by (simp add: read_lighting_editor_inventory_def)
  have u: "config_universe ?e \<le> 63999" using universe_bound by simp
  have known: "normalize_fixture ?iv (appended_fixture s) = appended_fixture s"
    "normalize_fixture ?iv (default_fixture s) = default_fixture s" if "s \<in> set (inventory_fixtures ?iv)" for s
    using that u inventory_universe [of s ?e] inventory_known [of s ?e] default_kept [of s ?e]
    by (auto simp: iv intro!: appended_kept)
  show ?thesis
  proof (cases "saved_rig st")
    case (Some r0)
    have "loaded_fixtures ?iv r = loaded_fixtures ?iv r0"
      using known(1) r(2,3) by (intro loaded_twice) (simp_all add: load_saved [OF Some])
    then show ?thesis by (simp add: load_saved [OF r(1)] load_saved [OF Some] c)
  next
    case None
    have d: "fixtures (load_lighting_editor_state st) = map default_fixture (inventory_fixtures ?iv)"
      "removed_fixture_ids (load_lighting_editor_state st) = []"
      by (simp_all add: load_lighting_editor_state_def load_with_inventory_def None default_lighting_editor_state_def Let_def)
    have i: "fixture_id (default_fixture s) = snap_id s" for s by (simp add: default_fixture_def Let_def)
    have "map (normalize_fixture ?iv) (map default_fixture (inventory_fixtures ?iv)) = map default_fixture (inventory_fixtures ?iv)"
      using known(2) by simp
    then have "loaded_fixtures ?iv r = map default_fixture (inventory_fixtures ?iv)"
      using r(2,3) by (simp add: loaded_fixtures_def d append_missing_fixture_states_def i comp_def)
    then show ?thesis by (simp add: load_saved [OF r(1)] c d(1))
  qed
qed

lemma same_output:
  assumes c: "resolve_lighting_config (plain st') = resolve_lighting_config (plain st)"
    "read_lighting_grand_master (plain st') = read_lighting_grand_master (plain st)"
    and r: "saved_rig st' = Some r" "fixtures r = fixtures (load_lighting_editor_state st)"
      "removed_fixture_ids r = removed_fixture_ids (load_lighting_editor_state st)"
      "active_fade r = active_fade (load_lighting_editor_state st)"
    and o': "saved_bursts st' = saved_bursts st" "saved_highlight st' = saved_highlight st" "saved_solo st' = saved_solo st"
  shows "read_lighting_sacn_output_state_at st' now = read_lighting_sacn_output_state_at st now"
    "read_lighting_dmx_monitor_snapshot st' now = read_lighting_dmx_monitor_snapshot st now"
proof -
  have f: "fixtures (load_lighting_editor_state st') = fixtures (load_lighting_editor_state st)"
    using c(1) r(1-3) by (rule load_again)
  have a: "active_fade (load_lighting_editor_state st') = active_fade (load_lighting_editor_state st)"
    using r(4) by (simp add: load_saved [OF r(1)])
  have "fixtures (sampled now (load_lighting_editor_state st')) = fixtures (sampled now (load_lighting_editor_state st))"
    using f a by (simp add: apply_active_fade_sample_def Let_def split: option.splits)
  moreover have "overlaid st' now = overlaid st now"
    unfolding overlaid_def identify_active_def by (simp only: o')
  ultimately have n: "fixtures_now st' (load_lighting_editor_state st') now = fixtures_now st (load_lighting_editor_state st) now"
    by (simp add: fixtures_now_def)
  show "read_lighting_sacn_output_state_at st' now = read_lighting_sacn_output_state_at st now"
    unfolding read_lighting_sacn_output_state_at_def c n ..
  show "read_lighting_dmx_monitor_snapshot st' now = read_lighting_dmx_monitor_snapshot st now"
    unfolding read_lighting_dmx_monitor_snapshot_def c n ..
qed

section \<open>Under the preview\<close>

text \<open>What can be asked of the preview while it is on. A scene's own name and colour can be changed beside it as
  well (\<open>capture\<close> false), which works on the saved rig and not on the preview.\<close>

datatype preview_request =
  PreviewMode bool bool
| PreviewDiscard
| PreviewUpdate fixture_update
| PreviewGroupPower string bool
| PreviewAllPower bool
| PreviewRecall string rat
| PreviewSaveInto string "string option" "nat option option"
| PreviewSaveAs string "scene_level list option" "nat option"
| PreviewPalette string "string list" bool

fun preview_run ::
  "(nat \<Rightarrow> rat \<Rightarrow> string) \<Rightarrow> disk \<Rightarrow> string + string \<Rightarrow> int \<Rightarrow> preview_request \<Rightarrow> string preview_command" where
  "preview_run fixed d clock now (PreviewMode on' patching) = set_lighting_preview_mode d now on' patching"
| "preview_run fixed d clock now PreviewDiscard = discard_lighting_preview"
| "preview_run fixed d clock now (PreviewUpdate q) = update_lighting_fixture_with_preview fixed d now q"
| "preview_run fixed d clock now (PreviewGroupPower i on') = set_lighting_group_power_with_preview d now i on'"
| "preview_run fixed d clock now (PreviewAllPower on') = set_lighting_all_power_with_preview d now on'"
| "preview_run fixed d clock now (PreviewRecall i seconds) = recall_lighting_scene_with_preview fixed d clock now i seconds"
| "preview_run fixed d clock now (PreviewSaveInto i name color) = update_lighting_scene_with_preview d now i name True color"
| "preview_run fixed d clock now (PreviewSaveAs name states color) = create_lighting_scene_with_preview d now name states color"
| "preview_run fixed d clock now (PreviewPalette i is patching) = apply_lighting_palette_with_preview d now i is patching"

text \<open>A time of preview: requests in their order, each with its disk and clocks, until the preview is off.\<close>

fun preview_session ::
  "(nat \<Rightarrow> rat \<Rightarrow> string) \<Rightarrow> (disk \<times> (string + string) \<times> int \<times> preview_request) list \<Rightarrow> light_store \<times> preview \<Rightarrow> light_store \<times> preview" where
  "preview_session fixed [] x = x"
| "preview_session fixed ((d, clock, now, q) # qs) x =
     (if previewing (snd x) then preview_session fixed qs (fst (preview_run fixed d clock now q x)) else x)"

text \<open>What a request saves: nothing, or the loaded state with other scenes.\<close>

definition only_scenes_saved :: "light_store \<Rightarrow> light_store \<Rightarrow> bool" where
  "only_scenes_saved st st' \<longleftrightarrow> st' = st \<or>
     (\<exists>ss so m s. saved_rig st' = Some ((load_lighting_editor_state st)\<lparr>scenes := ss, scene_order := so\<rparr>) \<and>
        plain st' = action_succeeded m s \<and> (s = plain st \<or> (\<exists>i. s = (plain st)(LIGHTING_SELECTED_SCENE_ID_KEY \<mapsto> i))) \<and>
        saved_bursts st' = saved_bursts st \<and> saved_highlight st' = saved_highlight st \<and> saved_solo st' = saved_solo st)"

lemma reading_saves_nothing: "fst (fst (reading d f x)) = fst x"
  by (simp add: reading_def split: option.split sum.split prod.split)

lemma saving_preview_cases:
  assumes "\<And>v st'. f (fst x) (snd x) = Inr (st', v) \<Longrightarrow> only_scenes_saved (fst x) st'"
  shows "only_scenes_saved (fst x) (fst (fst (saving_preview d f x)))"
proof -
  have u: "only_scenes_saved (fst x) (fst x)" by (simp add: only_scenes_saved_def)
  show ?thesis using assms u
    by (cases "f (fst x) (snd x)") (auto simp: saving_preview_def on_disk_def split: option.splits)
qed

lemma scenes_saved:
  "only_scenes_saved st (saved_with ((load_lighting_editor_state st)\<lparr>scenes := ss, scene_order := so\<rparr>) m st)"
  "only_scenes_saved st (saved_with ((load_lighting_editor_state st)\<lparr>scenes := ss, scene_order := so\<rparr>) m
     (st\<lparr>plain := (plain st)(LIGHTING_SELECTED_SCENE_ID_KEY \<mapsto> i)\<rparr>))"
  unfolding only_scenes_saved_def saved_with_def
  by (rule disjI2, rule exI [of _ ss], rule exI [of _ so], rule exI [of _ m], auto)+

lemma into_scene_saves_scenes: "preview_into_scene i name color st pv = Inr (st', v) \<Longrightarrow> only_scenes_saved st st'"
  using scenes_saved(1) [where st = st and so = "scene_order (load_lighting_editor_state st)"]
  by (auto simp: preview_into_scene_def Let_def split: option.splits)

lemma as_scene_saves_scenes: "preview_as_scene name states color st pv = Inr (st', v) \<Longrightarrow> only_scenes_saved st st'"
  by (auto simp: preview_as_scene_def Let_def scene_added_def scenes_saved(2) split: option.splits sum.splits if_splits)

lemmas preview_saves =
  saving_preview_cases [where f = "preview_into_scene i name color" for i name color, OF into_scene_saves_scenes]
  saving_preview_cases [where f = "preview_as_scene name states color" for name states color, OF as_scene_saves_scenes]

lemma preview_saves_scenes:
  "previewing (snd x) \<Longrightarrow> only_scenes_saved (fst x) (fst (fst (preview_run fixed d clock now q x)))"
proof -
  assume p: "previewing (snd x)"
  have u: "only_scenes_saved (fst x) (fst x)" by (simp add: only_scenes_saved_def)
  show ?thesis
    by (cases q)
      (simp_all add: p u preview_saves reading_saves_nothing set_lighting_preview_mode_def discard_lighting_preview_def
        update_lighting_fixture_with_preview_def set_lighting_group_power_with_preview_def
        set_lighting_all_power_with_preview_def recall_lighting_scene_with_preview_def
        update_lighting_scene_with_preview_def create_lighting_scene_with_preview_def
        apply_lighting_palette_with_preview_def split: option.split)
qed

lemma settings_kept:
  "resolve_lighting_config (s(LIGHTING_SELECTED_SCENE_ID_KEY \<mapsto> i)) = resolve_lighting_config s"
  "read_lighting_grand_master (s(LIGHTING_SELECTED_SCENE_ID_KEY \<mapsto> i)) = read_lighting_grand_master s"
  "read_lighting_grand_master (action_succeeded m s) = read_lighting_grand_master s"
  by (simp_all add: resolve_lighting_config_def read_lighting_output_enabled_def read_lighting_grand_master_def action_succeeded_def
      LIGHTING_SELECTED_SCENE_ID_KEY_def LIGHTING_GRAND_MASTER_KEY_def LIGHTING_LAST_ACTION_STATUS_KEY_def
      LIGHTING_LAST_ACTION_CODE_KEY_def LIGHTING_LAST_ACTION_MESSAGE_KEY_def
      LIGHTING_BRIDGE_IP_KEY_def LIGHTING_UNIVERSE_KEY_def LIGHTING_ENABLED_KEY_def)

lemma scenes_move_no_light:
  "only_scenes_saved st st' \<Longrightarrow> read_lighting_sacn_output_state_at st' t = read_lighting_sacn_output_state_at st t \<and>
     read_lighting_dmx_monitor_snapshot st' t = read_lighting_dmx_monitor_snapshot st t"
  unfolding only_scenes_saved_def by (auto intro!: same_output simp: settings_kept)

text \<open>
  C32. The preview moves no light: whatever is asked while it is on (fixtures, groups, all power, scenes and
  palettes staged, scenes saved from it), whatever the disk and the clocks do, the output's frames and the
  DMX monitor are at every moment what they were without it, a running fade included.
\<close>

theorem preview_moves_no_light:
  "read_lighting_sacn_output_state_at (fst (preview_session fixed qs x)) t = read_lighting_sacn_output_state_at (fst x) t \<and>
   read_lighting_dmx_monitor_snapshot (fst (preview_session fixed qs x)) t = read_lighting_dmx_monitor_snapshot (fst x) t"
proof (induction fixed qs x rule: preview_session.induct)
  case (2 fixed d clock now q qs x)
  then show ?case using scenes_move_no_light [OF preview_saves_scenes [of x fixed d clock now q]] by simp
qed simp

end
