(* ===== verification/Rig_Modes.thy ===== *)
theory Rig_Modes
  imports Rig_Loaded Rig_Render
begin

text \<open>
  What the catalog's modes make of a light: a mode with no dimmer that the rig can close, a crossfade no
  control opens, a zoom that ends at 100 of 255, and a scene that holds less than a light can do.
\<close>

section \<open>Modes that stay lit or dark\<close>

definition dimmed :: "fixture_mode \<Rightarrow> bool" where
  "dimmed m = (channels m = [] \<or> ''intensity'' \<in> set (map control_id (channels m)))"

definition undimmed_modes :: "fixture_definition list \<Rightarrow> (string \<times> string) list" where
  "undimmed_modes ds = concat (map (\<lambda>d. map (\<lambda>m. (definition_id d, mode_id m)) (filter (\<lambda>m. \<not> dimmed m) (modes d))) ds)"

lemma undimmed_modes_are:
  "undimmed_modes compatibility_definitions =
     [(''aputure-infinimat-generic'', ''le-1x4-rgbww-8bit''), (''aputure-infinibar-pb12'', ''pixel-rgb-48'')]"
  "undimmed_modes aputure_verified_definitions = []"
  "undimmed_modes litepanels_verified_definitions = []"
  "undimmed_modes research_needed_definitions = []"
  by code_simp+

lemma pixel_mode_is_colour:
  "list_all (\<lambda>m. mode_id m = ''pixel-rgb-48'' \<longrightarrow> list_all (\<lambda>c. control_id c \<in> set [''red'', ''green'', ''blue'']) (channels m))
     (concat (map modes compatibility_definitions))"
  by code_simp

text \<open>A bar in its pixel mode gives its colour whether it is on or off, at any level and any grand master.\<close>

lemma colour_knows_no_off:
  "control_id c \<in> set [''red'', ''green'', ''blue''] \<Longrightarrow>
   channel_value m (f\<lparr>snap_on := o', snap_intensity := v\<rparr>) c = channel_value m' f c"
  by (auto simp: channel_value_def snap_control_def Let_def)

lemma dimmer_channel_unset:
  "list_all (\<lambda>m. mode_id m = ''le-1x4-rgbww-8bit'' \<longrightarrow> list_ex (\<lambda>c. control_id c = ''dimmer'') (channels m) \<and>
       list_all (\<lambda>c. control_id c = ''dimmer'' \<longrightarrow> default_dmx c = 0 \<and> value_type c \<noteq> ''fine'') (channels m))
     (concat (map modes compatibility_definitions))"
  by code_simp

text \<open>A mat in its 20-channel mode stays dark: its dimmers are named by no arm, and go out as 0.\<close>

lemma dimmer_channel_is_0: "control_id c = ''dimmer'' \<Longrightarrow> default_dmx c = 0 \<Longrightarrow> channel_value m f c = 0"
  by (simp add: channel_value_def Let_def)

section \<open>Controls that do not reach\<close>

definition has_no_mix :: "fixture_mode \<Rightarrow> bool" where
  "has_no_mix m = (''mix'' \<notin> set (map slider_id (controls m)) \<and>
     list_all (\<lambda>c. control_id c = ''mix'' \<longrightarrow> default_dmx c = 0) (channels m))"

lemma no_mix_checked:
  "list_all (\<lambda>d. list_all has_no_mix (modes d)) compatibility_definitions"
  "list_all (\<lambda>d. list_all has_no_mix (modes d)) aputure_verified_definitions"
  "list_all (\<lambda>d. list_all has_no_mix (modes d)) litepanels_verified_definitions"
  "list_all (\<lambda>d. list_all has_no_mix (modes d)) research_needed_definitions"
  by code_simp+

lemma mix_has_no_control: "d \<in> set catalog_definitions \<Longrightarrow> m \<in> set (modes d) \<Longrightarrow> has_no_mix m"
  using no_mix_checked by (auto simp: catalog_definitions_def list_all_iff)

text \<open>The crossfade to the colours goes out as 0 whatever is set: red, green and blue show nothing.\<close>

lemma mix_is_never_opened:
  assumes "c \<in> set (channels (snapshot_mode (lighting_fixture_snapshot_from_state f)))" "control_id c = ''mix''"
  shows "channel_value m (lighting_fixture_snapshot_from_state f) c = 0"
proof -
  let ?f = "lighting_fixture_snapshot_from_state f" let ?p = "fixture_profile_for_state f"
  let ?d = "\<lambda>p. resolve_fixture_definition (Some (profile_definition p)) None None []"
  have listed: "profile_mode_of p \<in> set (modes (?d p))" for p
    unfolding profile_mode_of_def using resolved_listed by (rule mode_listed)
  have no: "''mix'' \<notin> set (map slider_id (controls (profile_mode_of p)))"
    and d0: "\<forall>c \<in> set (channels (profile_mode_of p)). control_id c = ''mix'' \<longrightarrow> default_dmx c = 0" for p
    using mix_has_no_control [OF resolved_listed listed [of p]] by (auto simp: has_no_mix_def list_all_iff)
  have "normalize_fixture_control_values ?p (control_values f) ''mix'' = None"
    (is "?v = None")
  proof (rule ccontr)
    assume "?v \<noteq> None"
    then obtain v where "?v = Some v" by blast
    then obtain c where "c \<in> set (controls (profile_mode_of ?p))" "slider_id c = ''mix''" using controls_at by blast
    with no [of ?p] show False by force
  qed
  then have "snap_controls ?f ''mix'' = None"
    by (simp add: lighting_fixture_snapshot_from_state_def effective_at own_field_def)
  moreover have "default_dmx c = 0" using d0 assms by (simp add: snapshot_mode_def)
  ultimately show ?thesis using assms(2) by (simp add: channel_value_def snap_control_def Let_def clamp_i64_def)
qed

definition zoom_in_percent :: "fixture_mode \<Rightarrow> bool" where
  "zoom_in_percent m = list_all (\<lambda>c. slider_id c = ''zoom'' \<longrightarrow> slider_max c = 100) (controls m)"

lemma zoom_checked:
  "list_all (\<lambda>d. list_all zoom_in_percent (modes d)) compatibility_definitions"
  "list_all (\<lambda>d. list_all zoom_in_percent (modes d)) aputure_verified_definitions"
  "list_all (\<lambda>d. list_all zoom_in_percent (modes d)) litepanels_verified_definitions"
  "list_all (\<lambda>d. list_all zoom_in_percent (modes d)) research_needed_definitions"
  by code_simp+

text \<open>The whole of a spot's zoom is sent as 0 to 100.\<close>

lemma zoom_is_sent_raw:
  "control_id c = ''zoom'' \<Longrightarrow> snap_controls f ''zoom'' = Some v \<Longrightarrow> 0 \<le> v \<Longrightarrow> v \<le> 100 \<Longrightarrow> channel_value m f c = v"
  by (simp add: channel_value_def snap_control_def Let_def clamp_i64_def)

section \<open>A scene that holds less\<close>

lemma storm_range: "list_all (\<lambda>m. mode_defaults m ''cctMin'' = Some 1800 \<and> mode_defaults m ''cctMax'' = Some 20000) (modes storm_80c_definition)"
  by code_simp

text \<open>A loaded scene holds no colour temperature outside 2,000 to 10,000 K, whatever it was saved with.\<close>

lemma scene_cct_is_cut:
  "find (\<lambda>l. level_fixture l = fixture_id f) (scene_levels s) = Some l \<Longrightarrow>
   level_cct (normalize_level s f) = clamp_i64 (level_cct l) 2000 10000"
  by (simp add: normalize_level_def MIN_FIXTURE_CCT_def MAX_FIXTURE_CCT_def)

text \<open>With the only scene deleted, the next load brings the three default ones.\<close>

lemma only_scene_deleted:
  "saved_rig st = Some r \<Longrightarrow> scenes r = [] \<Longrightarrow> trim (bridge_ip (resolve_lighting_config (plain st))) \<noteq> [] \<Longrightarrow>
   map scene_id (scenes (load_lighting_editor_state st)) = [''scene-prep'', ''scene-teaching'', ''scene-stream'']"
proof -
  assume s: "saved_rig st = Some r" and e: "scenes r = []" and b: "trim (bridge_ip (resolve_lighting_config (plain st))) \<noteq> []"
  have "1 \<le> config_universe (resolve_lighting_config (plain st))"
    by (simp add: resolve_lighting_config_def DEFAULT_UNIVERSE_def Let_def split: option.split)
  then show ?thesis using b e
    by (simp add: load_saved [OF s] normalize_scenes_def default_lighting_scene_states_def read_lighting_editor_inventory_def read_inventory_def)
qed

end
