(* ===== verification/Spec2Isabelle.thy ===== *)
theory Spec2Isabelle
  imports Bridge_Presses Bridge_Workers Bridge_Overflow Liveness Osc_Read Lights_Watch Lights_Output Backups Sha256
    Camera_Studio Prompter_Saver Prompter_Edits Rig_Scene Rig_Wire Rig_Kept Rig_Modes
begin

text \<open>
  A model of the studio control engine (\<open>src/native/rust-engine\<close>), the program the operator's pages
  and the Stream Deck speak to, and of one part of its pictures helper (\<open>src/native/pictures-link\<close>).
  Paths below are under \<open>src/native/rust-engine/src\<close> unless they say otherwise.

  \<^bold>\<open>The parts and how they meet.\<close> The deck's bridge is an HTTP server on this PC: an acceptor puts
  each connection in a bounded queue (or on an overflow thread that keeps slots for presses), workers
  take connections from it, read one request each under limits and a deadline, pass it through the
  gate, and route it to a page's handler. A key's press goes through the registry of presses first.
  What is refused is counted and logged at most once a minute, and the minute's figures go to the
  log. Threads are watched, and what a thread did wrong lies in the health registry over its
  subsystem's own word. The lighting editor keeps the lights, scenes, groups and beams in its
  database; every command loads that rig, works on it and saves it. What is lit now is the saved rig,
  its running fade sampled at the clock and the passing overlays (bursts, highlight, solo, preview)
  laid over it; the renderer turns that into DMX channels, which the lights' output sends to the bridge
  on the network and says in the registry how the sends go; a watch beside it looks whether that bridge answers.
  The Console's datagrams are read again where the OSC library gave up. The saved data is backed up
  once a day and at a stop. CAM 1 is spoken to in framed messages over a Bluetooth link of its own thread;
  the cameras' runtime holds what it was told, what may be pressed and REC's arming. The prompter maps its
  places through an edit of its script and saves them behind the reader's back. The helper loads NDI's
  library only when it is the pinned one.

  \<^bold>\<open>Theories and code.\<close>
  \<^item> \<open>Prelude\<close>, \<open>Btree_Map\<close>, \<open>Text_Std\<close>, \<open>F64\<close>: what the components share, and the standard library's maps,
    text operations and rounding as the program uses them. Instants and durations are natural numbers of
    nanoseconds; text is its UTF-8 bytes, one \<open>char\<close> a byte; \<open>Result\<close> is a sum with \<open>Inl\<close> the error.
  \<^item> \<open>Bridge_Pool\<close> (\<open>control_surface_pool.rs\<close>): the queue, its parked reads, and workers that sleep
    and wake. In every reachable state nothing that waits meets only sleeping workers, what waits is
    bounded, and a closed queue hands out all it holds, in order.
  \<^item> \<open>Bridge_Overflow\<close> (\<open>control_surface_http/overflow.rs\<close>): acceptor, overflow thread and workers
    as a step relation; connections keep their order, none is lost, and presses have their slots.
  \<^item> \<open>Bridge_Http\<close>, \<open>Bridge_Gate\<close>, \<open>Bridge_Routes\<close>, \<open>Bridge_Serve\<close>, \<open>Bridge_Workers\<close>
    (\<open>control_surface_http.rs\<close>): a request is exactly the bytes that arrived, however they were cut;
    the gate opens to the token only; a stranger changes nothing; every connection is answered once.
  \<^item> \<open>Bridge_Tally\<close>, \<open>Bridge_Minute\<close> (\<open>control_surface_http/tally.rs\<close>,
    \<open>control_surface_minute.rs\<close>, \<open>deck_heard.rs\<close>): lines at most so often, every refusal accounted for.
  \<^item> \<open>Bridge_Presses\<close> (\<open>control_surface_presses.rs\<close>): a key that asks acts on a second press only,
    and a dwelling key at most every 350 ms.
  \<^item> \<open>Health\<close>, \<open>Liveness\<close> (\<open>health.rs\<close>, \<open>liveness.rs\<close>): the registry and the watch; a running thread
    has a problem exactly while the watch holds it stalled.
  \<^item> \<open>Osc_Read\<close>, \<open>Txt_Decode\<close> (\<open>rme_totalmix_osc/osc_read.rs\<close>, \<open>prompter/import/txt.rs\<close>): the
    second reading of a bundle ends on every bytes and reads exactly what the first left.
  \<^item> \<open>Fixture_Catalog\<close> (\<open>lighting/fixture_catalog/mod.rs\<close>): the lights' definitions, modes, channels and controls.
  \<^item> \<open>Rig_State\<close>, \<open>Rig_Edit\<close> (\<open>lighting/types.rs\<close>, \<open>editor_state.rs\<close>, \<open>groups.rs\<close>,
    \<open>scenes.rs\<close>, \<open>fixtures.rs\<close>): the editor's state as records
    (\<open>rig\<close>, \<open>rig_fixture\<close>), its load with every repair, its save, and each command as a function from the store to an
    error or the new store with its summary. \<open>Rig_Loaded\<close> has what a load leaves as it is; \<open>Rig_Desk\<close> is a
    concrete desk the examples are evaluated on.
  \<^item> \<open>Rig_Fade\<close> (\<open>lighting/fade.rs\<close>): a running fade and its sample at a moment, which stays between its ends.
  \<^item> \<open>Rig_Overlay\<close>, \<open>Rig_Preview\<close> (\<open>lighting/identify.rs\<close>, \<open>palettes.rs\<close>, \<open>preview.rs\<close>): bursts,
    highlight and solo, palettes, and the preview's staged state.
  \<^item> \<open>Rig_Scene\<close> (\<open>lighting/scene_state.rs\<close>): which scene the desk reads as live, and that a recalled one is.
  \<^item> \<open>Rig_Render\<close> (\<open>lighting/snapshot.rs\<close>, \<open>helpers.rs\<close>): what is lit at a moment, its DMX channels, the frames of the output
    and the monitor.
  \<^item> \<open>Lights_Config\<close>, \<open>Lights_Packet\<close>, \<open>Lights_Sends\<close>, \<open>Lights_Output\<close>, \<open>Lights_Watch\<close>
    (\<open>lighting_sacn_output.rs\<close>, \<open>lighting_bridge_watch.rs\<close>): the output against an abstract rig that
    holds what a receiver of E1.31 would hold, a packet read back field by field, and the health entry
    against the sends.
  \<^item> \<open>Rig_Wire\<close>: the editor, the renderer and the output together. A receiver holds what the saved
    state renders to, All off leaves every intensity channel at zero, and the monitor shows the bytes sent.
  \<^item> \<open>Rig_Kept\<close>: a state in order stays as it is through a save and a load, so a time of preview, which saves
    nothing but scenes, leaves the output and the monitor as they were.
  \<^item> \<open>Rig_Modes\<close>: what the catalog makes of a light in its less used modes: which have no dimmer the rig
    can close, the crossfade no control opens, and what a scene cannot hold.
  \<^item> \<open>Civil_Time\<close>, \<open>Backups\<close> (\<open>storage_backups.rs\<close>, \<open>main.rs\<close>): dates and stamps, names, retention,
    the daily schedule and the durable write at every moment of a power cut.
  \<^item> \<open>Sha256\<close> (\<open>../../pictures-link/src/sha256.rs\<close>): the digest against FIPS 180-4, and the pin.
  \<^item> \<open>Camera_Message\<close>, \<open>Camera_Words\<close>, \<open>Camera_Press\<close> (\<open>cameras/pocket/protocol.rs\<close>, \<open>format.rs\<close>,
    \<open>timecode.rs\<close>): framing, the words of a reading, and a press that carries the other half of its
    parameter as the camera reported it.
  \<^item> \<open>Camera_Pairing\<close>, \<open>Camera_Link\<close> (\<open>cameras/real_link.rs\<close>, \<open>cameras/pocket/pairing.rs\<close>, \<open>link.rs\<close>,
    \<open>state.rs\<close>, \<open>winrt.rs\<close>): addresses, pairing, and the passes of the link's thread over its orders and events. It reads as connected exactly while it is subscribed,
    and writes nothing late or unasked.
  \<^item> \<open>Camera_Model\<close>, \<open>Camera_Runtime\<close>, \<open>Camera_Commands\<close>, \<open>Camera_Deck\<close>, \<open>Camera_Studio\<close> (\<open>cameras/model.rs\<close>,
    \<open>runtime.rs\<close>, \<open>commands.rs\<close>, \<open>deck.rs\<close>): the cameras' state with its setup, takes and looks; the runtime's settling of what a link tells; the
    presses of the page and of the deck's keys with every refusal; and all of them as one step relation. The state
    fits its form always, only an allowed press leaves, and a take is stopped by an armed second press only.
  \<^item> \<open>Prompter_Text\<close>, \<open>Prompter_Edits\<close>, \<open>Prompter_Saver\<close> (\<open>prompter\<close>): words and cues of a
    paragraph, a place carried through an edit, and the saver's hand-offs as a step relation: the newest
    is kept until it is written, and a stop writes and ends.

  The locales are the contracts between those parts, each interpreted on the model's own definitions: a keyed
  store (\<open>Btree_Map\<close>), the queue's intake (\<open>Bridge_Pool\<close>), a line said at most so often
  (\<open>Bridge_Tally\<close>, twice) and a fact no step of the cameras touches but its own (\<open>Camera_Studio\<close>, three times).

  \<^bold>\<open>Bounds and fuel.\<close> The one fuel is \<open>Osc_Read\<close>'s: the length of the datagram and two, since every
  bundle inside a bundle takes at least its own header. A backup's free name is tried for fifty times,
  as the code does. Every other loop is a total function with its measure.

  \<^bold>\<open>What is a parameter.\<close> JSON and the pages' handlers (total, no panic), the OSC library's own
  decoder, the Bluetooth calls of WinRT and the bodies of the simulated cameras, the words of the
  pictures' helper, the faults of a database's transaction, SQLite's copy and check, the results of
  sockets, connections and files, the clocks, the printing of a fraction, and the floating-point unit with its
  library for the few numbers that are not exact. The levels of the lights are computed with
  every product, sum and quotient rounded to a double (\<open>F64\<close>).
  \<open>Liveness\<close> takes thread names to be unique; \<open>Lights_Output\<close>'s refinement takes a wire that takes the
  packets and a clock past 800 ms.

  \<^bold>\<open>Not modelled.\<close> The drain of a connection after its answer and a handler's panic; the JSON of the
  snapshots and the SQL of the tables; the Console's link and its commands; the prompter's glass, its
  roll and its imports other than plain text; the session; process start, the support bundles and
  the exports; the desktop shell (\<open>src/native/tauri-shell\<close>), which is windows and processes behind a library.
\<close>

end
